(* ===== verification/Prelude.thy ===== *)
theory Prelude
  imports Main "HOL-Library.Word" "HOL-Library.List_Lexorder" "HOL-Library.Char_ord"
begin

text \<open>
  Shared vocabulary of the development: the error values of the Go code (sentinel errors and
  their wrapping), decimal rendering of integers (\<open>fmt\<close>'s \<open>%d\<close>, \<open>strconv.FormatInt\<close>,
  \<open>big.Int.String\<close>), Go maps as association lists, sorted key lists, database tables as lists
  of rows, and the generic lemmas on them that the components share.

  Strings are byte strings (\<open>char list\<close>), compared bytewise as Go compares them. Instants are
  nanoseconds since Go's zero \<open>time.Time\<close>, so \<open>IsZero\<close> is \<open>= 0\<close>; durations are nanoseconds.
\<close>

named_theorems go_defs \<open>definitions of small helpers that proofs unfold freely\<close>
named_theorems frame \<open>which fields an operation leaves alone\<close>

type_synonym time = int
type_synonym duration = int
type_synonym uuid = nat
type_synonym i64 = "64 word"

abbreviation second :: duration where "second \<equiv> 1000000000"
abbreviation minute :: duration where "minute \<equiv> 60 * second"
abbreviation hour :: duration where "hour \<equiv> 60 * minute"

abbreviation IsZero :: "time \<Rightarrow> bool" where "IsZero t \<equiv> t = 0"
abbreviation Before :: "time \<Rightarrow> time \<Rightarrow> bool" where "Before a b \<equiv> a < b"
abbreviation After :: "time \<Rightarrow> time \<Rightarrow> bool" where "After a b \<equiv> b < a"

section \<open>Errors\<close>

text \<open>
  A Go error is a chain of wrapped errors with a text. \<open>errors.Is\<close> asks whether a sentinel is
  in the chain; \<open>fmt.Errorf\<close> with \<open>%w\<close> keeps the chain, with \<open>%v\<close> drops it.
\<close>

datatype sentinel =
    ErrNotFound | ErrDuplicateKeyValue | ErrInvalidQuery | ErrStaleClaim | ErrObsoleteJob
  | ErrRuleRevisionConflict
  | ErrCompile | ErrEvaluate
  | ErrInvalidSpec | ErrUnknownTemplate | ErrResolverUnavailable
  | ErrValidation | ErrRuleBusy | ErrRuleChanged | ErrInvalidID
  | SqlErrNoRows | PgUniqueViolation

datatype gerror = Err (kinds: "sentinel list") (msg: string)

definition errors_Is :: "gerror \<Rightarrow> sentinel \<Rightarrow> bool" where
  "errors_Is e s \<longleftrightarrow> s \<in> set (kinds e)"

fun sentinel_text :: "sentinel \<Rightarrow> string" where
  "sentinel_text ErrNotFound = ''not found''"
| "sentinel_text ErrDuplicateKeyValue = ''duplicate key value''"
| "sentinel_text ErrInvalidQuery = ''invalid query''"
| "sentinel_text ErrStaleClaim = ''stale evaluation job claim''"
| "sentinel_text ErrObsoleteJob = ''evaluation job no longer matches the rule''"
| "sentinel_text ErrRuleRevisionConflict = ''rule revision changed''"
| "sentinel_text ErrCompile = ''rule expression failed to compile''"
| "sentinel_text ErrEvaluate = ''rule evaluation failed''"
| "sentinel_text ErrInvalidSpec = ''templates: invalid spec''"
| "sentinel_text ErrUnknownTemplate = ''templates: unknown template kind''"
| "sentinel_text ErrResolverUnavailable = ''required resolver is not configured''"
| "sentinel_text ErrValidation = ''validation error''"
| "sentinel_text ErrRuleBusy = ''rule evaluation already in progress''"
| "sentinel_text ErrRuleChanged = ''rule changed during evaluation''"
| "sentinel_text ErrInvalidID = ''invalid id''"
| "sentinel_text SqlErrNoRows = ''sql: no rows in result set''"
| "sentinel_text PgUniqueViolation = ''23505''"

definition sent :: "sentinel \<Rightarrow> gerror" where
  "sent s = Err [s] (sentinel_text s)"

definition new_error :: "string \<Rightarrow> gerror" where
  "new_error m = Err [] m"

text \<open>\<open>fmt.Errorf("<m>: %w", e)\<close>, and \<open>fmt.Errorf("%w: <m>", s)\<close> for a sentinel \<open>s\<close>.\<close>

definition wrap_error :: "string \<Rightarrow> gerror \<Rightarrow> gerror" where
  "wrap_error m e = Err (kinds e) (m @ '': '' @ msg e)"

definition errorf :: "sentinel \<Rightarrow> string \<Rightarrow> gerror" where
  "errorf s m = Err [s] (sentinel_text s @ '': '' @ m)"

lemma errors_Is_simps [simp]:
  "errors_Is (sent s) t \<longleftrightarrow> t = s"
  "errors_Is (new_error m) t \<longleftrightarrow> False"
  "errors_Is (wrap_error m e) t \<longleftrightarrow> errors_Is e t"
  "errors_Is (errorf s m) t \<longleftrightarrow> t = s"
  by (auto simp: errors_Is_def sent_def new_error_def wrap_error_def errorf_def)

fun inl_opt :: "('e + 'a) \<Rightarrow> 'e option" where
  "inl_opt (Inl e) = Some e"
| "inl_opt (Inr _) = None"

section \<open>Decimal rendering\<close>

definition digit_char :: "nat \<Rightarrow> char" where
  "digit_char d = ''0123456789'' ! d"

fun is_digit :: "char \<Rightarrow> bool" where
  "is_digit (Char b0 b1 b2 b3 b4 b5 b6 b7) \<longleftrightarrow>
     b4 \<and> b5 \<and> \<not> b6 \<and> \<not> b7 \<and> (b3 \<longrightarrow> \<not> b2 \<and> \<not> b1)"

fun digit_val :: "char \<Rightarrow> nat" where
  "digit_val (Char b0 b1 b2 b3 b4 b5 b6 b7) =
     (if b0 then 1 else 0) + (if b1 then 2 else 0) + (if b2 then 4 else 0) + (if b3 then 8 else 0)"

fun dec_nat :: "nat \<Rightarrow> string" where
  "dec_nat n = (if n < 10 then [digit_char n] else dec_nat (n div 10) @ [digit_char (n mod 10)])"

declare dec_nat.simps [simp del]

definition dec :: "int \<Rightarrow> string" where
  "dec i = (if i < 0 then ''-'' @ dec_nat (nat (- i)) else dec_nat (nat i))"

definition undec_nat :: "string \<Rightarrow> nat" where
  "undec_nat s = foldl (\<lambda>a c. 10 * a + digit_val c) 0 s"

lemma digit_cases:
  "d < 10 \<Longrightarrow> d \<in> {0, 1, 2, 3, 4, 5, 6, 7, 8, 9 :: nat}"
  by auto

lemma digit_val_digit_char [simp]: "d < 10 \<Longrightarrow> digit_val (digit_char d) = d"
  by (drule digit_cases) (auto simp: digit_char_def)

lemma is_digit_digit_char [simp]: "d < 10 \<Longrightarrow> is_digit (digit_char d)"
  by (drule digit_cases) (auto simp: digit_char_def)

lemma undec_dec_nat [simp]: "undec_nat (dec_nat n) = n"
proof (induction n rule: dec_nat.induct)
  case (1 n)
  show ?case
  proof (cases "n < 10")
    case True
    then show ?thesis by (simp add: dec_nat.simps [of n] undec_nat_def)
  next
    case False
    with 1 have "foldl (\<lambda>a c. 10 * a + digit_val c) 0 (dec_nat (n div 10)) = n div 10"
      by (simp add: undec_nat_def)
    with False show ?thesis by (simp add: dec_nat.simps [of n] undec_nat_def)
  qed
qed

lemma dec_nat_inject [simp]: "dec_nat m = dec_nat n \<longleftrightarrow> m = n"
  by (metis undec_dec_nat)

lemma dec_nat_digits: "c \<in> set (dec_nat n) \<Longrightarrow> is_digit c"
proof (induction n rule: dec_nat.induct)
  case (1 n)
  then show ?case by (cases "n < 10") (auto simp: dec_nat.simps [of n])
qed

lemma dec_nat_nonempty [simp]: "dec_nat n \<noteq> []"
  by (subst dec_nat.simps) simp

lemma not_is_digit [simp]:
  "\<not> is_digit (CHR ''-'')" "\<not> is_digit (CHR ''#'')" "\<not> is_digit (CHR '':'')" "\<not> is_digit (CHR ''W'')"
  by simp_all

lemma dec_inject [simp]: "dec i = dec j \<longleftrightarrow> i = j"
proof -
  have neg: "dec_nat m \<noteq> CHR ''-'' # s" for m s
    using dec_nat_digits [of "CHR ''-''" m] by auto
  show ?thesis
    using neg neg [THEN not_sym] by (auto simp: dec_def)
qed

text \<open>\<open>%02d\<close> and \<open>%04d\<close> of a non-negative number.\<close>

definition pad :: "nat \<Rightarrow> int \<Rightarrow> string" where
  "pad w i = replicate (w - length (dec_nat (nat i))) (CHR ''0'') @ dec_nat (nat i)"

lemma undec_nat_zeros: "undec_nat (replicate k (CHR ''0'') @ s) = undec_nat s"
proof -
  have "foldl (\<lambda>a c. 10 * a + digit_val c) (0::nat) (replicate k (CHR ''0'')) = 0"
    by (induction k) simp_all
  then show ?thesis by (simp add: undec_nat_def)
qed

lemma pad_inject: "0 \<le> i \<Longrightarrow> 0 \<le> j \<Longrightarrow> pad w i = pad w j \<longleftrightarrow> i = j"
proof -
  assume "0 \<le> i" "0 \<le> j"
  have "undec_nat (pad w k) = nat k" for k
    by (simp add: pad_def undec_nat_zeros)
  then have "pad w i = pad w j \<Longrightarrow> nat i = nat j" by metis
  with \<open>0 \<le> i\<close> \<open>0 \<le> j\<close> show ?thesis by auto
qed

lemma pad_digits: "c \<in> set (pad w i) \<Longrightarrow> is_digit c"
  using dec_nat_digits by (auto simp: pad_def)

lemma digits_split:
  assumes "\<And>c. c \<in> set a \<Longrightarrow> is_digit c" and "\<And>c. c \<in> set b \<Longrightarrow> is_digit c"
    and "\<not> is_digit d" and "a @ d # s = b @ d # t"
  shows "a = b \<and> s = t"
  using assms
proof (induction a arbitrary: b)
  case Nil
  then show ?case by (cases b) auto
next
  case (Cons x a)
  then show ?case by (cases b) auto
qed

section \<open>Joining and integer bounds\<close>

fun join :: "string \<Rightarrow> string list \<Rightarrow> string" where
  "join sep [] = ''''"
| "join sep [x] = x"
| "join sep (x # y # xs) = x @ sep @ join sep (y # xs)"

abbreviation max_i64 :: int where "max_i64 \<equiv> 9223372036854775807"
abbreviation min_i64 :: int where "min_i64 \<equiv> - 9223372036854775808"

definition IsInt64 :: "int \<Rightarrow> bool" where
  "IsInt64 i \<longleftrightarrow> min_i64 \<le> i \<and> i \<le> max_i64"

definition FormatBool :: "bool \<Rightarrow> string" where
  "FormatBool b = (if b then ''true'' else ''false'')"

lemma sint_of_int_i64 [simp]: "IsInt64 i \<Longrightarrow> sint (of_int i :: i64) = i"
  by (simp add: IsInt64_def sint_sbintrunc' signed_take_bit_int_eq_self_iff)

lemma sint_i64_bounds: "IsInt64 (sint (w :: i64))"
  using sint_lt [of w] sint_ge [of w] by (simp add: IsInt64_def)

lemma of_int_sint_i64: "of_int (sint (w :: i64)) = w"
  by simp

section \<open>Go maps as association lists\<close>

text \<open>
  A Go map is an association list with distinct keys; \<open>map_of\<close> looks a key up. The order of the
  list stands for the runtime's arbitrary iteration order.
\<close>

definition keys_of :: "('k \<times> 'v) list \<Rightarrow> 'k list" where
  "keys_of m = map fst m"

definition map_put :: "'k \<Rightarrow> 'v \<Rightarrow> ('k \<times> 'v) list \<Rightarrow> ('k \<times> 'v) list" where
  "map_put k v m = (if k \<in> fst ` set m then map (\<lambda>(k', v'). (k', if k' = k then v else v')) m
                    else m @ [(k, v)])"

lemma map_of_map_if: "map_of (map (\<lambda>(k', v'). (k', if k' = k then v else v')) m) x =
    (if x = k then (case map_of m k of None \<Rightarrow> None | Some _ \<Rightarrow> Some v) else map_of m x)"
  by (induction m) auto

lemma map_of_map_put [simp]: "map_of (map_put k v m) x = (if x = k then Some v else map_of m x)"
proof (cases "k \<in> fst ` set m")
  case True
  then obtain v' where "map_of m k = Some v'" by (meson map_of_eq_None_iff not_Some_eq)
  with True show ?thesis by (simp add: map_put_def map_of_map_if)
next
  case False
  then have "map_of m k = None" by (simp add: map_of_eq_None_iff)
  with False show ?thesis
    by (auto simp: map_put_def map_add_def split: option.splits)
qed

lemma keys_of_map_put: "set (keys_of (map_put k v m)) = insert k (set (keys_of m))"
  by (force simp: map_put_def keys_of_def)

lemma map_of_in_keys: "(\<exists>v. map_of m k = Some v) \<longleftrightarrow> k \<in> set (keys_of m)"
  unfolding keys_of_def set_map
  by (metis map_of_eq_None_iff not_None_eq)

section \<open>Database tables as lists of rows\<close>

definition upd_where :: "('r \<Rightarrow> bool) \<Rightarrow> ('r \<Rightarrow> 'r) \<Rightarrow> 'r list \<Rightarrow> 'r list" where
  "upd_where p f t = map (\<lambda>r. if p r then f r else r) t"

definition exists_row :: "('r \<Rightarrow> bool) \<Rightarrow> 'r list \<Rightarrow> bool" where
  "exists_row p t \<longleftrightarrow> list_ex p t"

lemma exists_row_iff: "exists_row p t \<longleftrightarrow> (\<exists>r\<in>set t. p r)"
  by (simp add: exists_row_def list_ex_iff)

lemma find_SomeD: "List.find p t = Some r \<Longrightarrow> r \<in> set t \<and> p r"
  by (induction t) (auto split: if_splits)

lemma find_NoneD: "List.find p t = None \<Longrightarrow> r \<in> set t \<Longrightarrow> \<not> p r"
  by (auto simp: find_None_iff)

lemma find_none_iff: "List.find p t = None \<longleftrightarrow> (\<forall>r\<in>set t. \<not> p r)"
  by (auto simp: find_None_iff)

lemma set_upd_where: "set (upd_where p f t) = {r \<in> set t. \<not> p r} \<union> f ` {r \<in> set t. p r}"
  by (auto simp: upd_where_def)

lemma length_upd_where [simp]: "length (upd_where p f t) = length t"
  by (simp add: upd_where_def)

lemma upd_where_id: "(\<And>r. r \<in> set t \<Longrightarrow> \<not> p r) \<Longrightarrow> upd_where p f t = t"
  by (induction t) (auto simp: upd_where_def)

lemma map_upd_where: "(\<And>r. p r \<Longrightarrow> g (f r) = g r) \<Longrightarrow> map g (upd_where p f t) = map g t"
  by (induction t) (auto simp: upd_where_def)

lemma filter_upd_where:
  "(\<And>r. p r \<Longrightarrow> \<not> q r \<and> \<not> q (f r)) \<Longrightarrow> filter q (upd_where p f t) = filter q t"
  by (induction t) (auto simp: upd_where_def)

lemma find_unique:
  assumes "distinct (map g t)" and "r \<in> set t"
  shows "List.find (\<lambda>x. g x = g r) t = Some r"
  using assms
proof (induction t)
  case Nil
  then show ?case by simp
next
  case (Cons a t)
  then show ?case by (cases "a = r") (auto simp: rev_image_eqI)
qed

lemma distinct_map_eq: "distinct (map g t) \<Longrightarrow> r \<in> set t \<Longrightarrow> r' \<in> set t \<Longrightarrow> g r = g r' \<Longrightarrow> r = r'"
  by (simp add: distinct_map inj_on_def)

end
