(* ===== verification/GoTime.thy ===== *)
theory GoTime
  imports Prelude
begin

text \<open>
  The calendar arithmetic of Go's \<open>time\<close> package that the program uses: the date, the day of the
  year and the ISO week of an instant in UTC, and the layouts \<open>2006-01-02\<close> and \<open>2006-01\<close>. Instants
  count nanoseconds from 0001-01-01 00:00 UTC, a Monday, as Go's own absolute time does.
\<close>

definition day_ns :: int where "day_ns = 86400000000000"

definition day_of :: "time \<Rightarrow> int" where
  "day_of t = t div day_ns"

text \<open>The 400-, 100-, 4- and 1-year cycles of \<open>time.absDate\<close>: (year, day of the year from 0).\<close>

definition year_yday :: "int \<Rightarrow> int \<times> int" where
  "year_yday d = (let
     n400 = d div 146097;
     d1 = d - 146097 * n400;
     n100 = d1 div 36524 - (d1 div 36524) div 4;
     d2 = d1 - 36524 * n100;
     n4 = d2 div 1461;
     d3 = d2 - 1461 * n4;
     n1 = d3 div 365 - (d3 div 365) div 4
   in (400 * n400 + 100 * n100 + 4 * n4 + n1 + 1, d3 - 365 * n1))"

definition isLeap :: "int \<Rightarrow> bool" where
  "isLeap y \<longleftrightarrow> y mod 4 = 0 \<and> (y mod 100 \<noteq> 0 \<or> y mod 400 = 0)"

text \<open>\<open>daysBefore\<close>: the days of a year before each month, the leap day counted from March on.\<close>

definition daysBefore :: "bool \<Rightarrow> int list" where
  "daysBefore leap = (let l = (if leap then 1 else 0) in
     [0, 31, 59 + l, 90 + l, 120 + l, 151 + l, 181 + l, 212 + l, 243 + l, 273 + l, 304 + l, 334 + l])"

fun month_day :: "int list \<Rightarrow> int \<Rightarrow> int \<Rightarrow> int \<times> int" where
  "month_day [] m yday = (m, yday + 1)"
| "month_day [b] m yday = (m, yday - b + 1)"
| "month_day (b # b' # bs) m yday =
     (if yday < b' then (m, yday - b + 1) else month_day (b' # bs) (m + 1) yday)"

definition Date :: "time \<Rightarrow> int \<times> int \<times> int" where
  "Date t = (let (y, yday) = year_yday (day_of t) in (y, month_day (daysBefore (isLeap y)) 1 yday))"

text \<open>\<open>ISOWeek\<close> moves to the Thursday of the instant's week and counts weeks in that day's year.\<close>

definition ISOWeek :: "time \<Rightarrow> int \<times> int" where
  "ISOWeek t = (let d = day_of t; (y, yday) = year_yday (d + 3 - d mod 7) in (y, yday div 7 + 1))"

definition format_day :: "time \<Rightarrow> string" where
  "format_day t = (let (y, m, d) = Date t in pad 4 y @ ''-'' @ pad 2 m @ ''-'' @ pad 2 d)"

definition format_month :: "time \<Rightarrow> string" where
  "format_month t = (let (y, m, d) = Date t in pad 4 y @ ''-'' @ pad 2 m)"

definition format_week :: "time \<Rightarrow> string" where
  "format_week t = (let (y, w) = ISOWeek t in pad 4 y @ ''-W'' @ pad 2 w)"

text \<open>\<open>time.RFC3339Nano\<close> in UTC, the layout of \<open>Time.MarshalJSON\<close>: trailing zeros of the fraction dropped.\<close>

definition format_frac :: "int \<Rightarrow> string" where
  "format_frac ns = (if ns = 0 then '''' else ''.'' @ rev (dropWhile (\<lambda>c. c = CHR ''0'') (rev (pad 9 ns))))"

definition format_rfc3339 :: "time \<Rightarrow> string" where
  "format_rfc3339 t =
     (let ns = t mod day_ns; s = ns div 1000000000 in
      format_day t @ ''T'' @ pad 2 (s div 3600) @ '':'' @ pad 2 (s mod 3600 div 60) @ '':'' @ pad 2 (s mod 60)
        @ format_frac (ns mod 1000000000) @ ''Z'')"

section \<open>The date determines the day\<close>

definition days_before_year :: "int \<Rightarrow> int" where
  "days_before_year y = 365 * (y - 1) + (y - 1) div 4 - (y - 1) div 100 + (y - 1) div 400"

lemma div_bracket: "0 < (k::int) \<Longrightarrow> k * (x div k) \<le> x \<and> x < k * (x div k) + k"
  using mult_div_mod_eq [of k x] pos_mod_bound [of k x] pos_mod_sign [of k x] by linarith

lemma cycle_step:
  fixes x K :: int
  assumes "0 < K" "0 \<le> x" "x \<le> 4 * K"
  defines "q \<equiv> x div K - (x div K) div 4"
  shows "0 \<le> q" "q \<le> 3" "0 \<le> x - K * q" "x - K * q \<le> K"
proof -
  define n where "n = x div K"
  have br: "K * n \<le> x" "x < K * n + K"
    using div_bracket [OF assms(1), of x] by (simp_all add: n_def)
  have "0 \<le> n" using assms(1,2) by (simp add: n_def pos_imp_zdiv_nonneg_iff)
  moreover have "n \<le> 4"
  proof (rule ccontr)
    assume "\<not> n \<le> 4"
    then have "K * 5 \<le> K * n" using assms(1) by simp
    with br assms(1,3) show False by linarith
  qed
  ultimately consider "n = 0" | "n = 1" | "n = 2" | "n = 3" | "n = 4" by linarith
  then have "0 \<le> q \<and> q \<le> 3 \<and> 0 \<le> x - K * q \<and> x - K * q \<le> K"
    unfolding q_def n_def [symmetric] by cases (use br assms(1-3) in simp_all)
  then show "0 \<le> q" "q \<le> 3" "0 \<le> x - K * q" "x - K * q \<le> K" by simp_all
qed

lemma cycles_div:
  fixes a b c e :: int
  assumes "0 \<le> b" "b \<le> 3" "0 \<le> c" "c \<le> 24" "0 \<le> e" "e \<le> 3"
  defines "y \<equiv> 400 * a + 100 * b + 4 * c + e"
  shows "y div 4 = 100 * a + 25 * b + c" "y div 100 = 4 * a + b" "y div 400 = a"
proof -
  show "y div 4 = 100 * a + 25 * b + c"
    unfolding y_def by (rule int_div_pos_eq [where r = e]) (use assms(5,6) in simp_all)
  show "y div 100 = 4 * a + b"
    unfolding y_def by (rule int_div_pos_eq [where r = "4 * c + e"]) (use assms(3-6) in simp_all)
  show "y div 400 = a"
    unfolding y_def by (rule int_div_pos_eq [where r = "100 * b + 4 * c + e"]) (use assms(1-6) in simp_all)
qed

lemma year_yday_sound:
  assumes "year_yday d = (y, yday)"
  shows "d = days_before_year y + yday" and "0 \<le> yday" and "yday \<le> 365"
proof -
  define a where "a = d div 146097"
  define d1 where "d1 = d - 146097 * a"
  define b where "b = d1 div 36524 - (d1 div 36524) div 4"
  define d2 where "d2 = d1 - 36524 * b"
  define c where "c = d2 div 1461"
  define d3 where "d3 = d2 - 1461 * c"
  define e where "e = d3 div 365 - (d3 div 365) div 4"
  have "year_yday d = (400 * a + 100 * b + 4 * c + e + 1, d3 - 365 * e)"
    unfolding year_yday_def Let_def a_def d1_def b_def d2_def c_def d3_def e_def by (rule refl)
  with assms have y: "y = 400 * a + 100 * b + 4 * c + e + 1" and yd: "yday = d3 - 365 * e"
    by auto
  have d1: "0 \<le> d1" "d1 \<le> 146096"
    using div_bracket [of 146097 d] by (simp_all add: d1_def a_def)
  have b: "0 \<le> b" "b \<le> 3" and d2: "0 \<le> d2" "d2 \<le> 36524"
    using cycle_step [of 36524 d1] d1 by (simp_all add: b_def d2_def)
  have c0: "0 \<le> c" "c \<le> 24" and d3: "0 \<le> d3" "d3 \<le> 1460"
    using div_bracket [of 1461 d2] d2 by (simp_all add: c_def d3_def)
  have e: "0 \<le> e" "e \<le> 3" and yd': "0 \<le> d3 - 365 * e" "d3 - 365 * e \<le> 365"
    using cycle_step [of 365 d3] d3 by (simp_all add: e_def)
  show "0 \<le> yday" "yday \<le> 365" using yd' yd by simp_all
  have "days_before_year y = 146097 * a + 36524 * b + 1461 * c + 365 * e"
    using cycles_div [OF b c0 e, of a] by (simp add: days_before_year_def y)
  then show "d = days_before_year y + yday" by (simp add: yd d3_def d2_def d1_def)
qed

lemma year_yday_positive: "0 \<le> d \<Longrightarrow> year_yday d = (y, yday) \<Longrightarrow> 1 \<le> y"
proof -
  assume d: "0 \<le> d" and yy: "year_yday d = (y, yday)"
  define a where "a = d div 146097"
  define d1 where "d1 = d - 146097 * a"
  define b where "b = d1 div 36524 - (d1 div 36524) div 4"
  define d2 where "d2 = d1 - 36524 * b"
  define d3 where "d3 = d2 - 1461 * (d2 div 1461)"
  define e where "e = d3 div 365 - (d3 div 365) div 4"
  have "year_yday d = (400 * a + 100 * b + 4 * (d2 div 1461) + e + 1, d3 - 365 * e)"
    unfolding year_yday_def Let_def a_def d1_def b_def d2_def d3_def e_def by (rule refl)
  with yy have y: "y = 400 * a + 100 * b + 4 * (d2 div 1461) + e + 1" by auto
  have d1: "0 \<le> d1" "d1 \<le> 146096"
    using div_bracket [of 146097 d] by (simp_all add: d1_def a_def)
  have b: "0 \<le> b" and d2: "0 \<le> d2" "d2 \<le> 36524"
    using cycle_step [of 36524 d1] d1 by (simp_all add: b_def d2_def)
  have d3: "0 \<le> d3" "d3 \<le> 1460" and c: "0 \<le> d2 div 1461"
    using div_bracket [of 1461 d2] d2 by (simp_all add: d3_def)
  have "0 \<le> e" using cycle_step [of 365 d3] d3 by (simp add: e_def)
  moreover have "0 \<le> a" using d by (simp add: a_def)
  ultimately show "1 \<le> y" using b c by (simp add: y)
qed

lemma month_day_sound:
  assumes "bs \<noteq> []" and "sorted bs" and "hd bs \<le> yday" and "month_day bs m yday = (m', d')"
  shows "m \<le> m' \<and> m' < m + int (length bs) \<and> yday = bs ! nat (m' - m) + d' - 1 \<and> 1 \<le> d'"
  using assms
proof (induction bs m yday rule: month_day.induct)
  case (3 b b' bs m yday)
  show ?case
  proof (cases "yday < b'")
    case True
    with 3 show ?thesis by auto
  next
    case False
    with 3 have IH: "m + 1 \<le> m' \<and> m' < m + 1 + int (length (b' # bs))
        \<and> yday = (b' # bs) ! nat (m' - (m + 1)) + d' - 1 \<and> 1 \<le> d'" by auto
    then have "nat (m' - m) = Suc (nat (m' - (m + 1)))" by linarith
    with IH show ?thesis by simp
  qed
qed auto

lemma daysBefore_ok: "daysBefore l \<noteq> []" "sorted (daysBefore l)" "hd (daysBefore l) = 0"
  "length (daysBefore l) = 12"
  by (simp_all add: daysBefore_def Let_def)

lemma Date_sound:
  assumes "Date t = (y, m, d)"
  shows "day_of t = days_before_year y + daysBefore (isLeap y) ! nat (m - 1) + d - 1"
    and "1 \<le> m" "m \<le> 12" "1 \<le> d"
proof -
  obtain yday where yy: "year_yday (day_of t) = (y, yday)"
      and md: "month_day (daysBefore (isLeap y)) 1 yday = (m, d)"
    using assms by (cases "year_yday (day_of t)") (auto simp: Date_def Let_def)
  note ys = year_yday_sound [OF yy]
  have "hd (daysBefore (isLeap y)) \<le> yday" using ys(2) by (simp add: daysBefore_ok)
  from month_day_sound [OF daysBefore_ok(1,2) this md] ys(1)
  show "day_of t = days_before_year y + daysBefore (isLeap y) ! nat (m - 1) + d - 1"
    and "1 \<le> m" "m \<le> 12" "1 \<le> d" by (auto simp: daysBefore_ok)
qed

lemma day_of_nonneg: "0 \<le> t \<Longrightarrow> 0 \<le> day_of t"
  by (simp add: day_of_def day_ns_def)

lemma Date_year_positive: "0 \<le> t \<Longrightarrow> Date t = (y, md) \<Longrightarrow> 1 \<le> y"
  using year_yday_positive [of "day_of t"] day_of_nonneg [of t]
  by (cases "year_yday (day_of t)") (auto simp: Date_def Let_def)

lemma Date_inject: "Date s = Date t \<longleftrightarrow> day_of s = day_of t"
proof
  obtain y m d where s: "Date s = (y, m, d)" by (metis prod_cases3)
  assume "Date s = Date t"
  with s Date_sound(1) [OF s] Date_sound(1) [of t y m d] show "day_of s = day_of t" by simp
qed (simp add: Date_def)

lemma ISOWeek_inject: "ISOWeek s = ISOWeek t \<longleftrightarrow> day_of s div 7 = day_of t div 7"
proof
  let ?th = "\<lambda>d :: int. d + 3 - d mod 7"
  obtain y yd y' yd' where s: "year_yday (?th (day_of s)) = (y, yd)"
    and t: "year_yday (?th (day_of t)) = (y', yd')" by (metis surj_pair)
  assume "ISOWeek s = ISOWeek t"
  then have eq: "y = y'" "yd div 7 = yd' div 7" using s t by (simp_all add: ISOWeek_def Let_def)
  have "?th (day_of s) - ?th (day_of t) = yd - yd'"
    using year_yday_sound(1) [OF s] year_yday_sound(1) [OF t] eq(1) by simp
  moreover have "?th (day_of s) = 7 * (day_of s div 7) + 3" "?th (day_of t) = 7 * (day_of t div 7) + 3"
    using mult_div_mod_eq [of 7 "day_of s"] mult_div_mod_eq [of 7 "day_of t"] by linarith+
  moreover have "7 * (yd div 7) \<le> yd" "yd < 7 * (yd div 7) + 7" "7 * (yd' div 7) \<le> yd'"
      "yd' < 7 * (yd' div 7) + 7"
    using div_bracket [of 7 yd] div_bracket [of 7 yd'] by simp_all
  ultimately show "day_of s div 7 = day_of t div 7" using eq(2) by linarith
next
  assume a: "day_of s div 7 = day_of t div 7"
  then have "day_of s + 3 - day_of s mod 7 = day_of t + 3 - day_of t mod 7"
    using mult_div_mod_eq [of 7 "day_of s"] mult_div_mod_eq [of 7 "day_of t"] by linarith
  then show "ISOWeek s = ISOWeek t" by (simp only: ISOWeek_def Let_def)
qed

lemma ISOWeek_bounds:
  assumes "0 \<le> t" "ISOWeek t = (y, w)" shows "1 \<le> y" "1 \<le> w"
proof -
  obtain yd where yy: "year_yday (day_of t + 3 - day_of t mod 7) = (y, yd)" and w: "w = yd div 7 + 1"
    using assms(2) by (cases "year_yday (day_of t + 3 - day_of t mod 7)") (auto simp: ISOWeek_def Let_def)
  have "0 \<le> day_of t + 3 - day_of t mod 7"
    using day_of_nonneg [OF assms(1)] mult_div_mod_eq [of 7 "day_of t"]
      pos_imp_zdiv_nonneg_iff [of 7 "day_of t"] by linarith
  from year_yday_positive [OF this yy] show "1 \<le> y" .
  show "1 \<le> w" using year_yday_sound(2) [OF yy] w by simp
qed

section \<open>The layouts are injective\<close>

lemma pad_sep:
  assumes "\<not> is_digit c" "pad w i @ c # s = pad w j @ c # u" "0 \<le> i" "0 \<le> j"
  shows "i = j \<and> s = u"
proof -
  have "pad w i = pad w j \<and> s = u"
    by (rule digits_split [OF pad_digits pad_digits assms(1,2)])
  with pad_inject [OF assms(3,4)] show ?thesis by blast
qed

lemma format_day_inject: "0 \<le> s \<Longrightarrow> 0 \<le> t \<Longrightarrow> format_day s = format_day t \<longleftrightarrow> day_of s = day_of t"
proof -
  assume nn: "0 \<le> s" "0 \<le> t"
  obtain y m d y' m' d' where D: "Date s = (y, m, d)" "Date t = (y', m', d')" by (metis prod_cases3)
  note p = Date_year_positive [OF nn(1) D(1)] Date_year_positive [OF nn(2) D(2)]
    Date_sound(2,4) [OF D(1)] Date_sound(2,4) [OF D(2)]
  have "(y, m, d) = (y', m', d')" if "format_day s = format_day t"
  proof -
    from that have "y = y' \<and> pad 2 m @ CHR ''-'' # pad 2 d = pad 2 m' @ CHR ''-'' # pad 2 d'"
      by (intro pad_sep [of "CHR ''-''" 4]) (use p in \<open>simp_all add: format_day_def D\<close>)
    moreover from this have "m = m' \<and> pad 2 d = pad 2 d'"
      by (intro pad_sep [of "CHR ''-''" 2]) (use p in simp_all)
    ultimately show ?thesis using pad_inject [of d d' 2] p by simp
  qed
  then have "format_day s = format_day t \<longleftrightarrow> (y, m, d) = (y', m', d')"
    by (auto simp: format_day_def D)
  with D show ?thesis using Date_inject [of s t] by simp
qed

lemma format_month_inject: "0 \<le> s \<Longrightarrow> 0 \<le> t \<Longrightarrow> format_month s = format_month t \<longleftrightarrow>
    fst (Date s) = fst (Date t) \<and> fst (snd (Date s)) = fst (snd (Date t))"
proof -
  assume nn: "0 \<le> s" "0 \<le> t"
  obtain y m d y' m' d' where D: "Date s = (y, m, d)" "Date t = (y', m', d')" by (metis prod_cases3)
  note p = Date_year_positive [OF nn(1) D(1)] Date_year_positive [OF nn(2) D(2)]
    Date_sound(2) [OF D(1)] Date_sound(2) [OF D(2)]
  have "y = y' \<and> m = m'" if "format_month s = format_month t"
  proof -
    from that have "y = y' \<and> pad 2 m = pad 2 m'"
      by (intro pad_sep [of "CHR ''-''" 4]) (use p in \<open>simp_all add: format_month_def D\<close>)
    then show ?thesis using pad_inject [of m m' 2] p by simp
  qed
  then show ?thesis by (auto simp: format_month_def D)
qed

lemma format_week_inject: "0 \<le> s \<Longrightarrow> 0 \<le> t \<Longrightarrow> format_week s = format_week t \<longleftrightarrow>
    day_of s div 7 = day_of t div 7"
proof -
  assume nn: "0 \<le> s" "0 \<le> t"
  obtain y w y' w' where I: "ISOWeek s = (y, w)" "ISOWeek t = (y', w')" by (metis surj_pair)
  note p = ISOWeek_bounds [OF nn(1) I(1)] ISOWeek_bounds [OF nn(2) I(2)]
  have "(y, w) = (y', w')" if "format_week s = format_week t"
  proof -
    from that have "y = y' \<and> CHR ''W'' # pad 2 w = CHR ''W'' # pad 2 w'"
      by (intro pad_sep [of "CHR ''-''" 4]) (use p in \<open>simp_all add: format_week_def I\<close>)
    then show ?thesis using pad_inject [of w w' 2] p by simp
  qed
  then have "format_week s = format_week t \<longleftrightarrow> (y, w) = (y', w')"
    by (auto simp: format_week_def I)
  with I show ?thesis using ISOWeek_inject [of s t] by simp
qed

end
