(* ===== verification/Models.thy ===== *)
theory Models
  imports GoTime
begin

text \<open>
  The data model, \<open>internal/models\<close>: rules and schedules, alerts and their events, evaluations,
  evaluation jobs, and the legacy policies and reconciliations. A Go string type whose values
  come from a request stays a string, with the declared constants as abbreviations and its
  \<open>Valid\<close> method; a type only the program itself writes is a datatype. \<open>[]byte\<close> and
  \<open>json.RawMessage\<close> are strings, a nil pointer is \<open>None\<close>.
\<close>

section \<open>Rules (models/rule.go)\<close>

type_synonym templateKind = string
type_synonym severity = string
type_synonym periodType = string
type_synonym scheduleKind = string
type_synonym rawJSON = string

abbreviation "TemplateLedgerVsPoolDrift \<equiv> ''ledger_vs_pool_drift'' :: templateKind"
abbreviation "TemplateLedgerInvariant \<equiv> ''ledger_invariant'' :: templateKind"
abbreviation "TemplateAccountThreshold \<equiv> ''account_threshold'' :: templateKind"
abbreviation "TemplateSourceParity \<equiv> ''source_parity'' :: templateKind"

abbreviation "SeverityInfo \<equiv> ''info'' :: severity"
abbreviation "SeverityLow \<equiv> ''low'' :: severity"
abbreviation "SeverityMedium \<equiv> ''medium'' :: severity"
abbreviation "SeverityHigh \<equiv> ''high'' :: severity"
abbreviation "SeverityCritical \<equiv> ''critical'' :: severity"

definition Severity_Valid :: "severity \<Rightarrow> bool" where
  "Severity_Valid s \<longleftrightarrow>
     s \<in> {SeverityInfo, SeverityLow, SeverityMedium, SeverityHigh, SeverityCritical}"

abbreviation "PeriodTypeContinuous \<equiv> ''continuous'' :: periodType"
abbreviation "PeriodTypeDaily \<equiv> ''daily'' :: periodType"
abbreviation "PeriodTypeWeekly \<equiv> ''weekly'' :: periodType"
abbreviation "PeriodTypeMonthly \<equiv> ''monthly'' :: periodType"
abbreviation "ContinuousPeriod \<equiv> ''continuous''"

definition PeriodID :: "periodType \<Rightarrow> time \<Rightarrow> string" where
  "PeriodID p pit =
     (if p = PeriodTypeDaily then format_day pit
      else if p = PeriodTypeWeekly then format_week pit
      else if p = PeriodTypeMonthly then format_month pit
      else ContinuousPeriod)"

definition PeriodType_Valid :: "periodType \<Rightarrow> bool" where
  "PeriodType_Valid p \<longleftrightarrow>
     p \<in> {PeriodTypeContinuous, PeriodTypeDaily, PeriodTypeWeekly, PeriodTypeMonthly}"

abbreviation "ScheduleOnDemand \<equiv> ''on_demand'' :: scheduleKind"
abbreviation "ScheduleCron \<equiv> ''cron'' :: scheduleKind"

definition ScheduleKind_Valid :: "scheduleKind \<Rightarrow> bool" where
  "ScheduleKind_Valid k \<longleftrightarrow> k \<in> {ScheduleOnDemand, ScheduleCron}"

record schedule =
  Kind :: scheduleKind
  Expr :: string
  TZ :: string
  SafetyMargin :: duration
  SafetyMarginWasProvided :: bool

text \<open>
  The cron parser is a third-party package: a parameter that maps an expression to an error or
  to the schedule's next-occurrence function (the zero time when there is none).
\<close>

type_synonym cron_parser = "string \<Rightarrow> gerror + (time \<Rightarrow> time)"

definition Schedule_Next :: "cron_parser \<Rightarrow> schedule option \<Rightarrow> time \<Rightarrow> gerror + time" where
  "Schedule_Next parse so after =
     (case so of
        None \<Rightarrow> Inr 0
      | Some s \<Rightarrow>
          if Kind s \<noteq> ScheduleCron \<or> Expr s = '''' then Inr 0
          else
            let tz = (if TZ s = '''' then ''UTC'' else TZ s) in
            case parse (''CRON_TZ='' @ tz @ '' '' @ Expr s) of
              Inl err \<Rightarrow> Inl (wrap_error (''parse cron '' @ Expr s @ '' ('' @ tz @ '')'') err)
            | Inr next \<Rightarrow> Inr (next after))"

record rule =
  rule_ID :: uuid
  rule_Name :: string
  rule_TemplateKind :: templateKind
  rule_TemplateSpec :: rawJSON
  rule_ExplanationCEL :: string
  rule_Enabled :: bool
  rule_Severity :: severity
  rule_PeriodType :: periodType
  rule_Schedule :: "schedule option"
  rule_Notifications :: "string list"
  rule_Labels :: "(string \<times> string) list"
  rule_Revision :: int
  rule_NextRunAt :: "time option"
  rule_CreatedAt :: time
  rule_UpdatedAt :: time

section \<open>Alerts (models/alert.go)\<close>

datatype alertStatus = AlertOpen | AlertAcknowledged | AlertResolved

datatype resolutionKind = ResolutionAuto | ResolutionFixedByBooking | ResolutionAcceptedByBusiness

record ack =
  Ack_By :: string
  Ack_At :: time
  Ack_Note :: string

record snooze =
  Snooze_Until :: time
  Snooze_By :: string
  Snooze_At :: time
  Snooze_Note :: string

record resolution =
  Res_Kind :: resolutionKind
  Res_By :: string
  Res_At :: time
  Res_Note :: string
  Res_TransactionRefs :: "string list"
  Res_EvidenceSnapshot :: rawJSON

record alert =
  alert_ID :: uuid
  alert_RuleID :: uuid
  alert_Fingerprint :: string
  alert_PeriodID :: string
  alert_Status :: alertStatus
  alert_Severity :: severity
  alert_FirstSeenAt :: time
  alert_LastSeenAt :: time
  alert_OccurrenceCount :: int
  alert_LastEvaluationID :: uuid
  alert_Evidence :: rawJSON
  alert_Ack :: "ack option"
  alert_Resolution :: "resolution option"
  alert_Snooze :: "snooze option"
  alert_Labels :: "(string \<times> string) list"
  alert_CreatedAt :: time
  alert_UpdatedAt :: time

datatype alertEventType =
    AlertEventFail | AlertEventPass | AlertEventAck | AlertEventResolve | AlertEventAccept
  | AlertEventSnooze | AlertEventUnsnooze | AlertEventOther string

record alertEvent =
  ev_ID :: uuid
  ev_AlertID :: uuid
  ev_EvaluationID :: "uuid option"
  ev_Type :: alertEventType
  ev_PrevStatus :: "alertStatus option"
  ev_NewStatus :: alertStatus
  ev_Payload :: rawJSON
  ev_Notify :: bool
  ev_At :: time
  ev_CreatedAt :: time

definition IsReopen :: "alertEvent \<Rightarrow> bool" where
  "IsReopen e \<longleftrightarrow> ev_Type e = AlertEventFail \<and> ev_PrevStatus e = Some AlertResolved"

section \<open>Evaluations and jobs (models/evaluation.go, models/evaluation\_job.go)\<close>

datatype evaluationResult = EvaluationPass | EvaluationFail | EvaluationError

record evaluation =
  eval_ID :: uuid
  eval_RuleID :: uuid
  eval_StartedAt :: time
  eval_EndedAt :: time
  eval_PitPerSource :: "(string \<times> time) list"
  eval_Result :: evaluationResult
  eval_Evidence :: rawJSON
  eval_Error :: string
  eval_CostUnits :: int
  eval_ScheduledAt :: "time option"
  eval_RuleRevision :: "int option"
  eval_CreatedAt :: time

datatype evaluationJobStatus =
    EvaluationJobPending | EvaluationJobRunning | EvaluationJobSucceeded | EvaluationJobFailed
  | EvaluationJobCancelled

record evaluationJob =
  job_ID :: uuid
  job_RuleID :: uuid
  job_RuleRevision :: int
  job_ScheduledAt :: time
  job_Status :: evaluationJobStatus
  job_Attempts :: int
  job_AvailableAt :: time
  job_LeaseUntil :: "time option"
  job_ClaimToken :: "uuid option"
  job_LastError :: string
  job_CreatedAt :: time
  job_UpdatedAt :: time

section \<open>Policies and reconciliations (models/policy.go, models/reconciliation.go)\<close>

record policy =
  policy_ID :: uuid
  policy_CreatedAt :: time
  policy_Name :: string
  policy_LedgerName :: string
  policy_LedgerQuery :: rawJSON
  policy_PaymentsPoolID :: uuid

datatype reconciliationStatus = ReconciliationNotOK | ReconciliationOK

type_synonym balances = "(string \<times> int option) list"

record reconciliation =
  reco_ID :: uuid
  reco_PolicyID :: uuid
  reco_CreatedAt :: time
  reco_ReconciledAtLedger :: time
  reco_ReconciledAtPayments :: time
  reco_Status :: reconciliationStatus
  reco_LedgerBalances :: balances
  reco_PaymentsBalances :: balances
  reco_DriftBalances :: balances
  reco_Error :: string

section \<open>Properties\<close>

lemma Severity_Valid_code [simp]:
  "Severity_Valid SeverityInfo" "Severity_Valid SeverityLow" "Severity_Valid SeverityMedium"
  "Severity_Valid SeverityHigh" "Severity_Valid SeverityCritical"
  by (simp_all add: Severity_Valid_def)

lemma Schedule_Next_cases:
  "Schedule_Next parse None t = Inr 0"
  "Kind s \<noteq> ScheduleCron \<or> Expr s = '''' \<Longrightarrow> Schedule_Next parse (Some s) t = Inr 0"
  by (simp_all add: Schedule_Next_def)

lemma PeriodID_kinds [simp]:
  "PeriodID PeriodTypeDaily t = format_day t"
  "PeriodID PeriodTypeWeekly t = format_week t"
  "PeriodID PeriodTypeMonthly t = format_month t"
  "PeriodID PeriodTypeContinuous t = ContinuousPeriod"
  by (simp_all add: PeriodID_def)

text \<open>The bucket an instant belongs to, as \<open>docs/technical/alert-period-model.md\<close> describes it.\<close>

datatype bucket = Day int | Week int | Month int int | Always

definition bucket_of :: "periodType \<Rightarrow> time \<Rightarrow> bucket" where
  "bucket_of p t =
     (if p = PeriodTypeDaily then Day (day_of t)
      else if p = PeriodTypeWeekly then Week (day_of t div 7)
      else if p = PeriodTypeMonthly then Month (fst (Date t)) (fst (snd (Date t)))
      else Always)"

text \<open>
  C27. Period buckets are exact: for every period type and every two instants, the two period
  ids are equal exactly when the instants lie in the same UTC day, the same Monday-to-Sunday
  week, the same calendar month, or the period type is unbounded.
\<close>

theorem PeriodID_bucket:
  assumes "0 \<le> s" and "0 \<le> t"
  shows "PeriodID p s = PeriodID p t \<longleftrightarrow> bucket_of p s = bucket_of p t"
  using format_day_inject [OF assms] format_week_inject [OF assms] format_month_inject [OF assms]
  by (simp add: PeriodID_def bucket_of_def)

theorem PeriodID_bucket_witness:
  "PeriodID PeriodTypeWeekly 63902908800000000000 = PeriodID PeriodTypeWeekly 63903168000000000000
   \<longleftrightarrow> bucket_of PeriodTypeWeekly 63902908800000000000 = bucket_of PeriodTypeWeekly 63903168000000000000"
  by (rule PeriodID_bucket) simp_all

end
