(* ===== verification/Json.thy ===== *)
theory Json
  imports Prelude
begin

text \<open>
  What the program uses of \<open>encoding/json\<close>: the parser (\<open>checkValid\<close> and the decoder), decoding
  into maps, slices, pointers and structs, and \<open>Marshal\<close> with its HTML escaping and sorted keys.
  Numbers keep their literal, as \<open>json.Number\<close> does. Strings are byte strings: bytes from 128 up
  are copied, so the model covers valid UTF-8; error texts are abbreviated. The decoder's limit of
  10000 nested values is not modelled. \<open>json.RawMessage\<close> is the text of a value.
\<close>

datatype json =
    JNull
  | JBool bool
  | JNum string
  | JStr string
  | JArr "json list"
  | JObj "(string \<times> json) list"

abbreviation code :: "char \<Rightarrow> nat" where "code c \<equiv> of_char c"

section \<open>Lexical level\<close>

definition is_ws :: "char \<Rightarrow> bool" where
  "is_ws c \<longleftrightarrow> c = CHR '' '' \<or> c = CHR 0x09 \<or> c = CHR 0x0A \<or> c = CHR 0x0D"

definition ws :: "string \<Rightarrow> string" where
  "ws s = dropWhile is_ws s"

text \<open>\<open>strings.TrimSpace\<close> on ASCII.\<close>

definition is_space :: "char \<Rightarrow> bool" where
  "is_space c \<longleftrightarrow> code c = 32 \<or> (9 \<le> code c \<and> code c \<le> 13)"

definition TrimSpace :: "string \<Rightarrow> string" where
  "TrimSpace s = rev (dropWhile is_space (rev (dropWhile is_space s)))"

text \<open>Bytes below 32.\<close>

fun is_control :: "char \<Rightarrow> bool" where
  "is_control (Char b0 b1 b2 b3 b4 b5 b6 b7) \<longleftrightarrow> \<not> b5 \<and> \<not> b6 \<and> \<not> b7"

definition hex_val :: "char \<Rightarrow> nat option" where
  "hex_val c = (let n = code c in
     if 48 \<le> n \<and> n \<le> 57 then Some (n - 48)
     else if 97 \<le> n \<and> n \<le> 102 then Some (n - 87)
     else if 65 \<le> n \<and> n \<le> 70 then Some (n - 55)
     else None)"

fun hex4 :: "string \<Rightarrow> (nat \<times> string) option" where
  "hex4 (a # b # c # d # r) =
     (case (hex_val a, hex_val b, hex_val c, hex_val d) of
        (Some w, Some x, Some y, Some z) \<Rightarrow> Some (((w * 16 + x) * 16 + y) * 16 + z, r)
      | _ \<Rightarrow> None)"
| "hex4 _ = None"

definition utf8 :: "nat \<Rightarrow> string" where
  "utf8 n = map char_of
     (if n < 128 then [n]
      else if n < 2048 then [192 + n div 64, 128 + n mod 64]
      else if n < 65536 then [224 + n div 4096, 128 + (n div 64) mod 64, 128 + n mod 64]
      else [240 + n div 262144, 128 + (n div 4096) mod 64, 128 + (n div 64) mod 64, 128 + n mod 64])"

definition RuneError :: nat where "RuneError = 65533"

text \<open>A \<open>\\u\<close> escape: a surrogate pair is one code point, a lone surrogate the replacement rune.\<close>

definition unicode_escape :: "string \<Rightarrow> (string \<times> string) option" where
  "unicode_escape s =
     (case hex4 s of
        None \<Rightarrow> None
      | Some (n, r) \<Rightarrow>
          if n < 55296 \<or> 57343 < n then Some (utf8 n, r)
          else if n < 56320 \<and> take 2 r = [CHR 0x5C, CHR ''u''] then
            (case hex4 (drop 2 r) of
               None \<Rightarrow> Some (utf8 RuneError, r)
             | Some (m, r') \<Rightarrow>
                 if 56320 \<le> m \<and> m \<le> 57343
                 then Some (utf8 (65536 + (n - 55296) * 1024 + (m - 56320)), r')
                 else Some (utf8 RuneError, r))
          else Some (utf8 RuneError, r))"

definition simple_escape :: "char \<Rightarrow> char option" where
  "simple_escape c =
     (if c = CHR 0x22 \<or> c = CHR 0x5C \<or> c = CHR ''/'' then Some c
      else if c = CHR ''b'' then Some (char_of (8 :: nat))
      else if c = CHR ''f'' then Some (char_of (12 :: nat))
      else if c = CHR ''n'' then Some (char_of (10 :: nat))
      else if c = CHR ''r'' then Some (char_of (13 :: nat))
      else if c = CHR ''t'' then Some (char_of (9 :: nat))
      else None)"

text \<open>The characters of a string literal after the opening quote: the value and the rest.\<close>

fun parse_chars :: "nat \<Rightarrow> string \<Rightarrow> (string \<times> string) option" where
  "parse_chars 0 s = None"
| "parse_chars (Suc n) s =
     (case s of
        [] \<Rightarrow> None
      | c # r \<Rightarrow>
          if c = CHR 0x22 then Some ([], r)
          else if c = CHR 0x5C then
            (case r of
               [] \<Rightarrow> None
             | d # r' \<Rightarrow>
                 if d = CHR ''u'' then
                   (case unicode_escape r' of
                      None \<Rightarrow> None
                    | Some (t, r'') \<Rightarrow> map_option (\<lambda>(u, q). (t @ u, q)) (parse_chars n r''))
                 else
                   (case simple_escape d of
                      None \<Rightarrow> None
                    | Some e \<Rightarrow> map_option (\<lambda>(u, q). (e # u, q)) (parse_chars n r')))
          else if is_control c then None
          else map_option (\<lambda>(u, q). (c # u, q)) (parse_chars n r))"

definition parse_string :: "string \<Rightarrow> (string \<times> string) option" where
  "parse_string s = (case s of [] \<Rightarrow> None | c # r \<Rightarrow> if c = CHR 0x22 then parse_chars (length s) r else None)"

section \<open>Numbers\<close>

definition num_int :: "string \<Rightarrow> (string \<times> string) option" where
  "num_int s = (let ds = takeWhile is_digit s; r = dropWhile is_digit s in
     if ds = [] then None
     else if hd ds = CHR ''0'' then Some ([hd ds], tl ds @ r)
     else Some (ds, r))"

definition num_frac :: "string \<Rightarrow> (string \<times> string) option" where
  "num_frac s = (case s of
       c # r \<Rightarrow> if c = CHR ''.'' then
                 (let ds = takeWhile is_digit r in
                  if ds = [] then None else Some (c # ds, dropWhile is_digit r))
               else Some ([], s)
     | [] \<Rightarrow> Some ([], []))"

definition num_exp :: "string \<Rightarrow> (string \<times> string) option" where
  "num_exp s = (case s of
       c # r \<Rightarrow> if c = CHR ''e'' \<or> c = CHR ''E'' then
                 (let (sg, r') = (case r of d # q \<Rightarrow> if d = CHR ''+'' \<or> d = CHR ''-'' then ([d], q)
                                                   else ([], r) | [] \<Rightarrow> ([], r));
                      ds = takeWhile is_digit r' in
                  if ds = [] then None else Some (c # sg @ ds, dropWhile is_digit r'))
               else Some ([], s)
     | [] \<Rightarrow> Some ([], []))"

definition parse_number :: "string \<Rightarrow> (string \<times> string) option" where
  "parse_number s =
     (let (sg, s1) = (case s of c # r \<Rightarrow> if c = CHR ''-'' then ([c], r) else ([], s) | [] \<Rightarrow> ([], s)) in
      case num_int s1 of None \<Rightarrow> None | Some (i, s2) \<Rightarrow>
      case num_frac s2 of None \<Rightarrow> None | Some (f, s3) \<Rightarrow>
      case num_exp s3 of None \<Rightarrow> None | Some (e, s4) \<Rightarrow> Some (sg @ i @ f @ e, s4))"

text \<open>\<open>strconv.ParseInt(s, 10, 64)\<close> on a number literal: no fraction, no exponent, in range.\<close>

definition ParseInt64 :: "string \<Rightarrow> int option" where
  "ParseInt64 s =
     (let (neg, ds) = (case s of c # r \<Rightarrow> if c = CHR ''-'' then (True, r) else (False, s)
                               | [] \<Rightarrow> (False, s));
          i = (if neg then - int (undec_nat ds) else int (undec_nat ds))
      in if ds \<noteq> [] \<and> list_all is_digit ds \<and> IsInt64 i then Some i else None)"

section \<open>Values\<close>

definition strip_prefix :: "string \<Rightarrow> string \<Rightarrow> string option" where
  "strip_prefix p s = (if take (length p) s = p then Some (drop (length p) s) else None)"

text \<open>
  The parser. Elements and members come with the text of their value, which is what a
  \<open>json.RawMessage\<close> field receives. The fuel bounds the nesting of calls.
\<close>

fun parse_value :: "nat \<Rightarrow> string \<Rightarrow> (json \<times> string) option"
and parse_elems :: "nat \<Rightarrow> string \<Rightarrow> ((string \<times> json) list \<times> string) option"
and parse_members :: "nat \<Rightarrow> string \<Rightarrow> ((string \<times> string \<times> json) list \<times> string) option" where
  "parse_value 0 s = None"
| "parse_value (Suc n) s =
     (case s of
        [] \<Rightarrow> None
      | c # r \<Rightarrow>
          if c = CHR ''{'' then
            (if ws r \<noteq> [] \<and> hd (ws r) = CHR ''}'' then Some (JObj [], tl (ws r))
             else map_option (\<lambda>(ms, q). (JObj (fold (\<lambda>(k, t, v) m. map_put k v m) ms []), q))
                    (parse_members n (ws r)))
          else if c = CHR ''['' then
            (if ws r \<noteq> [] \<and> hd (ws r) = CHR '']'' then Some (JArr [], tl (ws r))
             else map_option (\<lambda>(es, q). (JArr (map snd es), q)) (parse_elems n (ws r)))
          else if c = CHR 0x22 then map_option (\<lambda>(t, q). (JStr t, q)) (parse_string s)
          else if c = CHR ''t'' then map_option (\<lambda>q. (JBool True, q)) (strip_prefix ''true'' s)
          else if c = CHR ''f'' then map_option (\<lambda>q. (JBool False, q)) (strip_prefix ''false'' s)
          else if c = CHR ''n'' then map_option (\<lambda>q. (JNull, q)) (strip_prefix ''null'' s)
          else map_option (\<lambda>(t, q). (JNum t, q)) (parse_number s))"
| "parse_elems 0 s = None"
| "parse_elems (Suc n) s =
     (case parse_value n s of
        None \<Rightarrow> None
      | Some (v, r) \<Rightarrow>
          let e = (take (length s - length r) s, v); r' = ws r in
          if r' = [] then None
          else if hd r' = CHR '']'' then Some ([e], tl r')
          else if hd r' = CHR '','' then
            map_option (\<lambda>(es, q). (e # es, q)) (parse_elems n (ws (tl r')))
          else None)"
| "parse_members 0 s = None"
| "parse_members (Suc n) s =
     (case parse_string s of
        None \<Rightarrow> None
      | Some (k, r) \<Rightarrow>
          let r1 = ws r in
          if r1 = [] \<or> hd r1 \<noteq> CHR '':'' then None
          else
            let s2 = ws (tl r1) in
            case parse_value n s2 of
              None \<Rightarrow> None
            | Some (v, r2) \<Rightarrow>
                let m = (k, take (length s2 - length r2) s2, v); r3 = ws r2 in
                if r3 = [] then None
                else if hd r3 = CHR ''}'' then Some ([m], tl r3)
                else if hd r3 = CHR '','' then
                  map_option (\<lambda>(ms, q). (m # ms, q)) (parse_members n (ws (tl r3)))
                else None)"

definition fuel_for :: "string \<Rightarrow> nat" where
  "fuel_for s = 2 * length s + 2"

text \<open>\<open>json.Valid\<close> and \<open>Unmarshal\<close> into \<open>any\<close>: one value and nothing but white space after it.\<close>

definition parse_doc :: "string \<Rightarrow> json option" where
  "parse_doc s =
     (case parse_value (fuel_for s) (ws s) of
        Some (v, r) \<Rightarrow> if ws r = [] then Some v else None
      | None \<Rightarrow> None)"

text \<open>A \<open>Decoder\<close> reads one value and leaves what follows it.\<close>

definition decode_prefix :: "string \<Rightarrow> json option" where
  "decode_prefix s = map_option fst (parse_value (fuel_for s) (ws s))"

text \<open>The members of an object text and the elements of an array text, each with its own text.\<close>

definition object_members :: "string \<Rightarrow> (string \<times> string) list option" where
  "object_members s =
     (case ws s of
        [] \<Rightarrow> None
      | c # r \<Rightarrow>
          if c \<noteq> CHR ''{'' then None
          else if ws r \<noteq> [] \<and> hd (ws r) = CHR ''}'' then Some []
          else map_option (\<lambda>(ms, q). map (\<lambda>(k, t, v). (k, t)) ms) (parse_members (fuel_for s) (ws r)))"

definition array_elems :: "string \<Rightarrow> string list option" where
  "array_elems s =
     (case ws s of
        [] \<Rightarrow> None
      | c # r \<Rightarrow>
          if c \<noteq> CHR ''['' then None
          else if ws r \<noteq> [] \<and> hd (ws r) = CHR '']'' then Some []
          else map_option (\<lambda>(es, q). map fst es) (parse_elems (fuel_for s) (ws r)))"

section \<open>Decoding into Go values\<close>

text \<open>
  A decoder takes the text of a value and the Go value decoded so far; \<open>None\<close> is a type error.
  A JSON null leaves scalars and structs alone, and sets maps, slices and pointers to nil.
\<close>

type_synonym 'a decoder = "string \<Rightarrow> 'a \<Rightarrow> 'a option"

definition is_null :: "string \<Rightarrow> bool" where
  "is_null s \<longleftrightarrow> parse_doc s = Some JNull"

definition dec_string :: "string decoder" where
  "dec_string s old = (case parse_doc s of Some (JStr t) \<Rightarrow> Some t | Some JNull \<Rightarrow> Some old | _ \<Rightarrow> None)"

definition dec_bool :: "bool decoder" where
  "dec_bool s old = (case parse_doc s of Some (JBool b) \<Rightarrow> Some b | Some JNull \<Rightarrow> Some old | _ \<Rightarrow> None)"

definition dec_int64 :: "int decoder" where
  "dec_int64 s old = (case parse_doc s of Some (JNum t) \<Rightarrow> ParseInt64 t | Some JNull \<Rightarrow> Some old | _ \<Rightarrow> None)"

definition dec_raw :: "string decoder" where
  "dec_raw s old = Some s"

definition dec_ptr :: "'a \<Rightarrow> 'a decoder \<Rightarrow> 'a option decoder" where
  "dec_ptr zero d s old =
     (if is_null s then Some None
      else map_option Some (d s (case old of None \<Rightarrow> zero | Some v \<Rightarrow> v)))"

fun fold_opt :: "('b \<Rightarrow> 'a \<Rightarrow> 'a option) \<Rightarrow> 'b list \<Rightarrow> 'a \<Rightarrow> 'a option" where
  "fold_opt f [] a = Some a"
| "fold_opt f (x # xs) a = (case f x a of None \<Rightarrow> None | Some a' \<Rightarrow> fold_opt f xs a')"

definition dec_map :: "'v \<Rightarrow> 'v decoder \<Rightarrow> (string \<times> 'v) list decoder" where
  "dec_map zero d s old =
     (if is_null s then Some []
      else case object_members s of
        None \<Rightarrow> None
      | Some ms \<Rightarrow> fold_opt (\<lambda>(k, t) m. map_option (\<lambda>v. map_put k v m) (d t zero)) ms old)"

fun dec_elems :: "'v \<Rightarrow> 'v decoder \<Rightarrow> string list \<Rightarrow> 'v list \<Rightarrow> 'v list option" where
  "dec_elems zero d [] old = Some []"
| "dec_elems zero d (t # ts) old =
     (case d t (case old of [] \<Rightarrow> zero | v # _ \<Rightarrow> v) of
        None \<Rightarrow> None
      | Some v \<Rightarrow> map_option ((#) v) (dec_elems zero d ts (tl old)))"

definition dec_list :: "'v \<Rightarrow> 'v decoder \<Rightarrow> 'v list decoder" where
  "dec_list zero d s old =
     (if is_null s then Some []
      else case array_elems s of None \<Rightarrow> None | Some ts \<Rightarrow> dec_elems zero d ts old)"

text \<open>
  A struct is decoded member by member, in order; \<open>set\<close> stores a member in the field whose JSON
  name it matches (ASCII case folded) and ignores unknown names.
\<close>

definition to_lower :: "string \<Rightarrow> string" where
  "to_lower s = map (\<lambda>c. if 65 \<le> code c \<and> code c \<le> 90 then char_of (code c + 32) else c) s"

definition field :: "string \<Rightarrow> string \<Rightarrow> bool" where
  "field name key \<longleftrightarrow> to_lower key = to_lower name"

definition dec_struct :: "(string \<Rightarrow> string \<Rightarrow> 'a \<Rightarrow> 'a option) \<Rightarrow> 'a decoder" where
  "dec_struct setf s old =
     (if is_null s then Some old
      else case object_members s of
        None \<Rightarrow> None
      | Some ms \<Rightarrow> fold_opt (\<lambda>(k, t) a. setf k t a) ms old)"

definition Unmarshal :: "'a decoder \<Rightarrow> string \<Rightarrow> 'a \<Rightarrow> gerror + 'a" where
  "Unmarshal d s zero =
     (case parse_doc s of
        None \<Rightarrow> Inl (new_error ''invalid JSON'')
      | Some v \<Rightarrow> (case d s zero of
            None \<Rightarrow> Inl (new_error ''json: cannot unmarshal'')
          | Some a \<Rightarrow> Inr a))"

section \<open>Encoding\<close>

definition hex_digit :: "nat \<Rightarrow> char" where
  "hex_digit n = (if n < 10 then char_of (48 + n) else char_of (87 + n))"

definition escape_char :: "char \<Rightarrow> string" where
  "escape_char c =
     (let n = code c in
      if n = 34 \<or> n = 92 then [CHR 0x5C, c]
      else if n = 8 then [CHR 0x5C, CHR ''b'']
      else if n = 12 then [CHR 0x5C, CHR ''f'']
      else if n = 10 then [CHR 0x5C, CHR ''n'']
      else if n = 13 then [CHR 0x5C, CHR ''r'']
      else if n = 9 then [CHR 0x5C, CHR ''t'']
      else if n < 32 \<or> n = 60 \<or> n = 62 \<or> n = 38
        then [CHR 0x5C, CHR ''u'', CHR ''0'', CHR ''0'', hex_digit (n div 16), hex_digit (n mod 16)]
      else [c])"

definition quoted :: "string \<Rightarrow> string" where
  "quoted s = [CHR 0x22] @ concat (map escape_char s) @ [CHR 0x22]"

fun marshal :: "json \<Rightarrow> string" where
  "marshal JNull = ''null''"
| "marshal (JBool b) = FormatBool b"
| "marshal (JNum t) = t"
| "marshal (JStr s) = quoted s"
| "marshal (JArr vs) = ''['' @ join '','' (map marshal vs) @ '']''"
| "marshal (JObj ms) =
     CHR 0x7B # join '',''
       (map (\<lambda>(k, t). quoted k @ '':'' @ t) (sort_key fst (map (\<lambda>(k, v). (k, marshal v)) ms)))
     @ [CHR 0x7D]"

abbreviation JInt :: "int \<Rightarrow> json" where "JInt i \<equiv> JNum (dec i)"

text \<open>
  A struct is encoded in the order of its fields. A \<open>RawMessage\<close> is copied without white space
  outside strings and with the HTML characters escaped.
\<close>

definition encode_fields :: "(string \<times> string) list \<Rightarrow> string" where
  "encode_fields fs = CHR 0x7B # join '','' (map (\<lambda>(k, t). quoted k @ '':'' @ t) fs) @ [CHR 0x7D]"

fun compact_from :: "bool \<Rightarrow> bool \<Rightarrow> string \<Rightarrow> string" where
  "compact_from inStr esc [] = []"
| "compact_from inStr esc (c # s) =
     (if \<not> inStr \<and> is_ws c then compact_from False False s
      else (if c = CHR ''<'' \<or> c = CHR ''>'' \<or> c = CHR ''&'' then escape_char c else [c])
           @ compact_from (if c = CHR 0x22 \<and> \<not> esc then \<not> inStr else inStr)
               (inStr \<and> \<not> esc \<and> c = CHR 0x5C) s)"

definition compact :: "string \<Rightarrow> gerror + string" where
  "compact raw = (if parse_doc raw = None then Inl (new_error ''invalid JSON'')
                  else Inr (compact_from False False raw))"

section \<open>Facts\<close>

lemma fold_opt_append: "fold_opt f (xs @ ys) a =
    (case fold_opt f xs a of None \<Rightarrow> None | Some b \<Rightarrow> fold_opt f ys b)"
  by (induction xs arbitrary: a) (auto split: option.splits)

lemma ParseInt64_range: "ParseInt64 s = Some i \<Longrightarrow> IsInt64 i"
  by (simp add: ParseInt64_def Let_def split: prod.splits if_splits)

lemma dec_int64_range: "dec_int64 s old = Some i \<Longrightarrow> IsInt64 old \<Longrightarrow> IsInt64 i"
  by (auto simp: dec_int64_def dest: ParseInt64_range split: option.splits json.splits)

lemma dec_map_values:
  assumes "dec_map zero d s old = Some m" and "\<And>t v. d t zero = Some v \<Longrightarrow> P v"
    and "\<And>k v. (k, v) \<in> set old \<Longrightarrow> P v" and "(k, v) \<in> set m"
  shows "P v"
proof -
  have put: "P v" if "(k, v) \<in> set (map_put k' v' m')" "P v'" "\<And>k v. (k, v) \<in> set m' \<Longrightarrow> P v"
    for k v k' v' m'
    using that by (auto simp: map_put_def split: if_splits)
  have fold: "fold_opt (\<lambda>(k, t) m. map_option (\<lambda>v. map_put k v m) (d t zero)) ms old = Some m \<Longrightarrow>
      (\<And>k v. (k, v) \<in> set old \<Longrightarrow> P v) \<Longrightarrow> (k, v) \<in> set m \<Longrightarrow> P v" for ms old
  proof (induction ms arbitrary: old)
    case Nil
    then show ?case by auto
  next
    case (Cons x ms)
    obtain k' t' where x: "x = (k', t')" by (cases x)
    with Cons.prems(1) obtain v' where v': "d t' zero = Some v'"
      and rest: "fold_opt (\<lambda>(k, t) m. map_option (\<lambda>v. map_put k v m) (d t zero)) ms
                   (map_put k' v' old) = Some m"
      by (auto split: option.splits)
    show ?case
      by (rule Cons.IH [OF rest _ Cons.prems(3)]) (rule put [OF _ assms(2) [OF v'] Cons.prems(2)])
  qed
  show ?thesis
    using assms(1,3,4) fold by (auto simp: dec_map_def split: if_splits option.splits)
qed

text \<open>A struct keeps what each of its member decoders keeps.\<close>

lemma dec_struct_invariant:
  assumes "dec_struct setf s old = Some a" and "P old"
    and "\<And>k t x y. setf k t x = Some y \<Longrightarrow> P x \<Longrightarrow> P y"
  shows "P a"
proof -
  have "fold_opt (\<lambda>(k, t) a. setf k t a) ms old = Some a \<Longrightarrow> P old \<Longrightarrow> P a" for ms old
    using assms(3) by (induction ms arbitrary: old) (auto split: option.splits prod.splits)
  with assms(1,2) show ?thesis by (auto simp: dec_struct_def split: if_splits option.splits)
qed

lemma tolerance_range:
  "dec_map 0 dec_int64 t old = Some m \<Longrightarrow> \<forall>k v. (k, v) \<in> set old \<longrightarrow> IsInt64 v \<Longrightarrow>
   \<forall>k v. (k, v) \<in> set m \<longrightarrow> IsInt64 v"
proof (intro allI impI)
  fix k v
  assume m: "dec_map 0 dec_int64 t old = Some m" and old: "\<forall>k v. (k, v) \<in> set old \<longrightarrow> IsInt64 v"
    and kv: "(k, v) \<in> set m"
  have zero: "IsInt64 0" by (simp add: IsInt64_def)
  show "IsInt64 v"
    by (rule dec_map_values [OF m _ _ kv]) (use old dec_int64_range [OF _ zero] in blast)+
qed

end
