(* ===== verification/Builtins.thy ===== *)
theory Builtins
  imports Models Json
begin

text \<open>
  The values of the rule kernel, \<open>internal/engine\<close>: sources, resolvers, limits, the
  per-evaluation context and the built-in functions an expression may call. CEL ints are 64-bit
  words. The lemmas at the end show that \<open>sum\<close> and \<open>abs\<close> never wrap: they return the exact
  integer or an error.
\<close>

section \<open>Sources (engine/source.go)\<close>

datatype sourceKind = SourceLedgerSet | SourcePaymentsPool | SourceLedgerPostings

fun sourceKind_string :: "sourceKind \<Rightarrow> string" where
  "sourceKind_string SourceLedgerSet = ''ledger_set''"
| "sourceKind_string SourcePaymentsPool = ''payments_pool''"
| "sourceKind_string SourceLedgerPostings = ''ledger_postings''"

record source =
  src_Kind :: sourceKind
  src_Key :: string
  src_Ledger :: string
  src_Query :: rawJSON
  src_PoolID :: string
  src_Window :: duration
  src_PIT :: time

text \<open>CEL values (\<open>ref.Val\<close>); \<open>CErr\<close> is \<open>types.NewErr\<close>, \<open>COther\<close> any type the kernel never reads.\<close>

datatype celVal =
    CInt i64
  | CStr string
  | CBool bool
  | CList "celVal list"
  | CMap "(string \<times> celVal) list"
  | CSource source
  | CErr string
  | COther string

fun goType :: "celVal \<Rightarrow> string" where
  "goType (CInt _) = ''int64''"
| "goType (CStr _) = ''string''"
| "goType (CBool _) = ''bool''"
| "goType (CList _) = ''[]ref.Val''"
| "goType (CMap _) = ''map[ref.Val]ref.Val''"
| "goType (CSource _) = ''*engine.Source''"
| "goType (CErr _) = ''*types.Err''"
| "goType (COther t) = t"

text \<open>The type assertions \<open>v.Value().(T)\<close>.\<close>

definition as_string :: "celVal \<Rightarrow> string option" where
  "as_string v = (case v of CStr s \<Rightarrow> Some s | _ \<Rightarrow> None)"

definition as_int64 :: "celVal \<Rightarrow> i64 option" where
  "as_int64 v = (case v of CInt i \<Rightarrow> Some i | _ \<Rightarrow> None)"

definition as_bool :: "celVal \<Rightarrow> bool option" where
  "as_bool v = (case v of CBool b \<Rightarrow> Some b | _ \<Rightarrow> None)"

definition as_source :: "celVal \<Rightarrow> source option" where
  "as_source v = (case v of CSource s \<Rightarrow> Some s | _ \<Rightarrow> None)"

definition Source_Equal :: "source \<Rightarrow> celVal \<Rightarrow> celVal" where
  "Source_Equal s other =
     (case as_source other of
        None \<Rightarrow> CBool False
      | Some q \<Rightarrow>
          if src_Kind s \<noteq> src_Kind q \<or> src_Ledger s \<noteq> src_Ledger q \<or> src_PoolID s \<noteq> src_PoolID q
             \<or> src_Window s \<noteq> src_Window q then CBool False
          else CBool (src_Query s = src_Query q))"

definition celSourceType :: string where "celSourceType = ''formance.engine.Source''"

definition Source_ConvertToType :: "source \<Rightarrow> string \<Rightarrow> celVal" where
  "Source_ConvertToType s typeVal =
     (if typeVal = celSourceType then CSource s
      else CErr (''type conversion not allowed: '' @ celSourceType @ '' -> '' @ typeVal))"

section \<open>Resolvers (engine/resolvers.go, engine/types.go)\<close>

record account =
  acct_Address :: string
  acct_Ledger :: string
  acct_Metadata :: "(string \<times> string) list"
  acct_Balances :: balances

record ledgerResolver =
  AggregateBalance :: "string \<Rightarrow> rawJSON \<Rightarrow> time \<Rightarrow> gerror + balances"
  ListAccounts :: "string \<Rightarrow> rawJSON \<Rightarrow> time \<Rightarrow> int \<Rightarrow> gerror + account list"

record paymentsResolver =
  PoolBalance :: "string \<Rightarrow> time option \<Rightarrow> gerror + balances"

record resolvers =
  Ledger :: "ledgerResolver option"
  Payments :: "paymentsResolver option"

section \<open>Limits and budget (engine/budget.go)\<close>

record limits =
  MaxCELCost :: nat
  MaxAccountsScanned :: int
  MaxWallClock :: duration

definition DefaultLimits :: limits where
  "DefaultLimits = \<lparr> MaxCELCost = 1000000, MaxAccountsScanned = 50000, MaxWallClock = 30 * second \<rparr>"

definition mergeLimits :: "limits \<Rightarrow> limits \<Rightarrow> limits" where
  "mergeLimits override defaults = \<lparr>
     MaxCELCost = (if MaxCELCost override = 0 then MaxCELCost defaults else MaxCELCost override),
     MaxAccountsScanned = (if MaxAccountsScanned override = 0 then MaxAccountsScanned defaults
                           else MaxAccountsScanned override),
     MaxWallClock = (if MaxWallClock override = 0 then MaxWallClock defaults
                     else MaxWallClock override) \<rparr>"

record budgetTracker =
  bt_limits :: limits
  accountsScanned :: i64

definition newBudgetTracker :: "limits \<Rightarrow> budgetTracker" where
  "newBudgetTracker l = \<lparr> bt_limits = l, accountsScanned = 0 \<rparr>"

definition ChargeAccounts :: "budgetTracker \<Rightarrow> int \<Rightarrow> gerror option \<times> budgetTracker" where
  "ChargeAccounts b n =
     (if n \<le> 0 then (None, b)
      else
        let acc = accountsScanned b + of_int n; b' = b\<lparr> accountsScanned := acc \<rparr> in
        if sint acc > MaxAccountsScanned (bt_limits b)
        then (Some (new_error (''evaluation budget exceeded: scanned '' @ dec (sint acc)
                @ '' accounts (limit '' @ dec (MaxAccountsScanned (bt_limits b)) @ '')'')), b')
        else (None, b'))"

definition AccountsScanned :: "budgetTracker \<Rightarrow> int" where
  "AccountsScanned b = sint (accountsScanned b)"

section \<open>Built-ins (engine/builtins.go)\<close>

record evalCtx =
  ec_pit :: time
  ec_pitExplicit :: bool
  ec_resolvers :: resolvers
  ec_budget :: budgetTracker
  ec_pitPerSource :: "(string \<times> time) list"
  ec_sourceCounter :: "(sourceKind \<times> nat) list"

definition newEvalCtx :: "time \<Rightarrow> bool \<Rightarrow> resolvers \<Rightarrow> budgetTracker \<Rightarrow> evalCtx" where
  "newEvalCtx pit explicit r b = \<lparr> ec_pit = pit, ec_pitExplicit = explicit, ec_resolvers = r,
     ec_budget = b, ec_pitPerSource = [], ec_sourceCounter = [] \<rparr>"

definition keyFor :: "sourceKind \<Rightarrow> evalCtx \<Rightarrow> string \<times> evalCtx" where
  "keyFor kind e =
     (let n = (case map_of (ec_sourceCounter e) kind of Some n \<Rightarrow> n | None \<Rightarrow> 0) in
      (sourceKind_string kind @ '':'' @ dec_nat n,
       e\<lparr> ec_sourceCounter := map_put kind (n + 1) (ec_sourceCounter e) \<rparr>))"

definition makeLedgerSet :: "celVal \<Rightarrow> celVal \<Rightarrow> evalCtx \<Rightarrow> celVal \<times> evalCtx" where
  "makeLedgerSet ledger query e =
     (case as_string ledger of
        None \<Rightarrow> (CErr (''ledgerSet: ledger must be string, got '' @ goType ledger), e)
      | Some l \<Rightarrow>
     (case as_string query of
        None \<Rightarrow> (CErr (''ledgerSet: query must be string, got '' @ goType query), e)
      | Some q \<Rightarrow>
          let (key, e') = keyFor SourceLedgerSet e;
              src = \<lparr> src_Kind = SourceLedgerSet, src_Key = key, src_Ledger = l, src_Query = q,
                      src_PoolID = '''', src_Window = 0, src_PIT = ec_pit e \<rparr>
          in (CSource src, e'\<lparr> ec_pitPerSource := map_put key (ec_pit e) (ec_pitPerSource e') \<rparr>)))"

definition makePool :: "celVal \<Rightarrow> evalCtx \<Rightarrow> celVal \<times> evalCtx" where
  "makePool poolID e =
     (case as_string poolID of
        None \<Rightarrow> (CErr (''pool: id must be string, got '' @ goType poolID), e)
      | Some pid \<Rightarrow>
          let (key, e') = keyFor SourcePaymentsPool e;
              src = \<lparr> src_Kind = SourcePaymentsPool, src_Key = key, src_Ledger = '''', src_Query = '''',
                      src_PoolID = pid, src_Window = 0, src_PIT = ec_pit e \<rparr>
          in (CSource src, e'\<lparr> ec_pitPerSource := map_put key (ec_pit e) (ec_pitPerSource e') \<rparr>))"

definition resolveBalances :: "evalCtx \<Rightarrow> source \<Rightarrow> gerror + balances" where
  "resolveBalances e src =
     (case src_Kind src of
        SourceLedgerSet \<Rightarrow>
          (case Ledger (ec_resolvers e) of
             None \<Rightarrow> Inl (new_error ''ledger resolver not configured'')
           | Some l \<Rightarrow> AggregateBalance l (src_Ledger src) (src_Query src) (src_PIT src))
      | SourcePaymentsPool \<Rightarrow>
          (case Payments (ec_resolvers e) of
             None \<Rightarrow> Inl (new_error ''payments resolver not configured'')
           | Some p \<Rightarrow> PoolBalance p (src_PoolID src)
                         (if ec_pitExplicit e then Some (src_PIT src) else None))
      | SourceLedgerPostings \<Rightarrow>
          Inl (new_error (''unsupported source kind: '' @ sourceKind_string (src_Kind src))))"

definition bigIntToInt :: "int option \<Rightarrow> celVal" where
  "bigIntToInt b =
     (case b of
        None \<Rightarrow> CInt 0
      | Some i \<Rightarrow> if \<not> IsInt64 i then CErr (''balance value '' @ dec i @ '' exceeds int64 range'')
                  else CInt (of_int i))"

definition balanceSingleAsset :: "celVal \<Rightarrow> evalCtx \<Rightarrow> celVal" where
  "balanceSingleAsset src e =
     (case as_source src of
        None \<Rightarrow> CErr (''balance: expected Source, got '' @ goType src)
      | Some s \<Rightarrow>
     (case resolveBalances e s of
        Inl err \<Rightarrow> CErr (''balance('' @ sourceKind_string (src_Kind s) @ ''): '' @ msg err)
      | Inr bs \<Rightarrow>
          if bs = [] then CInt 0
          else if length bs > 1 then
            CErr (''balance('' @ sourceKind_string (src_Kind s) @ ''): source has ''
                  @ dec_nat (length bs) @ '' assets; use balance(source, asset) to disambiguate'')
          else bigIntToInt (snd (hd bs))))"

definition balanceByAsset :: "celVal \<Rightarrow> celVal \<Rightarrow> evalCtx \<Rightarrow> celVal" where
  "balanceByAsset src asset e =
     (case as_source src of
        None \<Rightarrow> CErr (''balance: expected Source, got '' @ goType src)
      | Some s \<Rightarrow>
     (case as_string asset of
        None \<Rightarrow> CErr (''balance: asset must be string, got '' @ goType asset)
      | Some a \<Rightarrow>
     (case resolveBalances e s of
        Inl err \<Rightarrow> CErr (''balance('' @ sourceKind_string (src_Kind s) @ '','' @ a @ ''): '' @ msg err)
      | Inr bs \<Rightarrow> (case map_of bs a of None \<Rightarrow> CInt 0 | Some v \<Rightarrow> bigIntToInt v))))"

definition balancesAll :: "celVal \<Rightarrow> evalCtx \<Rightarrow> celVal" where
  "balancesAll src e =
     (case as_source src of
        None \<Rightarrow> CErr (''balances: expected Source, got '' @ goType src)
      | Some s \<Rightarrow>
     (case resolveBalances e s of
        Inl err \<Rightarrow> CErr (''balances('' @ sourceKind_string (src_Kind s) @ ''): '' @ msg err)
      | Inr bs \<Rightarrow> CMap (map (\<lambda>(asset, amount). (asset, bigIntToInt amount)) bs)))"

definition MaxInt64 :: i64 where "MaxInt64 = of_int max_i64"

definition MinInt64 :: i64 where "MinInt64 = of_int min_i64"

text \<open>
  \<open>sum\<close>: the elements are added with an overflow check before each addition. \<open>abs\<close> rejects the one
  input whose negation wraps.
\<close>

fun sumFrom :: "nat \<Rightarrow> i64 \<Rightarrow> celVal list \<Rightarrow> celVal" where
  "sumFrom i acc [] = CInt acc"
| "sumFrom i acc (item # rest) =
     (case as_int64 item of
        None \<Rightarrow> CErr (''sum: list element '' @ dec_nat i @ '' is not int (got '' @ goType item @ '')'')
      | Some v \<Rightarrow>
          if (0 <s v \<and> MaxInt64 - v <s acc) \<or> (v <s 0 \<and> acc <s MinInt64 - v)
          then CErr (''sum: adding list element '' @ dec_nat i @ '' ('' @ dec (sint v) @ '') to ''
                     @ dec (sint acc) @ '' overflows int64'')
          else sumFrom (i + 1) (acc + v) rest)"

definition sumList :: "celVal \<Rightarrow> celVal" where
  "sumList v =
     (case v of CList items \<Rightarrow> sumFrom 0 0 items
      | _ \<Rightarrow> CErr (''sum: expected list, got '' @ goType v))"

definition absInt :: "celVal \<Rightarrow> celVal" where
  "absInt v =
     (case as_int64 v of
        None \<Rightarrow> CErr (''abs: expected int, got '' @ goType v)
      | Some i \<Rightarrow>
          if i = MinInt64 then CErr (''abs: input '' @ dec (sint i) @ '' overflows int64'')
          else if i <s 0 then CInt (- i)
          else CInt i)"

section \<open>Exactness of the integer built-ins\<close>

text \<open>
  The guard of \<open>sum\<close> is itself computed in 64 bits: \<open>MaxInt64 - v\<close> cannot wrap for a positive
  \<open>v\<close>, nor \<open>MinInt64 - v\<close> for a negative one, so the guard decides exactly whether the addition
  leaves the range.
\<close>

lemma sint_i64_range: "min_i64 \<le> sint (w :: i64)" "sint (w :: i64) \<le> max_i64"
  using sint_i64_bounds [of w] by (simp_all add: IsInt64_def)

lemma sint_i64_exact:
  fixes a b :: i64
  shows "IsInt64 (sint a + sint b) \<Longrightarrow> sint (a + b) = sint a + sint b"
    and "IsInt64 (sint a - sint b) \<Longrightarrow> sint (a - b) = sint a - sint b"
    and "IsInt64 (- sint a) \<Longrightarrow> sint (- a) = - sint a"
proof -
  have "a + b = of_int (sint a + sint b)" "a - b = of_int (sint a - sint b)" "- a = of_int (- sint a)"
    by simp_all
  then show "IsInt64 (sint a + sint b) \<Longrightarrow> sint (a + b) = sint a + sint b"
    and "IsInt64 (sint a - sint b) \<Longrightarrow> sint (a - b) = sint a - sint b"
    and "IsInt64 (- sint a) \<Longrightarrow> sint (- a) = - sint a"
    by (metis sint_of_int_i64)+
qed

lemma sint_limits [simp]: "sint MaxInt64 = max_i64" "sint MinInt64 = min_i64"
  unfolding MaxInt64_def MinInt64_def by (rule sint_of_int_i64, simp add: IsInt64_def)+

lemma sum_guard_exact:
  "((0 <s v \<and> MaxInt64 - v <s acc) \<or> (v <s 0 \<and> acc <s MinInt64 - v))
   \<longleftrightarrow> \<not> IsInt64 (sint acc + sint v)"
proof -
  have up: "0 < sint v \<Longrightarrow> sint (MaxInt64 - v) = max_i64 - sint v"
    using sint_i64_exact(2) [of MaxInt64 v] sint_i64_range [of v] by (simp add: IsInt64_def)
  have down: "sint v < 0 \<Longrightarrow> sint (MinInt64 - v) = min_i64 - sint v"
    using sint_i64_exact(2) [of MinInt64 v] sint_i64_range [of v] by (simp add: IsInt64_def)
  show ?thesis
  proof (cases "sint v" "0 :: int" rule: linorder_cases)
    case less
    then show ?thesis using down sint_i64_range [of acc] sint_i64_range [of v]
      by (auto simp: word_sless_alt IsInt64_def)
  next
    case equal
    then show ?thesis using sint_i64_range [of acc] by (auto simp: word_sless_alt IsInt64_def)
  next
    case greater
    then show ?thesis using up sint_i64_range [of acc] sint_i64_range [of v]
      by (auto simp: word_sless_alt IsInt64_def)
  qed
qed

fun sums_fit :: "int \<Rightarrow> int list \<Rightarrow> bool" where
  "sums_fit a [] = True"
| "sums_fit a (v # vs) = (IsInt64 (a + v) \<and> sums_fit (a + v) vs)"

lemma sums_fit_total: "IsInt64 a \<Longrightarrow> sums_fit a vs \<Longrightarrow> IsInt64 (a + sum_list vs)"
proof (induction vs arbitrary: a)
  case (Cons v vs)
  from Cons.IH [of "a + v"] Cons.prems show ?case by (simp add: add.assoc)
qed simp

lemma sumFrom_Cons: "sumFrom i acc (CInt v # rest) =
    (if IsInt64 (sint acc + sint v) then sumFrom (i + 1) (acc + v) rest
     else CErr (''sum: adding list element '' @ dec_nat i @ '' ('' @ dec (sint v) @ '') to ''
                     @ dec (sint acc) @ '' overflows int64''))"
  by (simp only: sumFrom.simps as_int64_def celVal.case option.case sum_guard_exact) simp

lemma sumFrom_fits: "sums_fit (sint acc) (map sint vs) \<Longrightarrow>
    sumFrom i acc (map CInt vs) = CInt (of_int (sint acc + (\<Sum>v\<leftarrow>vs. sint v)))"
proof (induction vs arbitrary: i acc)
  case (Cons v vs)
  then have "sint (acc + v) = sint acc + sint v" by (simp add: sint_i64_exact(1))
  with Cons show ?case by (simp add: sumFrom_Cons add.assoc del: sumFrom.simps)
qed simp

lemma sumFrom_overflow: "\<not> sums_fit (sint acc) (map sint vs) \<Longrightarrow>
    \<exists>m. sumFrom i acc (map CInt vs) = CErr m"
proof (induction vs arbitrary: i acc)
  case (Cons v vs)
  show ?case
  proof (cases "IsInt64 (sint acc + sint v)")
    case True
    with Cons show ?thesis by (simp add: sumFrom_Cons sint_i64_exact(1) del: sumFrom.simps)
  qed (simp add: sumFrom_Cons del: sumFrom.simps)
qed simp

text \<open>
  C28. \<open>sum\<close> over a list of ints never returns a wrapped value: it returns an int exactly when every
  running total fits int64, the int it returns is then the mathematical sum, and in every other
  case it returns an error.
\<close>

theorem sumList_exact:
  "(sumList (CList (map CInt vs)) = CInt w
      \<longleftrightarrow> sums_fit 0 (map sint vs) \<and> sint w = (\<Sum>v\<leftarrow>vs. sint v))
   \<and> ((\<exists>m. sumList (CList (map CInt vs)) = CErr m) \<longleftrightarrow> \<not> sums_fit 0 (map sint vs))"
proof (cases "sums_fit 0 (map sint vs)")
  case True
  then have "sint (of_int (\<Sum>v\<leftarrow>vs. sint v) :: i64) = (\<Sum>v\<leftarrow>vs. sint v)"
    using sums_fit_total [of 0 "map sint vs"] sint_of_int_i64 [of "\<Sum>v\<leftarrow>vs. sint v"]
    by (simp add: IsInt64_def)
  then have "CInt (of_int (\<Sum>v\<leftarrow>vs. sint v)) = CInt w \<longleftrightarrow> sint w = (\<Sum>v\<leftarrow>vs. sint v)"
    by (metis celVal.inject(1) of_int_sint_i64)
  then show ?thesis using True sumFrom_fits [of 0 vs 0] by (simp add: sumList_def)
next
  case False
  then show ?thesis using sumFrom_overflow [of 0 vs 0] by (auto simp: sumList_def)
qed

text \<open>\<open>abs\<close> is the exact absolute value, and an error on the one int that has none.\<close>

lemma absInt_exact:
  "absInt (CInt i) = (if IsInt64 \<bar>sint i\<bar> then CInt (of_int \<bar>sint i\<bar>)
     else CErr (''abs: input '' @ dec (sint i) @ '' overflows int64''))"
proof -
  have "i = MinInt64 \<longleftrightarrow> \<not> IsInt64 \<bar>sint i\<bar>"
  proof
    assume "\<not> IsInt64 \<bar>sint i\<bar>"
    then have "sint i = sint MinInt64" using sint_i64_range [of i]
      by (simp add: IsInt64_def abs_if split: if_splits; linarith)
    then show "i = MinInt64" by (simp only: signed_word_eqI)
  qed (simp add: IsInt64_def)
  moreover have "IsInt64 \<bar>sint i\<bar> \<Longrightarrow> i <s 0 \<Longrightarrow> - i = of_int \<bar>sint i\<bar>"
    by (simp add: word_sless_alt)
  moreover have "\<not> i <s 0 \<Longrightarrow> i = of_int \<bar>sint i\<bar>"
    by (simp add: word_sless_alt)
  ultimately show ?thesis by (auto simp: absInt_def as_int64_def)
qed

end
