(* ===== verification/Engine.thy ===== *)
theory Engine
  imports Builtins
begin

text \<open>
  The rule kernel, \<open>internal/engine/engine.go\<close>: building an engine, \<open>Compile\<close>, \<open>Evaluate\<close> and the
  budgeted \<open>EvaluateBatch\<close>. cel-go is the parameter \<open>celImpl\<close>: what its checker answers for an
  expression under given declarations, and what running an expression does, given the bindings,
  the cost limit and the evaluation context the bindings change. The request context is polled
  with \<open>ctx\<close>: the answer of its n-th \<open>Err()\<close> call; a deadline that fires inside cel-go is one of
  the errors \<open>celRun\<close> may return.
\<close>

section \<open>Declarations and bindings\<close>

datatype celType = StringType | IntType | BoolType | SourceType | ListType celType
  | MapType celType celType | OtherType string

record overload =
  ov_Func :: string
  ov_ID :: string
  ov_Args :: "celType list"
  ov_Result :: celType

definition declarations :: "overload list" where
  "declarations =
     (let srcT = SourceType; intMap = MapType StringType IntType; intList = ListType IntType in
      [ \<lparr> ov_Func = ''ledgerSet'', ov_ID = ''ledgerSet_string_string'',
          ov_Args = [StringType, StringType], ov_Result = srcT \<rparr>,
        \<lparr> ov_Func = ''pool'', ov_ID = ''pool_string'', ov_Args = [StringType], ov_Result = srcT \<rparr>,
        \<lparr> ov_Func = ''balance'', ov_ID = ''balance_source'', ov_Args = [srcT], ov_Result = IntType \<rparr>,
        \<lparr> ov_Func = ''balance'', ov_ID = ''balance_source_string'',
          ov_Args = [srcT, StringType], ov_Result = IntType \<rparr>,
        \<lparr> ov_Func = ''balances'', ov_ID = ''balances_source'', ov_Args = [srcT], ov_Result = intMap \<rparr>,
        \<lparr> ov_Func = ''sum'', ov_ID = ''sum_list_int'', ov_Args = [intList], ov_Result = IntType \<rparr>,
        \<lparr> ov_Func = ''abs'', ov_ID = ''abs_int'', ov_Args = [IntType], ov_Result = IntType \<rparr> ])"

text \<open>A binding is called with the argument values and the evaluation context it closes over.\<close>

type_synonym binding = "celVal list \<Rightarrow> evalCtx \<Rightarrow> celVal \<times> evalCtx"

definition bindings :: "(string \<times> binding) list" where
  "bindings =
     [ (''ledgerSet_string_string'', \<lambda>vs e. makeLedgerSet (vs ! 0) (vs ! 1) e),
       (''pool_string'', \<lambda>vs e. makePool (vs ! 0) e),
       (''balance_source'', \<lambda>vs e. (balanceSingleAsset (vs ! 0) e, e)),
       (''balance_source_string'', \<lambda>vs e. (balanceByAsset (vs ! 0) (vs ! 1) e, e)),
       (''balances_source'', \<lambda>vs e. (balancesAll (vs ! 0) e, e)),
       (''sum_list_int'', \<lambda>vs e. (sumList (vs ! 0), e)),
       (''abs_int'', \<lambda>vs e. (absInt (vs ! 0), e)) ]"

lemma bindings_match_declarations: "map fst bindings = map ov_ID declarations"
  by (simp add: bindings_def declarations_def Let_def)

section \<open>The engine\<close>

datatype celResult =
    CelEnvError gerror       (* cel.NewEnv over the bindings *)
  | CelIssues gerror         (* env.Compile *)
  | CelProgramError gerror   (* env.Program *)
  | CelEvalError gerror      (* program.ContextEval *)
  | CelValue celVal "nat option"

record celImpl =
  celNewEnv :: "overload list \<Rightarrow> gerror option"
  celCheck :: "overload list \<Rightarrow> string \<Rightarrow> string list + celType"
  celRun :: "(string \<times> binding) list \<Rightarrow> string \<Rightarrow> nat \<Rightarrow> evalCtx \<Rightarrow> celResult \<times> evalCtx"

type_synonym ctx = "nat \<Rightarrow> gerror option"

record engine =
  eng_cel :: celImpl
  eng_resolvers :: resolvers
  eng_limits :: limits

definition New :: "celImpl \<Rightarrow> resolvers \<Rightarrow> limits \<Rightarrow> gerror + engine" where
  "New cel r l =
     (if Ledger r = None then Inl (new_error ''engine: LedgerResolver is required'')
      else if Payments r = None then Inl (new_error ''engine: PaymentsResolver is required'')
      else
        let l' = mergeLimits l DefaultLimits in
        case celNewEnv cel declarations of
          Some err \<Rightarrow> Inl (wrap_error ''engine: build validation env'' err)
        | None \<Rightarrow> Inr \<lparr> eng_cel = cel, eng_resolvers = r, eng_limits = l' \<rparr>)"

record compiled =
  Source :: string

definition translateCompileError :: "string list \<Rightarrow> gerror" where
  "translateCompileError msgs = errorf ErrCompile (join ''; '' msgs)"

definition translateRuntimeError :: "gerror \<Rightarrow> gerror" where
  "translateRuntimeError err = (if errors_Is err ErrEvaluate then err else errorf ErrEvaluate (msg err))"

fun celType_string :: "celType \<Rightarrow> string" where
  "celType_string StringType = ''string''"
| "celType_string IntType = ''int''"
| "celType_string BoolType = ''bool''"
| "celType_string SourceType = celSourceType"
| "celType_string (ListType t) = ''list('' @ celType_string t @ '')''"
| "celType_string (MapType k v) = ''map('' @ celType_string k @ '', '' @ celType_string v @ '')''"
| "celType_string (OtherType t) = t"

text \<open>\<open>IsAssignableType(cel.BoolType)\<close>: the bool type, or the dynamic type.\<close>

definition assignableToBool :: "celType \<Rightarrow> bool" where
  "assignableToBool t \<longleftrightarrow> t = BoolType \<or> t = OtherType ''dyn''"

definition Compile :: "engine \<Rightarrow> string \<Rightarrow> gerror + compiled" where
  "Compile eng expression =
     (if expression = '''' then Inl (errorf ErrCompile ''expression is empty'')
      else
        case celCheck (eng_cel eng) declarations expression of
          Inl issues \<Rightarrow> Inl (translateCompileError issues)
        | Inr t \<Rightarrow>
            if \<not> assignableToBool t
            then Inl (errorf ErrCompile (''expression must evaluate to a boolean (got ''
                        @ celType_string t @ '')''))
            else Inr \<lparr> Source = expression \<rparr>)"

record evalInput =
  PIT :: time
  PITExplicit :: bool
  SourcePITs :: "(string \<times> time) list"
  in_SafetyMargin :: duration

record evalOutput =
  Passed :: bool
  Result :: celVal
  out_PitPerSource :: "(string \<times> time) list"
  CostUnits :: int

text \<open>The conversion \<open>int64(actualCost)\<close> of a \<open>uint64\<close>.\<close>

definition int64_of_uint64 :: "nat \<Rightarrow> int" where
  "int64_of_uint64 n = sint (word_of_nat n :: i64)"

definition evaluateOne ::
  "engine \<Rightarrow> compiled option \<Rightarrow> evalInput \<Rightarrow> resolvers \<Rightarrow> nat \<Rightarrow> gerror + (evalOutput \<times> nat)" where
  "evaluateOne eng c inp r costLimit =
     (case c of
        None \<Rightarrow> Inl (errorf ErrEvaluate ''nil compiled program'')
      | Some prog \<Rightarrow>
          let pit = (if in_SafetyMargin inp > 0 then PIT inp - in_SafetyMargin inp else PIT inp);
              ec = newEvalCtx pit (PITExplicit inp) r (newBudgetTracker (eng_limits eng));
              (res, ec') = celRun (eng_cel eng) bindings (Source prog) costLimit ec
          in case res of
               CelEnvError err \<Rightarrow> Inl (translateRuntimeError (wrap_error ''build eval env'' err))
             | CelIssues err \<Rightarrow> Inl (translateRuntimeError err)
             | CelProgramError err \<Rightarrow> Inl (translateRuntimeError (wrap_error ''build program'' err))
             | CelEvalError err \<Rightarrow> Inl (translateRuntimeError err)
             | CelValue v cost \<Rightarrow>
                 (case as_bool v of
                    None \<Rightarrow> Inl (translateRuntimeError
                              (new_error (''expression returned '' @ goType v @ '', expected bool'')))
                  | Some passed \<Rightarrow>
                      let actualCost = (case cost of None \<Rightarrow> 0 | Some n \<Rightarrow> n) in
                      Inr (\<lparr> Passed = passed, Result = v, out_PitPerSource = ec_pitPerSource ec',
                             CostUnits = int64_of_uint64 actualCost \<rparr>, actualCost)))"

fun evaluateAll :: "engine \<Rightarrow> compiled option list \<Rightarrow> evalInput \<Rightarrow> resolvers \<Rightarrow> nat \<Rightarrow> nat \<Rightarrow>
    gerror + evalOutput list" where
  "evaluateAll eng [] inp r i remainingCost = Inr []"
| "evaluateAll eng (expression # rest) inp r i remainingCost =
     (if remainingCost = 0
      then Inl (errorf ErrEvaluate (''cumulative CEL runtime cost exceeded after '' @ dec_nat i
                  @ '' expressions''))
      else
        case evaluateOne eng expression inp r remainingCost of
          Inl err \<Rightarrow> Inl err
        | Inr (out, cost) \<Rightarrow>
            if cost > remainingCost
            then Inl (errorf ErrEvaluate (''CEL reported cost '' @ dec_nat cost
                        @ '' above remaining limit '' @ dec_nat remainingCost))
            else
              case evaluateAll eng rest inp r (i + 1) (remainingCost - cost) of
                Inl err \<Rightarrow> Inl err
              | Inr outs \<Rightarrow> Inr (out # outs))"

definition EvaluateBatch ::
  "engine \<Rightarrow> compiled option list \<Rightarrow> evalInput \<Rightarrow> resolvers \<Rightarrow> gerror + evalOutput list" where
  "EvaluateBatch eng compiled inp r =
     (if compiled = [] then Inr []
      else evaluateAll eng compiled inp r 0 (MaxCELCost (eng_limits eng)))"

definition Evaluate :: "engine \<Rightarrow> compiled option \<Rightarrow> evalInput \<Rightarrow> gerror + evalOutput" where
  "Evaluate eng c inp =
     (case EvaluateBatch eng [c] inp (eng_resolvers eng) of
        Inl err \<Rightarrow> Inl err
      | Inr outs \<Rightarrow> Inr (hd outs))"

section \<open>Properties\<close>

lemma int64_of_uint64_small: "int n \<le> max_i64 \<Longrightarrow> int64_of_uint64 n = int n"
proof -
  assume "int n \<le> max_i64"
  then have "sint (of_int (int n) :: i64) = int n" by (intro sint_of_int_i64) (simp add: IsInt64_def)
  then show ?thesis by (simp add: int64_of_uint64_def)
qed

lemma translateRuntimeError_Is [simp]: "errors_Is (translateRuntimeError e) ErrEvaluate"
  by (simp add: translateRuntimeError_def)

lemma evaluateOne_error: "evaluateOne eng c inp r l = Inl e \<Longrightarrow> errors_Is e ErrEvaluate"
  by (auto simp: evaluateOne_def Let_def split: option.splits prod.splits celResult.splits)

lemma evaluateOne_cost: "evaluateOne eng c inp r l = Inr (out, cost) \<Longrightarrow>
    CostUnits out = int64_of_uint64 cost"
  by (auto simp: evaluateOne_def Let_def split: option.splits prod.splits celResult.splits)

lemma evaluateAll_ok:
  assumes "evaluateAll eng cs inp r i l = Inr outs" and "int l \<le> max_i64"
  shows "length outs = length cs \<and> (\<forall>q\<in>set outs. 0 \<le> CostUnits q)
         \<and> (\<Sum>q\<leftarrow>outs. CostUnits q) \<le> int l"
  using assms
proof (induction cs arbitrary: i l outs)
  case (Cons c cs)
  from Cons.prems(1) obtain out cost outs' where one: "evaluateOne eng c inp r l = Inr (out, cost)"
    and le: "cost \<le> l" and rest: "evaluateAll eng cs inp r (i + 1) (l - cost) = Inr outs'"
    and outs: "outs = out # outs'"
    by (auto split: if_splits sum.splits)
  from le Cons.prems(2) have "int (l - cost) \<le> max_i64" by linarith
  from Cons.IH [OF rest this] have IH: "length outs' = length cs" "\<forall>q\<in>set outs'. 0 \<le> CostUnits q"
    "(\<Sum>q\<leftarrow>outs'. CostUnits q) \<le> int (l - cost)" by auto
  have "CostUnits out = int cost"
    using evaluateOne_cost [OF one] le Cons.prems(2) by (simp add: int64_of_uint64_small)
  with IH le show ?case by (auto simp: outs)
qed simp

lemma evaluateAll_error: "evaluateAll eng cs inp r i l = Inl e \<Longrightarrow> errors_Is e ErrEvaluate"
  by (induction cs arbitrary: i l)
     (auto split: if_splits sum.splits dest: evaluateOne_error)

text \<open>
  C29. A batch that returns has one output per expression, and the costs it reports are
  non-negative and together never exceed the engine's budget, whatever cel-go reports.
\<close>

theorem EvaluateBatch_budget:
  assumes "EvaluateBatch eng cs inp r = Inr outs" and "int (MaxCELCost (eng_limits eng)) \<le> max_i64"
  shows "length outs = length cs \<and> (\<forall>q\<in>set outs. 0 \<le> CostUnits q)
         \<and> (\<Sum>q\<leftarrow>outs. CostUnits q) \<le> int (MaxCELCost (eng_limits eng))"
  using assms evaluateAll_ok [OF _ assms(2)]
  by (auto simp: EvaluateBatch_def split: if_splits)

definition toy_cel :: celImpl where
  "toy_cel = \<lparr> celNewEnv = \<lambda>_. None,
     celCheck = \<lambda>_ s. if s = ''1'' then Inr IntType else Inr BoolType,
     celRun = \<lambda>_ s l e. if l < 7 then (CelEvalError (new_error ''cost limit''), e)
                       else (CelValue (CBool (s = ''true'')) (Some 7), e) \<rparr>"

definition toy_engine :: engine where
  "toy_engine = \<lparr> eng_cel = toy_cel, eng_resolvers = \<lparr> Ledger = None, Payments = None \<rparr>,
     eng_limits = \<lparr> MaxCELCost = 20, MaxAccountsScanned = 10, MaxWallClock = second \<rparr> \<rparr>"

definition toy_input :: evalInput where
  "toy_input = \<lparr> PIT = 5, PITExplicit = False, SourcePITs = [], in_SafetyMargin = 0 \<rparr>"

definition toy_output :: "bool \<Rightarrow> evalOutput" where
  "toy_output b = \<lparr> Passed = b, Result = CBool b, out_PitPerSource = [], CostUnits = 7 \<rparr>"

lemma toy_evaluateOne: "7 \<le> l \<Longrightarrow> evaluateOne toy_engine (Some p) inp r l =
    Inr (toy_output (Source p = ''true''), 7)"
  using int64_of_uint64_small [of 7]
  by (simp add: evaluateOne_def toy_engine_def toy_cel_def as_bool_def newEvalCtx_def toy_output_def)

lemma toy_limit: "MaxCELCost (eng_limits toy_engine) = 20"
  by (simp add: toy_engine_def)

theorem EvaluateBatch_budget_witness:
  "EvaluateBatch toy_engine [Some \<lparr> Source = ''true'' \<rparr>, Some \<lparr> Source = ''false'' \<rparr>] toy_input
      (eng_resolvers toy_engine) = Inr [toy_output True, toy_output False]
   \<and> (\<Sum>q\<leftarrow>[toy_output True, toy_output False]. CostUnits q) \<le> 20"
proof -
  have run: "EvaluateBatch toy_engine [Some \<lparr> Source = ''true'' \<rparr>, Some \<lparr> Source = ''false'' \<rparr>] toy_input
      (eng_resolvers toy_engine) = Inr [toy_output True, toy_output False]"
    by (simp add: EvaluateBatch_def toy_evaluateOne toy_limit)
  show ?thesis using EvaluateBatch_budget [OF run] run by (simp add: toy_limit)
qed

text \<open>
  Every failure of an evaluation is classified as an evaluation error, so the caller never
  takes it for a data break; and every rejected expression is a compile error.
\<close>

theorem engine_errors_classified:
  "(EvaluateBatch eng cs inp r = Inl e \<longrightarrow> errors_Is e ErrEvaluate)
   \<and> (Compile eng s = Inl e' \<longrightarrow> errors_Is e' ErrCompile)"
proof -
  have "EvaluateBatch eng cs inp r = Inl e \<Longrightarrow> errors_Is e ErrEvaluate"
    by (auto simp: EvaluateBatch_def split: if_splits dest: evaluateAll_error)
  moreover have "Compile eng s = Inl e' \<Longrightarrow> errors_Is e' ErrCompile"
    by (auto simp: Compile_def translateCompileError_def split: if_splits sum.splits)
  ultimately show ?thesis by blast
qed

theorem engine_errors_classified_witness:
  "errors_Is (errorf ErrCompile ''expression must evaluate to a boolean (got int)'') ErrCompile
   \<and> Compile toy_engine ''1'' = Inl (errorf ErrCompile ''expression must evaluate to a boolean (got int)'')"
proof -
  have c: "Compile toy_engine ''1'' = Inl (errorf ErrCompile ''expression must evaluate to a boolean (got int)'')"
    by (simp add: Compile_def toy_engine_def toy_cel_def assignableToBool_def)
  with engine_errors_classified [of toy_engine "[]" undefined undefined undefined "''1''"] show ?thesis
    by blast
qed

lemma mergeLimits_positive:
  "0 < MaxCELCost (mergeLimits l DefaultLimits)"
  "MaxAccountsScanned (mergeLimits l DefaultLimits) \<noteq> 0"
  "MaxWallClock (mergeLimits l DefaultLimits) \<noteq> 0"
  by (simp_all add: mergeLimits_def DefaultLimits_def)

lemma New_ok: "New cel r l = Inr eng \<Longrightarrow>
    Ledger (eng_resolvers eng) \<noteq> None \<and> Payments (eng_resolvers eng) \<noteq> None
    \<and> 0 < MaxCELCost (eng_limits eng)"
  using mergeLimits_positive(1) [of l]
  by (auto simp: New_def Let_def split: if_splits option.splits)

end
