(* ===== verification/TemplateBase.thy ===== *)
theory TemplateBase
  imports Engine
begin

text \<open>
  What the rule templates share, \<open>internal/templates/{template,helpers,source}.go\<close>: outcomes and
  results, source keys and instants, balance sources, fingerprints, and the step that hands the
  verdict to the kernel. A nil resolver that would be dereferenced is an error value
  (\<open>nilDereference\<close>); \<open>requireResolvers\<close> excludes it in every template.
\<close>

section \<open>Outcomes (templates/template.go)\<close>

record outcome =
  oc_Fingerprint :: string
  oc_Passed :: bool
  oc_Evidence :: "(string \<times> json) list"
  oc_Proof :: "(string \<times> string) list"

record evalResult =
  er_Outcomes :: "outcome list"
  er_PitPerSource :: "(string \<times> time) list"
  er_CostUnits :: int

definition emptyResult :: evalResult where
  "emptyResult = \<lparr> er_Outcomes = [], er_PitPerSource = [], er_CostUnits = 0 \<rparr>"

text \<open>The pair of results of a Go call: the result pointer and the error.\<close>

type_synonym templateAnswer = "evalResult option \<times> gerror option"

section \<open>Helpers (templates/helpers.go)\<close>

definition zeroIfNil :: "int option \<Rightarrow> int" where
  "zeroIfNil v = (case v of None \<Rightarrow> 0 | Some i \<Rightarrow> i)"

text \<open>\<open>m[asset]\<close> on a balance map, with nil for a missing key, then \<open>zeroIfNil\<close>.\<close>

definition balanceOf :: "balances \<Rightarrow> string \<Rightarrow> int" where
  "balanceOf m asset = zeroIfNil (case map_of m asset of None \<Rightarrow> None | Some v \<Rightarrow> v)"

text \<open>\<open>m[k]\<close> on a map of integers: the zero value for a missing key.\<close>

definition mapGet :: "(string \<times> int) list \<Rightarrow> string \<Rightarrow> int" where
  "mapGet m k = (case map_of m k of None \<Rightarrow> 0 | Some v \<Rightarrow> v)"

definition hasMeaningfulJSON :: "rawJSON \<Rightarrow> bool" where
  "hasMeaningfulJSON raw =
     (if raw = '''' then False
      else
        let trimmed = TrimSpace raw in
        if trimmed = '''' \<or> trimmed = ''null'' then False
        else (case parse_doc raw of Some (JObj _) \<Rightarrow> True | _ \<Rightarrow> False))"

text \<open>\<open>strconv.Quote\<close>; bytes from 128 up are copied.\<close>

definition quote_char :: "char \<Rightarrow> string" where
  "quote_char c =
     (if c = CHR 0x22 \<or> c = CHR 0x5C then [CHR 0x5C, c]
      else if c = CHR 0x07 then [CHR 0x5C, CHR ''a'']
      else if c = CHR 0x08 then [CHR 0x5C, CHR ''b'']
      else if c = CHR 0x0C then [CHR 0x5C, CHR ''f'']
      else if c = CHR 0x0A then [CHR 0x5C, CHR ''n'']
      else if c = CHR 0x0D then [CHR 0x5C, CHR ''r'']
      else if c = CHR 0x09 then [CHR 0x5C, CHR ''t'']
      else if c = CHR 0x0B then [CHR 0x5C, CHR ''v'']
      else if is_control c \<or> c = CHR 0x7F then
        [CHR 0x5C, CHR ''x'', hex_digit (code c div 16), hex_digit (code c mod 16)]
      else [c])"

definition Quote :: "string \<Rightarrow> string" where
  "Quote s = CHR 0x22 # concat (map quote_char s) @ [CHR 0x22]"

definition celString :: "string \<Rightarrow> string" where
  "celString s = Quote s"

definition celJSON :: "rawJSON \<Rightarrow> string" where
  "celJSON raw = (if raw = '''' then celString ''{}'' else celString raw)"

text \<open>The axis/value pairs come as pairs, so the odd-length panic cannot arise.\<close>

fun fingerprintFor :: "(string \<times> string) list \<Rightarrow> string" where
  "fingerprintFor [] = ''''"
| "fingerprintFor [(a, v)] = a @ '':'' @ v"
| "fingerprintFor ((a, v) # p # ps) = a @ '':'' @ v @ ''|'' @ fingerprintFor (p # ps)"

definition sortedKeys :: "(string \<times> 'v) list \<Rightarrow> string list" where
  "sortedKeys m = sort (keys_of m)"

type_synonym sourceKeyer = "(string \<times> nat) list"

definition newSourceKeyer :: sourceKeyer where "newSourceKeyer = []"

definition keyer_key :: "sourceKeyer \<Rightarrow> string \<Rightarrow> string \<times> sourceKeyer" where
  "keyer_key seen label =
     (let i = (case map_of seen label of None \<Rightarrow> 0 | Some n \<Rightarrow> n)
      in (label @ ''#'' @ dec_nat i, map_put label (i + 1) seen))"

definition effectiveSourcePIT :: "evalInput \<Rightarrow> string \<Rightarrow> time \<times> bool" where
  "effectiveSourcePIT inp key =
     (case map_of (SourcePITs inp) key of
        Some p \<Rightarrow> (p, True)
      | None \<Rightarrow>
          (if in_SafetyMargin inp > 0 then PIT inp - in_SafetyMargin inp else PIT inp,
           PITExplicit inp))"

fun compileAll :: "ctx \<Rightarrow> engine \<Rightarrow> nat \<Rightarrow> string list \<Rightarrow> gerror + compiled option list" where
  "compileAll ctxErr eng i [] = Inr []"
| "compileAll ctxErr eng i (e # es) =
     (case ctxErr i of
        Some err \<Rightarrow> Inl err
      | None \<Rightarrow>
     (case Compile eng e of
        Inl err \<Rightarrow> Inl (wrap_error (''compile snapshot expression '' @ dec_nat i) err)
      | Inr prog \<Rightarrow>
     (case compileAll ctxErr eng (i + 1) es of
        Inl err \<Rightarrow> Inl err
      | Inr progs \<Rightarrow> Inr (Some prog # progs))))"

fun setVerdicts :: "outcome list \<Rightarrow> evalOutput list \<Rightarrow> outcome list" where
  "setVerdicts (oc # ocs) (q # qs) = oc\<lparr> oc_Passed := Passed q \<rparr> # setVerdicts ocs qs"
| "setVerdicts ocs _ = ocs"

definition applyKernelVerdicts ::
  "ctx \<Rightarrow> engine \<Rightarrow> evalInput \<Rightarrow> evalResult \<Rightarrow> string list \<Rightarrow> gerror option \<times> evalResult" where
  "applyKernelVerdicts ctxErr eng inp result expressions =
     (if length (er_Outcomes result) \<noteq> length expressions
      then (Some (new_error (''kernel expression count '' @ dec_nat (length expressions)
              @ '' does not match outcome count '' @ dec_nat (length (er_Outcomes result)))), result)
      else
        case compileAll ctxErr eng 0 expressions of
          Inl err \<Rightarrow> (Some err, result)
        | Inr compiled \<Rightarrow>
            (case EvaluateBatch eng compiled
                    \<lparr> PIT = PIT inp, PITExplicit = False, SourcePITs = [], in_SafetyMargin = 0 \<rparr>
                    \<lparr> Ledger = None, Payments = None \<rparr> of
               Inl err \<Rightarrow> (Some err, result)
             | Inr outputs \<Rightarrow>
                 (None, result\<lparr> er_Outcomes := setVerdicts (er_Outcomes result) outputs,
                                er_CostUnits := er_CostUnits result + (\<Sum>q\<leftarrow>outputs. CostUnits q) \<rparr>)))"

definition snapshotVerdictExpression :: "string \<Rightarrow> bool \<Rightarrow> int list \<Rightarrow> string" where
  "snapshotVerdictExpression expression passed values =
     (if list_ex (\<lambda>v. \<not> IsInt64 v) values then FormatBool passed else expression)"

definition unionAssets :: "string list list \<Rightarrow> string list" where
  "unionAssets keysets = sort (remdups (concat keysets))"

fun requireResolvers :: "resolvers \<Rightarrow> string list \<Rightarrow> gerror option" where
  "requireResolvers r [] = None"
| "requireResolvers r (name # needs) =
     (if name = ''ledger'' then
        (if Ledger r = None then Some (errorf ErrResolverUnavailable ''ledger'')
         else requireResolvers r needs)
      else if name = ''payments'' then
        (if Payments r = None then Some (errorf ErrResolverUnavailable ''payments'')
         else requireResolvers r needs)
      else Some (errorf ErrResolverUnavailable (''unknown resolver '' @ Quote name)))"

definition unmarshalSpec :: "'a decoder \<Rightarrow> rawJSON \<Rightarrow> 'a \<Rightarrow> gerror + 'a" where
  "unmarshalSpec d raw into =
     (if raw = '''' then Inl (errorf ErrInvalidSpec ''spec is empty'')
      else case Unmarshal d raw into of
        Inl err \<Rightarrow> Inl (errorf ErrInvalidSpec (msg err))
      | Inr spec \<Rightarrow> Inr spec)"

definition nilDereference :: gerror where
  "nilDereference = new_error ''runtime error: invalid memory address or nil pointer dereference''"

text \<open>The first negative tolerance the map iteration meets, shared by three of the templates.\<close>

fun checkTolerance :: "(string \<times> int) list \<Rightarrow> gerror option" where
  "checkTolerance [] = None"
| "checkTolerance ((asset, tol) # ts) =
     (if tol < 0 then Some (errorf ErrInvalidSpec (''tolerance for '' @ asset @ '' must be >= 0, got '' @ dec tol))
      else checkTolerance ts)"

text \<open>The first tolerance in key order, as \<open>Explain\<close> shows it.\<close>

definition firstTolerance :: "(string \<times> int) list \<Rightarrow> string" where
  "firstTolerance tol = (case sortedKeys tol of [] \<Rightarrow> ''0'' | asset # _ \<Rightarrow> dec (mapGet tol asset))"

section \<open>Balance sources (templates/source.go)\<close>

type_synonym scope = string

abbreviation "ScopeAggregate \<equiv> ''aggregate'' :: scope"
abbreviation "ScopePerAccount \<equiv> ''per_account'' :: scope"

definition Scope_Valid :: "scope \<Rightarrow> bool" where
  "Scope_Valid s \<longleftrightarrow> s \<in> {'''', ScopeAggregate, ScopePerAccount}"

definition perAccountParkedMsg :: string where
  "perAccountParkedMsg =
     ''per_account granularity is parked in V1 (per-asset/aggregate only); see docs/technical/templates.md''"

abbreviation "SourceLedger \<equiv> ''ledger''"
abbreviation "SourcePool \<equiv> ''payments_pool''"

record sourceSpec =
  ss_Kind :: string
  ss_Ledger :: string
  ss_Query :: rawJSON
  ss_PoolID :: string

definition zeroSource :: sourceSpec where
  "zeroSource = \<lparr> ss_Kind = '''', ss_Ledger = '''', ss_Query = '''', ss_PoolID = '''' \<rparr>"

definition ledgerSource :: "string \<Rightarrow> rawJSON \<Rightarrow> sourceSpec" where
  "ledgerSource l q = \<lparr> ss_Kind = SourceLedger, ss_Ledger = l, ss_Query = q, ss_PoolID = '''' \<rparr>"

definition poolSource :: "string \<Rightarrow> sourceSpec" where
  "poolSource p = \<lparr> ss_Kind = SourcePool, ss_Ledger = '''', ss_Query = '''', ss_PoolID = p \<rparr>"

definition SourceSpec_decode :: "sourceSpec decoder" where
  "SourceSpec_decode = dec_struct (\<lambda>key t s.
     if field ''kind'' key then map_option (\<lambda>v. s\<lparr> ss_Kind := v \<rparr>) (dec_string t (ss_Kind s))
     else if field ''ledger'' key then map_option (\<lambda>v. s\<lparr> ss_Ledger := v \<rparr>) (dec_string t (ss_Ledger s))
     else if field ''query'' key then map_option (\<lambda>v. s\<lparr> ss_Query := v \<rparr>) (dec_raw t (ss_Query s))
     else if field ''poolID'' key then map_option (\<lambda>v. s\<lparr> ss_PoolID := v \<rparr>) (dec_string t (ss_PoolID s))
     else Some s)"

definition SourceSpec_Validate :: "sourceSpec \<Rightarrow> string \<Rightarrow> gerror option" where
  "SourceSpec_Validate s fld =
     (if ss_Kind s = SourceLedger then
        (if ss_Ledger s = '''' then
           Some (errorf ErrInvalidSpec (fld @ ''.ledger is required for kind '' @ Quote (ss_Kind s)))
         else if \<not> hasMeaningfulJSON (ss_Query s) then
           Some (errorf ErrInvalidSpec (fld @ ''.query is required for kind '' @ Quote (ss_Kind s)))
         else None)
      else if ss_Kind s = SourcePool then
        (if ss_PoolID s = '''' then
           Some (errorf ErrInvalidSpec (fld @ ''.poolID is required for kind '' @ Quote (ss_Kind s)))
         else None)
      else if ss_Kind s = '''' then Some (errorf ErrInvalidSpec (fld @ ''.kind is required''))
      else Some (errorf ErrInvalidSpec (fld @ ''.kind '' @ Quote (ss_Kind s) @ '' must be one of ''
                   @ Quote SourceLedger @ '', '' @ Quote SourcePool)))"

definition resolverNeed :: "sourceSpec \<Rightarrow> string" where
  "resolverNeed s = (if ss_Kind s = SourcePool then ''payments'' else ''ledger'')"

text \<open>\<open>now\<close> is the clock reading of the pool's latest-balance path.\<close>

definition SourceSpec_resolve ::
  "sourceSpec \<Rightarrow> resolvers \<Rightarrow> time \<Rightarrow> time \<Rightarrow> bool \<Rightarrow> gerror + (balances \<times> time)" where
  "SourceSpec_resolve s r now pit explicit =
     (if ss_Kind s = SourceLedger then
        (case Ledger r of
           None \<Rightarrow> Inl nilDereference
         | Some l \<Rightarrow>
             (case AggregateBalance l (ss_Ledger s) (ss_Query s) pit of
                Inl err \<Rightarrow> Inl err
              | Inr balances \<Rightarrow> Inr (balances, pit)))
      else if ss_Kind s = SourcePool then
        (case Payments r of
           None \<Rightarrow> Inl nilDereference
         | Some p \<Rightarrow>
             let poolPIT = (if explicit then Some pit else None) in
             (case PoolBalance p (ss_PoolID s) poolPIT of
                Inl err \<Rightarrow> Inl err
              | Inr balances \<Rightarrow> if poolPIT = None then Inr (balances, now) else Inr (balances, pit)))
      else Inl (errorf ErrInvalidSpec (''cannot resolve source kind '' @ Quote (ss_Kind s))))"

definition celTerm :: "sourceSpec \<Rightarrow> string \<Rightarrow> string" where
  "celTerm s assetExpr =
     (if ss_Kind s = SourceLedger then
        ''balance(ledgerSet('' @ celString (ss_Ledger s) @ '', '' @ celJSON (ss_Query s) @ ''), ''
          @ assetExpr @ '')''
      else if ss_Kind s = SourcePool then
        ''balance(pool('' @ celString (ss_PoolID s) @ ''), '' @ assetExpr @ '')''
      else '''')"

definition supportsPerAccount :: "sourceSpec \<Rightarrow> bool" where
  "supportsPerAccount s \<longleftrightarrow> ss_Kind s = SourceLedger"

definition resolveAccounts ::
  "sourceSpec \<Rightarrow> resolvers \<Rightarrow> time \<Rightarrow> int \<Rightarrow> gerror + account list" where
  "resolveAccounts s r pit limit =
     (if \<not> supportsPerAccount s then
        Inl (errorf ErrInvalidSpec (''per-account scope is not supported for source kind ''
               @ Quote (ss_Kind s) @ '' (pools are aggregate-only)''))
      else case Ledger r of
        None \<Rightarrow> Inl nilDereference
      | Some l \<Rightarrow> ListAccounts l (ss_Ledger s) (ss_Query s) pit limit)"

definition accountAddressQuery :: "string \<Rightarrow> rawJSON" where
  "accountAddressQuery address = marshal (JObj [(''$match'', JObj [(''address'', JStr address)])])"

definition celTermForAccount :: "sourceSpec \<Rightarrow> string \<Rightarrow> string \<Rightarrow> string" where
  "celTermForAccount s address assetExpr =
     ''balance(ledgerSet('' @ celString (ss_Ledger s) @ '', '' @ celJSON (accountAddressQuery address)
       @ ''), '' @ assetExpr @ '')''"

definition accountsByAddress :: "account list \<Rightarrow> (string \<times> balances) list" where
  "accountsByAddress accts = fold (\<lambda>a m. map_put (acct_Address a) (acct_Balances a) m) accts []"

definition source_label :: "sourceSpec \<Rightarrow> string" where
  "source_label s =
     (if ss_Kind s = SourceLedger then ''ledger:'' @ ss_Ledger s
      else if ss_Kind s = SourcePool then ''pool:'' @ ss_PoolID s
      else ss_Kind s)"

lemma unmarshalSpec_decode: "unmarshalSpec d raw z = Inr spec \<Longrightarrow> d raw z = Some spec"
  by (auto simp: unmarshalSpec_def Unmarshal_def split: if_splits option.splits)

end
