(* ===== verification/Snapshot.thy ===== *)
theory Snapshot
  imports TemplateBase
begin

text \<open>
  The snapshot expressions the templates send to the kernel, as a syntax tree: how a tree is
  rendered, and what CEL's checked 64-bit arithmetic and the kernel's \<open>abs\<close> make of it. A CEL
  implementation is \<open>celOK\<close> for an expression when it type-checks it and evaluates it to that
  meaning within its cost. The lemmas show that the meaning is the exact integer predicate
  whenever every intermediate value fits int64, which is what \<open>snapshotVerdictExpression\<close> guards,
  and hence that a run of \<open>applyKernelVerdicts\<close> confirms the verdicts the template computed.
\<close>

datatype aexp = ALit int | APar aexp | AAdd aexp aexp | ASub aexp aexp

datatype snap =
    SBool bool
  | SAbsLe aexp int
  | SGe aexp int
  | SLe aexp int
  | SAnd snap snap

fun renderA :: "aexp \<Rightarrow> string" where
  "renderA (ALit i) = dec i"
| "renderA (APar a) = ''('' @ renderA a @ '')''"
| "renderA (AAdd a b) = renderA a @ '' + '' @ renderA b"
| "renderA (ASub a b) = renderA a @ '' - '' @ renderA b"

fun render :: "snap \<Rightarrow> string" where
  "render (SBool b) = FormatBool b"
| "render (SAbsLe a t) = ''abs('' @ renderA a @ '') <= '' @ dec t"
| "render (SGe a t) = renderA a @ '' >= '' @ dec t"
| "render (SLe a t) = renderA a @ '' <= '' @ dec t"
| "render (SAnd s u) = render s @ '' && '' @ render u"

text \<open>CEL's meaning: \<open>None\<close> is an overflow or an out-of-range literal.\<close>

definition checked :: "int \<Rightarrow> i64 option" where
  "checked i = (if IsInt64 i then Some (of_int i) else None)"

fun denoteA :: "aexp \<Rightarrow> i64 option" where
  "denoteA (ALit i) = checked i"
| "denoteA (APar a) = denoteA a"
| "denoteA (AAdd a b) = Option.bind (denoteA a) (\<lambda>x. Option.bind (denoteA b) (\<lambda>y. checked (sint x + sint y)))"
| "denoteA (ASub a b) = Option.bind (denoteA a) (\<lambda>x. Option.bind (denoteA b) (\<lambda>y. checked (sint x - sint y)))"

fun denote :: "snap \<Rightarrow> bool option" where
  "denote (SBool b) = Some b"
| "denote (SAbsLe a t) = Option.bind (denoteA a) (\<lambda>x.
     Option.bind (as_int64 (absInt (CInt x))) (\<lambda>v. map_option (\<lambda>w. v \<le>s w) (checked t)))"
| "denote (SGe a t) = Option.bind (denoteA a) (\<lambda>x. map_option (\<lambda>w. w \<le>s x) (checked t))"
| "denote (SLe a t) = Option.bind (denoteA a) (\<lambda>x. map_option (\<lambda>w. x \<le>s w) (checked t))"
| "denote (SAnd s u) = Option.bind (denote s) (\<lambda>b. map_option (\<lambda>c. b \<and> c) (denote u))"

text \<open>The exact meaning over the integers, and the values that occur on the way.\<close>

fun exactA :: "aexp \<Rightarrow> int" where
  "exactA (ALit i) = i"
| "exactA (APar a) = exactA a"
| "exactA (AAdd a b) = exactA a + exactA b"
| "exactA (ASub a b) = exactA a - exactA b"

fun valsA :: "aexp \<Rightarrow> int list" where
  "valsA (ALit i) = [i]"
| "valsA (APar a) = valsA a"
| "valsA (AAdd a b) = valsA a @ valsA b @ [exactA a + exactA b]"
| "valsA (ASub a b) = valsA a @ valsA b @ [exactA a - exactA b]"

fun exact :: "snap \<Rightarrow> bool" where
  "exact (SBool b) = b"
| "exact (SAbsLe a t) \<longleftrightarrow> \<bar>exactA a\<bar> \<le> t"
| "exact (SGe a t) \<longleftrightarrow> t \<le> exactA a"
| "exact (SLe a t) \<longleftrightarrow> exactA a \<le> t"
| "exact (SAnd s u) \<longleftrightarrow> exact s \<and> exact u"

fun vals :: "snap \<Rightarrow> int list" where
  "vals (SBool b) = []"
| "vals (SAbsLe a t) = valsA a @ [\<bar>exactA a\<bar>, t]"
| "vals (SGe a t) = valsA a @ [t]"
| "vals (SLe a t) = valsA a @ [t]"
| "vals (SAnd s u) = vals s @ vals u"

lemma exactA_in_valsA: "exactA a \<in> set (valsA a)"
  by (induction a) auto

lemma denoteA_exact: "list_all IsInt64 (valsA a) \<Longrightarrow> denoteA a = Some (of_int (exactA a))"
proof (induction a)
  case (AAdd a b)
  have "IsInt64 (exactA a)" "IsInt64 (exactA b)"
    using AAdd.prems exactA_in_valsA [of a] exactA_in_valsA [of b] by (auto simp: list_all_iff)
  with AAdd show ?case by (simp add: checked_def)
next
  case (ASub a b)
  have "IsInt64 (exactA a)" "IsInt64 (exactA b)"
    using ASub.prems exactA_in_valsA [of a] exactA_in_valsA [of b] by (auto simp: list_all_iff)
  with ASub show ?case by (simp add: checked_def)
qed (simp_all add: checked_def)

lemma sle_of_int: "IsInt64 i \<Longrightarrow> IsInt64 j \<Longrightarrow> ((of_int i :: i64) \<le>s of_int j) = (i \<le> j)"
  by (simp add: word_sle_eq)

text \<open>Where nothing overflows, the kernel's verdict is the integer predicate.\<close>

lemma denote_exact: "list_all IsInt64 (vals s) \<Longrightarrow> denote s = Some (exact s)"
proof (induction s)
  case (SAbsLe a t)
  have "IsInt64 (exactA a)" "IsInt64 \<bar>exactA a\<bar>" "IsInt64 t" "denoteA a = Some (of_int (exactA a))"
    using SAbsLe.prems exactA_in_valsA [of a] by (auto simp: list_all_iff intro!: denoteA_exact)
  then show ?case
    by (simp add: absInt_exact as_int64_def checked_def sle_of_int del: of_int_abs)
next
  case (SGe a t)
  have "IsInt64 (exactA a)" "IsInt64 t" "denoteA a = Some (of_int (exactA a))"
    using SGe.prems exactA_in_valsA [of a] by (auto simp: list_all_iff intro!: denoteA_exact)
  then show ?case by (simp add: checked_def sle_of_int)
next
  case (SLe a t)
  have "IsInt64 (exactA a)" "IsInt64 t" "denoteA a = Some (of_int (exactA a))"
    using SLe.prems exactA_in_valsA [of a] by (auto simp: list_all_iff intro!: denoteA_exact)
  then show ?case by (simp add: checked_def sle_of_int)
qed (auto simp: list_all_iff)

section \<open>A CEL implementation that follows the meaning\<close>

definition celOK :: "celImpl \<Rightarrow> (string \<Rightarrow> nat) \<Rightarrow> snap \<Rightarrow> bool" where
  "celOK cel cost s \<longleftrightarrow>
     celCheck cel declarations (render s) = Inr BoolType \<and>
     (\<forall>b l e. denote s = Some b \<longrightarrow>
        (cost (render s) \<le> l \<longrightarrow>
           celRun cel bindings (render s) l e = (CelValue (CBool b) (Some (cost (render s))), e)) \<and>
        (l < cost (render s) \<longrightarrow> (\<exists>err. celRun cel bindings (render s) l e = (CelEvalError err, e))))"

definition guarded :: "snap \<Rightarrow> bool \<Rightarrow> int list \<Rightarrow> snap" where
  "guarded s passed vs = (if list_ex (\<lambda>v. \<not> IsInt64 v) vs then SBool passed else s)"

lemma render_guarded: "snapshotVerdictExpression (render s) passed vs = render (guarded s passed vs)"
  by (simp add: snapshotVerdictExpression_def guarded_def)

lemma denote_guarded:
  assumes "\<And>v. v \<in> set (vals s) \<Longrightarrow> v \<in> set vs \<or> IsInt64 v" and "passed = exact s"
  shows "denote (guarded s passed vs) = Some passed"
proof (cases "list_ex (\<lambda>v. \<not> IsInt64 v) vs")
  case False
  then have "list_all IsInt64 (vals s)" using assms(1) by (auto simp: list_ex_iff list_all_iff)
  with False assms(2) show ?thesis by (simp add: guarded_def denote_exact)
qed (simp add: guarded_def)

lemma render_nonempty [simp]: "render s \<noteq> ''''"
proof -
  have "renderA a \<noteq> ''''" for a by (induction a) (auto simp: dec_def)
  then show ?thesis by (induction s) (auto simp: FormatBool_def)
qed

lemma compile_render: "celOK (eng_cel eng) cost s \<Longrightarrow>
    Compile eng (render s) = Inr \<lparr> Source = render s \<rparr>"
  by (simp add: Compile_def celOK_def assignableToBool_def)

lemma compileAll_render:
  "(\<And>n. ctxErr n = None) \<Longrightarrow> (\<And>s. s \<in> set es \<Longrightarrow> celOK (eng_cel eng) cost s) \<Longrightarrow>
   compileAll ctxErr eng i (map render es) = Inr (map (\<lambda>s. Some \<lparr> Source = render s \<rparr>) es)"
proof (induction es arbitrary: i)
  case (Cons s es)
  then have "Compile eng (render s) = Inr \<lparr> Source = render s \<rparr>" by (intro compile_render) auto
  with Cons show ?case by simp
qed simp

definition total_cost :: "(string \<Rightarrow> nat) \<Rightarrow> snap list \<Rightarrow> nat" where
  "total_cost cost es = (\<Sum>s\<leftarrow>es. cost (render s))"

lemma total_cost_simps [simp]:
  "total_cost cost [] = 0" "total_cost cost (s # es) = cost (render s) + total_cost cost es"
  by (simp_all add: total_cost_def)

lemma evaluateOne_render:
  assumes "celOK (eng_cel eng) cost s" and "denote s = Some b" and "cost (render s) \<le> l"
  shows "\<exists>q. evaluateOne eng (Some \<lparr> Source = render s \<rparr>) inp r l = Inr (q, cost (render s))
             \<and> Passed q = b \<and> CostUnits q = int64_of_uint64 (cost (render s))"
proof -
  have "celRun (eng_cel eng) bindings (render s) l e = (CelValue (CBool b) (Some (cost (render s))), e)" for e
    using assms by (simp add: celOK_def)
  then show ?thesis by (simp add: evaluateOne_def as_bool_def Let_def)
qed

lemma evaluateAll_render:
  assumes "\<And>s. s \<in> set es \<Longrightarrow> celOK (eng_cel eng) cost s"
    and "list_all2 (\<lambda>s b. denote s = Some b) es bs"
    and "total_cost cost es < l" and "int l \<le> max_i64"
  shows "\<exists>outs. evaluateAll eng (map (\<lambda>s. Some \<lparr> Source = render s \<rparr>) es) inp r i l = Inr outs
             \<and> map Passed outs = bs \<and> (\<Sum>q\<leftarrow>outs. CostUnits q) = int (total_cost cost es)"
  using assms(2,1,3,4)
proof (induction arbitrary: i l rule: list_all2_induct)
  case Nil
  then show ?case by simp
next
  case (Cons s es b bs)
  obtain q where q: "evaluateOne eng (Some \<lparr> Source = render s \<rparr>) inp r l = Inr (q, cost (render s))"
      "Passed q = b" "CostUnits q = int64_of_uint64 (cost (render s))"
    using evaluateOne_render [of eng cost s b l inp r] Cons.hyps(1) Cons.prems(1,2) by auto
  have cost: "CostUnits q = int (cost (render s))"
    using q(3) Cons.prems(2,3) by (simp add: int64_of_uint64_small)
  obtain outs where "evaluateAll eng (map (\<lambda>s. Some \<lparr> Source = render s \<rparr>) es) inp r (i + 1)
        (l - cost (render s)) = Inr outs" "map Passed outs = bs"
      "(\<Sum>q\<leftarrow>outs. CostUnits q) = int (total_cost cost es)"
  proof -
    have "total_cost cost es < l - cost (render s)" "int (l - cost (render s)) \<le> max_i64"
      using Cons.prems(2,3) by auto
    with Cons.IH [of "l - cost (render s)" "i + 1"] Cons.prems(1) that show thesis by auto
  qed
  with q(1,2) cost Cons.prems(2) show ?case by simp
qed

lemma setVerdicts_same: "map Passed outs = map oc_Passed ocs \<Longrightarrow> setVerdicts ocs outs = ocs"
proof (induction ocs arbitrary: outs)
  case (Cons oc ocs)
  then show ?case by (cases outs) auto
qed simp

lemma evaluateOne_render_any:
  assumes "celOK (eng_cel eng) cost s" and "denote s = Some b"
    and "evaluateOne eng (Some \<lparr> Source = render s \<rparr>) inp r l = Inr (q, c)"
  shows "Passed q = b"
proof (cases "cost (render s) \<le> l")
  case True
  from evaluateOne_render [OF assms(1,2) True, of inp r] assms(3) show ?thesis by auto
next
  case False
  then have "\<exists>err. celRun (eng_cel eng) bindings (render s) l e = (CelEvalError err, e)" for e
    using assms(1,2) by (simp add: celOK_def)
  from this [of "newEvalCtx (if in_SafetyMargin inp > 0 then PIT inp - in_SafetyMargin inp else PIT inp)
      (PITExplicit inp) r (newBudgetTracker (eng_limits eng))"] assms(3)
  show ?thesis by (auto simp: evaluateOne_def Let_def)
qed

lemma evaluateAll_render_any:
  assumes "\<And>s. s \<in> set es \<Longrightarrow> celOK (eng_cel eng) cost s"
    and "list_all2 (\<lambda>s b. denote s = Some b) es bs"
    and "evaluateAll eng (map (\<lambda>s. Some \<lparr> Source = render s \<rparr>) es) inp r i l = Inr outs"
  shows "map Passed outs = bs"
  using assms(2,1,3)
proof (induction arbitrary: i l outs rule: list_all2_induct)
  case Nil
  then show ?case by simp
next
  case (Cons s es b bs)
  from Cons.prems(2) obtain q c outs' where one:
      "evaluateOne eng (Some \<lparr> Source = render s \<rparr>) inp r l = Inr (q, c)" and rest:
      "evaluateAll eng (map (\<lambda>s. Some \<lparr> Source = render s \<rparr>) es) inp r (i + 1) (l - c) = Inr outs'"
      and outs: "outs = q # outs'"
    by (auto split: if_splits sum.splits)
  have "celOK (eng_cel eng) cost s" using Cons.prems(1) by simp
  from evaluateOne_render_any [OF this Cons.hyps(1) one] have "Passed q = b" .
  moreover have "map Passed outs' = bs" using Cons.IH [OF _ rest] Cons.prems(1) by simp
  ultimately show ?case by (simp add: outs)
qed

lemma snap_outcomes_length: "list_all2 (\<lambda>s oc. denote s = Some (oc_Passed oc)) es ocs \<Longrightarrow> length es = length ocs"
  by (rule list_all2_lengthD)

lemma snap_outcomes_map: "list_all2 (\<lambda>s oc. denote s = Some (oc_Passed oc)) es ocs \<Longrightarrow>
    list_all2 (\<lambda>s b. denote s = Some b) es (map oc_Passed ocs)"
  by (simp add: list_all2_conv_all_nth)

text \<open>
  The kernel confirms: with expressions whose meaning is the template's own verdict, the step
  succeeds when the budget allows and then changes the cost only; and whenever it succeeds, no
  verdict has changed.
\<close>

lemma applyKernelVerdicts_confirms:
  assumes "\<And>n. ctxErr n = None" and "\<And>s. s \<in> set es \<Longrightarrow> celOK (eng_cel eng) cost s"
    and "list_all2 (\<lambda>s oc. denote s = Some (oc_Passed oc)) es (er_Outcomes result)"
    and "total_cost cost es < MaxCELCost (eng_limits eng)"
    and "int (MaxCELCost (eng_limits eng)) \<le> max_i64"
  shows "applyKernelVerdicts ctxErr eng inp result (map render es) =
    (None, result\<lparr> er_CostUnits := er_CostUnits result + int (total_cost cost es) \<rparr>)"
proof (cases "es = []")
  case True
  then show ?thesis using assms(3) by (simp add: applyKernelVerdicts_def EvaluateBatch_def)
next
  case False
  let ?inp = "\<lparr> PIT = PIT inp, PITExplicit = False, SourcePITs = [], in_SafetyMargin = 0 \<rparr>"
  obtain outs where "EvaluateBatch eng (map (\<lambda>s. Some \<lparr> Source = render s \<rparr>) es) ?inp
        \<lparr> Ledger = None, Payments = None \<rparr> = Inr outs"
      "map Passed outs = map oc_Passed (er_Outcomes result)"
      "(\<Sum>q\<leftarrow>outs. CostUnits q) = int (total_cost cost es)"
    using evaluateAll_render [OF assms(2) snap_outcomes_map [OF assms(3)] assms(4,5), where i = 0] False
    by (auto simp: EvaluateBatch_def)
  then show ?thesis
    using compileAll_render [OF assms(1,2), of es, where i = 0] list_all2_lengthD [OF assms(3)]
    by (simp add: applyKernelVerdicts_def setVerdicts_same)
qed

lemma applyKernelVerdicts_keeps:
  assumes "\<And>s. s \<in> set es \<Longrightarrow> celOK (eng_cel eng) cost s"
    and "list_all2 (\<lambda>s oc. denote s = Some (oc_Passed oc)) es (er_Outcomes result)"
    and "applyKernelVerdicts ctxErr eng inp result (map render es) = (None, result')"
  shows "er_Outcomes result' = er_Outcomes result \<and> er_PitPerSource result' = er_PitPerSource result"
proof -
  have comp: "compileAll c eng i (map render fs) = Inr ps \<Longrightarrow> (\<And>s. s \<in> set fs \<Longrightarrow> celOK (eng_cel eng) cost s)
      \<Longrightarrow> ps = map (\<lambda>s. Some \<lparr> Source = render s \<rparr>) fs" for c i fs ps
  proof (induction fs arbitrary: i ps)
    case (Cons s fs)
    then have "Compile eng (render s) = Inr \<lparr> Source = render s \<rparr>" by (intro compile_render) auto
    with Cons show ?case by (auto split: option.splits sum.splits)
  qed simp
  show ?thesis
  proof (cases "es = []")
    case True
    then show ?thesis using assms(2,3) by (auto simp: applyKernelVerdicts_def EvaluateBatch_def)
  next
    case False
    from assms(3) obtain ps outs where ps: "compileAll ctxErr eng 0 (map render es) = Inr ps"
      and outs: "EvaluateBatch eng ps \<lparr> PIT = PIT inp, PITExplicit = False, SourcePITs = [], in_SafetyMargin = 0 \<rparr>
                   \<lparr> Ledger = None, Payments = None \<rparr> = Inr outs"
      and r': "result' = result\<lparr> er_Outcomes := setVerdicts (er_Outcomes result) outs,
                  er_CostUnits := er_CostUnits result + (\<Sum>q\<leftarrow>outs. CostUnits q) \<rparr>"
      by (auto simp: applyKernelVerdicts_def split: if_splits sum.splits)
    have "map Passed outs = map oc_Passed (er_Outcomes result)"
      by (rule evaluateAll_render_any [OF assms(1) snap_outcomes_map [OF assms(2)]])
         (use comp [OF ps assms(1)] outs False in \<open>auto simp: EvaluateBatch_def\<close>)
    with r' show ?thesis by (simp add: setVerdicts_same)
  qed
qed

section \<open>The verdicts of a template\<close>

definition kernel_ready :: "ctx \<Rightarrow> engine \<Rightarrow> (string \<Rightarrow> nat) \<Rightarrow> snap list \<Rightarrow> bool" where
  "kernel_ready ctxErr eng cost es \<longleftrightarrow> (\<forall>n. ctxErr n = None)
     \<and> total_cost cost es < MaxCELCost (eng_limits eng) \<and> int (MaxCELCost (eng_limits eng)) \<le> max_i64"

text \<open>
  The last step of every template, for items (outcome, expression) computed by \<open>f\<close> whose
  expression renders a tree that means the outcome's verdict.
\<close>

lemma kernel_items:
  assumes "\<And>x. x \<in> set xs \<Longrightarrow> snd (f x) = render (g x) \<and> denote (g x) = Some (oc_Passed (fst (f x)))"
    and "\<And>x. x \<in> set xs \<Longrightarrow> celOK (eng_cel eng) cost (g x)"
    and "applyKernelVerdicts ctxErr eng inp (result\<lparr> er_Outcomes := map fst (map f xs) \<rparr>) (map snd (map f xs))
           = (err, result')"
  shows "kernel_ready ctxErr eng cost (map g xs) \<Longrightarrow> err = None"
    and "err = None \<Longrightarrow> er_Outcomes result' = map fst (map f xs) \<and> er_PitPerSource result' = er_PitPerSource result"
proof -
  let ?res = "result\<lparr> er_Outcomes := map fst (map f xs) \<rparr>"
  have exprs: "map snd (map f xs) = map render (map g xs)" using assms(1) by simp
  have ok: "celOK (eng_cel eng) cost s" if "s \<in> set (map g xs)" for s using that assms(2) by auto
  have den: "list_all2 (\<lambda>s oc. denote s = Some (oc_Passed oc)) (map g xs) (er_Outcomes ?res)"
    using assms(1) by (simp add: list_all2_conv_all_nth)
  have run: "applyKernelVerdicts ctxErr eng inp ?res (map render (map g xs)) = (err, result')"
    using assms(3) unfolding exprs .
  show "err = None" if "kernel_ready ctxErr eng cost (map g xs)"
    using applyKernelVerdicts_confirms [OF _ ok den, of ctxErr inp] that run
    unfolding kernel_ready_def by auto
  show "er_Outcomes result' = map fst (map f xs) \<and> er_PitPerSource result' = er_PitPerSource result"
    if "err = None"
    using applyKernelVerdicts_keeps [OF ok den run [unfolded that]] by simp
qed

section \<open>Keys, fingerprints and asset lists\<close>

lemma set_unionAssets [simp]: "set (unionAssets ks) = \<Union> (set ` set ks)"
  by (auto simp: unionAssets_def)

lemma unionAssets_sorted: "sorted (unionAssets ks)" "distinct (unionAssets ks)"
  by (simp_all add: unionAssets_def)

text \<open>The order in which a Go map is iterated does not show.\<close>

lemma unionAssets_order_free:
  "\<Union> (set ` set ks) = \<Union> (set ` set ks') \<Longrightarrow> unionAssets ks = unionAssets ks'"
  by (rule sorted_distinct_set_unique) (simp_all add: unionAssets_sorted)

lemma sortedKeys_set [simp]: "set (sortedKeys m) = set (keys_of m)"
  by (simp add: sortedKeys_def)

lemma sortedKeys_distinct: "distinct (keys_of m) \<Longrightarrow> distinct (sortedKeys m)"
  by (simp add: sortedKeys_def)

lemma sorted_sortedKeys: "sorted (sortedKeys m)"
  by (simp add: sortedKeys_def)

lemma keyer_fresh: "map_of seen label = Some n \<or> (n = 0 \<and> map_of seen label = None) \<Longrightarrow>
    keyer_key seen label = (label @ ''#'' @ dec_nat n, map_put label (n + 1) seen)"
  by (auto simp: keyer_key_def Let_def)

text \<open>Keys handed out one after the other are distinct: a key determines its label and index.\<close>

lemma source_key_inject: "a @ ''#'' @ dec_nat m = b @ ''#'' @ dec_nat n \<longleftrightarrow> a = b \<and> m = n"
proof
  assume eq: "a @ ''#'' @ dec_nat m = b @ ''#'' @ dec_nat n"
  then have "rev (a @ ''#'' @ dec_nat m) = rev (b @ ''#'' @ dec_nat n)" by (rule arg_cong)
  then have "rev (dec_nat m) @ CHR ''#'' # rev a = rev (dec_nat n) @ CHR ''#'' # rev b" by simp
  then have "rev (dec_nat m) = rev (dec_nat n) \<and> rev a = rev b"
    by (rule digits_split [rotated 3]) (auto dest: dec_nat_digits)
  then show "a = b \<and> m = n" by simp
qed simp

fun keyer_keys :: "sourceKeyer \<Rightarrow> string list \<Rightarrow> string list" where
  "keyer_keys seen [] = []"
| "keyer_keys seen (l # ls) = fst (keyer_key seen l) # keyer_keys (snd (keyer_key seen l)) ls"

definition seen_count :: "sourceKeyer \<Rightarrow> string \<Rightarrow> nat" where
  "seen_count seen l = (case map_of seen l of None \<Rightarrow> 0 | Some n \<Rightarrow> n)"

lemma keyer_key_eq: "keyer_key seen l = (l @ ''#'' @ dec_nat (seen_count seen l), map_put l (seen_count seen l + 1) seen)"
  by (simp add: keyer_key_def seen_count_def Let_def)

lemma seen_count_put [simp]: "seen_count (map_put l n seen) k = (if k = l then n else seen_count seen k)"
  by (simp add: seen_count_def)

lemma keyer_keys_form: "k \<in> set (keyer_keys seen ls) \<Longrightarrow>
    \<exists>l n. l \<in> set ls \<and> seen_count seen l \<le> n \<and> k = l @ ''#'' @ dec_nat n"
proof (induction ls arbitrary: seen)
  case (Cons l ls)
  show ?case
  proof (cases "k = fst (keyer_key seen l)")
    case True
    then show ?thesis by (auto simp: keyer_key_eq)
  next
    case False
    with Cons.prems have "k \<in> set (keyer_keys (snd (keyer_key seen l)) ls)" by simp
    from Cons.IH [OF this] obtain l' n where l': "l' \<in> set ls" "k = l' @ ''#'' @ dec_nat n"
      "seen_count (map_put l (seen_count seen l + 1) seen) l' \<le> n" by (auto simp: keyer_key_eq)
    then have "seen_count seen l' \<le> n" by (auto split: if_splits)
    with l' show ?thesis by auto
  qed
qed simp

lemma keyer_keys_distinct: "distinct (keyer_keys seen ls)"
proof (induction ls arbitrary: seen)
  case (Cons l ls)
  have "fst (keyer_key seen l) \<notin> set (keyer_keys (snd (keyer_key seen l)) ls)"
  proof
    assume "fst (keyer_key seen l) \<in> set (keyer_keys (snd (keyer_key seen l)) ls)"
    from keyer_keys_form [OF this] obtain l' n where
      "seen_count (map_put l (seen_count seen l + 1) seen) l' \<le> n"
      "l @ ''#'' @ dec_nat (seen_count seen l) = l' @ ''#'' @ dec_nat n"
      by (auto simp: keyer_key_eq)
    then show False by (auto simp: source_key_inject [simplified])
  qed
  with Cons.IH show ?case by simp
qed simp

lemma fingerprint_asset [simp]: "fingerprintFor [(''asset'', a)] = ''asset:'' @ a"
  by simp

text \<open>Decoded tolerances are int64 values.\<close>

lemma mapGet_IsInt64: "(\<And>k v. (k, v) \<in> set m \<Longrightarrow> IsInt64 v) \<Longrightarrow> IsInt64 (mapGet m k)"
  by (auto simp: mapGet_def IsInt64_def split: option.splits dest: map_of_SomeD)

section \<open>A CEL given by a table\<close>

text \<open>
  For the witnesses: the implementation that knows the meaning of finitely many expressions, each
  at cost 1.
\<close>

definition table_cel :: "(string \<times> bool) list \<Rightarrow> celImpl" where
  "table_cel tbl = \<lparr> celNewEnv = \<lambda>_. None, celCheck = \<lambda>_ _. Inr BoolType,
     celRun = \<lambda>_ s l e. if l < 1 then (CelEvalError (new_error ''cost limit''), e)
                       else (CelValue (CBool (map_of tbl s = Some True)) (Some 1), e) \<rparr>"

lemma table_cel_ok: "denote s = Some b \<Longrightarrow> map_of tbl (render s) = Some b \<Longrightarrow> celOK (table_cel tbl) (\<lambda>_. 1) s"
  by (auto simp: celOK_def table_cel_def)

lemma table_cel_single: "denote s = Some b \<Longrightarrow> celOK (table_cel [(render s, b)]) (\<lambda>_. 1) s"
  by (rule table_cel_ok) simp_all

definition table_engine :: "(string \<times> bool) list \<Rightarrow> engine" where
  "table_engine tbl = \<lparr> eng_cel = table_cel tbl, eng_resolvers = \<lparr> Ledger = None, Payments = None \<rparr>,
     eng_limits = DefaultLimits \<rparr>"

lemma table_engine_simps [simp]:
  "eng_cel (table_engine tbl) = table_cel tbl" "eng_limits (table_engine tbl) = DefaultLimits"
  by (simp_all add: table_engine_def)

lemma table_ready: "length es < 1000000 \<Longrightarrow> kernel_ready (\<lambda>_. None) (table_engine tbl) (\<lambda>_. 1) es"
  by (simp add: kernel_ready_def total_cost_def DefaultLimits_def sum_list_triv)

lemmas dec_eval = dec_def dec_nat.simps digit_char_def

lemmas json_eval = parse_doc_def fuel_for_def ws_def is_ws_def parse_string_def map_put_def
  parse_number_def num_int_def num_frac_def num_exp_def object_members_def array_elems_def
  dec_struct_def is_null_def field_def to_lower_def dec_string_def dec_int64_def dec_raw_def
  ParseInt64_def undec_nat_def IsInt64_def strip_prefix_def dec_map_def

end
