(* ===== verification/Drift.thy ===== *)
theory Drift
  imports Snapshot
begin

text \<open>
  The \<open>ledger_vs_pool_drift\<close> template, \<open>internal/templates/ledger_vs_pool_drift.go\<close>: per asset on
  either side, \<open>abs(sign * ledger + pool) <= tolerance\<close>.
\<close>

record driftSpec =
  ds_Ledger :: string
  ds_LedgerQuery :: rawJSON
  ds_PaymentsPoolID :: string
  ds_LedgerSign :: int
  ds_Tolerance :: "(string \<times> int) list"

definition zeroDrift :: driftSpec where
  "zeroDrift = \<lparr> ds_Ledger = '''', ds_LedgerQuery = '''', ds_PaymentsPoolID = '''', ds_LedgerSign = 0,
     ds_Tolerance = [] \<rparr>"

definition DriftSpec_decode :: "driftSpec decoder" where
  "DriftSpec_decode = dec_struct (\<lambda>key t s.
     if field ''ledger'' key then map_option (\<lambda>v. s\<lparr> ds_Ledger := v \<rparr>) (dec_string t (ds_Ledger s))
     else if field ''ledgerQuery'' key then
       map_option (\<lambda>v. s\<lparr> ds_LedgerQuery := v \<rparr>) (dec_raw t (ds_LedgerQuery s))
     else if field ''paymentsPoolID'' key then
       map_option (\<lambda>v. s\<lparr> ds_PaymentsPoolID := v \<rparr>) (dec_string t (ds_PaymentsPoolID s))
     else if field ''ledgerSign'' key then
       map_option (\<lambda>v. s\<lparr> ds_LedgerSign := v \<rparr>) (dec_int64 t (ds_LedgerSign s))
     else if field ''tolerance'' key then
       map_option (\<lambda>v. s\<lparr> ds_Tolerance := v \<rparr>) (dec_map 0 dec_int64 t (ds_Tolerance s))
     else Some s)"

definition effectiveLedgerSign :: "driftSpec \<Rightarrow> int" where
  "effectiveLedgerSign s = (if ds_LedgerSign s = 0 then 1 else ds_LedgerSign s)"

definition Drift_Kind :: templateKind where "Drift_Kind = TemplateLedgerVsPoolDrift"

definition Drift_Validate :: "rawJSON \<Rightarrow> gerror option" where
  "Drift_Validate raw =
     (case unmarshalSpec DriftSpec_decode raw zeroDrift of
        Inl err \<Rightarrow> Some err
      | Inr spec \<Rightarrow>
          if ds_Ledger spec = '''' then Some (errorf ErrInvalidSpec ''ledger is required'')
          else if \<not> hasMeaningfulJSON (ds_LedgerQuery spec) then
            Some (errorf ErrInvalidSpec ''ledgerQuery is required'')
          else if ds_PaymentsPoolID spec = '''' then
            Some (errorf ErrInvalidSpec ''paymentsPoolID is required'')
          else if ds_LedgerSign spec \<notin> {0, 1, -1} then
            Some (errorf ErrInvalidSpec (''ledgerSign must be +1 or -1, got '' @ dec (ds_LedgerSign spec)))
          else checkTolerance (ds_Tolerance spec))"

definition drift_sources :: "driftSpec \<Rightarrow> sourceSpec \<times> sourceSpec" where
  "drift_sources spec =
     (ledgerSource (ds_Ledger spec) (ds_LedgerQuery spec), poolSource (ds_PaymentsPoolID spec))"

definition Drift_SourceKeys :: "rawJSON \<Rightarrow> gerror + string list" where
  "Drift_SourceKeys raw =
     (case unmarshalSpec DriftSpec_decode raw zeroDrift of
        Inl err \<Rightarrow> Inl err
      | Inr spec \<Rightarrow>
          let (ledgerSrc, poolSrc) = drift_sources spec;
              (k0, keyer) = keyer_key newSourceKeyer (source_label ledgerSrc);
              (k1, keyer') = keyer_key keyer (source_label poolSrc)
          in Inr [k0, k1])"

definition signedLedgerTerm :: "int \<Rightarrow> string \<Rightarrow> rawJSON \<Rightarrow> string \<Rightarrow> string" where
  "signedLedgerTerm sign ledger query assetExpr =
     (let term = celTerm (ledgerSource ledger query) assetExpr in
      if sign = -1 then ''-'' @ term else term)"

definition Drift_Explain :: "rawJSON \<Rightarrow> gerror + string" where
  "Drift_Explain raw =
     (case unmarshalSpec DriftSpec_decode raw zeroDrift of
        Inl err \<Rightarrow> Inl err
      | Inr spec \<Rightarrow>
          Inr (''abs('' @ signedLedgerTerm (effectiveLedgerSign spec) (ds_Ledger spec)
                            (ds_LedgerQuery spec) (Quote ''<asset>'')
               @ '' + '' @ celTerm (poolSource (ds_PaymentsPoolID spec)) (Quote ''<asset>'')
               @ '') <= '' @ firstTolerance (ds_Tolerance spec)))"

text \<open>The loop body: the outcome and the kernel expression of one asset.\<close>

definition drift_asset ::
  "driftSpec \<Rightarrow> balances \<Rightarrow> balances \<Rightarrow> string \<Rightarrow> outcome \<times> string" where
  "drift_asset spec ledgerBalances poolBalances asset =
     (let sign = effectiveLedgerSign spec;
          tolerance = mapGet (ds_Tolerance spec) asset;
          rawLedger = balanceOf ledgerBalances asset;
          ledgerVal = sign * rawLedger;
          poolVal = balanceOf poolBalances asset;
          drift = ledgerVal + poolVal;
          driftAbs = \<bar>drift\<bar>;
          passed = (driftAbs \<le> tolerance);
          expr = ''abs('' @ signedLedgerTerm sign (ds_Ledger spec) (ds_LedgerQuery spec) (celString asset)
                   @ '' + '' @ celTerm (poolSource (ds_PaymentsPoolID spec)) (celString asset)
                   @ '') <= '' @ dec tolerance
      in (\<lparr> oc_Fingerprint = fingerprintFor [(''asset'', asset)],
            oc_Passed = passed,
            oc_Evidence =
              [ (''asset'', JStr asset),
                (''ledgerBalanceRaw'', JStr (dec rawLedger)),
                (''ledgerBalance'', JStr (dec ledgerVal)),
                (''ledgerSign'', JInt sign),
                (''poolBalance'', JStr (dec poolVal)),
                (''drift'', JStr (dec driftAbs)),
                (''tolerance'', JInt tolerance),
                (''signedDrift'', JStr (dec drift)),
                (''compiledCEL'', JStr expr) ],
            oc_Proof =
              [ (''ledger'', dec rawLedger), (''ledgerSign'', dec sign), (''pool'', dec poolVal),
                (''tolerance'', dec tolerance) ] \<rparr>,
          snapshotVerdictExpression
            (''abs(('' @ dec ledgerVal @ '') + ('' @ dec poolVal @ '')) <= '' @ dec tolerance)
            passed [rawLedger, ledgerVal, poolVal, drift, driftAbs]))"

definition Drift_EvaluateSpec ::
  "ctx \<Rightarrow> time \<Rightarrow> driftSpec \<Rightarrow> engine \<Rightarrow> resolvers \<Rightarrow> evalInput \<Rightarrow> templateAnswer" where
  "Drift_EvaluateSpec ctxErr now spec eng r inp =
     (let (ledgerSrc, poolSrc) = drift_sources spec;
          (ledgerKey, keyer) = keyer_key newSourceKeyer (source_label ledgerSrc);
          (poolKey, keyer') = keyer_key keyer (source_label poolSrc);
          (ledgerPIT, _) = effectiveSourcePIT inp ledgerKey;
          (poolPIT, poolExplicit) = effectiveSourcePIT inp poolKey;
          result = emptyResult
      in case requireResolvers r [''ledger'', ''payments''] of
           Some err \<Rightarrow> (Some result, Some err)
         | None \<Rightarrow>
        (case SourceSpec_resolve ledgerSrc r now ledgerPIT False of
           Inl err \<Rightarrow> (Some result, Some (wrap_error ''scout ledger balances'' err))
         | Inr (ledgerBalances, ledgerResolvedAt) \<Rightarrow>
             let result = result\<lparr> er_PitPerSource := map_put ledgerKey ledgerResolvedAt (er_PitPerSource result) \<rparr> in
        (case SourceSpec_resolve poolSrc r now poolPIT poolExplicit of
           Inl err \<Rightarrow> (Some result, Some (wrap_error ''scout pool balances'' err))
         | Inr (poolBalances, poolResolvedAt) \<Rightarrow>
             let result = result\<lparr> er_PitPerSource := map_put poolKey poolResolvedAt (er_PitPerSource result) \<rparr>;
                 assets = unionAssets [keys_of ledgerBalances, keys_of poolBalances];
                 items = map (drift_asset spec ledgerBalances poolBalances) assets;
                 result = result\<lparr> er_Outcomes := map fst items \<rparr>;
                 (err, result) = applyKernelVerdicts ctxErr eng inp result (map snd items)
             in (Some result, err))))"

definition Drift_Evaluate ::
  "ctx \<Rightarrow> time \<Rightarrow> rawJSON \<Rightarrow> engine \<Rightarrow> resolvers \<Rightarrow> evalInput \<Rightarrow> templateAnswer" where
  "Drift_Evaluate ctxErr now raw eng r inp =
     (case unmarshalSpec DriftSpec_decode raw zeroDrift of
        Inl err \<Rightarrow> (None, Some err)
      | Inr spec \<Rightarrow> Drift_EvaluateSpec ctxErr now spec eng r inp)"

section \<open>Properties\<close>

definition drift_snap :: "driftSpec \<Rightarrow> balances \<Rightarrow> balances \<Rightarrow> string \<Rightarrow> snap" where
  "drift_snap spec lb pb asset =
     (let tolerance = mapGet (ds_Tolerance spec) asset;
          rawLedger = balanceOf lb asset;
          ledgerVal = effectiveLedgerSign spec * rawLedger;
          poolVal = balanceOf pb asset;
          drift = ledgerVal + poolVal
      in guarded (SAbsLe (AAdd (APar (ALit ledgerVal)) (APar (ALit poolVal))) tolerance)
           (\<bar>drift\<bar> \<le> tolerance) [rawLedger, ledgerVal, poolVal, drift, \<bar>drift\<bar>])"

lemma drift_asset_snap:
  assumes "\<And>k v. (k, v) \<in> set (ds_Tolerance spec) \<Longrightarrow> IsInt64 v"
  shows "snd (drift_asset spec lb pb a) = render (drift_snap spec lb pb a)"
    and "denote (drift_snap spec lb pb a) = Some (oc_Passed (fst (drift_asset spec lb pb a)))"
proof -
  show "snd (drift_asset spec lb pb a) = render (drift_snap spec lb pb a)"
    by (simp add: drift_asset_def drift_snap_def Let_def render_guarded [symmetric])
  have "IsInt64 (mapGet (ds_Tolerance spec) a)" using mapGet_IsInt64 [OF assms] .
  then have "denote (drift_snap spec lb pb a) =
      Some (\<bar>effectiveLedgerSign spec * balanceOf lb a + balanceOf pb a\<bar> \<le> mapGet (ds_Tolerance spec) a)"
    unfolding drift_snap_def Let_def by (intro denote_guarded) auto
  then show "denote (drift_snap spec lb pb a) = Some (oc_Passed (fst (drift_asset spec lb pb a)))"
    by (simp add: drift_asset_def Let_def)
qed

lemma drift_asset_fields [simp]:
  "oc_Fingerprint (fst (drift_asset spec lb pb a)) = ''asset:'' @ a"
  "oc_Passed (fst (drift_asset spec lb pb a)) \<longleftrightarrow>
     \<bar>effectiveLedgerSign spec * balanceOf lb a + balanceOf pb a\<bar> \<le> mapGet (ds_Tolerance spec) a"
  by (simp_all add: drift_asset_def Let_def)

lemma drift_tolerance_range:
  assumes "unmarshalSpec DriftSpec_decode raw zeroDrift = Inr spec"
  shows "(k, v) \<in> set (ds_Tolerance spec) \<Longrightarrow> IsInt64 v"
proof -
  have "\<forall>k v. (k, v) \<in> set (ds_Tolerance spec) \<longrightarrow> IsInt64 v"
    by (rule dec_struct_invariant [OF unmarshalSpec_decode [OF assms, unfolded DriftSpec_decode_def],
          where P = "\<lambda>s. \<forall>k v. (k, v) \<in> set (ds_Tolerance s) \<longrightarrow> IsInt64 v"])
       (auto simp: zeroDrift_def split: if_splits dest: tolerance_range)
  then show "(k, v) \<in> set (ds_Tolerance spec) \<Longrightarrow> IsInt64 v" by blast
qed

text \<open>The instants and the balances the two sides of a drift evaluation read.\<close>

definition drift_keys :: "driftSpec \<Rightarrow> string \<times> string" where
  "drift_keys spec = (''ledger:'' @ ds_Ledger spec @ ''#0'', ''pool:'' @ ds_PaymentsPoolID spec @ ''#0'')"

definition drift_reads ::
  "driftSpec \<Rightarrow> ledgerResolver \<Rightarrow> paymentsResolver \<Rightarrow> evalInput \<Rightarrow> (gerror + balances) \<times> (gerror + balances)" where
  "drift_reads spec L P inp =
     (AggregateBalance L (ds_Ledger spec) (ds_LedgerQuery spec)
        (fst (effectiveSourcePIT inp (fst (drift_keys spec)))),
      PoolBalance P (ds_PaymentsPoolID spec)
        (case effectiveSourcePIT inp (snd (drift_keys spec)) of (t, explicit) \<Rightarrow>
           if explicit then Some t else None))"

lemma drift_keys_keyer:
  "keyer_key newSourceKeyer (source_label (fst (drift_sources spec))) =
     (fst (drift_keys spec), [(''ledger:'' @ ds_Ledger spec, 1)])"
  "keyer_key [(''ledger:'' @ ds_Ledger spec, 1)] (source_label (snd (drift_sources spec))) =
     (snd (drift_keys spec), [(''ledger:'' @ ds_Ledger spec, 1), (''pool:'' @ ds_PaymentsPoolID spec, 1)])"
  by (simp_all add: keyer_key_def newSourceKeyer_def drift_sources_def drift_keys_def source_label_def
      ledgerSource_def poolSource_def map_put_def dec_nat.simps digit_char_def)

lemma Drift_EvaluateSpec_reads:
  assumes "Ledger r = Some L" and "Payments r = Some P" and "drift_reads spec L P inp = (Inr lb, Inr pb)"
  shows "\<exists>pits. map fst pits = [fst (drift_keys spec), snd (drift_keys spec)] \<and>
    Drift_EvaluateSpec ctxErr now spec eng r inp =
      (let items = map (drift_asset spec lb pb) (unionAssets [keys_of lb, keys_of pb]);
           (err, res) = applyKernelVerdicts ctxErr eng inp
              (emptyResult\<lparr> er_PitPerSource := pits, er_Outcomes := map fst items \<rparr>) (map snd items)
       in (Some res, err))"
proof -
  have ne: "fst (drift_keys spec) \<noteq> snd (drift_keys spec)" by (simp add: drift_keys_def)
  have res: "SourceSpec_resolve (fst (drift_sources spec)) r now t b =
        (case AggregateBalance L (ds_Ledger spec) (ds_LedgerQuery spec) t of
           Inl e \<Rightarrow> Inl e | Inr bs \<Rightarrow> Inr (bs, t))"
      "SourceSpec_resolve (snd (drift_sources spec)) r now t b =
        (case PoolBalance P (ds_PaymentsPoolID spec) (if b then Some t else None) of
           Inl e \<Rightarrow> Inl e | Inr bs \<Rightarrow> Inr (bs, if b then t else now))" for t b
    using assms(1,2)
    by (auto simp: SourceSpec_resolve_def drift_sources_def ledgerSource_def poolSource_def split: sum.splits)
  obtain lt le where l: "effectiveSourcePIT inp (fst (drift_keys spec)) = (lt, le)" by (rule prod.exhaust)
  obtain pt pe where p: "effectiveSourcePIT inp (snd (drift_keys spec)) = (pt, pe)" by (rule prod.exhaust)
  obtain ls ps where src: "drift_sources spec = (ls, ps)" by (rule prod.exhaust)
  from assms(3) l p have reads: "AggregateBalance L (ds_Ledger spec) (ds_LedgerQuery spec) lt = Inr lb"
      "PoolBalance P (ds_PaymentsPoolID spec) (if pe then Some pt else None) = Inr pb"
    by (simp_all add: drift_reads_def)
  let ?pits = "[(fst (drift_keys spec), lt), (snd (drift_keys spec), if pe then pt else now)]"
  have "Drift_EvaluateSpec ctxErr now spec eng r inp =
      (let items = map (drift_asset spec lb pb) (unionAssets [keys_of lb, keys_of pb]);
           (err, res) = applyKernelVerdicts ctxErr eng inp
              (emptyResult\<lparr> er_PitPerSource := ?pits, er_Outcomes := map fst items \<rparr>) (map snd items)
       in (Some res, err))"
    using res drift_keys_keyer [of spec] assms(1,2) ne
    by (simp add: Drift_EvaluateSpec_def src l p reads map_put_def emptyResult_def Let_def)
  then show ?thesis by (intro exI [of _ ?pits]) simp
qed

text \<open>
  C13. The drift verdict is exact. Whenever both sides can be read, the evaluation yields one
  outcome per asset on either side, in sorted order and without repetition, and an outcome passes
  exactly when the absolute value of the signed ledger balance plus the pool balance, over the
  integers, is within the asset's tolerance: the kernel's 64-bit evaluation never disagrees,
  whatever the size of the balances. The evaluation returns without error when the kernel's budget
  and the request context allow, and it reads exactly the sources it declares.
\<close>

theorem drift_verdict:
  assumes "unmarshalSpec DriftSpec_decode raw zeroDrift = Inr spec"
    and "Ledger r = Some L" and "Payments r = Some P" and "drift_reads spec L P inp = (Inr lb, Inr pb)"
    and "\<forall>a\<in>set (unionAssets [keys_of lb, keys_of pb]). celOK (eng_cel eng) cost (drift_snap spec lb pb a)"
  shows "\<exists>res err. Drift_Evaluate ctxErr now raw eng r inp = (Some res, err)
    \<and> (kernel_ready ctxErr eng cost (map (drift_snap spec lb pb) (unionAssets [keys_of lb, keys_of pb]))
        \<longrightarrow> err = None)
    \<and> (err = None \<longrightarrow>
        Drift_SourceKeys raw = Inr (map fst (er_PitPerSource res))
        \<and> map (\<lambda>q. (oc_Fingerprint q, oc_Passed q)) (er_Outcomes res)
          = map (\<lambda>a. (''asset:'' @ a,
                 \<bar>effectiveLedgerSign spec * balanceOf lb a + balanceOf pb a\<bar> \<le> mapGet (ds_Tolerance spec) a))
              (unionAssets [keys_of lb, keys_of pb]))"
proof -
  let ?xs = "unionAssets [keys_of lb, keys_of pb]" and ?f = "drift_asset spec lb pb"
  obtain pits where pits: "map fst pits = [fst (drift_keys spec), snd (drift_keys spec)]"
    and run: "Drift_EvaluateSpec ctxErr now spec eng r inp =
      (let items = map ?f ?xs;
           (err, res) = applyKernelVerdicts ctxErr eng inp
              (emptyResult\<lparr> er_PitPerSource := pits, er_Outcomes := map fst items \<rparr>) (map snd items)
       in (Some res, err))"
    using Drift_EvaluateSpec_reads [OF assms(2-4), of ctxErr now eng] by (elim exE conjE)
  let ?r0 = "emptyResult\<lparr> er_PitPerSource := pits \<rparr>"
  obtain err res where k: "applyKernelVerdicts ctxErr eng inp (?r0\<lparr> er_Outcomes := map fst (map ?f ?xs) \<rparr>)
      (map snd (map ?f ?xs)) = (err, res)" by (rule prod.exhaust)
  note items = kernel_items [OF _ _ k, where g = "drift_snap spec lb pb" and cost = cost]
  have ok: "kernel_ready ctxErr eng cost (map (drift_snap spec lb pb) ?xs) \<Longrightarrow> err = None"
    and same: "err = None \<Longrightarrow> er_Outcomes res = map fst (map ?f ?xs) \<and> er_PitPerSource res = pits"
    using items assms(5) drift_asset_snap [of spec, OF drift_tolerance_range [OF assms(1)]] by auto
  have "Drift_Evaluate ctxErr now raw eng r inp = (Some res, err)"
    using run k by (simp add: Drift_Evaluate_def assms(1) Let_def)
  moreover have "Drift_SourceKeys raw = Inr (map fst pits)"
    by (cases "drift_sources spec")
       (use pits drift_keys_keyer [of spec] in \<open>simp add: Drift_SourceKeys_def assms(1)\<close>)
  ultimately show ?thesis using ok same by (intro exI [of _ res] exI [of _ err]) simp
qed

definition drift_example_resolvers :: resolvers where
  "drift_example_resolvers = \<lparr>
     Ledger = Some \<lparr> AggregateBalance = \<lambda>_ _ _. Inr [(''USD'', Some 100)], ListAccounts = \<lambda>_ _ _ _. Inr [] \<rparr>,
     Payments = Some \<lparr> PoolBalance = \<lambda>_ _. Inr [(''USD'', Some (-100)), (''EUR'', Some 10000000000000000000)] \<rparr> \<rparr>"

definition drift_example_engine :: engine where
  "drift_example_engine = table_engine [(render (SBool False), False),
     (render (SAbsLe (AAdd (APar (ALit 100)) (APar (ALit (-100)))) 0), True)]"

theorem drift_verdict_witness:
  "\<exists>res. Drift_Evaluate (\<lambda>_. None) 7 ''{}'' drift_example_engine drift_example_resolvers toy_input = (Some res, None)
     \<and> map (\<lambda>q. (oc_Fingerprint q, oc_Passed q)) (er_Outcomes res) = [(''asset:EUR'', False), (''asset:USD'', True)]"
proof -
  let ?lb = "[(''USD'', Some 100)] :: balances"
  let ?pb = "[(''USD'', Some (-100)), (''EUR'', Some 10000000000000000000)] :: balances"
  let ?g = "drift_snap zeroDrift ?lb ?pb"
  let ?S = "SAbsLe (AAdd (APar (ALit 100)) (APar (ALit (-100)))) 0"
  let ?tbl = "[(render (SBool False), False), (render ?S, True)]"
  have spec: "unmarshalSpec DriftSpec_decode ''{}'' zeroDrift = Inr zeroDrift"
    by (simp add: unmarshalSpec_def Unmarshal_def DriftSpec_decode_def json_eval eval_nat_numeral)
  have assets: "unionAssets [keys_of ?lb, keys_of ?pb] = [''EUR'', ''USD'']"
    by (simp add: unionAssets_def keys_of_def)
  have g: "?g ''EUR'' = SBool False" "?g ''USD'' = ?S"
    by (simp_all add: drift_snap_def guarded_def IsInt64_def effectiveLedgerSign_def zeroDrift_def
        balanceOf_def zeroIfNil_def mapGet_def)
  have ok: "\<forall>a\<in>set (unionAssets [keys_of ?lb, keys_of ?pb]). celOK (eng_cel (table_engine ?tbl)) (\<lambda>_. 1) (?g a)"
  proof -
    have "celOK (table_cel ?tbl) (\<lambda>_. 1) (SBool False)"
      by (rule table_cel_ok [where b = False]) simp_all
    moreover have "denote ?S = Some True" by (subst denote_exact) (simp_all add: IsInt64_def)
    then have "celOK (table_cel ?tbl) (\<lambda>_. 1) ?S" by (rule table_cel_ok) (simp add: FormatBool_def)
    ultimately show ?thesis by (simp only: assets table_engine_simps g list.set ball_simps)
  qed
  have reads: "drift_reads zeroDrift \<lparr> AggregateBalance = \<lambda>_ _ _. Inr ?lb, ListAccounts = \<lambda>_ _ _ _. Inr [] \<rparr>
      \<lparr> PoolBalance = \<lambda>_ _. Inr ?pb \<rparr> toy_input = (Inr ?lb, Inr ?pb)"
    by (simp add: drift_reads_def)
  note v = drift_verdict [OF spec _ _ reads ok, of drift_example_resolvers "\<lambda>_. None" 7]
  show ?thesis
    unfolding drift_example_engine_def
    using v table_ready [of "map ?g [''EUR'', ''USD'']" ?tbl]
    by (auto simp: assets drift_example_resolvers_def effectiveLedgerSign_def zeroDrift_def
        balanceOf_def zeroIfNil_def mapGet_def)
qed

end
