(* ===== verification/Invariant.thy ===== *)
theory Invariant
  imports Snapshot
begin

text \<open>
  The \<open>ledger_invariant\<close> template, \<open>internal/templates/ledger_invariant.go\<close>: per asset named in
  the tolerance map, the signed sum of the term balances is within the tolerance.
\<close>

record invariantTerm =
  it_Ledger :: string
  it_Query :: rawJSON
  it_Sign :: int

record invariantSpec =
  is_Terms :: "invariantTerm list"
  is_Tolerance :: "(string \<times> int) list"

definition zeroTerm :: invariantTerm where
  "zeroTerm = \<lparr> it_Ledger = '''', it_Query = '''', it_Sign = 0 \<rparr>"

definition zeroInvariant :: invariantSpec where
  "zeroInvariant = \<lparr> is_Terms = [], is_Tolerance = [] \<rparr>"

definition InvariantTerm_decode :: "invariantTerm decoder" where
  "InvariantTerm_decode = dec_struct (\<lambda>key t s.
     if field ''ledger'' key then map_option (\<lambda>v. s\<lparr> it_Ledger := v \<rparr>) (dec_string t (it_Ledger s))
     else if field ''query'' key then map_option (\<lambda>v. s\<lparr> it_Query := v \<rparr>) (dec_raw t (it_Query s))
     else if field ''sign'' key then map_option (\<lambda>v. s\<lparr> it_Sign := v \<rparr>) (dec_int64 t (it_Sign s))
     else Some s)"

definition InvariantSpec_decode :: "invariantSpec decoder" where
  "InvariantSpec_decode = dec_struct (\<lambda>key t s.
     if field ''terms'' key then
       map_option (\<lambda>v. s\<lparr> is_Terms := v \<rparr>) (dec_list zeroTerm InvariantTerm_decode t (is_Terms s))
     else if field ''tolerance'' key then
       map_option (\<lambda>v. s\<lparr> is_Tolerance := v \<rparr>) (dec_map 0 dec_int64 t (is_Tolerance s))
     else Some s)"

definition Invariant_Kind :: templateKind where "Invariant_Kind = TemplateLedgerInvariant"

fun checkTerms :: "nat \<Rightarrow> invariantTerm list \<Rightarrow> gerror option" where
  "checkTerms i [] = None"
| "checkTerms i (term # terms) =
     (if it_Ledger term = '''' then
        Some (errorf ErrInvalidSpec (''terms['' @ dec_nat i @ ''].ledger is required''))
      else if \<not> hasMeaningfulJSON (it_Query term) then
        Some (errorf ErrInvalidSpec (''terms['' @ dec_nat i @ ''].query is required''))
      else if it_Sign term \<noteq> 1 \<and> it_Sign term \<noteq> -1 then
        Some (errorf ErrInvalidSpec (''terms['' @ dec_nat i @ ''].sign must be +1 or -1, got '' @ dec (it_Sign term)))
      else checkTerms (i + 1) terms)"

definition Invariant_Validate :: "rawJSON \<Rightarrow> gerror option" where
  "Invariant_Validate raw =
     (case unmarshalSpec InvariantSpec_decode raw zeroInvariant of
        Inl err \<Rightarrow> Some err
      | Inr spec \<Rightarrow>
          if is_Terms spec = [] then Some (errorf ErrInvalidSpec ''terms must contain at least one entry'')
          else if is_Tolerance spec = [] then
            Some (errorf ErrInvalidSpec ''tolerance is required (use 0 for strict equality)'')
          else
            case checkTerms 0 (is_Terms spec) of
              Some err \<Rightarrow> Some err
            | None \<Rightarrow> checkTolerance (is_Tolerance spec))"

definition termLabel :: "invariantTerm \<Rightarrow> string" where
  "termLabel term = source_label (ledgerSource (it_Ledger term) '''')"

fun termKeys :: "sourceKeyer \<Rightarrow> invariantTerm list \<Rightarrow> string list" where
  "termKeys keyer [] = []"
| "termKeys keyer (term # terms) =
     (let (k, keyer') = keyer_key keyer (termLabel term) in k # termKeys keyer' terms)"

definition Invariant_SourceKeys :: "rawJSON \<Rightarrow> gerror + string list" where
  "Invariant_SourceKeys raw =
     (case unmarshalSpec InvariantSpec_decode raw zeroInvariant of
        Inl err \<Rightarrow> Inl err
      | Inr spec \<Rightarrow> Inr (termKeys newSourceKeyer (is_Terms spec)))"

definition buildInvariantExpression :: "invariantSpec \<Rightarrow> string \<Rightarrow> string" where
  "buildInvariantExpression spec asset =
     (let parts = map (\<lambda>term.
            let bal = ''balance(ledgerSet('' @ celString (it_Ledger term) @ '', ''
                        @ celJSON (it_Query term) @ ''), '' @ celString asset @ '')''
            in if it_Sign term < 0 then ''-'' @ bal else bal) (is_Terms spec)
      in ''abs('' @ join '' + '' parts @ '') <= '' @ dec (mapGet (is_Tolerance spec) asset))"

definition Invariant_Explain :: "rawJSON \<Rightarrow> gerror + string" where
  "Invariant_Explain raw =
     (case unmarshalSpec InvariantSpec_decode raw zeroInvariant of
        Inl err \<Rightarrow> Inl err
      | Inr spec \<Rightarrow>
          (case sortedKeys (is_Tolerance spec) of
             [] \<Rightarrow> Inl (errorf ErrInvalidSpec ''tolerance is empty - cannot pick a representative asset'')
           | asset # _ \<Rightarrow> Inr (buildInvariantExpression spec asset)))"

text \<open>The scouting loop: the balances of the terms read so far, the instants recorded, the error.\<close>

fun scoutTerms ::
  "ledgerResolver \<Rightarrow> evalInput \<Rightarrow> nat \<Rightarrow> sourceKeyer \<Rightarrow> invariantTerm list \<Rightarrow> (string \<times> time) list
   \<Rightarrow> gerror option \<times> balances list \<times> (string \<times> time) list" where
  "scoutTerms L inp i keyer [] pits = (None, [], pits)"
| "scoutTerms L inp i keyer (term # terms) pits =
     (let (key, keyer') = keyer_key keyer (termLabel term);
          (pit, _) = effectiveSourcePIT inp key
      in case AggregateBalance L (it_Ledger term) (it_Query term) pit of
           Inl err \<Rightarrow>
             (Some (wrap_error (''scout terms['' @ dec_nat i @ ''] ('' @ it_Ledger term @ '')'') err), [], pits)
         | Inr b \<Rightarrow>
             let (err, bs, pits') = scoutTerms L inp (i + 1) keyer' terms (map_put key pit pits)
             in (err, b # bs, pits'))"

record netting =
  n_signedSum :: int
  n_grossPos :: int
  n_grossNeg :: int
  n_termValues :: "int list"
  n_celValues :: "int list"
  n_runningSum :: int

definition net_term :: "string \<Rightarrow> netting \<Rightarrow> invariantTerm \<times> balances \<Rightarrow> netting" where
  "net_term asset n tb =
     (let (term, b) = tb;
          v = balanceOf b asset;
          signed = it_Sign term * v;
          running = n_runningSum n + signed
      in \<lparr> n_signedSum = n_signedSum n + signed,
           n_grossPos = (if signed < 0 then n_grossPos n else n_grossPos n + signed),
           n_grossNeg = (if signed < 0 then n_grossNeg n + signed else n_grossNeg n),
           n_termValues = n_termValues n @ [signed],
           n_celValues = n_celValues n @ [signed, running],
           n_runningSum = running \<rparr>)"

definition net_terms :: "invariantSpec \<Rightarrow> balances list \<Rightarrow> string \<Rightarrow> netting" where
  "net_terms spec termBalances asset =
     foldl (net_term asset)
       \<lparr> n_signedSum = 0, n_grossPos = 0, n_grossNeg = 0, n_termValues = [], n_celValues = [], n_runningSum = 0 \<rparr>
       (zip (is_Terms spec) termBalances)"

definition invariant_asset :: "invariantSpec \<Rightarrow> balances list \<Rightarrow> string \<Rightarrow> outcome \<times> string" where
  "invariant_asset spec termBalances asset =
     (let tolerance = mapGet (is_Tolerance spec) asset;
          n = net_terms spec termBalances asset;
          driftAbs = \<bar>n_signedSum n\<bar>;
          passed = (driftAbs \<le> tolerance);
          expr = buildInvariantExpression spec asset
      in (\<lparr> oc_Fingerprint = fingerprintFor [(''asset'', asset)],
            oc_Passed = passed,
            oc_Evidence =
              [ (''asset'', JStr asset),
                (''signedSum'', JStr (dec (n_signedSum n))),
                (''absDrift'', JStr (dec driftAbs)),
                (''tolerance'', JInt tolerance),
                (''termValues'', JArr (map (\<lambda>v. JStr (dec v)) (n_termValues n))),
                (''compiledCEL'', JStr expr) ],
            oc_Proof =
              [ (''positive'', dec (n_grossPos n)), (''negative'', dec (n_grossNeg n)),
                (''tolerance'', dec tolerance) ] \<rparr>,
          snapshotVerdictExpression
            (''abs('' @ join '' + '' (map dec (n_termValues n)) @ '') <= '' @ dec tolerance)
            passed (n_celValues n @ [n_signedSum n, driftAbs])))"

definition Invariant_EvaluateSpec ::
  "ctx \<Rightarrow> invariantSpec \<Rightarrow> engine \<Rightarrow> resolvers \<Rightarrow> evalInput \<Rightarrow> templateAnswer" where
  "Invariant_EvaluateSpec ctxErr spec eng r inp =
     (case requireResolvers r [''ledger''] of
        Some err \<Rightarrow> (Some emptyResult, Some err)
      | None \<Rightarrow>
     (case Ledger r of
        None \<Rightarrow> (Some emptyResult, Some nilDereference)
      | Some L \<Rightarrow>
          let (err, termBalances, pits) = scoutTerms L inp 0 newSourceKeyer (is_Terms spec) [];
              result = emptyResult\<lparr> er_PitPerSource := pits \<rparr>
          in case err of
               Some e \<Rightarrow> (Some result, Some e)
             | None \<Rightarrow>
                 let items = map (invariant_asset spec termBalances) (sortedKeys (is_Tolerance spec));
                     (err, result) = applyKernelVerdicts ctxErr eng inp
                        (result\<lparr> er_Outcomes := map fst items \<rparr>) (map snd items)
                 in (Some result, err)))"

definition Invariant_Evaluate ::
  "ctx \<Rightarrow> rawJSON \<Rightarrow> engine \<Rightarrow> resolvers \<Rightarrow> evalInput \<Rightarrow> templateAnswer" where
  "Invariant_Evaluate ctxErr raw eng r inp =
     (case unmarshalSpec InvariantSpec_decode raw zeroInvariant of
        Inl err \<Rightarrow> (None, Some err)
      | Inr spec \<Rightarrow> Invariant_EvaluateSpec ctxErr spec eng r inp)"

section \<open>Properties\<close>

definition signed_values :: "invariantSpec \<Rightarrow> balances list \<Rightarrow> string \<Rightarrow> int list" where
  "signed_values spec bs asset = map (\<lambda>(t, b). it_Sign t * balanceOf b asset) (zip (is_Terms spec) bs)"

fun prefix_sums :: "int \<Rightarrow> int list \<Rightarrow> int list" where
  "prefix_sums a [] = []"
| "prefix_sums a (v # vs) = (a + v) # prefix_sums (a + v) vs"

lemma net_terms_fold:
  "n_signedSum n = n_runningSum n \<Longrightarrow>
   (let n' = foldl (net_term asset) n tbs; vs = map (\<lambda>(t, b). it_Sign t * balanceOf b asset) tbs in
      n_signedSum n' = n_signedSum n + sum_list vs \<and> n_termValues n' = n_termValues n @ vs \<and>
      n_grossPos n' + n_grossNeg n' = n_grossPos n + n_grossNeg n + sum_list vs \<and>
      set (n_celValues n') = set (n_celValues n) \<union> set vs \<union> set (prefix_sums (n_runningSum n) vs))"
proof (induction tbs arbitrary: n)
  case (Cons tb tbs)
  obtain t b where tb: "tb = (t, b)" by (rule prod.exhaust)
  have "n_signedSum (net_term asset n tb) = n_runningSum (net_term asset n tb)"
    using Cons.prems by (simp add: net_term_def tb Let_def)
  from Cons.IH [OF this] show ?case
    using Cons.prems by (auto simp: Let_def tb net_term_def)
qed simp

lemma net_terms_simps:
  "n_signedSum (net_terms spec bs a) = sum_list (signed_values spec bs a)"
  "n_termValues (net_terms spec bs a) = signed_values spec bs a"
  "n_grossPos (net_terms spec bs a) + n_grossNeg (net_terms spec bs a) = sum_list (signed_values spec bs a)"
  "set (n_celValues (net_terms spec bs a)) =
     set (signed_values spec bs a) \<union> set (prefix_sums 0 (signed_values spec bs a))"
  using net_terms_fold [of "\<lparr> n_signedSum = 0, n_grossPos = 0, n_grossNeg = 0, n_termValues = [],
      n_celValues = [], n_runningSum = 0 \<rparr>" a "zip (is_Terms spec) bs"]
  by (simp_all add: net_terms_def signed_values_def Let_def)

definition sumA :: "int list \<Rightarrow> aexp" where
  "sumA vs = foldl (\<lambda>e v. AAdd e (ALit v)) (ALit (hd vs)) (tl vs)"

lemma foldl_AAdd:
  "renderA (foldl (\<lambda>e v. AAdd e (ALit v)) e vs) = renderA e @ concat (map (\<lambda>v. '' + '' @ dec v) vs)"
  "exactA (foldl (\<lambda>e v. AAdd e (ALit v)) e vs) = exactA e + sum_list vs"
  "set (valsA (foldl (\<lambda>e v. AAdd e (ALit v)) e vs)) = set (valsA e) \<union> set vs \<union> set (prefix_sums (exactA e) vs)"
  by (induction vs arbitrary: e) (auto simp: algebra_simps)

lemma join_concat: "xs \<noteq> [] \<Longrightarrow> join sep xs = hd xs @ concat (map (\<lambda>x. sep @ x) (tl xs))"
  by (induction sep xs rule: join.induct) auto

lemma renderA_sumA: "vs \<noteq> [] \<Longrightarrow> renderA (sumA vs) = join '' + '' (map dec vs)"
  by (cases vs) (simp_all add: sumA_def foldl_AAdd join_concat comp_def)

lemma exactA_sumA: "vs \<noteq> [] \<Longrightarrow> exactA (sumA vs) = sum_list vs"
  by (cases vs) (simp_all add: sumA_def foldl_AAdd)

lemma valsA_sumA: "vs \<noteq> [] \<Longrightarrow> set (valsA (sumA vs)) = set vs \<union> set (prefix_sums 0 vs)"
  by (cases vs) (auto simp add: sumA_def foldl_AAdd)

definition invariant_snap :: "invariantSpec \<Rightarrow> balances list \<Rightarrow> string \<Rightarrow> snap" where
  "invariant_snap spec bs asset =
     (let n = net_terms spec bs asset; tolerance = mapGet (is_Tolerance spec) asset in
      guarded (SAbsLe (sumA (n_termValues n)) tolerance) (\<bar>n_signedSum n\<bar> \<le> tolerance)
        (n_celValues n @ [n_signedSum n, \<bar>n_signedSum n\<bar>]))"

lemma invariant_asset_snap:
  assumes "is_Terms spec \<noteq> []" and "length bs = length (is_Terms spec)"
    and "\<And>k v. (k, v) \<in> set (is_Tolerance spec) \<Longrightarrow> IsInt64 v"
  shows "snd (invariant_asset spec bs a) = render (invariant_snap spec bs a)"
    and "denote (invariant_snap spec bs a) = Some (oc_Passed (fst (invariant_asset spec bs a)))"
proof -
  let ?vs = "signed_values spec bs a"
  have ne: "?vs \<noteq> []" using assms(1,2) by (cases bs) (auto simp: signed_values_def)
  show "snd (invariant_asset spec bs a) = render (invariant_snap spec bs a)"
    using ne by (simp add: invariant_asset_def invariant_snap_def Let_def render_guarded [symmetric]
        net_terms_simps(1,2) renderA_sumA)
  have "IsInt64 (mapGet (is_Tolerance spec) a)" using mapGet_IsInt64 [OF assms(3)] .
  then have "denote (invariant_snap spec bs a) =
      Some (\<bar>n_signedSum (net_terms spec bs a)\<bar> \<le> mapGet (is_Tolerance spec) a)"
    unfolding invariant_snap_def Let_def using ne
    by (intro denote_guarded) (auto simp: net_terms_simps exactA_sumA valsA_sumA)
  then show "denote (invariant_snap spec bs a) = Some (oc_Passed (fst (invariant_asset spec bs a)))"
    by (simp add: invariant_asset_def Let_def)
qed

lemma invariant_asset_fields [simp]:
  "oc_Fingerprint (fst (invariant_asset spec bs a)) = ''asset:'' @ a"
  "oc_Passed (fst (invariant_asset spec bs a)) \<longleftrightarrow>
     \<bar>sum_list (signed_values spec bs a)\<bar> \<le> mapGet (is_Tolerance spec) a"
  by (simp_all add: invariant_asset_def Let_def net_terms_simps)

lemma invariant_tolerance_range:
  assumes "unmarshalSpec InvariantSpec_decode raw zeroInvariant = Inr spec"
  shows "(k, v) \<in> set (is_Tolerance spec) \<Longrightarrow> IsInt64 v"
proof -
  have "\<forall>k v. (k, v) \<in> set (is_Tolerance spec) \<longrightarrow> IsInt64 v"
    by (rule dec_struct_invariant [OF unmarshalSpec_decode [OF assms, unfolded InvariantSpec_decode_def],
          where P = "\<lambda>s. \<forall>k v. (k, v) \<in> set (is_Tolerance s) \<longrightarrow> IsInt64 v"])
       (auto simp: zeroInvariant_def split: if_splits dest: tolerance_range)
  then show "(k, v) \<in> set (is_Tolerance spec) \<Longrightarrow> IsInt64 v" by blast
qed

text \<open>The reads of the terms, each at the instant of its own key.\<close>

definition invariant_reads ::
  "invariantSpec \<Rightarrow> ledgerResolver \<Rightarrow> evalInput \<Rightarrow> (gerror + balances) list" where
  "invariant_reads spec L inp =
     map2 (\<lambda>term key. AggregateBalance L (it_Ledger term) (it_Query term) (fst (effectiveSourcePIT inp key)))
       (is_Terms spec) (termKeys newSourceKeyer (is_Terms spec))"

lemma termKeys_keyer: "termKeys keyer terms = keyer_keys keyer (map termLabel terms)"
  by (induction terms arbitrary: keyer) (auto split: prod.splits)

lemma keyer_keys_length: "length (keyer_keys seen ls) = length ls"
  by (induction ls arbitrary: seen) simp_all

lemma map_put_fresh: "k \<notin> fst ` set m \<Longrightarrow> map_put k v m = m @ [(k, v)]"
  by (simp add: map_put_def)

lemma scoutTerms_reads:
  assumes "map2 (\<lambda>term key. AggregateBalance L (it_Ledger term) (it_Query term) (fst (effectiveSourcePIT inp key)))
       terms (termKeys keyer terms) = map Inr bs"
    and "distinct (map fst pits @ termKeys keyer terms)"
  shows "\<exists>pits'. scoutTerms L inp i keyer terms pits = (None, bs, pits')
       \<and> map fst pits' = map fst pits @ termKeys keyer terms"
  using assms
proof (induction terms arbitrary: i keyer pits bs)
  case (Cons t ts)
  obtain key keyer' where k: "keyer_key keyer (termLabel t) = (key, keyer')" by (rule prod.exhaust)
  obtain pit ex where p: "effectiveSourcePIT inp key = (pit, ex)" by (rule prod.exhaust)
  from Cons.prems(1) k p obtain b bs' where bs: "bs = b # bs'"
    and b: "AggregateBalance L (it_Ledger t) (it_Query t) pit = Inr b"
    and rest: "map2 (\<lambda>term key. AggregateBalance L (it_Ledger term) (it_Query term) (fst (effectiveSourcePIT inp key)))
       ts (termKeys keyer' ts) = map Inr bs'"
    by (cases bs) auto
  have fresh: "key \<notin> fst ` set pits" and dist: "distinct (map fst (pits @ [(key, pit)]) @ termKeys keyer' ts)"
    using Cons.prems(2) k by auto
  from Cons.IH [OF rest dist] obtain pits' where
      "scoutTerms L inp (i + 1) keyer' ts (pits @ [(key, pit)]) = (None, bs', pits')"
      "map fst pits' = map fst (pits @ [(key, pit)]) @ termKeys keyer' ts" by blast
  with k p b fresh show ?case by (simp add: bs map_put_fresh)
qed simp

text \<open>
  C14. The invariant verdict is exact. When every term can be read, there is one outcome per asset
  of the tolerance map, in sorted order, and it passes exactly when the absolute value of the sum
  of the signed term balances, over the integers, is within the tolerance; assets outside the
  tolerance map are not checked. Two terms on one ledger read at their own instants.
\<close>

theorem invariant_verdict:
  assumes "unmarshalSpec InvariantSpec_decode raw zeroInvariant = Inr spec" and "is_Terms spec \<noteq> []"
    and "Ledger r = Some L" and "invariant_reads spec L inp = map Inr bs"
    and "\<forall>a\<in>set (sortedKeys (is_Tolerance spec)). celOK (eng_cel eng) cost (invariant_snap spec bs a)"
  shows "\<exists>res err. Invariant_Evaluate ctxErr raw eng r inp = (Some res, err)
    \<and> (kernel_ready ctxErr eng cost (map (invariant_snap spec bs) (sortedKeys (is_Tolerance spec))) \<longrightarrow> err = None)
    \<and> (err = None \<longrightarrow>
        Invariant_SourceKeys raw = Inr (map fst (er_PitPerSource res)) \<and> distinct (map fst (er_PitPerSource res))
        \<and> map (\<lambda>q. (oc_Fingerprint q, oc_Passed q)) (er_Outcomes res)
          = map (\<lambda>a. (''asset:'' @ a,
                 \<bar>\<Sum>(t, b)\<leftarrow>zip (is_Terms spec) bs. it_Sign t * balanceOf b a\<bar> \<le> mapGet (is_Tolerance spec) a))
              (sortedKeys (is_Tolerance spec)))"
proof -
  let ?xs = "sortedKeys (is_Tolerance spec)" and ?f = "invariant_asset spec bs"
  have len: "length bs = length (is_Terms spec)"
  proof -
    have "length bs = length (invariant_reads spec L inp)" by (simp only: assms(4) length_map)
    then show ?thesis by (simp add: invariant_reads_def termKeys_keyer keyer_keys_length)
  qed
  have dist: "distinct (termKeys newSourceKeyer (is_Terms spec))"
    by (simp add: termKeys_keyer keyer_keys_distinct)
  obtain pits where scout: "scoutTerms L inp 0 newSourceKeyer (is_Terms spec) [] = (None, bs, pits)"
    and pits: "map fst pits = termKeys newSourceKeyer (is_Terms spec)"
    using scoutTerms_reads [OF assms(4) [unfolded invariant_reads_def], of "[]" 0] dist by auto
  let ?r0 = "emptyResult\<lparr> er_PitPerSource := pits \<rparr>"
  obtain err res where k: "applyKernelVerdicts ctxErr eng inp (?r0\<lparr> er_Outcomes := map fst (map ?f ?xs) \<rparr>)
      (map snd (map ?f ?xs)) = (err, res)" by (rule prod.exhaust)
  note items = kernel_items [OF _ _ k, where g = "invariant_snap spec bs" and cost = cost]
  have ok: "kernel_ready ctxErr eng cost (map (invariant_snap spec bs) ?xs) \<Longrightarrow> err = None"
    and same: "err = None \<Longrightarrow> er_Outcomes res = map fst (map ?f ?xs) \<and> er_PitPerSource res = pits"
    using items assms(5) invariant_asset_snap [OF assms(2) len invariant_tolerance_range [OF assms(1)]] by auto
  have "Invariant_Evaluate ctxErr raw eng r inp = (Some res, err)"
    using k scout by (simp add: Invariant_Evaluate_def Invariant_EvaluateSpec_def assms(1,3) Let_def)
  moreover have "Invariant_SourceKeys raw = Inr (map fst pits)"
    using pits by (simp add: Invariant_SourceKeys_def assms(1))
  ultimately show ?thesis using ok same dist pits
    by (intro exI [of _ res] exI [of _ err]) (simp add: signed_values_def)
qed

definition invariant_example_raw :: rawJSON where
  "invariant_example_raw = ''{'' @ Quote ''terms'' @ '':[{'' @ Quote ''sign'' @ '':1},{'' @ Quote ''sign'' @ '':-1}],''
     @ Quote ''tolerance'' @ '':{'' @ Quote ''E'' @ '':5}}''"

definition invariant_example_spec :: invariantSpec where
  "invariant_example_spec = \<lparr> is_Terms = [\<lparr> it_Ledger = '''', it_Query = '''', it_Sign = 1 \<rparr>,
     \<lparr> it_Ledger = '''', it_Query = '''', it_Sign = -1 \<rparr>], is_Tolerance = [(''E'', 5)] \<rparr>"

lemma invariant_example_decodes:
  "unmarshalSpec InvariantSpec_decode invariant_example_raw zeroInvariant = Inr invariant_example_spec"
  by code_simp

text \<open>The second term is read at an instant of its own, where the balance is 97 instead of 100.\<close>

definition invariant_example_input :: evalInput where
  "invariant_example_input = \<lparr> PIT = 5, PITExplicit = False, SourcePITs = [(''ledger:#1'', 3)], in_SafetyMargin = 0 \<rparr>"

definition invariant_example_ledger :: ledgerResolver where
  "invariant_example_ledger = \<lparr> AggregateBalance = \<lambda>_ _ t. Inr [(''E'', Some (if t = 5 then 100 else 97))],
     ListAccounts = \<lambda>_ _ _ _. Inr [] \<rparr>"

definition invariant_example_engine :: engine where
  "invariant_example_engine = table_engine [(render (SAbsLe (sumA [100, -97]) 5), True)]"

theorem invariant_verdict_witness:
  "\<exists>res. Invariant_Evaluate (\<lambda>_. None) invariant_example_raw invariant_example_engine
       \<lparr> Ledger = Some invariant_example_ledger, Payments = None \<rparr> invariant_example_input = (Some res, None)
     \<and> map (\<lambda>q. (oc_Fingerprint q, oc_Passed q)) (er_Outcomes res) = [(''asset:E'', True)]"
proof -
  let ?spec = invariant_example_spec
  let ?bs = "[[(''E'', Some 100)], [(''E'', Some 97)]] :: balances list"
  have reads: "invariant_reads ?spec invariant_example_ledger invariant_example_input = map Inr ?bs"
    by code_simp
  have keys: "sortedKeys (is_Tolerance ?spec) = [''E'']" by code_simp
  have snap: "invariant_snap ?spec ?bs ''E'' = SAbsLe (sumA [100, -97]) 5" by code_simp
  have "denote (SAbsLe (sumA [100, -97]) 5) = Some True"
    by (subst denote_exact) (simp_all add: sumA_def IsInt64_def)
  then have ok: "\<forall>a\<in>set (sortedKeys (is_Tolerance ?spec)).
      celOK (eng_cel invariant_example_engine) (\<lambda>_. 1) (invariant_snap ?spec ?bs a)"
    by (simp only: keys snap invariant_example_engine_def table_engine_simps list.set ball_simps table_cel_single)
  have r: "Ledger \<lparr> Ledger = Some invariant_example_ledger, Payments = None \<rparr> = Some invariant_example_ledger"
    and ne: "is_Terms ?spec \<noteq> []"
    by (simp_all add: invariant_example_spec_def)
  have outcome: "map (\<lambda>a. (''asset:'' @ a, \<bar>\<Sum>(t, b)\<leftarrow>zip (is_Terms ?spec) ?bs. it_Sign t * balanceOf b a\<bar>
      \<le> mapGet (is_Tolerance ?spec) a)) (sortedKeys (is_Tolerance ?spec)) = [(''asset:E'', True)]"
    by code_simp
  have ready: "kernel_ready (\<lambda>_. None) invariant_example_engine (\<lambda>_. 1)
      (map (invariant_snap ?spec ?bs) (sortedKeys (is_Tolerance ?spec)))"
    unfolding invariant_example_engine_def by (rule table_ready) (simp add: keys)
  from invariant_verdict [OF invariant_example_decodes ne r reads ok, of "\<lambda>_. None"] ready
  show ?thesis unfolding outcome by auto
qed

end
