(* ===== verification/Threshold.thy ===== *)
theory Threshold
  imports Snapshot
begin

text \<open>
  The \<open>account_threshold\<close> template, \<open>internal/templates/account_threshold.go\<close>: per asset of the
  bounds map, the balance of the account set (or, in the parked mode, of each account) lies within
  the inclusive bounds.
\<close>

type_synonym thresholdMode = string

abbreviation "ThresholdAggregate \<equiv> ''aggregate'' :: thresholdMode"
abbreviation "ThresholdPerAccount \<equiv> ''per_account'' :: thresholdMode"

record thresholdBounds =
  tb_Min :: "int option"
  tb_Max :: "int option"

record thresholdSpec =
  ts_Ledger :: string
  ts_Query :: rawJSON
  ts_Mode :: thresholdMode
  ts_Bounds :: "(string \<times> thresholdBounds) list"

definition zeroBounds :: thresholdBounds where
  "zeroBounds = \<lparr> tb_Min = None, tb_Max = None \<rparr>"

definition zeroThreshold :: thresholdSpec where
  "zeroThreshold = \<lparr> ts_Ledger = '''', ts_Query = '''', ts_Mode = '''', ts_Bounds = [] \<rparr>"

definition ThresholdBounds_decode :: "thresholdBounds decoder" where
  "ThresholdBounds_decode = dec_struct (\<lambda>key t s.
     if field ''min'' key then map_option (\<lambda>v. s\<lparr> tb_Min := v \<rparr>) (dec_ptr 0 dec_int64 t (tb_Min s))
     else if field ''max'' key then map_option (\<lambda>v. s\<lparr> tb_Max := v \<rparr>) (dec_ptr 0 dec_int64 t (tb_Max s))
     else Some s)"

definition ThresholdSpec_decode :: "thresholdSpec decoder" where
  "ThresholdSpec_decode = dec_struct (\<lambda>key t s.
     if field ''ledger'' key then map_option (\<lambda>v. s\<lparr> ts_Ledger := v \<rparr>) (dec_string t (ts_Ledger s))
     else if field ''query'' key then map_option (\<lambda>v. s\<lparr> ts_Query := v \<rparr>) (dec_raw t (ts_Query s))
     else if field ''mode'' key then map_option (\<lambda>v. s\<lparr> ts_Mode := v \<rparr>) (dec_string t (ts_Mode s))
     else if field ''bounds'' key then
       map_option (\<lambda>v. s\<lparr> ts_Bounds := v \<rparr>) (dec_map zeroBounds ThresholdBounds_decode t (ts_Bounds s))
     else Some s)"

definition Threshold_Kind :: templateKind where "Threshold_Kind = TemplateAccountThreshold"

fun checkBounds :: "(string \<times> thresholdBounds) list \<Rightarrow> gerror option" where
  "checkBounds [] = None"
| "checkBounds ((asset, b) # bs) =
     (if tb_Min b = None \<and> tb_Max b = None then
        Some (errorf ErrInvalidSpec (''bounds['' @ asset @ ''] must set at least one of min or max''))
      else
        case (tb_Min b, tb_Max b) of
          (Some lo, Some hi) \<Rightarrow>
            if lo > hi then
              Some (errorf ErrInvalidSpec (''bounds['' @ asset @ ''].min ('' @ dec lo @ '') must be <= max (''
                      @ dec hi @ '')''))
            else checkBounds bs
        | _ \<Rightarrow> checkBounds bs)"

definition defaultMode :: "thresholdSpec \<Rightarrow> thresholdSpec" where
  "defaultMode spec = (if ts_Mode spec = '''' then spec\<lparr> ts_Mode := ThresholdAggregate \<rparr> else spec)"

definition Threshold_Validate :: "rawJSON \<Rightarrow> gerror option" where
  "Threshold_Validate raw =
     (case unmarshalSpec ThresholdSpec_decode raw zeroThreshold of
        Inl err \<Rightarrow> Some err
      | Inr spec \<Rightarrow>
          if ts_Ledger spec = '''' then Some (errorf ErrInvalidSpec ''ledger is required'')
          else if \<not> hasMeaningfulJSON (ts_Query spec) then Some (errorf ErrInvalidSpec ''query is required'')
          else
            let spec = defaultMode spec in
            if ts_Mode spec = ThresholdPerAccount then Some (errorf ErrInvalidSpec perAccountParkedMsg)
            else if ts_Mode spec \<noteq> ThresholdAggregate then
              Some (errorf ErrInvalidSpec (''mode must be 'aggregate' (got '' @ Quote (ts_Mode spec) @ '')''))
            else if ts_Bounds spec = [] then
              Some (errorf ErrInvalidSpec ''bounds must contain at least one asset'')
            else checkBounds (ts_Bounds spec))"

definition boundsOf :: "thresholdSpec \<Rightarrow> string \<Rightarrow> thresholdBounds" where
  "boundsOf spec asset = (case map_of (ts_Bounds spec) asset of None \<Rightarrow> zeroBounds | Some b \<Rightarrow> b)"

text \<open>The conjunction of the bounds that are set, over a rendered term.\<close>

definition boundParts :: "string \<Rightarrow> thresholdBounds \<Rightarrow> string list" where
  "boundParts term bounds =
     (case tb_Min bounds of None \<Rightarrow> [] | Some m \<Rightarrow> [term @ '' >= '' @ dec m])
     @ (case tb_Max bounds of None \<Rightarrow> [] | Some m \<Rightarrow> [term @ '' <= '' @ dec m])"

definition buildThresholdExpression :: "thresholdSpec \<Rightarrow> string \<Rightarrow> string" where
  "buildThresholdExpression spec asset =
     (let bal = ''balance(ledgerSet('' @ celString (ts_Ledger spec) @ '', '' @ celJSON (ts_Query spec)
                @ ''), '' @ celString asset @ '')''
      in join '' && '' (boundParts bal (boundsOf spec asset)))"

definition buildPerAccountExpression :: "sourceSpec \<Rightarrow> string \<Rightarrow> string \<Rightarrow> thresholdBounds \<Rightarrow> string" where
  "buildPerAccountExpression src address asset bounds =
     join '' && '' (boundParts (celTermForAccount src address (celString asset)) bounds)"

definition buildSnapshotThresholdExpression :: "int \<Rightarrow> thresholdBounds \<Rightarrow> string" where
  "buildSnapshotThresholdExpression value bounds =
     join '' && '' (boundParts (''('' @ dec value @ '')'') bounds)"

definition Threshold_Explain :: "rawJSON \<Rightarrow> gerror + string" where
  "Threshold_Explain raw =
     (case unmarshalSpec ThresholdSpec_decode raw zeroThreshold of
        Inl err \<Rightarrow> Inl err
      | Inr spec \<Rightarrow>
          (case sortedKeys (ts_Bounds spec) of
             [] \<Rightarrow> Inl (errorf ErrInvalidSpec ''bounds is empty - cannot pick a representative asset'')
           | asset # _ \<Rightarrow> Inr (buildThresholdExpression spec asset)))"

definition threshold_source :: "thresholdSpec \<Rightarrow> sourceSpec" where
  "threshold_source spec = ledgerSource (ts_Ledger spec) (ts_Query spec)"

definition Threshold_SourceKeys :: "rawJSON \<Rightarrow> gerror + string list" where
  "Threshold_SourceKeys raw =
     (case unmarshalSpec ThresholdSpec_decode raw zeroThreshold of
        Inl err \<Rightarrow> Inl err
      | Inr spec \<Rightarrow> Inr [fst (keyer_key newSourceKeyer (source_label (threshold_source spec)))])"

definition thresholdPassed :: "int \<Rightarrow> thresholdBounds \<Rightarrow> bool" where
  "thresholdPassed value bounds =
     (if (case tb_Min bounds of None \<Rightarrow> False | Some m \<Rightarrow> value < m) then False
      else if (case tb_Max bounds of None \<Rightarrow> False | Some m \<Rightarrow> value > m) then False
      else True)"

definition thresholdProof :: "int \<Rightarrow> thresholdBounds \<Rightarrow> (string \<times> string) list" where
  "thresholdProof value bounds =
     [(''balance'', dec value)]
     @ (case tb_Min bounds of None \<Rightarrow> [] | Some m \<Rightarrow> [(''min'', dec m)])
     @ (case tb_Max bounds of None \<Rightarrow> [] | Some m \<Rightarrow> [(''max'', dec m)])"

definition boundsEvidence :: "thresholdBounds \<Rightarrow> (string \<times> json) list" where
  "boundsEvidence bounds =
     (case tb_Min bounds of None \<Rightarrow> [] | Some m \<Rightarrow> [(''min'', JInt m)])
     @ (case tb_Max bounds of None \<Rightarrow> [] | Some m \<Rightarrow> [(''max'', JInt m)])"

definition threshold_asset :: "thresholdSpec \<Rightarrow> balances \<Rightarrow> string \<Rightarrow> outcome \<times> string" where
  "threshold_asset spec ledgerBalances asset =
     (let bounds = boundsOf spec asset;
          val = balanceOf ledgerBalances asset;
          passed = thresholdPassed val bounds;
          expr = buildThresholdExpression spec asset
      in (\<lparr> oc_Fingerprint = fingerprintFor [(''asset'', asset)],
            oc_Passed = passed,
            oc_Evidence = [(''asset'', JStr asset), (''balance'', JStr (dec val)), (''compiledCEL'', JStr expr)]
                          @ boundsEvidence bounds,
            oc_Proof = thresholdProof val bounds \<rparr>,
          snapshotVerdictExpression (buildSnapshotThresholdExpression val bounds) passed [val]))"

definition threshold_account ::
  "thresholdSpec \<Rightarrow> sourceSpec \<Rightarrow> account \<times> string \<Rightarrow> outcome \<times> string" where
  "threshold_account spec src aa =
     (let (acct, asset) = aa;
          bounds = boundsOf spec asset;
          val = balanceOf (acct_Balances acct) asset;
          passed = thresholdPassed val bounds
      in (\<lparr> oc_Fingerprint = fingerprintFor [(''asset'', asset), (''account'', acct_Address acct)],
            oc_Passed = passed,
            oc_Evidence =
              [ (''asset'', JStr asset), (''account'', JStr (acct_Address acct)), (''balance'', JStr (dec val)),
                (''compiledCEL'', JStr (buildPerAccountExpression src (acct_Address acct) asset bounds)) ]
              @ boundsEvidence bounds,
            oc_Proof = thresholdProof val bounds \<rparr>,
          snapshotVerdictExpression (buildSnapshotThresholdExpression val bounds) passed [val]))"

definition Threshold_evaluatePerAccount ::
  "ctx \<Rightarrow> thresholdSpec \<Rightarrow> sourceSpec \<Rightarrow> engine \<Rightarrow> resolvers \<Rightarrow> evalResult \<Rightarrow> string \<Rightarrow> time \<Rightarrow> evalInput
   \<Rightarrow> templateAnswer" where
  "Threshold_evaluatePerAccount ctxErr spec src eng r result srcKey pit inp =
     (case resolveAccounts src r pit (MaxAccountsScanned (eng_limits eng)) of
        Inl err \<Rightarrow> (Some result, Some (wrap_error (''scout accounts on '' @ source_label src) err))
      | Inr accounts \<Rightarrow>
          let result = result\<lparr> er_PitPerSource := map_put srcKey pit (er_PitPerSource result) \<rparr>;
              assets = sortedKeys (ts_Bounds spec);
              items = map (threshold_account spec src) (List.product accounts assets);
              (err, result) = applyKernelVerdicts ctxErr eng inp
                 (result\<lparr> er_Outcomes := map fst items \<rparr>) (map snd items)
          in (Some result, err))"

definition Threshold_EvaluateSpec ::
  "ctx \<Rightarrow> time \<Rightarrow> thresholdSpec \<Rightarrow> engine \<Rightarrow> resolvers \<Rightarrow> evalInput \<Rightarrow> templateAnswer" where
  "Threshold_EvaluateSpec ctxErr now spec0 eng r inp =
     (let spec = defaultMode spec0;
          src = threshold_source spec;
          srcKey = fst (keyer_key newSourceKeyer (source_label src));
          (pit, _) = effectiveSourcePIT inp srcKey;
          result = emptyResult
      in case requireResolvers r [''ledger''] of
           Some err \<Rightarrow> (Some result, Some err)
         | None \<Rightarrow>
             if ts_Mode spec = ThresholdPerAccount
             then Threshold_evaluatePerAccount ctxErr spec src eng r result srcKey pit inp
             else
               case SourceSpec_resolve src r now pit False of
                 Inl err \<Rightarrow> (Some result, Some (wrap_error ''scout ledger balances'' err))
               | Inr (ledgerBalances, resolvedAt) \<Rightarrow>
                   let result = result\<lparr> er_PitPerSource := map_put srcKey resolvedAt (er_PitPerSource result) \<rparr>;
                       items = map (threshold_asset spec ledgerBalances) (sortedKeys (ts_Bounds spec));
                       (err, result) = applyKernelVerdicts ctxErr eng inp
                          (result\<lparr> er_Outcomes := map fst items \<rparr>) (map snd items)
                   in (Some result, err))"

definition Threshold_Evaluate ::
  "ctx \<Rightarrow> time \<Rightarrow> rawJSON \<Rightarrow> engine \<Rightarrow> resolvers \<Rightarrow> evalInput \<Rightarrow> templateAnswer" where
  "Threshold_Evaluate ctxErr now raw eng r inp =
     (case unmarshalSpec ThresholdSpec_decode raw zeroThreshold of
        Inl err \<Rightarrow> (None, Some err)
      | Inr spec \<Rightarrow> Threshold_EvaluateSpec ctxErr now spec eng r inp)"

section \<open>Properties\<close>

definition bound_snap :: "int \<Rightarrow> thresholdBounds \<Rightarrow> snap" where
  "bound_snap v bounds = guarded
     (case (tb_Min bounds, tb_Max bounds) of
        (Some lo, Some hi) \<Rightarrow> SAnd (SGe (APar (ALit v)) lo) (SLe (APar (ALit v)) hi)
      | (Some lo, None) \<Rightarrow> SGe (APar (ALit v)) lo
      | (None, Some hi) \<Rightarrow> SLe (APar (ALit v)) hi
      | (None, None) \<Rightarrow> SBool True)
     (thresholdPassed v bounds) [v]"

definition bounds_fit :: "thresholdBounds \<Rightarrow> bool" where
  "bounds_fit b \<longleftrightarrow> (tb_Min b \<noteq> None \<or> tb_Max b \<noteq> None) \<and>
     (\<forall>m. tb_Min b = Some m \<or> tb_Max b = Some m \<longrightarrow> IsInt64 m)"

lemma bound_snap_ok:
  assumes "bounds_fit b"
  shows "snapshotVerdictExpression (buildSnapshotThresholdExpression v b) (thresholdPassed v b) [v]
           = render (bound_snap v b)"
    and "denote (bound_snap v b) = Some (thresholdPassed v b)"
proof -
  show "snapshotVerdictExpression (buildSnapshotThresholdExpression v b) (thresholdPassed v b) [v]
           = render (bound_snap v b)"
    using assms unfolding bound_snap_def render_guarded [symmetric] bounds_fit_def
    by (auto simp: buildSnapshotThresholdExpression_def boundParts_def split: option.splits)
  show "denote (bound_snap v b) = Some (thresholdPassed v b)"
    unfolding bound_snap_def
    by (rule denote_guarded)
       (use assms in \<open>auto simp: bounds_fit_def thresholdPassed_def split: option.splits\<close>)
qed

lemma threshold_asset_fields [simp]:
  "oc_Fingerprint (fst (threshold_asset spec lb a)) = ''asset:'' @ a"
  "oc_Passed (fst (threshold_asset spec lb a)) = thresholdPassed (balanceOf lb a) (boundsOf spec a)"
  "snd (threshold_asset spec lb a) = snapshotVerdictExpression
     (buildSnapshotThresholdExpression (balanceOf lb a) (boundsOf spec a))
     (thresholdPassed (balanceOf lb a) (boundsOf spec a)) [balanceOf lb a]"
  by (simp_all add: threshold_asset_def Let_def)

lemma threshold_account_fields [simp]:
  "oc_Fingerprint (fst (threshold_account spec src (acct, a))) = ''asset:'' @ a @ ''|account:'' @ acct_Address acct"
  "oc_Passed (fst (threshold_account spec src (acct, a))) =
     thresholdPassed (balanceOf (acct_Balances acct) a) (boundsOf spec a)"
  "snd (threshold_account spec src (acct, a)) = snapshotVerdictExpression
     (buildSnapshotThresholdExpression (balanceOf (acct_Balances acct) a) (boundsOf spec a))
     (thresholdPassed (balanceOf (acct_Balances acct) a) (boundsOf spec a)) [balanceOf (acct_Balances acct) a]"
  by (simp_all add: threshold_account_def Let_def)

lemma ptr_range: "dec_ptr 0 dec_int64 t old = Some (Some m) \<Longrightarrow> (\<And>n. old = Some n \<Longrightarrow> IsInt64 n) \<Longrightarrow> IsInt64 m"
  by (auto simp: dec_ptr_def IsInt64_def split: if_splits option.splits
      dest!: dec_int64_range [unfolded IsInt64_def])

definition bounds_range :: "thresholdBounds \<Rightarrow> bool" where
  "bounds_range b \<longleftrightarrow> (\<forall>m. tb_Min b = Some m \<or> tb_Max b = Some m \<longrightarrow> IsInt64 m)"

lemma bounds_decode_range: "ThresholdBounds_decode t zeroBounds = Some b \<Longrightarrow> bounds_range b"
  by (rule dec_struct_invariant [where P = bounds_range and old = zeroBounds and s = t])
     ((auto simp: ThresholdBounds_decode_def bounds_range_def zeroBounds_def split: if_splits)[3],
      (erule ptr_range, blast)+)

lemma threshold_decode_range:
  assumes "unmarshalSpec ThresholdSpec_decode raw zeroThreshold = Inr spec"
  shows "(k, b) \<in> set (ts_Bounds spec) \<Longrightarrow> bounds_range b"
proof -
  have step: "\<forall>k b. (k, b) \<in> set m \<longrightarrow> bounds_range b"
    if "dec_map zeroBounds ThresholdBounds_decode t old = Some m" "\<forall>k b. (k, b) \<in> set old \<longrightarrow> bounds_range b"
    for t old m
    using that dec_map_values [OF that(1), of bounds_range] bounds_decode_range by blast
  have "\<forall>k b. (k, b) \<in> set (ts_Bounds spec) \<longrightarrow> bounds_range b"
    by (rule dec_struct_invariant [OF unmarshalSpec_decode [OF assms, unfolded ThresholdSpec_decode_def],
          where P = "\<lambda>s. \<forall>k b. (k, b) \<in> set (ts_Bounds s) \<longrightarrow> bounds_range b"])
       (auto simp: zeroThreshold_def split: if_splits dest: step)
  then show "(k, b) \<in> set (ts_Bounds spec) \<Longrightarrow> bounds_range b" by blast
qed

lemma checkBounds_None: "checkBounds bs = None \<Longrightarrow> (k, b) \<in> set bs \<Longrightarrow>
    (tb_Min b \<noteq> None \<or> tb_Max b \<noteq> None) \<and> (\<forall>lo hi. tb_Min b = Some lo \<longrightarrow> tb_Max b = Some hi \<longrightarrow> lo \<le> hi)"
  by (induction bs rule: checkBounds.induct) (auto split: if_splits option.splits)

lemma Threshold_Validate_ok:
  assumes "Threshold_Validate raw = None"
  obtains spec where "unmarshalSpec ThresholdSpec_decode raw zeroThreshold = Inr spec"
    and "ts_Mode (defaultMode spec) = ThresholdAggregate" and "ts_Bounds spec \<noteq> []"
    and "checkBounds (ts_Bounds spec) = None"
proof -
  have keep: "ts_Bounds (defaultMode s) = ts_Bounds s" for s by (simp add: defaultMode_def)
  from assms obtain spec where "unmarshalSpec ThresholdSpec_decode raw zeroThreshold = Inr spec"
      "ts_Mode (defaultMode spec) = ThresholdAggregate" "ts_Bounds spec \<noteq> []"
      "checkBounds (ts_Bounds spec) = None"
    by (auto simp: Threshold_Validate_def Let_def keep split: sum.splits if_splits)
  then show thesis by (rule that)
qed

lemma boundsOf_mem: "a \<in> set (sortedKeys (ts_Bounds spec)) \<Longrightarrow> (a, boundsOf spec a) \<in> set (ts_Bounds spec)"
  by (auto simp: boundsOf_def keys_of_def split: option.splits dest: map_of_SomeD
      simp: map_of_eq_None_iff image_iff)

lemma valid_bounds_fit:
  assumes "unmarshalSpec ThresholdSpec_decode raw zeroThreshold = Inr spec"
    and "checkBounds (ts_Bounds spec) = None" and "a \<in> set (sortedKeys (ts_Bounds spec))"
  shows "bounds_fit (boundsOf spec a)"
  using boundsOf_mem [OF assms(3)] threshold_decode_range [OF assms(1)] checkBounds_None [OF assms(2)]
  by (simp add: bounds_fit_def bounds_range_def)

definition threshold_key :: "thresholdSpec \<Rightarrow> string" where
  "threshold_key spec = ''ledger:'' @ ts_Ledger spec @ ''#0''"

lemma threshold_key_keyer:
  "fst (keyer_key newSourceKeyer (source_label (threshold_source spec))) = threshold_key spec"
  by (simp add: keyer_key_def newSourceKeyer_def threshold_source_def threshold_key_def source_label_def
      ledgerSource_def dec_nat.simps digit_char_def)

lemma defaultMode_simps [simp]:
  "ts_Ledger (defaultMode s) = ts_Ledger s" "ts_Query (defaultMode s) = ts_Query s"
  "ts_Bounds (defaultMode s) = ts_Bounds s" "boundsOf (defaultMode s) a = boundsOf s a"
  "threshold_source (defaultMode s) = threshold_source s" "threshold_key (defaultMode s) = threshold_key s"
  by (simp_all add: defaultMode_def boundsOf_def threshold_source_def threshold_key_def)

text \<open>
  C15. The threshold verdict is exact. For a validated rule whose ledger can be read, there is one
  outcome per asset of the bounds map, in sorted order, and it passes exactly when the account
  set's balance, over the integers, is at least the minimum and at most the maximum that are set.
\<close>

theorem threshold_verdict:
  assumes "Threshold_Validate raw = None"
    and "unmarshalSpec ThresholdSpec_decode raw zeroThreshold = Inr spec"
    and "Ledger r = Some L"
    and "AggregateBalance L (ts_Ledger spec) (ts_Query spec)
           (fst (effectiveSourcePIT inp (threshold_key spec))) = Inr lb"
    and "\<forall>a\<in>set (sortedKeys (ts_Bounds spec)).
           celOK (eng_cel eng) cost (bound_snap (balanceOf lb a) (boundsOf spec a))"
  shows "\<exists>res err. Threshold_Evaluate ctxErr now raw eng r inp = (Some res, err)
    \<and> (kernel_ready ctxErr eng cost (map (\<lambda>a. bound_snap (balanceOf lb a) (boundsOf spec a))
          (sortedKeys (ts_Bounds spec))) \<longrightarrow> err = None)
    \<and> (err = None \<longrightarrow>
        Threshold_SourceKeys raw = Inr (map fst (er_PitPerSource res)) \<and> er_Outcomes res \<noteq> []
        \<and> map (\<lambda>q. (oc_Fingerprint q, oc_Passed q)) (er_Outcomes res)
          = map (\<lambda>a. (''asset:'' @ a,
                 (\<forall>m. tb_Min (boundsOf spec a) = Some m \<longrightarrow> m \<le> balanceOf lb a)
                 \<and> (\<forall>m. tb_Max (boundsOf spec a) = Some m \<longrightarrow> balanceOf lb a \<le> m)))
              (sortedKeys (ts_Bounds spec)))"
proof -
  let ?spec = "defaultMode spec"
  let ?xs = "sortedKeys (ts_Bounds spec)" and ?f = "threshold_asset ?spec lb"
  let ?g = "\<lambda>a. bound_snap (balanceOf lb a) (boundsOf spec a)"
  have mode: "ts_Mode ?spec = ThresholdAggregate" and ne: "ts_Bounds spec \<noteq> []"
    and chk: "checkBounds (ts_Bounds spec) = None"
    using Threshold_Validate_ok [OF assms(1)] assms(2) by (metis sum.inject(2))+
  obtain pit ex where p: "effectiveSourcePIT inp (threshold_key spec) = (pit, ex)" by (rule prod.exhaust)
  let ?r0 = "emptyResult\<lparr> er_PitPerSource := [(threshold_key spec, pit)] \<rparr>"
  obtain err res where k: "applyKernelVerdicts ctxErr eng inp (?r0\<lparr> er_Outcomes := map fst (map ?f ?xs) \<rparr>)
      (map snd (map ?f ?xs)) = (err, res)" by (rule prod.exhaust)
  note items = kernel_items [OF _ _ k, where g = ?g and cost = cost]
  have ok: "kernel_ready ctxErr eng cost (map ?g ?xs) \<Longrightarrow> err = None"
    and same: "err = None \<Longrightarrow> er_Outcomes res = map fst (map ?f ?xs)
        \<and> er_PitPerSource res = [(threshold_key spec, pit)]"
    using items assms(5) bound_snap_ok [OF valid_bounds_fit [OF assms(2) chk]] by auto
  have read: "SourceSpec_resolve (threshold_source spec) r now pit False = Inr (lb, pit)"
    using assms(3,4) p by (simp add: SourceSpec_resolve_def threshold_source_def ledgerSource_def)
  have "Threshold_Evaluate ctxErr now raw eng r inp = (Some res, err)"
    using k p read mode assms(3)
    by (simp add: Threshold_Evaluate_def Threshold_EvaluateSpec_def assms(2) threshold_key_keyer map_put_def
        emptyResult_def)
  moreover have "Threshold_SourceKeys raw = Inr [threshold_key spec]"
    by (simp add: Threshold_SourceKeys_def assms(2) threshold_key_keyer)
  moreover have "length ?xs = length (ts_Bounds spec)" by (simp add: sortedKeys_def keys_of_def)
  then have "?xs \<noteq> []" using ne by auto
  ultimately show ?thesis using ok same
    by (intro exI [of _ res] exI [of _ err])
       (auto simp: thresholdPassed_def comp_def not_less split: option.splits)
qed

definition threshold_example_raw :: rawJSON where
  "threshold_example_raw = ''{'' @ Quote ''ledger'' @ '':'' @ Quote ''m'' @ '','' @ Quote ''query'' @ '':{},''
     @ Quote ''bounds'' @ '':{'' @ Quote ''E'' @ '':{'' @ Quote ''min'' @ '':1,'' @ Quote ''max'' @ '':9}}}''"

definition threshold_example_spec :: thresholdSpec where
  "threshold_example_spec = \<lparr> ts_Ledger = ''m'', ts_Query = ''{}'', ts_Mode = '''',
     ts_Bounds = [(''E'', \<lparr> tb_Min = Some 1, tb_Max = Some 9 \<rparr>)] \<rparr>"

lemma threshold_example_decodes:
  "unmarshalSpec ThresholdSpec_decode threshold_example_raw zeroThreshold = Inr threshold_example_spec"
  by code_simp

lemma threshold_example_valid: "Threshold_Validate threshold_example_raw = None"
  by code_simp

definition threshold_example_engine :: engine where
  "threshold_example_engine =
     table_engine [(render (SAnd (SGe (APar (ALit 9)) 1) (SLe (APar (ALit 9)) 9)), True)]"

definition threshold_example_ledger :: ledgerResolver where
  "threshold_example_ledger = \<lparr> AggregateBalance = \<lambda>_ _ _. Inr [(''E'', Some 9), (''F'', Some 1)],
     ListAccounts = \<lambda>_ _ _ _. Inr [] \<rparr>"

theorem threshold_verdict_witness:
  "\<exists>res. Threshold_Evaluate (\<lambda>_. None) 7 threshold_example_raw threshold_example_engine
       \<lparr> Ledger = Some threshold_example_ledger, Payments = None \<rparr> toy_input = (Some res, None)
     \<and> map (\<lambda>q. (oc_Fingerprint q, oc_Passed q)) (er_Outcomes res) = [(''asset:E'', True)]"
proof -
  let ?spec = threshold_example_spec
  let ?lb = "[(''E'', Some 9), (''F'', Some 1)] :: balances"
  let ?S = "SAnd (SGe (APar (ALit 9)) 1) (SLe (APar (ALit 9)) 9)"
  have read: "AggregateBalance threshold_example_ledger (ts_Ledger ?spec) (ts_Query ?spec)
      (fst (effectiveSourcePIT toy_input (threshold_key ?spec))) = Inr ?lb"
    by (simp add: threshold_example_ledger_def)
  have keys: "sortedKeys (ts_Bounds ?spec) = [''E'']" by code_simp
  have snap: "bound_snap (balanceOf ?lb ''E'') (boundsOf ?spec ''E'') = ?S" by code_simp
  have "denote ?S = Some True" by (subst denote_exact) (simp_all add: IsInt64_def)
  then have ok: "\<forall>a\<in>set (sortedKeys (ts_Bounds ?spec)). celOK (eng_cel threshold_example_engine) (\<lambda>_. 1)
      (bound_snap (balanceOf ?lb a) (boundsOf ?spec a))"
    by (simp only: keys snap threshold_example_engine_def table_engine_simps list.set ball_simps table_cel_single)
  have r: "Ledger \<lparr> Ledger = Some threshold_example_ledger, Payments = None \<rparr> = Some threshold_example_ledger"
    by simp
  have ready: "kernel_ready (\<lambda>_. None) threshold_example_engine (\<lambda>_. 1)
      (map (\<lambda>a. bound_snap (balanceOf ?lb a) (boundsOf ?spec a)) (sortedKeys (ts_Bounds ?spec)))"
    unfolding threshold_example_engine_def by (rule table_ready) (simp add: keys)
  have b: "boundsOf ?spec ''E'' = \<lparr> tb_Min = Some 1, tb_Max = Some 9 \<rparr>" "balanceOf ?lb ''E'' = 9"
    by code_simp+
  show ?thesis
    using threshold_verdict [OF threshold_example_valid threshold_example_decodes r read ok, of "\<lambda>_. None" 7] ready
    by (auto simp: keys b)
qed

text \<open>The parked per-account mode decides every matched account by itself.\<close>

lemma threshold_per_account_verdict:
  assumes "ts_Mode spec = ThresholdPerAccount"
    and "\<And>a. a \<in> set (sortedKeys (ts_Bounds spec)) \<Longrightarrow> bounds_fit (boundsOf spec a)"
    and "Ledger r = Some L"
    and "ListAccounts L (ts_Ledger spec) (ts_Query spec) (fst (effectiveSourcePIT inp (threshold_key spec)))
           (MaxAccountsScanned (eng_limits eng)) = Inr accounts"
    and "\<And>acct a. acct \<in> set accounts \<Longrightarrow> a \<in> set (sortedKeys (ts_Bounds spec)) \<Longrightarrow>
           celOK (eng_cel eng) cost (bound_snap (balanceOf (acct_Balances acct) a) (boundsOf spec a))"
    and "Threshold_EvaluateSpec ctxErr now spec eng r inp = (Some res, None)"
  shows "map (\<lambda>q. (oc_Fingerprint q, oc_Passed q)) (er_Outcomes res) =
    map (\<lambda>(acct, a). (''asset:'' @ a @ ''|account:'' @ acct_Address acct,
            thresholdPassed (balanceOf (acct_Balances acct) a) (boundsOf spec a)))
      (List.product accounts (sortedKeys (ts_Bounds spec)))"
proof -
  let ?xs = "List.product accounts (sortedKeys (ts_Bounds spec))"
  let ?f = "threshold_account spec (threshold_source spec)"
  let ?g = "\<lambda>(acct, a). bound_snap (balanceOf (acct_Balances acct) a) (boundsOf spec a)"
  obtain pit ex where p: "effectiveSourcePIT inp (threshold_key spec) = (pit, ex)" by (rule prod.exhaust)
  have mode: "defaultMode spec = spec" using assms(1) by (simp add: defaultMode_def)
  have accts: "resolveAccounts (threshold_source spec) r pit (MaxAccountsScanned (eng_limits eng)) = Inr accounts"
    using assms(3,4) p by (simp add: resolveAccounts_def threshold_source_def ledgerSource_def supportsPerAccount_def)
  let ?r0 = "emptyResult\<lparr> er_PitPerSource := [(threshold_key spec, pit)] \<rparr>"
  from assms(6) have k: "applyKernelVerdicts ctxErr eng inp (?r0\<lparr> er_Outcomes := map fst (map ?f ?xs) \<rparr>)
      (map snd (map ?f ?xs)) = (None, res)"
    using p mode accts assms(1,3)
    by (auto simp: Threshold_EvaluateSpec_def Threshold_evaluatePerAccount_def threshold_key_keyer map_put_def
        emptyResult_def Let_def split: prod.splits)
  have "er_Outcomes res = map fst (map ?f ?xs)"
    using kernel_items(2) [OF _ _ k, where g = ?g and cost = cost] assms(5) bound_snap_ok [OF assms(2)] by auto
  then show ?thesis by (auto simp: comp_def)
qed

end
