(* ===== verification/SourceParity.thy ===== *)
theory SourceParity
  imports Snapshot
begin

text \<open>
  The \<open>source_parity\<close> template, \<open>internal/templates/source_parity.go\<close>: two balance sources, each a
  ledger query or a payments pool, agree per asset within a tolerance.
\<close>

record paritySpec =
  ps_Left :: sourceSpec
  ps_Right :: sourceSpec
  ps_Scope :: scope
  ps_Tolerance :: "(string \<times> int) list"

definition zeroParity :: paritySpec where
  "zeroParity = \<lparr> ps_Left = zeroSource, ps_Right = zeroSource, ps_Scope = '''', ps_Tolerance = [] \<rparr>"

definition ParitySpec_decode :: "paritySpec decoder" where
  "ParitySpec_decode = dec_struct (\<lambda>key t s.
     if field ''left'' key then map_option (\<lambda>v. s\<lparr> ps_Left := v \<rparr>) (SourceSpec_decode t (ps_Left s))
     else if field ''right'' key then map_option (\<lambda>v. s\<lparr> ps_Right := v \<rparr>) (SourceSpec_decode t (ps_Right s))
     else if field ''scope'' key then map_option (\<lambda>v. s\<lparr> ps_Scope := v \<rparr>) (dec_string t (ps_Scope s))
     else if field ''tolerance'' key then
       map_option (\<lambda>v. s\<lparr> ps_Tolerance := v \<rparr>) (dec_map 0 dec_int64 t (ps_Tolerance s))
     else Some s)"

definition Parity_Kind :: templateKind where "Parity_Kind = TemplateSourceParity"

definition Parity_Validate :: "rawJSON \<Rightarrow> gerror option" where
  "Parity_Validate raw =
     (case unmarshalSpec ParitySpec_decode raw zeroParity of
        Inl err \<Rightarrow> Some err
      | Inr spec \<Rightarrow>
     (case SourceSpec_Validate (ps_Left spec) ''left'' of
        Some err \<Rightarrow> Some err
      | None \<Rightarrow>
     (case SourceSpec_Validate (ps_Right spec) ''right'' of
        Some err \<Rightarrow> Some err
      | None \<Rightarrow>
          if \<not> Scope_Valid (ps_Scope spec) then
            Some (errorf ErrInvalidSpec (''scope must be 'aggregate' (got '' @ Quote (ps_Scope spec) @ '')''))
          else if ps_Scope spec = ScopePerAccount then Some (errorf ErrInvalidSpec perAccountParkedMsg)
          else checkTolerance (ps_Tolerance spec))))"

definition parity_keys :: "paritySpec \<Rightarrow> string \<times> string" where
  "parity_keys spec =
     (let (k0, keyer) = keyer_key newSourceKeyer (source_label (ps_Left spec));
          (k1, keyer') = keyer_key keyer (source_label (ps_Right spec))
      in (k0, k1))"

definition Parity_SourceKeys :: "rawJSON \<Rightarrow> gerror + string list" where
  "Parity_SourceKeys raw =
     (case unmarshalSpec ParitySpec_decode raw zeroParity of
        Inl err \<Rightarrow> Inl err
      | Inr spec \<Rightarrow> let (k0, k1) = parity_keys spec in Inr [k0, k1])"

definition Parity_Explain :: "rawJSON \<Rightarrow> gerror + string" where
  "Parity_Explain raw =
     (case unmarshalSpec ParitySpec_decode raw zeroParity of
        Inl err \<Rightarrow> Inl err
      | Inr spec \<Rightarrow>
          Inr (''abs('' @ celTerm (ps_Left spec) (Quote ''<asset>'') @ '' - ''
               @ celTerm (ps_Right spec) (Quote ''<asset>'') @ '') <= '' @ firstTolerance (ps_Tolerance spec)))"

definition parity_expression :: "int \<Rightarrow> int \<Rightarrow> int \<Rightarrow> string" where
  "parity_expression leftVal rightVal tolerance =
     ''abs(('' @ dec leftVal @ '') - ('' @ dec rightVal @ '')) <= '' @ dec tolerance"

text \<open>The loop body shared by both scopes; \<open>axes\<close>, \<open>ident\<close> and the terms differ.\<close>

definition parity_outcome ::
  "paritySpec \<Rightarrow> (string \<times> string) list \<Rightarrow> (string \<times> json) list \<Rightarrow> string \<Rightarrow> string \<Rightarrow> int \<Rightarrow> int \<Rightarrow> int
   \<Rightarrow> outcome \<times> string" where
  "parity_outcome spec axes ident leftTerm rightTerm leftVal rightVal tolerance =
     (let diff = leftVal - rightVal;
          diffAbs = \<bar>diff\<bar>;
          passed = (diffAbs \<le> tolerance);
          expr = ''abs('' @ leftTerm @ '' - '' @ rightTerm @ '') <= '' @ dec tolerance
      in (\<lparr> oc_Fingerprint = fingerprintFor axes,
            oc_Passed = passed,
            oc_Evidence =
              ident @
              [ (''leftSource'', JStr (source_label (ps_Left spec))),
                (''leftBalance'', JStr (dec leftVal)),
                (''rightSource'', JStr (source_label (ps_Right spec))),
                (''rightBalance'', JStr (dec rightVal)),
                (''difference'', JStr (dec diffAbs)),
                (''signedDiff'', JStr (dec diff)),
                (''tolerance'', JInt tolerance),
                (''compiledCEL'', JStr expr) ],
            oc_Proof = [(''left'', dec leftVal), (''right'', dec rightVal), (''tolerance'', dec tolerance)] \<rparr>,
          snapshotVerdictExpression (parity_expression leftVal rightVal tolerance) passed
            [leftVal, rightVal, diff, diffAbs]))"

definition parity_asset :: "paritySpec \<Rightarrow> balances \<Rightarrow> balances \<Rightarrow> string \<Rightarrow> outcome \<times> string" where
  "parity_asset spec leftBalances rightBalances asset =
     parity_outcome spec [(''asset'', asset)] [(''asset'', JStr asset)]
       (celTerm (ps_Left spec) (celString asset)) (celTerm (ps_Right spec) (celString asset))
       (balanceOf leftBalances asset) (balanceOf rightBalances asset) (mapGet (ps_Tolerance spec) asset)"

definition parity_account ::
  "paritySpec \<Rightarrow> (string \<times> balances) list \<Rightarrow> (string \<times> balances) list \<Rightarrow> string \<times> string \<Rightarrow> outcome \<times> string" where
  "parity_account spec leftByAddr rightByAddr aa =
     (let (addr, asset) = aa;
          lBal = (case map_of leftByAddr addr of None \<Rightarrow> [] | Some b \<Rightarrow> b);
          rBal = (case map_of rightByAddr addr of None \<Rightarrow> [] | Some b \<Rightarrow> b)
      in parity_outcome spec [(''asset'', asset), (''account'', addr)]
           [(''asset'', JStr asset), (''account'', JStr addr)]
           (celTermForAccount (ps_Left spec) addr (celString asset))
           (celTermForAccount (ps_Right spec) addr (celString asset))
           (balanceOf lBal asset) (balanceOf rBal asset) (mapGet (ps_Tolerance spec) asset))"

definition parity_pairs ::
  "(string \<times> balances) list \<Rightarrow> (string \<times> balances) list \<Rightarrow> (string \<times> string) list" where
  "parity_pairs leftByAddr rightByAddr =
     concat (map (\<lambda>addr.
         let lBal = (case map_of leftByAddr addr of None \<Rightarrow> [] | Some b \<Rightarrow> b);
             rBal = (case map_of rightByAddr addr of None \<Rightarrow> [] | Some b \<Rightarrow> b)
         in map (\<lambda>asset. (addr, asset)) (unionAssets [keys_of lBal, keys_of rBal]))
       (unionAssets [keys_of leftByAddr, keys_of rightByAddr]))"

definition Parity_evaluatePerAccount ::
  "ctx \<Rightarrow> paritySpec \<Rightarrow> engine \<Rightarrow> resolvers \<Rightarrow> evalResult \<Rightarrow> string \<Rightarrow> time \<Rightarrow> string \<Rightarrow> time \<Rightarrow> evalInput
   \<Rightarrow> templateAnswer" where
  "Parity_evaluatePerAccount ctxErr spec eng r result leftKey leftPIT rightKey rightPIT inp =
     (let limit = MaxAccountsScanned (eng_limits eng) in
      case resolveAccounts (ps_Left spec) r leftPIT limit of
        Inl err \<Rightarrow>
          (Some result, Some (wrap_error (''scout '' @ source_label (ps_Left spec) @ '' accounts'') err))
      | Inr leftAccts \<Rightarrow>
          let result = result\<lparr> er_PitPerSource := map_put leftKey leftPIT (er_PitPerSource result) \<rparr> in
      case resolveAccounts (ps_Right spec) r rightPIT (limit - int (length leftAccts)) of
        Inl err \<Rightarrow>
          (Some result, Some (wrap_error (''scout '' @ source_label (ps_Right spec) @ '' accounts'') err))
      | Inr rightAccts \<Rightarrow>
          let result = result\<lparr> er_PitPerSource := map_put rightKey rightPIT (er_PitPerSource result) \<rparr>;
              leftByAddr = accountsByAddress leftAccts;
              rightByAddr = accountsByAddress rightAccts;
              items = map (parity_account spec leftByAddr rightByAddr) (parity_pairs leftByAddr rightByAddr);
              (err, result) = applyKernelVerdicts ctxErr eng inp
                 (result\<lparr> er_Outcomes := map fst items \<rparr>) (map snd items)
          in (Some result, err))"

text \<open>\<open>now1\<close> and \<open>now2\<close> are the clock readings of the two resolve calls.\<close>

definition Parity_EvaluateSpec ::
  "ctx \<Rightarrow> time \<Rightarrow> time \<Rightarrow> paritySpec \<Rightarrow> engine \<Rightarrow> resolvers \<Rightarrow> evalInput \<Rightarrow> templateAnswer" where
  "Parity_EvaluateSpec ctxErr now1 now2 spec eng r inp =
     (let (leftKey, rightKey) = parity_keys spec;
          (leftPIT, leftExplicit) = effectiveSourcePIT inp leftKey;
          (rightPIT, rightExplicit) = effectiveSourcePIT inp rightKey;
          result = emptyResult
      in case requireResolvers r [resolverNeed (ps_Left spec), resolverNeed (ps_Right spec)] of
           Some err \<Rightarrow> (Some result, Some err)
         | None \<Rightarrow>
             if ps_Scope spec = ScopePerAccount
             then Parity_evaluatePerAccount ctxErr spec eng r result leftKey leftPIT rightKey rightPIT inp
             else
               case SourceSpec_resolve (ps_Left spec) r now1 leftPIT leftExplicit of
                 Inl err \<Rightarrow> (Some result, Some (wrap_error (''scout '' @ source_label (ps_Left spec)) err))
               | Inr (leftBalances, leftResolvedAt) \<Rightarrow>
                   let result = result\<lparr> er_PitPerSource := map_put leftKey leftResolvedAt (er_PitPerSource result) \<rparr> in
               case SourceSpec_resolve (ps_Right spec) r now2 rightPIT rightExplicit of
                 Inl err \<Rightarrow> (Some result, Some (wrap_error (''scout '' @ source_label (ps_Right spec)) err))
               | Inr (rightBalances, rightResolvedAt) \<Rightarrow>
                   let result = result\<lparr> er_PitPerSource := map_put rightKey rightResolvedAt (er_PitPerSource result) \<rparr>;
                       assets = unionAssets [keys_of leftBalances, keys_of rightBalances];
                       items = map (parity_asset spec leftBalances rightBalances) assets;
                       (err, result) = applyKernelVerdicts ctxErr eng inp
                          (result\<lparr> er_Outcomes := map fst items \<rparr>) (map snd items)
                   in (Some result, err))"

definition Parity_Evaluate ::
  "ctx \<Rightarrow> time \<Rightarrow> time \<Rightarrow> rawJSON \<Rightarrow> engine \<Rightarrow> resolvers \<Rightarrow> evalInput \<Rightarrow> templateAnswer" where
  "Parity_Evaluate ctxErr now1 now2 raw eng r inp =
     (case unmarshalSpec ParitySpec_decode raw zeroParity of
        Inl err \<Rightarrow> (None, Some err)
      | Inr spec \<Rightarrow> Parity_EvaluateSpec ctxErr now1 now2 spec eng r inp)"

section \<open>Properties\<close>

definition parity_snap :: "int \<Rightarrow> int \<Rightarrow> int \<Rightarrow> snap" where
  "parity_snap l r tolerance =
     guarded (SAbsLe (ASub (APar (ALit l)) (APar (ALit r))) tolerance) (\<bar>l - r\<bar> \<le> tolerance)
       [l, r, l - r, \<bar>l - r\<bar>]"

lemma parity_outcome_fields:
  "oc_Fingerprint (fst (parity_outcome spec axes ident lt rt l r tol)) = fingerprintFor axes"
  "oc_Passed (fst (parity_outcome spec axes ident lt rt l r tol)) \<longleftrightarrow> \<bar>l - r\<bar> \<le> tol"
  "snd (parity_outcome spec axes ident lt rt l r tol) = render (parity_snap l r tol)"
  by (simp_all add: parity_outcome_def Let_def parity_snap_def render_guarded [symmetric] parity_expression_def)

lemma parity_snap_denote: "IsInt64 tol \<Longrightarrow> denote (parity_snap l r tol) = Some (\<bar>l - r\<bar> \<le> tol)"
  unfolding parity_snap_def by (rule denote_guarded) auto

lemma parity_tolerance_range:
  assumes "unmarshalSpec ParitySpec_decode raw zeroParity = Inr spec"
  shows "(k, v) \<in> set (ps_Tolerance spec) \<Longrightarrow> IsInt64 v"
proof -
  have "\<forall>k v. (k, v) \<in> set (ps_Tolerance spec) \<longrightarrow> IsInt64 v"
    by (rule dec_struct_invariant [OF unmarshalSpec_decode [OF assms, unfolded ParitySpec_decode_def],
          where P = "\<lambda>s. \<forall>k v. (k, v) \<in> set (ps_Tolerance s) \<longrightarrow> IsInt64 v"])
       (auto simp: zeroParity_def split: if_splits dest: tolerance_range)
  then show "(k, v) \<in> set (ps_Tolerance spec) \<Longrightarrow> IsInt64 v" by blast
qed

lemma parity_keys_distinct: "fst (parity_keys spec) \<noteq> snd (parity_keys spec)"
proof -
  have "distinct (keyer_keys newSourceKeyer [source_label (ps_Left spec), source_label (ps_Right spec)])"
    by (rule keyer_keys_distinct)
  then show ?thesis by (auto simp: parity_keys_def split: prod.splits)
qed

text \<open>
  C16. The parity verdict is exact, whatever the kinds of the two sources. For a validated rule whose
  two sources can be read, there is one outcome per asset on either side, in sorted order, and it
  passes exactly when the two balances differ, over the integers, by at most the tolerance. The
  evaluation records one instant per declared key, also when both sides name the same source.
\<close>

theorem parity_verdict:
  assumes "Parity_Validate raw = None" and "unmarshalSpec ParitySpec_decode raw zeroParity = Inr spec"
    and "requireResolvers r [resolverNeed (ps_Left spec), resolverNeed (ps_Right spec)] = None"
    and "case effectiveSourcePIT inp (fst (parity_keys spec)) of (t, e) \<Rightarrow>
           SourceSpec_resolve (ps_Left spec) r now1 t e = Inr (lb, lat)"
    and "case effectiveSourcePIT inp (snd (parity_keys spec)) of (t, e) \<Rightarrow>
           SourceSpec_resolve (ps_Right spec) r now2 t e = Inr (rb, rat)"
    and "\<forall>a\<in>set (unionAssets [keys_of lb, keys_of rb]).
           celOK (eng_cel eng) cost (parity_snap (balanceOf lb a) (balanceOf rb a) (mapGet (ps_Tolerance spec) a))"
  shows "\<exists>res err. Parity_Evaluate ctxErr now1 now2 raw eng r inp = (Some res, err)
    \<and> (kernel_ready ctxErr eng cost (map (\<lambda>a. parity_snap (balanceOf lb a) (balanceOf rb a)
          (mapGet (ps_Tolerance spec) a)) (unionAssets [keys_of lb, keys_of rb])) \<longrightarrow> err = None)
    \<and> (err = None \<longrightarrow>
        Parity_SourceKeys raw = Inr (map fst (er_PitPerSource res)) \<and> distinct (map fst (er_PitPerSource res))
        \<and> map (\<lambda>q. (oc_Fingerprint q, oc_Passed q)) (er_Outcomes res)
          = map (\<lambda>a. (''asset:'' @ a, \<bar>balanceOf lb a - balanceOf rb a\<bar> \<le> mapGet (ps_Tolerance spec) a))
              (unionAssets [keys_of lb, keys_of rb]))"
proof -
  let ?xs = "unionAssets [keys_of lb, keys_of rb]" and ?f = "parity_asset spec lb rb"
  let ?g = "\<lambda>a. parity_snap (balanceOf lb a) (balanceOf rb a) (mapGet (ps_Tolerance spec) a)"
  obtain lk rk where keys: "parity_keys spec = (lk, rk)" by (rule prod.exhaust)
  obtain lt le where l: "effectiveSourcePIT inp lk = (lt, le)" by (rule prod.exhaust)
  obtain rt re where rr: "effectiveSourcePIT inp rk = (rt, re)" by (rule prod.exhaust)
  let ?pits = "[(lk, lat), (rk, rat)]"
  have ne: "lk \<noteq> rk" using parity_keys_distinct [of spec] keys by simp
  have scope: "ps_Scope spec \<noteq> ScopePerAccount"
    using assms(1,2) by (auto simp: Parity_Validate_def split: if_splits option.splits)
  obtain err res where k: "applyKernelVerdicts ctxErr eng inp
      ((emptyResult\<lparr> er_PitPerSource := ?pits \<rparr>)\<lparr> er_Outcomes := map fst (map ?f ?xs) \<rparr>)
      (map snd (map ?f ?xs)) = (err, res)" by (rule prod.exhaust)
  note items = kernel_items [OF _ _ k, where g = ?g and cost = cost]
  have ok: "kernel_ready ctxErr eng cost (map ?g ?xs) \<Longrightarrow> err = None"
    and same: "err = None \<Longrightarrow> er_Outcomes res = map fst (map ?f ?xs) \<and> er_PitPerSource res = ?pits"
    using items assms(6) parity_snap_denote [OF mapGet_IsInt64 [OF parity_tolerance_range [OF assms(2)]]]
    by (auto simp: parity_asset_def parity_outcome_fields)
  have "Parity_Evaluate ctxErr now1 now2 raw eng r inp = (Some res, err)"
    using k assms(3-5) l rr keys scope ne
    by (simp add: Parity_Evaluate_def Parity_EvaluateSpec_def assms(2) map_put_def emptyResult_def Let_def)
  moreover have "Parity_SourceKeys raw = Inr [lk, rk]"
    by (simp add: Parity_SourceKeys_def assms(2) keys)
  ultimately show ?thesis using ok same ne
    by (intro exI [of _ res] exI [of _ err]) (simp add: comp_def parity_asset_def parity_outcome_fields)
qed

definition parity_example_raw :: rawJSON where
  "parity_example_raw = (let p = ''{'' @ Quote ''kind'' @ '':'' @ Quote ''payments_pool'' @ '','' @ Quote ''poolID'' @ '':''
     @ Quote ''p'' @ ''}'' in ''{'' @ Quote ''left'' @ '':'' @ p @ '','' @ Quote ''right'' @ '':'' @ p @ ''}'')"

definition parity_example_spec :: paritySpec where
  "parity_example_spec = \<lparr> ps_Left = poolSource ''p'', ps_Right = poolSource ''p'', ps_Scope = '''',
     ps_Tolerance = [] \<rparr>"

lemma parity_example_decodes: "unmarshalSpec ParitySpec_decode parity_example_raw zeroParity = Inr parity_example_spec"
  by code_simp

lemma parity_example_valid: "Parity_Validate parity_example_raw = None"
  by code_simp

text \<open>The left side is read at an instant of its own, the right side is the latest snapshot.\<close>

definition parity_example_input :: evalInput where
  "parity_example_input = \<lparr> PIT = 5, PITExplicit = False, SourcePITs = [(''pool:p#0'', 3)], in_SafetyMargin = 0 \<rparr>"

definition parity_example_resolvers :: resolvers where
  "parity_example_resolvers = \<lparr> Ledger = None, Payments = Some \<lparr> PoolBalance = \<lambda>_ t.
     Inr [(''E'', Some (if t = Some 3 then 4 else 7))] \<rparr> \<rparr>"

definition parity_example_engine :: engine where
  "parity_example_engine = table_engine [(render (SAbsLe (ASub (APar (ALit 4)) (APar (ALit 7))) 0), False)]"

theorem parity_verdict_witness:
  "\<exists>res. Parity_Evaluate (\<lambda>_. None) 8 9 parity_example_raw parity_example_engine parity_example_resolvers
       parity_example_input = (Some res, None)
     \<and> map fst (er_PitPerSource res) = [''pool:p#0'', ''pool:p#1'']
     \<and> map (\<lambda>q. (oc_Fingerprint q, oc_Passed q)) (er_Outcomes res) = [(''asset:E'', False)]"
proof -
  let ?spec = parity_example_spec
  let ?lb = "[(''E'', Some 4)] :: balances" and ?rb = "[(''E'', Some 7)] :: balances"
  let ?S = "SAbsLe (ASub (APar (ALit 4)) (APar (ALit 7))) 0"
  have need: "requireResolvers parity_example_resolvers [resolverNeed (ps_Left ?spec), resolverNeed (ps_Right ?spec)] = None"
    by code_simp
  have left: "case effectiveSourcePIT parity_example_input (fst (parity_keys ?spec)) of (t, e) \<Rightarrow>
      SourceSpec_resolve (ps_Left ?spec) parity_example_resolvers 8 t e = Inr (?lb, 3)" by code_simp
  have right: "case effectiveSourcePIT parity_example_input (snd (parity_keys ?spec)) of (t, e) \<Rightarrow>
      SourceSpec_resolve (ps_Right ?spec) parity_example_resolvers 9 t e = Inr (?rb, 9)" by code_simp
  have assets: "unionAssets [keys_of ?lb, keys_of ?rb] = [''E'']" by code_simp
  have snap: "parity_snap (balanceOf ?lb ''E'') (balanceOf ?rb ''E'') (mapGet (ps_Tolerance ?spec) ''E'') = ?S"
    by code_simp
  have "denote ?S = Some False" by (subst denote_exact) (simp_all add: IsInt64_def)
  then have ok: "\<forall>a\<in>set (unionAssets [keys_of ?lb, keys_of ?rb]). celOK (eng_cel parity_example_engine) (\<lambda>_. 1)
      (parity_snap (balanceOf ?lb a) (balanceOf ?rb a) (mapGet (ps_Tolerance ?spec) a))"
    by (simp only: assets snap parity_example_engine_def table_engine_simps list.set ball_simps table_cel_single)
  have ready: "kernel_ready (\<lambda>_. None) parity_example_engine (\<lambda>_. 1)
      (map (\<lambda>a. parity_snap (balanceOf ?lb a) (balanceOf ?rb a) (mapGet (ps_Tolerance ?spec) a))
         (unionAssets [keys_of ?lb, keys_of ?rb]))"
    unfolding parity_example_engine_def by (rule table_ready) (simp add: assets)
  have outcome: "balanceOf ?lb ''E'' = 4" "balanceOf ?rb ''E'' = 7" "mapGet (ps_Tolerance ?spec) ''E'' = 0"
    and keys: "Parity_SourceKeys parity_example_raw = Inr [''pool:p#0'', ''pool:p#1'']" by code_simp+
  show ?thesis
    using parity_verdict [OF parity_example_valid parity_example_decodes need left right ok, of "\<lambda>_. None"] ready
    by (auto simp: assets outcome keys)
qed

end
