(* ===== verification/Registry.thy ===== *)
theory Registry
  imports Drift Invariant Threshold SourceParity
begin

text \<open>
  The contract of a rule template, the \<open>Evaluator\<close> interface of \<open>internal/templates/template.go\<close>,
  as a record of its methods and a locale of what the rest of the service relies on; the four
  templates interpret it, and the registry hands them out by kind.
\<close>

section \<open>The interface\<close>

text \<open>The clock readings an evaluation takes come as a function of their number.\<close>

record evaluator =
  tm_Kind :: templateKind
  tm_Validate :: "rawJSON \<Rightarrow> gerror option"
  tm_Explain :: "rawJSON \<Rightarrow> gerror + string"
  tm_Evaluate :: "ctx \<Rightarrow> (nat \<Rightarrow> time) \<Rightarrow> rawJSON \<Rightarrow> engine \<Rightarrow> resolvers \<Rightarrow> evalInput \<Rightarrow> templateAnswer"
  tm_SourceKeys :: "rawJSON \<Rightarrow> gerror + string list"

definition NewLedgerVsPoolDrift :: evaluator where
  "NewLedgerVsPoolDrift = \<lparr> tm_Kind = Drift_Kind, tm_Validate = Drift_Validate, tm_Explain = Drift_Explain,
     tm_Evaluate = (\<lambda>c clock. Drift_Evaluate c (clock 0)), tm_SourceKeys = Drift_SourceKeys \<rparr>"

definition NewLedgerInvariant :: evaluator where
  "NewLedgerInvariant = \<lparr> tm_Kind = Invariant_Kind, tm_Validate = Invariant_Validate, tm_Explain = Invariant_Explain,
     tm_Evaluate = (\<lambda>c clock. Invariant_Evaluate c), tm_SourceKeys = Invariant_SourceKeys \<rparr>"

definition NewAccountThreshold :: evaluator where
  "NewAccountThreshold = \<lparr> tm_Kind = Threshold_Kind, tm_Validate = Threshold_Validate, tm_Explain = Threshold_Explain,
     tm_Evaluate = (\<lambda>c clock. Threshold_Evaluate c (clock 0)), tm_SourceKeys = Threshold_SourceKeys \<rparr>"

definition NewSourceParity :: evaluator where
  "NewSourceParity = \<lparr> tm_Kind = Parity_Kind, tm_Validate = Parity_Validate, tm_Explain = Parity_Explain,
     tm_Evaluate = (\<lambda>c clock. Parity_Evaluate c (clock 0) (clock 1)), tm_SourceKeys = Parity_SourceKeys \<rparr>"

section \<open>The registry\<close>

type_synonym registry = "(templateKind \<times> evaluator) list"

text \<open>A duplicate kind panics.\<close>

fun registerAll :: "registry \<Rightarrow> evaluator list \<Rightarrow> gerror + registry" where
  "registerAll r [] = Inr r"
| "registerAll r (e # es) =
     (if map_of r (tm_Kind e) \<noteq> None
      then Inl (new_error (''templates: duplicate evaluator for kind '' @ tm_Kind e))
      else registerAll (map_put (tm_Kind e) e r) es)"

definition NewRegistry :: "evaluator list \<Rightarrow> gerror + registry" where
  "NewRegistry evaluators = registerAll [] evaluators"

definition DefaultRegistry :: "gerror + registry" where
  "DefaultRegistry = NewRegistry [NewLedgerVsPoolDrift, NewLedgerInvariant, NewAccountThreshold, NewSourceParity]"

definition Registry_Get :: "registry \<Rightarrow> templateKind \<Rightarrow> gerror + evaluator" where
  "Registry_Get r kind = (case map_of r kind of None \<Rightarrow> Inl (sent ErrUnknownTemplate) | Some e \<Rightarrow> Inr e)"

lemma DefaultRegistry_eq: "DefaultRegistry = Inr
    [(TemplateLedgerVsPoolDrift, NewLedgerVsPoolDrift), (TemplateLedgerInvariant, NewLedgerInvariant),
     (TemplateAccountThreshold, NewAccountThreshold), (TemplateSourceParity, NewSourceParity)]"
  by (simp add: DefaultRegistry_def NewRegistry_def map_put_def NewLedgerVsPoolDrift_def NewLedgerInvariant_def
      NewAccountThreshold_def NewSourceParity_def Drift_Kind_def Invariant_Kind_def Threshold_Kind_def Parity_Kind_def)

section \<open>The contract\<close>

locale template =
  fixes T :: evaluator
  assumes invalid: "tm_Validate T raw = Some err \<Longrightarrow> errors_Is err ErrInvalidSpec"
    and explained: "tm_Validate T raw = None \<Longrightarrow> \<exists>s. tm_Explain T raw = Inr s"
    and answered: "tm_Evaluate T c clock raw eng r inp = (None, answer) \<Longrightarrow> answer \<noteq> None"
    and declared: "tm_Evaluate T c clock raw eng r inp = (Some res, None) \<Longrightarrow>
      \<exists>keys. tm_SourceKeys T raw = Inr keys \<and> fst ` set (er_PitPerSource res) = set keys"
    and honoured: "tm_Evaluate T c clock raw eng r inp = (Some res, None) \<Longrightarrow> map_of (SourcePITs inp) k = Some t \<Longrightarrow>
      map_of (er_PitPerSource res) k = Some t' \<Longrightarrow> t' = t"

section \<open>The four templates\<close>

lemma kernel_keeps_pits: "applyKernelVerdicts c eng inp res es = (err, res') \<Longrightarrow>
    fst ` set (er_PitPerSource res') = fst ` set (er_PitPerSource res)"
  by (auto simp: applyKernelVerdicts_def Let_def split: if_splits sum.splits)

lemma kernel_same_pits: "applyKernelVerdicts c eng inp res es = (err, res') \<Longrightarrow> er_PitPerSource res' = er_PitPerSource res"
  by (auto simp: applyKernelVerdicts_def Let_def split: if_splits sum.splits)

lemma effective_override: "map_of (SourcePITs inp) k = Some t \<Longrightarrow> effectiveSourcePIT inp k = (t, True)"
  by (simp add: effectiveSourcePIT_def)

lemma resolve_at: "SourceSpec_resolve s r now pit explicit = Inr (b, at) \<Longrightarrow> ss_Kind s = SourceLedger \<or> explicit \<Longrightarrow> at = pit"
  by (auto simp: SourceSpec_resolve_def Let_def split: if_splits sum.splits option.splits)

lemma drift_source_kind: "drift_sources spec = (l, p) \<Longrightarrow> ss_Kind l = SourceLedger"
  by (auto simp: drift_sources_def ledgerSource_def)

lemma threshold_source_kind: "ss_Kind (threshold_source spec) = SourceLedger"
  by (simp add: threshold_source_def ledgerSource_def)

lemma scoutTerms_at: "scoutTerms L inp i keyer terms pits = (None, bs, pits') \<Longrightarrow> map_of (SourcePITs inp) k = Some t \<Longrightarrow>
    map_of pits' k = Some t' \<Longrightarrow> (\<And>v. map_of pits k = Some v \<Longrightarrow> v = t) \<Longrightarrow> t' = t"
proof (induction L inp i keyer terms pits arbitrary: bs pits' rule: scoutTerms.induct)
  case (1 L inp i keyer pits)
  then show ?case by simp
next
  case (2 L inp i keyer trm terms pits)
  obtain key keyer' where k: "keyer_key keyer (termLabel trm) = (key, keyer')" by fastforce
  obtain pit e where p: "effectiveSourcePIT inp key = (pit, e)" by fastforce
  from 2(2) k p obtain b bs' where b: "AggregateBalance L (it_Ledger trm) (it_Query trm) pit = Inr b"
    and rest: "scoutTerms L inp (i + 1) keyer' terms (map_put key pit pits) = (None, bs', pits')"
    by (auto split: sum.splits prod.splits)
  have new: "v = t" if "map_of (map_put key pit pits) k = Some v" for v
    using that p effective_override [OF 2(3)] 2(5) by (auto split: if_splits)
  show ?case by (rule 2(1) [OF k [symmetric] refl p [symmetric] refl b rest 2(3,4) new])
qed

lemma checkTolerance_Is: "checkTolerance ts = Some err \<Longrightarrow> errors_Is err ErrInvalidSpec"
  by (induction ts rule: checkTolerance.induct) (auto split: if_splits)

lemma unmarshalSpec_Is: "unmarshalSpec d raw z = Inl err \<Longrightarrow> errors_Is err ErrInvalidSpec"
  by (auto simp: unmarshalSpec_def split: if_splits sum.splits)

lemma checkBounds_Is: "checkBounds bs = Some err \<Longrightarrow> errors_Is err ErrInvalidSpec"
  by (induction bs rule: checkBounds.induct) (auto simp: Let_def split: if_splits option.splits)

lemma checkTerms_Is: "checkTerms i ts = Some err \<Longrightarrow> errors_Is err ErrInvalidSpec"
  by (induction i ts rule: checkTerms.induct) (auto simp: Let_def split: if_splits option.splits)

lemma SourceSpec_Validate_Is: "SourceSpec_Validate s f = Some err \<Longrightarrow> errors_Is err ErrInvalidSpec"
  by (auto simp: SourceSpec_Validate_def split: if_splits)

lemma sortedKeys_Nil [simp]: "sortedKeys m = [] \<longleftrightarrow> m = []"
  by (metis keys_of_def list.map_disc_iff set_empty sortedKeys_set)

lemma set_keys_put: "fst ` set (map_put k v m) = insert k (fst ` set m)"
  using keys_of_map_put [of k v m] by (simp add: keys_of_def)

text \<open>What the conditions of an evaluation are split by.\<close>

lemmas template_split = sum.splits prod.splits option.splits if_splits list.splits

interpretation drift: template NewLedgerVsPoolDrift
proof
  show "errors_Is err ErrInvalidSpec" if "tm_Validate NewLedgerVsPoolDrift raw = Some err" for raw err
    using that by (auto simp: NewLedgerVsPoolDrift_def Drift_Validate_def dest: unmarshalSpec_Is checkTolerance_Is
        split: template_split)
  show "\<exists>s. tm_Explain NewLedgerVsPoolDrift raw = Inr s" if "tm_Validate NewLedgerVsPoolDrift raw = None" for raw
    using that by (auto simp: NewLedgerVsPoolDrift_def Drift_Validate_def Drift_Explain_def split: template_split)
  show "answer \<noteq> None" if "tm_Evaluate NewLedgerVsPoolDrift c clock raw eng r inp = (None, answer)" for c clock raw eng r inp answer
    using that by (auto simp: NewLedgerVsPoolDrift_def Drift_Evaluate_def Drift_EvaluateSpec_def Let_def split: template_split)
  show "\<exists>keys. tm_SourceKeys NewLedgerVsPoolDrift raw = Inr keys \<and> fst ` set (er_PitPerSource res) = set keys"
    if "tm_Evaluate NewLedgerVsPoolDrift c clock raw eng r inp = (Some res, None)" for c clock raw eng r inp res
    using that by (clarsimp simp: NewLedgerVsPoolDrift_def Drift_Evaluate_def Drift_EvaluateSpec_def Drift_SourceKeys_def
        Let_def set_keys_put insert_commute emptyResult_def dest!: kernel_keeps_pits split: template_split)
  show "t' = t"
    if "tm_Evaluate NewLedgerVsPoolDrift c clock raw eng r inp = (Some res, None)" "map_of (SourcePITs inp) k = Some t"
      "map_of (er_PitPerSource res) k = Some t'" for c clock raw eng r inp res k t t'
    using that effective_override [OF that(2)]
    by (auto simp: NewLedgerVsPoolDrift_def Drift_Evaluate_def Drift_EvaluateSpec_def Let_def emptyResult_def
        dest!: kernel_same_pits drift_source_kind dest: resolve_at split: template_split)
qed

lemma scoutTerms_keys: "scoutTerms L inp i keyer terms pits = (None, bs, pits') \<Longrightarrow>
    fst ` set pits' = fst ` set pits \<union> set (termKeys keyer terms)"
  by (induction L inp i keyer terms pits arbitrary: bs pits' rule: scoutTerms.induct)
    (auto simp: set_keys_put Let_def split: template_split)

interpretation invariant: template NewLedgerInvariant
proof
  show "errors_Is err ErrInvalidSpec" if "tm_Validate NewLedgerInvariant raw = Some err" for raw err
    using that by (auto simp: NewLedgerInvariant_def Invariant_Validate_def dest: unmarshalSpec_Is checkTolerance_Is
        checkTerms_Is split: template_split)
  show "\<exists>s. tm_Explain NewLedgerInvariant raw = Inr s" if "tm_Validate NewLedgerInvariant raw = None" for raw
    using that by (auto simp: NewLedgerInvariant_def Invariant_Validate_def Invariant_Explain_def split: template_split)
  show "answer \<noteq> None" if "tm_Evaluate NewLedgerInvariant c clock raw eng r inp = (None, answer)" for c clock raw eng r inp answer
    using that by (auto simp: NewLedgerInvariant_def Invariant_Evaluate_def Invariant_EvaluateSpec_def Let_def split: template_split)
  show "\<exists>keys. tm_SourceKeys NewLedgerInvariant raw = Inr keys \<and> fst ` set (er_PitPerSource res) = set keys"
    if "tm_Evaluate NewLedgerInvariant c clock raw eng r inp = (Some res, None)" for c clock raw eng r inp res
    using that by (clarsimp simp: NewLedgerInvariant_def Invariant_Evaluate_def Invariant_EvaluateSpec_def Invariant_SourceKeys_def
        Let_def emptyResult_def dest!: kernel_keeps_pits scoutTerms_keys split: template_split)
  show "t' = t"
    if "tm_Evaluate NewLedgerInvariant c clock raw eng r inp = (Some res, None)" "map_of (SourcePITs inp) k = Some t"
      "map_of (er_PitPerSource res) k = Some t'" for c clock raw eng r inp res k t t'
    using that effective_override [OF that(2)]
    by (auto simp: NewLedgerInvariant_def Invariant_Evaluate_def Invariant_EvaluateSpec_def Let_def emptyResult_def
        dest!: kernel_same_pits dest: scoutTerms_at split: template_split)
qed

interpretation threshold: template NewAccountThreshold
proof
  show "errors_Is err ErrInvalidSpec" if "tm_Validate NewAccountThreshold raw = Some err" for raw err
    using that by (auto simp: NewAccountThreshold_def Threshold_Validate_def Let_def dest: unmarshalSpec_Is checkBounds_Is
        split: template_split)
  show "\<exists>s. tm_Explain NewAccountThreshold raw = Inr s" if "tm_Validate NewAccountThreshold raw = None" for raw
    using that by (auto simp: NewAccountThreshold_def Threshold_Validate_def Threshold_Explain_def Let_def split: template_split)
  show "answer \<noteq> None" if "tm_Evaluate NewAccountThreshold c clock raw eng r inp = (None, answer)" for c clock raw eng r inp answer
    using that by (auto simp: NewAccountThreshold_def Threshold_Evaluate_def Threshold_EvaluateSpec_def
        Threshold_evaluatePerAccount_def Let_def split: template_split)
  show "\<exists>keys. tm_SourceKeys NewAccountThreshold raw = Inr keys \<and> fst ` set (er_PitPerSource res) = set keys"
    if "tm_Evaluate NewAccountThreshold c clock raw eng r inp = (Some res, None)" for c clock raw eng r inp res
    using that by (clarsimp simp: NewAccountThreshold_def Threshold_Evaluate_def Threshold_EvaluateSpec_def Threshold_SourceKeys_def
        Threshold_evaluatePerAccount_def threshold_key_keyer Let_def set_keys_put insert_commute emptyResult_def dest!: kernel_keeps_pits
        split: template_split)
  show "t' = t"
    if "tm_Evaluate NewAccountThreshold c clock raw eng r inp = (Some res, None)" "map_of (SourcePITs inp) k = Some t"
      "map_of (er_PitPerSource res) k = Some t'" for c clock raw eng r inp res k t t'
    using that effective_override [OF that(2)]
    by (auto simp: NewAccountThreshold_def Threshold_Evaluate_def Threshold_EvaluateSpec_def Threshold_evaluatePerAccount_def threshold_source_kind Let_def emptyResult_def
        dest!: kernel_same_pits dest: resolve_at split: template_split)
qed

interpretation parity: template NewSourceParity
proof
  show "errors_Is err ErrInvalidSpec" if "tm_Validate NewSourceParity raw = Some err" for raw err
    using that by (auto simp: NewSourceParity_def Parity_Validate_def
        dest: unmarshalSpec_Is checkTolerance_Is SourceSpec_Validate_Is split: template_split)
  show "\<exists>s. tm_Explain NewSourceParity raw = Inr s" if "tm_Validate NewSourceParity raw = None" for raw
    using that by (auto simp: NewSourceParity_def Parity_Validate_def Parity_Explain_def split: template_split)
  show "answer \<noteq> None" if "tm_Evaluate NewSourceParity c clock raw eng r inp = (None, answer)" for c clock raw eng r inp answer
    using that by (auto simp: NewSourceParity_def Parity_Evaluate_def Parity_EvaluateSpec_def
        Parity_evaluatePerAccount_def Let_def split: template_split)
  show "\<exists>keys. tm_SourceKeys NewSourceParity raw = Inr keys \<and> fst ` set (er_PitPerSource res) = set keys"
    if "tm_Evaluate NewSourceParity c clock raw eng r inp = (Some res, None)" for c clock raw eng r inp res
    using that by (clarsimp simp: NewSourceParity_def Parity_Evaluate_def Parity_EvaluateSpec_def Parity_SourceKeys_def
        Parity_evaluatePerAccount_def Let_def set_keys_put insert_commute emptyResult_def dest!: kernel_keeps_pits
        split: template_split)
  show "t' = t"
    if "tm_Evaluate NewSourceParity c clock raw eng r inp = (Some res, None)" "map_of (SourcePITs inp) k = Some t"
      "map_of (er_PitPerSource res) k = Some t'" for c clock raw eng r inp res k t t'
    using that effective_override [OF that(2)]
    by (auto simp: NewSourceParity_def Parity_Evaluate_def Parity_EvaluateSpec_def Parity_evaluatePerAccount_def Let_def emptyResult_def
        dest!: kernel_same_pits dest: resolve_at split: template_split)
qed

section \<open>What is registered\<close>

lemma registered:
  assumes "DefaultRegistry = Inr reg" and "Registry_Get reg kind = Inr T"
  shows "template T \<and> tm_Kind T = kind"
proof -
  have "T \<in> {NewLedgerVsPoolDrift, NewLedgerInvariant, NewAccountThreshold, NewSourceParity} \<and> tm_Kind T = kind"
    using assms unfolding DefaultRegistry_eq Registry_Get_def
    by (auto simp: NewLedgerVsPoolDrift_def NewLedgerInvariant_def NewAccountThreshold_def NewSourceParity_def
        Drift_Kind_def Invariant_Kind_def Threshold_Kind_def Parity_Kind_def split: if_splits)
  then show ?thesis
    using drift.template_axioms invariant.template_axioms threshold.template_axioms parity.template_axioms by auto
qed

text \<open>
  C25. Every template the service registers keeps the contract of its interface, whatever the
  sources answer: it carries the kind it is looked up by; a spec it refuses is refused as an invalid
  spec; a spec it accepts can be explained; an evaluation that reports no error has a result; and
  the source keys it declares for a spec are exactly those under which an evaluation of that spec
  records its reads.
\<close>

theorem registered_templates_keep_contract:
  assumes "DefaultRegistry = Inr reg" and "Registry_Get reg kind = Inr T"
  shows "tm_Kind T = kind
    \<and> (\<forall>raw err. tm_Validate T raw = Some err \<longrightarrow> errors_Is err ErrInvalidSpec)
    \<and> (\<forall>raw. tm_Validate T raw = None \<longrightarrow> (\<exists>s. tm_Explain T raw = Inr s))
    \<and> (\<forall>c clock raw eng r inp res. tm_Evaluate T c clock raw eng r inp = (res, None) \<longrightarrow>
        (\<exists>answer keys. res = Some answer \<and> tm_SourceKeys T raw = Inr keys
           \<and> fst ` set (er_PitPerSource answer) = set keys))"
proof -
  from registered [OF assms] have T: "template T" and kind: "tm_Kind T = kind" by simp_all
  have "\<exists>answer keys. res = Some answer \<and> tm_SourceKeys T raw = Inr keys \<and> fst ` set (er_PitPerSource answer) = set keys"
    if run: "tm_Evaluate T c clock raw eng r inp = (res, None)" for c clock raw eng r inp res
  proof (cases res)
    case None
    then show ?thesis using template.answered [OF T, of c clock raw eng r inp None] run by simp
  next
    case (Some answer)
    then show ?thesis using template.declared [OF T run [unfolded Some]] by blast
  qed
  then show ?thesis using kind template.invalid [OF T] template.explained [OF T] by blast
qed

theorem registered_templates_keep_contract_witness:
  "\<exists>reg. DefaultRegistry = Inr reg \<and> (\<exists>T. Registry_Get reg TemplateSourceParity = Inr T
     \<and> tm_SourceKeys T parity_example_raw = Inr [''pool:p#0'', ''pool:p#1'']
     \<and> (\<exists>s. tm_Explain T parity_example_raw = Inr s))"
proof -
  have get: "Registry_Get (projr DefaultRegistry) TemplateSourceParity = Inr NewSourceParity"
    by (simp add: DefaultRegistry_eq Registry_Get_def)
  have "DefaultRegistry = Inr (projr DefaultRegistry)" by (simp add: DefaultRegistry_eq)
  moreover have "tm_SourceKeys NewSourceParity parity_example_raw = Inr [''pool:p#0'', ''pool:p#1'']"
    unfolding NewSourceParity_def evaluator.simps by code_simp
  moreover have "tm_Validate NewSourceParity parity_example_raw = None"
    by (simp add: NewSourceParity_def parity_example_valid)
  ultimately show ?thesis
    using registered_templates_keep_contract [OF _ get] get by blast
qed

end
