(* ===== verification/Db.thy ===== *)
theory Db
  imports Models
begin

text \<open>
  The database and the process around it, \<open>internal/storage/{store,error}.go\<close> with the tables and
  constraints of \<open>internal/storage/migrations\<close>. A \<open>world\<close> holds the tables, the entropy of
  \<open>uuid.New\<close>, the clock of \<open>time.Now\<close>, the database's \<open>now()\<close> (constant in a transaction), the
  alert events waiting for a commit and the messages published. Statements run one after the
  other, as the row locks and the unique constraints serialise them; a statement or a commit may
  fail for a reason outside the program, which the oracle \<open>w_fault\<close> decides, so every error branch
  of the code can be taken, a lost unique-key race included. \<open>w_jsonb\<close> is how PostgreSQL rewrites
  a \<open>jsonb\<close> value; \<open>w_locked\<close> tells the rules whose advisory lock another session holds.
\<close>

section \<open>Tables\<close>

record db =
  t_rules :: "rule list"
  t_evaluations :: "evaluation list"
  t_alerts :: "alert list"
  t_events :: "alertEvent list"
  t_jobs :: "evaluationJob list"
  t_policies :: "policy list"
  t_reconciliations :: "reconciliation list"

record world =
  w_db :: db
  w_uuid :: "nat \<Rightarrow> uuid"
  w_uuids :: nat
  w_clock :: "nat \<Rightarrow> time"
  w_ticks :: nat
  w_dbnow :: time
  w_fault :: "nat \<Rightarrow> gerror option"
  w_stmts :: nat
  w_jsonb :: "rawJSON \<Rightarrow> rawJSON"
  w_locked :: "uuid \<Rightarrow> bool"
  w_publisher :: bool
  w_collector :: "(alert \<times> alertEvent) list option"
  w_published :: "(alert \<times> alertEvent) list"

type_synonym 'a act = "world \<Rightarrow> (gerror + 'a) \<times> world"

definition goNow :: "world \<Rightarrow> time \<times> world" where
  "goNow w = (w_clock w (w_ticks w), w\<lparr> w_ticks := w_ticks w + 1 \<rparr>)"

definition newUUID :: "world \<Rightarrow> uuid \<times> world" where
  "newUUID w = (w_uuid w (w_uuids w), w\<lparr> w_uuids := w_uuids w + 1 \<rparr>)"

text \<open>The error, if any, with which the next statement fails, and the counter moved on.\<close>

definition stmt :: "world \<Rightarrow> gerror option \<times> world" where
  "stmt w = (w_fault w (w_stmts w), w\<lparr> w_stmts := w_stmts w + 1 \<rparr>)"

definition jsonb :: "world \<Rightarrow> rawJSON \<Rightarrow> rawJSON" where
  "jsonb w s = (if s = '''' then '''' else w_jsonb w s)"

section \<open>Errors (storage/error.go)\<close>

text \<open>The errors of the driver.\<close>

definition noRows :: gerror where "noRows = sent SqlErrNoRows"
definition uniqueViolation :: gerror where "uniqueViolation = sent PgUniqueViolation"
definition constraintViolation :: "string \<Rightarrow> gerror" where
  "constraintViolation c = new_error (''violates constraint '' @ c)"

definition e_wrap :: "string \<Rightarrow> gerror \<Rightarrow> gerror" where
  "e_wrap m err =
     (if errors_Is err PgUniqueViolation then wrap_error m (sent ErrDuplicateKeyValue)
      else if errors_Is err SqlErrNoRows then wrap_error m (sent ErrNotFound)
      else wrap_error m err)"

lemma e_wrap_Is:
  "errors_Is (e_wrap m err) ErrDuplicateKeyValue \<longleftrightarrow>
     errors_Is err PgUniqueViolation \<or> (\<not> errors_Is err SqlErrNoRows \<and> errors_Is err ErrDuplicateKeyValue)"
  "errors_Is (e_wrap m err) ErrNotFound \<longleftrightarrow>
     \<not> errors_Is err PgUniqueViolation \<and> (errors_Is err SqlErrNoRows \<or> errors_Is err ErrNotFound)"
  by (auto simp: e_wrap_def)

section \<open>Statements\<close>

text \<open>\<open>SELECT\<close> of one row: the first that matches, or \<open>sql.ErrNoRows\<close>.\<close>

definition selectOne :: "(db \<Rightarrow> 'r list) \<Rightarrow> ('r \<Rightarrow> bool) \<Rightarrow> 'r act" where
  "selectOne tbl p w =
     (case stmt w of
        (Some err, w) \<Rightarrow> (Inl err, w)
      | (None, w) \<Rightarrow>
          (case List.find p (tbl (w_db w)) of
             None \<Rightarrow> (Inl noRows, w)
           | Some r \<Rightarrow> (Inr r, w)))"

definition selectMany :: "(db \<Rightarrow> 'r list) \<Rightarrow> ('r \<Rightarrow> bool) \<Rightarrow> 'r list act" where
  "selectMany tbl p w =
     (case stmt w of
        (Some err, w) \<Rightarrow> (Inl err, w)
      | (None, w) \<Rightarrow> (Inr (filter p (tbl (w_db w))), w))"

text \<open>Any other statement: \<open>change\<close> gives the new tables, or the constraint it violates.\<close>

definition execute :: "(world \<Rightarrow> gerror + (db \<times> 'a)) \<Rightarrow> 'a act" where
  "execute change w =
     (case stmt w of
        (Some err, w) \<Rightarrow> (Inl err, w)
      | (None, w) \<Rightarrow>
          (case change w of
             Inl err \<Rightarrow> (Inl err, w)
           | Inr (d, a) \<Rightarrow> (Inr a, w\<lparr> w_db := d \<rparr>)))"

section \<open>Sequencing\<close>

text \<open>
  The shape of the storage code: \<open>if err != nil { return nil, err }\<close> after each call (\<open>bindA\<close>), a
  look at the error of a call (\<open>catchA\<close>), the context \<open>e\<close> puts on an error (\<open>wrapA\<close>).
\<close>

definition returnA :: "'a \<Rightarrow> 'a act" where
  "returnA a w = (Inr a, w)"

definition failA :: "gerror \<Rightarrow> 'a act" where
  "failA err w = (Inl err, w)"

definition catchA :: "'a act \<Rightarrow> (gerror + 'a \<Rightarrow> 'b act) \<Rightarrow> 'b act" where
  "catchA f k w = (case f w of (r, w') \<Rightarrow> k r w')"

definition bindA :: "'a act \<Rightarrow> ('a \<Rightarrow> 'b act) \<Rightarrow> 'b act" where
  "bindA f k w = (case f w of (Inl err, w') \<Rightarrow> (Inl err, w') | (Inr a, w') \<Rightarrow> k a w')"

definition wrapA :: "string \<Rightarrow> 'a act \<Rightarrow> 'a act" where
  "wrapA m f w = (case f w of (Inl err, w') \<Rightarrow> (Inl (e_wrap m err), w') | (Inr a, w') \<Rightarrow> (Inr a, w'))"

definition tickA :: "(world \<Rightarrow> 'a \<times> world) \<Rightarrow> 'a act" where
  "tickA f w = (case f w of (a, w') \<Rightarrow> (Inr a, w'))"

section \<open>Transactions (storage/store.go)\<close>

text \<open>
  A database transaction or, nested, a savepoint: a failure of the body or of the commit restores
  the tables.
\<close>

definition inTx :: "'a act \<Rightarrow> 'a act" where
  "inTx f w =
     (case f w of
        (Inl err, w') \<Rightarrow> (Inl err, w'\<lparr> w_db := w_db w \<rparr>)
      | (Inr a, w') \<Rightarrow>
          (case stmt w' of
             (Some err, w'') \<Rightarrow> (Inl err, w''\<lparr> w_db := w_db w \<rparr>)
           | (None, w'') \<Rightarrow> (Inr a, w'')))"

definition recordAlertEvent :: "alert \<Rightarrow> alertEvent option \<Rightarrow> world \<Rightarrow> world" where
  "recordAlertEvent alert event w =
     (case event of
        None \<Rightarrow> w
      | Some ev \<Rightarrow>
          if \<not> ev_Notify ev then w
          else
            case w_collector w of
              Some pending \<Rightarrow> w\<lparr> w_collector := Some (pending @ [(alert, ev)]) \<rparr>
            | None \<Rightarrow>
                if w_publisher w then w\<lparr> w_published := w_published w @ [(alert, ev)] \<rparr> else w)"

definition flushAlertEvents :: "world \<Rightarrow> world" where
  "flushAlertEvents w =
     (let pending = (case w_collector w of None \<Rightarrow> [] | Some p \<Rightarrow> p); w = w\<lparr> w_collector := None \<rparr> in
      if \<not> w_publisher w then w else w\<lparr> w_published := w_published w @ pending \<rparr>)"

definition RunInTx :: "'a act \<Rightarrow> 'a act" where
  "RunInTx f w =
     (if w_collector w \<noteq> None then inTx f w
      else
        case inTx f (w\<lparr> w_collector := Some [] \<rparr>) of
          (Inl err, w') \<Rightarrow> (Inl err, w'\<lparr> w_collector := None \<rparr>)
        | (Inr a, w') \<Rightarrow> (Inr a, flushAlertEvents w'))"

section \<open>Facts\<close>

declare stmt_def [simp] goNow_def [simp] newUUID_def [simp]

lemma selectOne_Inr: "selectOne tbl p w = (Inr r, w') \<Longrightarrow>
    w' = w\<lparr> w_stmts := w_stmts w + 1 \<rparr> \<and> List.find p (tbl (w_db w)) = Some r \<and> w_fault w (w_stmts w) = None"
  by (auto simp: selectOne_def split: prod.splits option.splits)

lemma selectOne_Inl: "selectOne tbl p w = (Inl err, w') \<Longrightarrow> w' = w\<lparr> w_stmts := w_stmts w + 1 \<rparr>
    \<and> (w_fault w (w_stmts w) = Some err \<or> (err = noRows \<and> List.find p (tbl (w_db w)) = None))"
  by (auto simp: selectOne_def split: prod.splits option.splits)

lemma selectMany_Inr: "selectMany tbl p w = (Inr rs, w') \<Longrightarrow>
    w' = w\<lparr> w_stmts := w_stmts w + 1 \<rparr> \<and> rs = filter p (tbl (w_db w))"
  by (auto simp: selectMany_def split: prod.splits option.splits)

lemma selectMany_Inl: "selectMany tbl p w = (Inl err, w') \<Longrightarrow> w' = w\<lparr> w_stmts := w_stmts w + 1 \<rparr>"
  by (auto simp: selectMany_def split: prod.splits option.splits)

lemma execute_Inr: "execute change w = (Inr a, w') \<Longrightarrow>
    \<exists>d. change (w\<lparr> w_stmts := w_stmts w + 1 \<rparr>) = Inr (d, a) \<and> w' = w\<lparr> w_stmts := w_stmts w + 1, w_db := d \<rparr>"
  by (auto simp: execute_def split: prod.splits option.splits sum.splits)

lemma execute_Inl: "execute change w = (Inl err, w') \<Longrightarrow> w' = w\<lparr> w_stmts := w_stmts w + 1 \<rparr>"
  by (auto simp: execute_def split: prod.splits option.splits sum.splits)

lemma returnA_iff [simp]: "returnA a w = (q, w') \<longleftrightarrow> q = Inr a \<and> w' = w"
  by (auto simp: returnA_def)

lemma failA_iff [simp]: "failA err w = (q, w') \<longleftrightarrow> q = Inl err \<and> w' = w"
  by (auto simp: failA_def)

lemma bindA_Inr: "bindA f k w = (Inr b, w') \<longleftrightarrow> (\<exists>a w1. f w = (Inr a, w1) \<and> k a w1 = (Inr b, w'))"
  by (auto simp: bindA_def split: prod.splits sum.splits)

lemma bindA_Inl: "bindA f k w = (Inl err, w') \<longleftrightarrow>
    f w = (Inl err, w') \<or> (\<exists>a w1. f w = (Inr a, w1) \<and> k a w1 = (Inl err, w'))"
  by (auto simp: bindA_def split: prod.splits sum.splits)

lemma catchA_iff: "catchA f k w = (q, w') \<longleftrightarrow> (\<exists>r w1. f w = (r, w1) \<and> k r w1 = (q, w'))"
  by (auto simp: catchA_def split: prod.splits)

lemma wrapA_Inr [simp]: "wrapA m f w = (Inr a, w') \<longleftrightarrow> f w = (Inr a, w')"
  by (auto simp: wrapA_def split: prod.splits sum.splits)

lemma wrapA_Inl: "wrapA m f w = (Inl err, w') \<longleftrightarrow> (\<exists>err'. f w = (Inl err', w') \<and> err = e_wrap m err')"
  by (auto simp: wrapA_def split: prod.splits sum.splits)

lemma tickA_newUUID [simp]: "tickA newUUID w = (q, w') \<longleftrightarrow>
    q = Inr (w_uuid w (w_uuids w)) \<and> w' = w\<lparr> w_uuids := w_uuids w + 1 \<rparr>"
  by (auto simp: tickA_def newUUID_def)

lemma tickA_goNow [simp]: "tickA goNow w = (q, w') \<longleftrightarrow>
    q = Inr (w_clock w (w_ticks w)) \<and> w' = w\<lparr> w_ticks := w_ticks w + 1 \<rparr>"
  by (auto simp: tickA_def goNow_def)

lemmas act_dest = bindA_Inr bindA_Inl catchA_iff wrapA_Inl

text \<open>What no statement touches: the publisher, the buffered and published events, \<open>now()\<close>, \<open>jsonb\<close>.\<close>

definition quiet :: "world \<Rightarrow> world \<Rightarrow> bool" where
  "quiet w w' \<longleftrightarrow> w_collector w' = w_collector w \<and> w_published w' = w_published w
     \<and> w_publisher w' = w_publisher w \<and> w_jsonb w' = w_jsonb w \<and> w_dbnow w' = w_dbnow w
     \<and> w_fault w' = w_fault w"

definition quietA :: "'a act \<Rightarrow> bool" where
  "quietA f \<longleftrightarrow> (\<forall>w. quiet w (snd (f w)))"

lemma quietA_D: "quietA f \<Longrightarrow> f w = (q, w') \<Longrightarrow> quiet w w'"
  by (metis quietA_def snd_conv)

lemma quiet_refl [simp]: "quiet w w"
  by (simp add: quiet_def)

lemma quiet_trans: "quiet w1 w2 \<Longrightarrow> quiet w2 w3 \<Longrightarrow> quiet w1 w3"
  by (simp add: quiet_def)

named_theorems quietI

lemma quietA_basic [quietI]:
  "quietA (returnA a)" "quietA (failA err)" "quietA (tickA newUUID)" "quietA (tickA goNow)"
  "quietA (selectOne tbl p)" "quietA (selectMany tbl p)" "quietA (execute change)"
  by (auto simp: quietA_def quiet_def returnA_def failA_def tickA_def selectOne_def selectMany_def execute_def
      split: option.splits sum.splits)

lemma quietA_I: "(\<And>w q w'. f w = (q, w') \<Longrightarrow> quiet w w') \<Longrightarrow> quietA f"
  by (metis prod.collapse quietA_def)

lemma quietA_wrap [quietI]: "quietA f \<Longrightarrow> quietA (wrapA m f)"
  by (rule quietA_I) (auto simp: wrapA_def dest: quietA_D split: prod.splits sum.splits)

lemma quietA_catch [quietI]: "quietA f \<Longrightarrow> (\<And>r. quietA (k r)) \<Longrightarrow> quietA (catchA f k)"
  by (rule quietA_I) (auto simp: catchA_iff intro: quiet_trans dest: quietA_D)

lemma quietA_bind [quietI]: "quietA f \<Longrightarrow> (\<And>a. quietA (k a)) \<Longrightarrow> quietA (bindA f k)"
  by (rule quietA_I) (auto simp: bindA_def intro: quiet_trans dest: quietA_D split: prod.splits sum.splits)

lemma quiet_fields:
  "quiet w (w'\<lparr> w_db := d \<rparr>) = quiet w w'" "quiet w (w'\<lparr> w_stmts := n \<rparr>) = quiet w w'"
  by (simp_all add: quiet_def)

lemma quietA_inTx [quietI]: "quietA f \<Longrightarrow> quietA (inTx f)"
  by (rule quietA_I) (auto simp: inTx_def quiet_fields dest: quietA_D split: prod.splits sum.splits option.splits)

lemma quietA_if [quietI]: "quietA f \<Longrightarrow> quietA g \<Longrightarrow> quietA (if b then f else g)"
  by simp

lemma quietA_sum [quietI]: "(\<And>x. r = Inl x \<Longrightarrow> quietA (f x)) \<Longrightarrow> (\<And>x. r = Inr x \<Longrightarrow> quietA (g x)) \<Longrightarrow>
    quietA (case r of Inl x \<Rightarrow> f x | Inr x \<Rightarrow> g x)"
  by (cases r) auto

text \<open>
  The messages an observer of the process will see if the surrounding transaction, if any,
  commits.
\<close>

definition outbox :: "world \<Rightarrow> (alert \<times> alertEvent) list" where
  "outbox w = (case w_collector w of Some pending \<Rightarrow> pending | None \<Rightarrow> w_published w)"

lemma quiet_outbox: "quiet w w' \<Longrightarrow> outbox w' = outbox w"
  by (simp add: quiet_def outbox_def split: option.splits)

lemma outbox_record: "w_publisher w \<or> w_collector w \<noteq> None \<Longrightarrow>
    outbox (recordAlertEvent a (Some ev) w) = outbox w @ (if ev_Notify ev then [(a, ev)] else [])"
  by (auto simp: outbox_def recordAlertEvent_def split: option.splits)

lemma recordAlertEvent_frame [simp]:
  "w_db (recordAlertEvent a e w) = w_db w" "w_publisher (recordAlertEvent a e w) = w_publisher w"
  "w_jsonb (recordAlertEvent a e w) = w_jsonb w" "w_fault (recordAlertEvent a e w) = w_fault w" "recordAlertEvent a None w = w"
  "(w_collector (recordAlertEvent a e w) = None) = (w_collector w = None)"
  by (auto simp: recordAlertEvent_def split: option.splits)

text \<open>What an action may do besides changing the tables: a failed one changes no table.\<close>

definition atomic :: "'a act \<Rightarrow> bool" where
  "atomic f \<longleftrightarrow> (\<forall>w err w'. f w = (Inl err, w') \<longrightarrow> w_db w' = w_db w)"

lemma inTx_atomic: "atomic (inTx f)"
  by (auto simp: atomic_def inTx_def split: prod.splits sum.splits option.splits)

lemma inTx_Inr: "inTx f w = (Inr a, w') \<Longrightarrow>
    \<exists>w1. f w = (Inr a, w1) \<and> w' = w1\<lparr> w_stmts := w_stmts w1 + 1 \<rparr>"
  by (auto simp: inTx_def split: prod.splits sum.splits option.splits)

lemma inTx_Inl: "inTx f w = (Inl err, w') \<Longrightarrow> w_db w' = w_db w"
  using inTx_atomic [of f] by (simp add: atomic_def)

text \<open>An action that, inside a transaction, publishes nothing and only adds to the buffered events.\<close>

definition buffers :: "'a act \<Rightarrow> bool" where
  "buffers f \<longleftrightarrow> (\<forall>w q w' p. w_collector w = Some p \<longrightarrow> f w = (q, w') \<longrightarrow>
     (\<exists>p'. w_collector w' = Some (p @ p')) \<and> w_published w' = w_published w \<and> w_publisher w' = w_publisher w)"

lemma RunInTx_outcome:
  assumes "buffers f" and "w_collector w = None" and "RunInTx f w = (q, w')"
  shows "case q of
      Inl err \<Rightarrow> w_db w' = w_db w \<and> w_published w' = w_published w \<and> w_collector w' = None
    | Inr a \<Rightarrow> (\<exists>w1 pending. f (w\<lparr> w_collector := Some [] \<rparr>) = (Inr a, w1) \<and> w_collector w1 = Some pending
        \<and> w_db w' = w_db w1 \<and> w_collector w' = None
        \<and> w_published w' = w_published w @ (if w_publisher w then pending else []))"
proof (cases "f (w\<lparr> w_collector := Some [] \<rparr>)")
  case (Pair q1 w1)
  obtain p where p: "w_collector w1 = Some p" "w_published w1 = w_published w" "w_publisher w1 = w_publisher w"
    using assms(1) [unfolded buffers_def, rule_format, of "w\<lparr> w_collector := Some [] \<rparr>" "[]" q1 w1] Pair by auto
  show ?thesis
    using assms(2,3) Pair p
    by (auto simp: RunInTx_def inTx_def flushAlertEvents_def Let_def split: sum.splits option.splits)
qed

text \<open>
  C6. Publication follows the commit. Whatever a unit of work does, a unit that fails leaves the
  tables as they were and publishes nothing, provided the unit itself only publishes through
  \<open>recordAlertEvent\<close>, which inside a transaction only buffers; a unit that succeeds publishes
  exactly the events it buffered, in order.
\<close>

theorem RunInTx_publishes_on_commit:
  assumes "buffers f" and "w_collector w = None" and "RunInTx f w = (q, w')"
  shows "case q of
      Inl err \<Rightarrow> w_db w' = w_db w \<and> w_published w' = w_published w \<and> w_collector w' = None
    | Inr a \<Rightarrow> (\<exists>w1 pending. f (w\<lparr> w_collector := Some [] \<rparr>) = (Inr a, w1) \<and> w_collector w1 = Some pending
        \<and> w_db w' = w_db w1 \<and> w_collector w' = None
        \<and> w_published w' = w_published w @ (if w_publisher w then pending else []))"
  by (rule RunInTx_outcome [OF assms])

definition emptyWorld :: world where
  "emptyWorld = \<lparr> w_db = \<lparr> t_rules = [], t_evaluations = [], t_alerts = [], t_events = [], t_jobs = [],
       t_policies = [], t_reconciliations = [] \<rparr>,
     w_uuid = \<lambda>n. n + 100, w_uuids = 0, w_clock = \<lambda>n. 1000 + int n, w_ticks = 0, w_dbnow = 2000,
     w_fault = \<lambda>_. None, w_stmts = 0, w_jsonb = \<lambda>s. s, w_locked = \<lambda>_. False, w_publisher = True, w_collector = None,
     w_published = [] \<rparr>"

definition exampleEvent :: alertEvent where
  "exampleEvent = \<lparr> ev_ID = 1, ev_AlertID = 2, ev_EvaluationID = None, ev_Type = AlertEventAck,
     ev_PrevStatus = Some AlertOpen, ev_NewStatus = AlertAcknowledged, ev_Payload = '''', ev_Notify = True,
     ev_At = 5, ev_CreatedAt = 5 \<rparr>"

definition exampleAlert :: alert where
  "exampleAlert = \<lparr> alert_ID = 2, alert_RuleID = 3, alert_Fingerprint = ''asset:E'', alert_PeriodID = ''continuous'',
     alert_Status = AlertAcknowledged, alert_Severity = SeverityHigh, alert_FirstSeenAt = 4, alert_LastSeenAt = 4,
     alert_OccurrenceCount = 1, alert_LastEvaluationID = 6, alert_Evidence = '''', alert_Ack = None,
     alert_Resolution = None, alert_Snooze = None, alert_Labels = [], alert_CreatedAt = 4, alert_UpdatedAt = 4 \<rparr>"

text \<open>The unit records one event; the database refuses the commit in the first world, not in the second.\<close>

theorem RunInTx_publishes_on_commit_witness:
  "let f = (\<lambda>w. (Inr (), recordAlertEvent exampleAlert (Some exampleEvent) w)) in
     w_published (snd (RunInTx f (emptyWorld\<lparr> w_fault := \<lambda>_. Some (new_error ''io'') \<rparr>))) = []
     \<and> w_published (snd (RunInTx f emptyWorld)) = [(exampleAlert, exampleEvent)]"
proof -
  let ?f = "\<lambda>w. (Inr () :: gerror + unit, recordAlertEvent exampleAlert (Some exampleEvent) w)"
  have b: "buffers ?f" by (auto simp: buffers_def recordAlertEvent_def exampleEvent_def)
  let ?bad = "emptyWorld\<lparr> w_fault := \<lambda>_. Some (new_error ''io'') \<rparr>"
  have "fst (RunInTx ?f ?bad) = Inl (new_error ''io'')" "fst (RunInTx ?f emptyWorld) = Inr ()"
    by (simp_all add: RunInTx_def inTx_def recordAlertEvent_def emptyWorld_def exampleEvent_def)
  then obtain w1 w2 where run: "RunInTx ?f ?bad = (Inl (new_error ''io''), w1)"
    "RunInTx ?f emptyWorld = (Inr (), w2)" by (metis prod.collapse)
  have c: "w_collector ?bad = None" "w_collector emptyWorld = None" by (simp_all add: emptyWorld_def)
  have "w_published w1 = []"
    using RunInTx_publishes_on_commit [OF b c(1) run(1)] by (simp add: emptyWorld_def)
  moreover have "w_published w2 = [(exampleAlert, exampleEvent)]"
    using RunInTx_publishes_on_commit [OF b c(2) run(2)]
    by (auto simp: emptyWorld_def recordAlertEvent_def exampleEvent_def)
  ultimately show ?thesis using run by (simp add: Let_def)
qed

end
