(* ===== verification/AlertStore.thy ===== *)
theory AlertStore
  imports Db Json
begin

text \<open>
  The alert lifecycle, \<open>internal/storage/alert.go\<close>: one row per rule, fingerprint and period, its
  append-only event log, and the transitions between OPEN, ACKNOWLEDGED and RESOLVED with the
  decision, for every transition, whether it is published.
\<close>

record openAlertInput =
  oi_RuleID :: uuid
  oi_Fingerprint :: string
  oi_PeriodID :: string
  oi_Severity :: severity
  oi_EvaluationID :: uuid
  oi_Evidence :: rawJSON
  oi_Labels :: "(string \<times> string) list"
  oi_OccurredAt :: time

record openAlertResult =
  or_Alert :: alert
  or_Event :: alertEvent
  or_Created :: bool
  or_Reopened :: bool

section \<open>Evidence comparison\<close>

definition canonicalJSON :: "rawJSON \<Rightarrow> string option" where
  "canonicalJSON raw = map_option marshal (decode_prefix raw)"

definition sameEvidenceJSON :: "rawJSON \<Rightarrow> rawJSON \<Rightarrow> bool" where
  "sameEvidenceJSON a b =
     (if a = '''' \<or> b = '''' then a = '''' \<and> b = ''''
      else case canonicalJSON a of
        None \<Rightarrow> False
      | Some ca \<Rightarrow> (case canonicalJSON b of None \<Rightarrow> False | Some cb \<Rightarrow> ca = cb))"

section \<open>Statements on the two tables\<close>

definition sameCase :: "uuid \<Rightarrow> string \<Rightarrow> string \<Rightarrow> alert \<Rightarrow> bool" where
  "sameCase rid fp pid a \<longleftrightarrow> alert_RuleID a = rid \<and> alert_Fingerprint a = fp \<and> alert_PeriodID a = pid"

definition active :: "alert \<Rightarrow> bool" where
  "active a \<longleftrightarrow> alert_Status a = AlertOpen \<or> alert_Status a = AlertAcknowledged"

text \<open>
  \<open>INSERT ... RETURNING *\<close> with the table's constraints: the severity check, the primary key, the
  unique triple and the foreign keys; and the columns the database fills.
\<close>

definition insertAlert :: "alert \<Rightarrow> alert act" where
  "insertAlert a = execute (\<lambda>w. let d = w_db w in
     if \<not> Severity_Valid (alert_Severity a) then Inl (constraintViolation ''alert_severity_chk'')
     else if exists_row (\<lambda>b. alert_ID b = alert_ID a
               \<or> sameCase (alert_RuleID a) (alert_Fingerprint a) (alert_PeriodID a) b) (t_alerts d)
       then Inl uniqueViolation
     else if \<not> exists_row (\<lambda>r. rule_ID r = alert_RuleID a) (t_rules d) then Inl (constraintViolation ''alert_rule_fk'')
     else if \<not> exists_row (\<lambda>v. eval_ID v = alert_LastEvaluationID a) (t_evaluations d)
       then Inl (constraintViolation ''alert_last_eval_fk'')
     else let row = a\<lparr> alert_Evidence := jsonb w (alert_Evidence a), alert_CreatedAt := w_dbnow w,
                       alert_UpdatedAt := w_dbnow w \<rparr>
          in Inr (d\<lparr> t_alerts := t_alerts d @ [row] \<rparr>, row))"

text \<open>
  \<open>UPDATE ... SET f WHERE id = i RETURNING *\<close> into the row at hand; a trigger sets \<open>updated_at\<close>.
\<close>

definition updateAlert :: "uuid \<Rightarrow> (world \<Rightarrow> alert \<Rightarrow> alert) \<Rightarrow> alert \<Rightarrow> alert act" where
  "updateAlert i f current = execute (\<lambda>w. let d = w_db w in
     if exists_row (\<lambda>a. alert_ID a = i \<and> alert_LastEvaluationID (f w a) \<noteq> alert_LastEvaluationID a
          \<and> \<not> exists_row (\<lambda>v. eval_ID v = alert_LastEvaluationID (f w a)) (t_evaluations d)) (t_alerts d)
       then Inl (constraintViolation ''alert_last_eval_fk'')
     else
       let rows = upd_where (\<lambda>a. alert_ID a = i) (\<lambda>a. (f w a)\<lparr> alert_UpdatedAt := w_dbnow w \<rparr>) (t_alerts d)
       in Inr (d\<lparr> t_alerts := rows \<rparr>,
            case List.find (\<lambda>a. alert_ID a = i) rows of None \<Rightarrow> current | Some a \<Rightarrow> a))"

definition insertEvent :: "alertEvent \<Rightarrow> alertEvent act" where
  "insertEvent ev = execute (\<lambda>w. let d = w_db w in
     if exists_row (\<lambda>b. ev_ID b = ev_ID ev) (t_events d) then Inl uniqueViolation
     else if \<not> exists_row (\<lambda>a. alert_ID a = ev_AlertID ev) (t_alerts d) then Inl (constraintViolation ''alert_event_alert_fk'')
     else if (case ev_EvaluationID ev of None \<Rightarrow> False
              | Some i \<Rightarrow> \<not> exists_row (\<lambda>v. eval_ID v = i) (t_evaluations d))
       then Inl (constraintViolation ''alert_event_eval_fk'')
     else let row = ev\<lparr> ev_Payload := jsonb w (ev_Payload ev), ev_CreatedAt := w_dbnow w \<rparr>
          in Inr (d\<lparr> t_events := t_events d @ [row] \<rparr>, row))"

definition appendAlertEvent ::
    "uuid \<Rightarrow> alertEventType \<Rightarrow> alertStatus option \<Rightarrow> alertStatus \<Rightarrow> uuid option \<Rightarrow> rawJSON \<Rightarrow> time \<Rightarrow> bool
     \<Rightarrow> alertEvent act" where
  "appendAlertEvent alertID eventType prevStatus newStatus evaluationID payload at notify =
     bindA (if IsZero at then tickA goNow else returnA at) (\<lambda>at.
     bindA (tickA newUUID) (\<lambda>i.
     wrapA ''append alert event'' (insertEvent
       \<lparr> ev_ID = i, ev_AlertID = alertID, ev_EvaluationID = evaluationID, ev_Type = eventType,
         ev_PrevStatus = prevStatus, ev_NewStatus = newStatus, ev_Payload = payload, ev_Notify = notify,
         ev_At = at, ev_CreatedAt = 0 \<rparr>)))"

section \<open>Payloads\<close>

text \<open>\<open>json.Marshal\<close> of the metadata of a manual transition; its error is dropped with the payload.\<close>

definition note_field :: "string \<Rightarrow> (string \<times> string) list" where
  "note_field n = (if n = '''' then [] else [(''note'', quoted n)])"

definition ack_payload :: "ack \<Rightarrow> rawJSON" where
  "ack_payload a = encode_fields ([(''by'', quoted (Ack_By a)), (''at'', quoted (format_rfc3339 (Ack_At a)))]
     @ note_field (Ack_Note a))"

definition snooze_payload :: "snooze \<Rightarrow> rawJSON" where
  "snooze_payload s = encode_fields ([(''until'', quoted (format_rfc3339 (Snooze_Until s))),
     (''by'', quoted (Snooze_By s)), (''at'', quoted (format_rfc3339 (Snooze_At s)))] @ note_field (Snooze_Note s))"

definition resolutionKind_text :: "resolutionKind \<Rightarrow> string" where
  "resolutionKind_text k = (case k of ResolutionAuto \<Rightarrow> ''auto'' | ResolutionFixedByBooking \<Rightarrow> ''fixed_by_booking''
     | ResolutionAcceptedByBusiness \<Rightarrow> ''accepted_by_business'')"

definition resolution_payload :: "resolution \<Rightarrow> rawJSON" where
  "resolution_payload r =
     (let fields = [(''kind'', quoted (resolutionKind_text (Res_Kind r))), (''by'', quoted (Res_By r)),
            (''at'', quoted (format_rfc3339 (Res_At r)))] @ note_field (Res_Note r)
          @ (if Res_TransactionRefs r = [] then []
             else [(''transactionRefs'', marshal (JArr (map JStr (Res_TransactionRefs r))))]) in
      if Res_EvidenceSnapshot r = '''' then encode_fields fields
      else case compact (Res_EvidenceSnapshot r) of
        Inl err \<Rightarrow> ''''
      | Inr raw \<Rightarrow> encode_fields (fields @ [(''evidenceSnapshot'', raw)]))"

section \<open>Operations\<close>

definition publish :: "alert option \<Rightarrow> alertEvent option \<Rightarrow> unit act" where
  "publish ao event = tickA (\<lambda>w. ((), case ao of None \<Rightarrow> w | Some a \<Rightarrow> recordAlertEvent a event w))"

text \<open>Path 1 of \<open>openOrUpdateAlertOnce\<close>: the first failure of this fingerprint in this period.\<close>

definition openFresh :: "openAlertInput \<Rightarrow> openAlertResult act" where
  "openFresh inp =
     bindA (tickA newUUID) (\<lambda>i.
     let fresh = \<lparr> alert_ID = i, alert_RuleID = oi_RuleID inp, alert_Fingerprint = oi_Fingerprint inp,
           alert_PeriodID = oi_PeriodID inp, alert_Status = AlertOpen, alert_Severity = oi_Severity inp,
           alert_FirstSeenAt = oi_OccurredAt inp, alert_LastSeenAt = oi_OccurredAt inp,
           alert_OccurrenceCount = 1, alert_LastEvaluationID = oi_EvaluationID inp,
           alert_Evidence = oi_Evidence inp, alert_Ack = None, alert_Resolution = None, alert_Snooze = None,
           alert_Labels = oi_Labels inp, alert_CreatedAt = 0, alert_UpdatedAt = 0 \<rparr> in
     bindA (wrapA ''insert alert'' (insertAlert fresh)) (\<lambda>fresh.
     bindA (appendAlertEvent (alert_ID fresh) AlertEventFail None AlertOpen (Some (oi_EvaluationID inp))
              (oi_Evidence inp) (oi_OccurredAt inp) True) (\<lambda>event.
     returnA \<lparr> or_Alert = fresh, or_Event = event, or_Created = True, or_Reopened = False \<rparr>)))"

definition snoozeActive :: "alert \<Rightarrow> time \<Rightarrow> bool" where
  "snoozeActive a at = (case alert_Snooze a of None \<Rightarrow> False | Some s \<Rightarrow> Before at (Snooze_Until s))"

definition snoozeExpired :: "alert \<Rightarrow> time \<Rightarrow> bool" where
  "snoozeExpired a at \<longleftrightarrow> alert_Snooze a \<noteq> None \<and> \<not> snoozeActive a at"

text \<open>The assignments of the \<open>UPDATE\<close> of paths 2 and 3, and whether the failure notifies.\<close>

definition refail :: "openAlertInput \<Rightarrow> alert \<Rightarrow> world \<Rightarrow> alert \<Rightarrow> alert" where
  "refail inp current w a =
     (let prev = alert_Status current; reopened = (prev = AlertResolved);
          a = a\<lparr> alert_Status := AlertOpen, alert_LastSeenAt := oi_OccurredAt inp,
                 alert_LastEvaluationID := oi_EvaluationID inp,
                 alert_OccurrenceCount := alert_OccurrenceCount a + 1,
                 alert_Evidence := jsonb w (oi_Evidence inp) \<rparr>;
          a = (if reopened then a\<lparr> alert_Resolution := None, alert_Ack := None \<rparr>
               else if prev = AlertAcknowledged then a\<lparr> alert_Ack := None \<rparr> else a)
      in if snoozeExpired current (oi_OccurredAt inp) then a\<lparr> alert_Snooze := None \<rparr> else a)"

definition refail_notify :: "openAlertInput \<Rightarrow> alert \<Rightarrow> bool" where
  "refail_notify inp current =
     (let prev = alert_Status current; reopened = (prev = AlertResolved);
          notify = (reopened \<or> prev \<noteq> AlertOpen
                    \<or> \<not> sameEvidenceJSON (alert_Evidence current) (oi_Evidence inp))
      in if snoozeActive current (oi_OccurredAt inp) then False
         else if snoozeExpired current (oi_OccurredAt inp) then True
         else notify)"

definition failAgain :: "openAlertInput \<Rightarrow> alert \<Rightarrow> openAlertResult act" where
  "failAgain inp current =
     (let prev = alert_Status current in
      bindA (wrapA ''update alert'' (updateAlert (alert_ID current) (refail inp current) current)) (\<lambda>updated.
      bindA (appendAlertEvent (alert_ID updated) AlertEventFail (Some prev) AlertOpen (Some (oi_EvaluationID inp))
               (oi_Evidence inp) (oi_OccurredAt inp) (refail_notify inp current)) (\<lambda>event.
      returnA \<lparr> or_Alert = updated, or_Event = event, or_Created = False,
               or_Reopened = (prev = AlertResolved) \<rparr>)))"

definition openTx :: "openAlertInput \<Rightarrow> openAlertResult act" where
  "openTx inp =
     catchA (selectOne t_alerts (sameCase (oi_RuleID inp) (oi_Fingerprint inp) (oi_PeriodID inp))) (\<lambda>r.
     case r of
       Inl err \<Rightarrow> if errors_Is err SqlErrNoRows then openFresh inp else failA (e_wrap ''lookup alert'' err)
     | Inr current \<Rightarrow> failAgain inp current)"

definition openOrUpdateAlertOnce :: "openAlertInput \<Rightarrow> openAlertResult act" where
  "openOrUpdateAlertOnce inp = inTx (openTx inp)"

text \<open>The retry loop, with the attempts left.\<close>

fun openAttempts :: "nat \<Rightarrow> openAlertInput \<Rightarrow> openAlertResult act" where
  "openAttempts 0 inp = failA (new_error ''OpenOrUpdateAlert: retry budget exhausted'')"
| "openAttempts (Suc n) inp =
     catchA (openOrUpdateAlertOnce inp) (\<lambda>r.
       case r of
         Inr result \<Rightarrow> bindA (publish (Some (or_Alert result)) (Some (or_Event result))) (\<lambda>_. returnA result)
       | Inl err \<Rightarrow> if 0 < n \<and> errors_Is err ErrDuplicateKeyValue then openAttempts n inp else failA err)"

definition periodOr :: "string \<Rightarrow> string" where
  "periodOr pid = (if pid = '''' then ContinuousPeriod else pid)"

definition OpenOrUpdateAlert :: "openAlertInput \<Rightarrow> openAlertResult act" where
  "OpenOrUpdateAlert inp =
     bindA (if IsZero (oi_OccurredAt inp) then tickA goNow else returnA (oi_OccurredAt inp)) (\<lambda>at.
     openAttempts 2 (inp\<lparr> oi_OccurredAt := at, oi_PeriodID := periodOr (oi_PeriodID inp) \<rparr>))"

definition ListActiveAlertFingerprints :: "uuid \<Rightarrow> string \<Rightarrow> string list act" where
  "ListActiveAlertFingerprints ruleID periodID =
     bindA (wrapA ''list active alert fingerprints'' (selectMany t_alerts (\<lambda>a. alert_RuleID a = ruleID
              \<and> alert_PeriodID a = periodOr periodID \<and> active a))) (\<lambda>rows.
     returnA (map alert_Fingerprint rows))"

text \<open>What closes an alert: the status, the resolution (its snapshot a \<open>jsonb\<close> value), no snooze.\<close>

definition close_alert :: "resolution \<Rightarrow> world \<Rightarrow> alert \<Rightarrow> alert" where
  "close_alert res w a = a\<lparr> alert_Status := AlertResolved, alert_Snooze := None,
     alert_Resolution := Some (res\<lparr> Res_EvidenceSnapshot := jsonb w (Res_EvidenceSnapshot res) \<rparr>) \<rparr>"

text \<open>The closures the operations run in a transaction.\<close>

definition autoResolveTx :: "(alert \<Rightarrow> bool) \<Rightarrow> resolution \<Rightarrow> uuid \<Rightarrow> (alert option \<times> alertEvent option) act" where
  "autoResolveTx which res evaluationID =
     catchA (selectOne t_alerts which) (\<lambda>r.
     case r of
       Inl err \<Rightarrow> if errors_Is err SqlErrNoRows then returnA (None, None)
                  else failA (e_wrap ''lookup alert for auto-resolve'' err)
     | Inr current \<Rightarrow>
         bindA (wrapA ''auto-resolve alert'' (updateAlert (alert_ID current)
           (\<lambda>w a. (close_alert res w a)\<lparr> alert_LastEvaluationID := evaluationID \<rparr>) current)) (\<lambda>updated.
         bindA (appendAlertEvent (alert_ID updated) AlertEventPass (Some (alert_Status current)) AlertResolved
                  (Some evaluationID) (resolution_payload res) (Res_At res) True) (\<lambda>ev.
         returnA (Some updated, Some ev))))"

definition AutoResolveAlert :: "uuid \<Rightarrow> string \<Rightarrow> string \<Rightarrow> uuid \<Rightarrow> time \<Rightarrow> alert option act" where
  "AutoResolveAlert ruleID fingerprint periodID evaluationID at =
     bindA (if IsZero at then tickA goNow else returnA at) (\<lambda>at.
     let res = \<lparr> Res_Kind = ResolutionAuto, Res_By = ''system'', Res_At = at, Res_Note = '''',
                 Res_TransactionRefs = [], Res_EvidenceSnapshot = '''' \<rparr> in
     bindA (inTx (autoResolveTx (\<lambda>a. sameCase ruleID fingerprint (periodOr periodID) a \<and> active a)
              res evaluationID)) (\<lambda>(resolved, event).
     bindA (publish resolved event) (\<lambda>_. returnA resolved)))"

text \<open>The manual transitions: a unit of work on one row, then the publication of its event, if any.\<close>

definition manual :: "(alert \<times> alertEvent option) act \<Rightarrow> alert act" where
  "manual f = bindA (inTx f) (\<lambda>(a, event). bindA (publish (Some a) event) (\<lambda>_. returnA a))"

definition ackTx :: "uuid \<Rightarrow> ack \<Rightarrow> (alert \<times> alertEvent option) act" where
  "ackTx i ack =
     bindA (wrapA ''ack alert'' (selectOne t_alerts (\<lambda>a. alert_ID a = i))) (\<lambda>a.
     if alert_Status a = AlertResolved then failA (e_wrap ''ack alert'' (sent ErrNotFound))
     else if alert_Status a = AlertAcknowledged then returnA (a, None)
     else
       bindA (wrapA ''ack alert'' (updateAlert i (\<lambda>w a. a\<lparr> alert_Status := AlertAcknowledged,
                alert_Ack := Some ack \<rparr>) a)) (\<lambda>updated.
       bindA (appendAlertEvent (alert_ID updated) AlertEventAck (Some (alert_Status a)) AlertAcknowledged None
                (ack_payload ack) (Ack_At ack) True) (\<lambda>ev.
       returnA (updated, Some ev))))"

definition AckAlert :: "uuid \<Rightarrow> ack \<Rightarrow> alert act" where
  "AckAlert i ack = manual (ackTx i ack)"

definition snapshotEvidence :: "resolution \<Rightarrow> alert \<Rightarrow> resolution" where
  "snapshotEvidence res a =
     (if Res_Kind res = ResolutionAcceptedByBusiness \<and> Res_EvidenceSnapshot res = ''''
      then res\<lparr> Res_EvidenceSnapshot := (if alert_Evidence a \<noteq> '''' then alert_Evidence a else ''null'') \<rparr>
      else res)"

definition resolveTx :: "uuid \<Rightarrow> resolution \<Rightarrow> alertEventType \<Rightarrow> (alert \<times> alertEvent option) act" where
  "resolveTx i res eventType =
     bindA (wrapA ''resolve alert'' (selectOne t_alerts (\<lambda>a. alert_ID a = i \<and> active a))) (\<lambda>a.
     let res = snapshotEvidence res a in
     bindA (wrapA ''resolve alert'' (updateAlert i (close_alert res) a)) (\<lambda>updated.
     bindA (appendAlertEvent (alert_ID updated) eventType (Some (alert_Status a)) AlertResolved None
              (resolution_payload res) (Res_At res) True) (\<lambda>ev.
     returnA (updated, Some ev))))"

definition applyResolution :: "uuid \<Rightarrow> resolution \<Rightarrow> alertEventType \<Rightarrow> alert act" where
  "applyResolution i res eventType = manual (resolveTx i res eventType)"

definition ResolveAlertManual :: "uuid \<Rightarrow> resolution \<Rightarrow> alert act" where
  "ResolveAlertManual i res =
     (if Res_Kind res \<noteq> ResolutionFixedByBooking \<and> Res_Kind res \<noteq> ResolutionAuto
      then failA (new_error (''ResolveAlertManual: unsupported resolution kind ''
             @ quoted (resolutionKind_text (Res_Kind res))))
      else applyResolution i res AlertEventResolve)"

definition AcceptAlert :: "uuid \<Rightarrow> resolution \<Rightarrow> alert act" where
  "AcceptAlert i res =
     (if Res_Kind res \<noteq> ResolutionAcceptedByBusiness
      then failA (new_error (''AcceptAlert: expected kind '' @ quoted ''accepted_by_business'' @ '', got ''
             @ quoted (resolutionKind_text (Res_Kind res))))
      else if Res_Note res = '''' then failA (new_error ''AcceptAlert: note is required'')
      else applyResolution i res AlertEventAccept)"

definition snoozeTx :: "uuid \<Rightarrow> snooze \<Rightarrow> (alert \<times> alertEvent option) act" where
  "snoozeTx i sz =
     bindA (wrapA ''snooze alert'' (selectOne t_alerts (\<lambda>a. alert_ID a = i \<and> active a))) (\<lambda>a.
     bindA (wrapA ''snooze alert'' (updateAlert i (\<lambda>w a. a\<lparr> alert_Snooze := Some sz \<rparr>) a)) (\<lambda>updated.
     bindA (appendAlertEvent (alert_ID updated) AlertEventSnooze (Some (alert_Status a)) (alert_Status a) None
              (snooze_payload sz) (Snooze_At sz) True) (\<lambda>ev.
     returnA (updated, Some ev))))"

definition SnoozeAlert :: "uuid \<Rightarrow> time \<Rightarrow> string \<Rightarrow> string \<Rightarrow> alert act" where
  "SnoozeAlert i until author note =
     bindA (tickA goNow) (\<lambda>at.
     if \<not> After until at then failA (new_error ''SnoozeAlert: until must be in the future'')
     else manual (snoozeTx i
            \<lparr> Snooze_Until = until, Snooze_By = author, Snooze_At = at, Snooze_Note = note \<rparr>))"

definition unsnoozeTx :: "uuid \<Rightarrow> string \<Rightarrow> (alert \<times> alertEvent option) act" where
  "unsnoozeTx i author =
     bindA (wrapA ''unsnooze alert'' (selectOne t_alerts (\<lambda>a. alert_ID a = i))) (\<lambda>a.
     if alert_Snooze a = None then returnA (a, None)
     else
       bindA (tickA goNow) (\<lambda>at.
       bindA (wrapA ''unsnooze alert'' (updateAlert i (\<lambda>w a. a\<lparr> alert_Snooze := None \<rparr>) a)) (\<lambda>updated.
       bindA (appendAlertEvent (alert_ID updated) AlertEventUnsnooze (Some (alert_Status a)) (alert_Status a) None
                (marshal (JObj [(''by'', JStr author)])) at True) (\<lambda>ev.
       returnA (updated, Some ev)))))"

definition UnsnoozeAlert :: "uuid \<Rightarrow> string \<Rightarrow> alert act" where
  "UnsnoozeAlert i author = manual (unsnoozeTx i author)"

definition GetAlert :: "uuid \<Rightarrow> alert act" where
  "GetAlert i = wrapA ''get alert'' (selectOne t_alerts (\<lambda>a. alert_ID a = i))"

text \<open>
  Evaluation on concrete worlds: an operation is unfolded only once it is applied to a world.
\<close>

lemmas store_runs [code] =
  insertAlert_def [THEN fun_cong] updateAlert_def [THEN fun_cong] insertEvent_def [THEN
  fun_cong] appendAlertEvent_def [THEN fun_cong] publish_def [THEN fun_cong] openFresh_def [THEN
  fun_cong] failAgain_def [THEN fun_cong] openTx_def [THEN fun_cong] openOrUpdateAlertOnce_def
  [THEN fun_cong] openAttempts.simps [THEN fun_cong] OpenOrUpdateAlert_def [THEN fun_cong]
  autoResolveTx_def [THEN fun_cong] AutoResolveAlert_def [THEN fun_cong] manual_def [THEN
  fun_cong] ackTx_def [THEN fun_cong] AckAlert_def [THEN fun_cong] resolveTx_def [THEN fun_cong]
  applyResolution_def [THEN fun_cong] ResolveAlertManual_def [THEN fun_cong] AcceptAlert_def
  [THEN fun_cong] snoozeTx_def [THEN fun_cong] SnoozeAlert_def [THEN fun_cong] unsnoozeTx_def
  [THEN fun_cong] UnsnoozeAlert_def [THEN fun_cong]

end
