(* ===== verification/RuleStore.thy ===== *)
theory RuleStore
  imports Db
begin

text \<open>
  Rules and evaluations in the database: \<open>internal/storage/{rule,rule_lock,evaluation}.go\<close>. A rule
  carries a revision, which every material patch increments, and the cursor of its schedule; a
  patch cancels the pending jobs of the revisions it supersedes. The constraints of the tables
  (\<open>migrations.go\<close>) are part of the statements. The lemmas are what each operation does to the
  tables; the properties that combine them with the job queue are in \<open>JobLifecycle\<close>.
\<close>

section \<open>Statements\<close>

definition existsRow :: "(db \<Rightarrow> 'r list) \<Rightarrow> ('r \<Rightarrow> bool) \<Rightarrow> bool act" where
  "existsRow tbl p = bindA (selectMany tbl p) (\<lambda>rs. returnA (rs \<noteq> []))"

text \<open>\<open>SELECT now()\<close>.\<close>

definition selectNow :: "time act" where
  "selectNow w = (case stmt w of (Some err, w) \<Rightarrow> (Inl err, w) | (None, w) \<Rightarrow> (Inr (w_dbnow w), w))"

text \<open>\<open>UPDATE rule\<close>: the number of rows; a trigger sets \<open>updated_at\<close>, a constraint checks the severity.\<close>

definition rule_chk :: "rule \<Rightarrow> bool" where
  "rule_chk r \<longleftrightarrow> Severity_Valid (rule_Severity r) \<and> PeriodType_Valid (rule_PeriodType r)"

definition updateRules :: "(rule \<Rightarrow> bool) \<Rightarrow> (rule \<Rightarrow> rule) \<Rightarrow> nat act" where
  "updateRules p f = execute (\<lambda>w. let d = w_db w in
     if exists_row (\<lambda>r. p r \<and> \<not> rule_chk (f r)) (t_rules d) then Inl (constraintViolation ''rule_chk'')
     else Inr (d\<lparr> t_rules := upd_where p (\<lambda>r. (f r)\<lparr> rule_UpdatedAt := w_dbnow w \<rparr>) (t_rules d) \<rparr>,
               length (filter p (t_rules d))))"

text \<open>
  \<open>UPDATE evaluation_job\<close>, with the constraints that a claim belongs to a running job and that
  attempts are not negative; the rows as updated.
\<close>

definition job_chk :: "evaluationJob \<Rightarrow> bool" where
  "job_chk j \<longleftrightarrow> 0 \<le> job_Attempts j \<and>
     (if job_Status j = EvaluationJobRunning then job_ClaimToken j \<noteq> None \<and> job_LeaseUntil j \<noteq> None
      else job_ClaimToken j = None \<and> job_LeaseUntil j = None)"

definition updateJobs :: "(world \<Rightarrow> evaluationJob \<Rightarrow> bool) \<Rightarrow> (world \<Rightarrow> evaluationJob \<Rightarrow> evaluationJob)
    \<Rightarrow> evaluationJob list act" where
  "updateJobs p f = execute (\<lambda>w. let d = w_db w; g = (\<lambda>j. (f w j)\<lparr> job_UpdatedAt := w_dbnow w \<rparr>) in
     if exists_row (\<lambda>j. p w j \<and> \<not> job_chk (f w j)) (t_jobs d) then Inl (constraintViolation ''evaluation_job_chk'')
     else Inr (d\<lparr> t_jobs := upd_where (p w) g (t_jobs d) \<rparr>, map g (filter (p w) (t_jobs d))))"

definition insertRule :: "rule \<Rightarrow> rule act" where
  "insertRule r = execute (\<lambda>w. let d = w_db w in
     if \<not> rule_chk r then Inl (constraintViolation ''rule_chk'')
     else if exists_row (\<lambda>x. rule_ID x = rule_ID r) (t_rules d) then Inl uniqueViolation
     else let row = r\<lparr> rule_TemplateSpec := jsonb w (rule_TemplateSpec r), rule_CreatedAt := w_dbnow w,
                       rule_UpdatedAt := w_dbnow w \<rparr>
          in Inr (d\<lparr> t_rules := t_rules d @ [row] \<rparr>, row))"

section \<open>Rules\<close>

definition nullTime :: "time \<Rightarrow> time option" where
  "nullTime t = (if IsZero t then None else Some t)"

definition scheduled_kind :: "schedule option \<Rightarrow> bool" where
  "scheduled_kind so = (case so of None \<Rightarrow> False | Some s \<Rightarrow> Kind s = ScheduleCron)"

definition ofSum :: "gerror + 'a \<Rightarrow> 'a act" where
  "ofSum s = (case s of Inl err \<Rightarrow> failA err | Inr a \<Rightarrow> returnA a)"

definition CreateRule :: "cron_parser \<Rightarrow> rule \<Rightarrow> rule act" where
  "CreateRule parse rule =
     (let rule = (if rule_PeriodType rule = '''' then rule\<lparr> rule_PeriodType := PeriodTypeContinuous \<rparr> else rule);
          rule = (if rule_Revision rule = 0 then rule\<lparr> rule_Revision := 1 \<rparr> else rule) in
      bindA (if rule_Enabled rule \<and> scheduled_kind (rule_Schedule rule) then
               bindA (wrapA ''read database time for rule schedule'' selectNow) (\<lambda>now.
               bindA (ofSum (Schedule_Next parse (rule_Schedule rule) now)) (\<lambda>next.
               returnA (if IsZero next then rule else rule\<lparr> rule_NextRunAt := Some next \<rparr>)))
             else returnA rule) (\<lambda>rule.
      wrapA ''failed to create rule'' (insertRule rule)))"

definition GetRule :: "uuid \<Rightarrow> rule act" where
  "GetRule i = wrapA ''failed to get rule'' (selectOne t_rules (\<lambda>r. rule_ID r = i))"

definition AssertRuleRevision :: "uuid \<Rightarrow> int \<Rightarrow> unit act" where
  "AssertRuleRevision i expected =
     bindA (wrapA ''load rule revision'' (selectOne t_rules (\<lambda>r. rule_ID r = i))) (\<lambda>r.
     if \<not> rule_Enabled r \<or> rule_Revision r \<noteq> expected then failA (sent ErrObsoleteJob) else returnA ())"

text \<open>
  \<open>DELETE\<close> with its cascades: evaluations, alerts and jobs of the rule, and the events of either.
  A remaining alert that refers to a deleted evaluation would violate its foreign key.
\<close>

definition cascadeRule :: "uuid \<Rightarrow> db \<Rightarrow> gerror + db" where
  "cascadeRule i d =
     (let evals = map eval_ID (filter (\<lambda>v. eval_RuleID v = i) (t_evaluations d));
          alerts = map alert_ID (filter (\<lambda>a. alert_RuleID a = i) (t_alerts d));
          kept = filter (\<lambda>a. alert_RuleID a \<noteq> i) (t_alerts d) in
      if exists_row (\<lambda>a. alert_LastEvaluationID a \<in> set evals) kept then Inl (constraintViolation ''alert_last_eval_fk'')
      else Inr (d\<lparr> t_rules := filter (\<lambda>r. rule_ID r \<noteq> i) (t_rules d),
                   t_evaluations := filter (\<lambda>v. eval_RuleID v \<noteq> i) (t_evaluations d),
                   t_alerts := kept,
                   t_events := filter (\<lambda>e. ev_AlertID e \<notin> set alerts
                     \<and> (case ev_EvaluationID e of None \<Rightarrow> True | Some v \<Rightarrow> v \<notin> set evals)) (t_events d),
                   t_jobs := filter (\<lambda>j. job_RuleID j \<noteq> i) (t_jobs d) \<rparr>))"

definition DeleteRule :: "uuid \<Rightarrow> unit act" where
  "DeleteRule i =
     bindA (wrapA ''failed to delete rule'' (execute (\<lambda>w. let d = w_db w;
         n = length (filter (\<lambda>r. rule_ID r = i) (t_rules d)) in
         if n = 0 then Inr (d, n)
         else (case cascadeRule i d of Inl err \<Rightarrow> Inl err | Inr d' \<Rightarrow> Inr (d', n))))) (\<lambda>n.
     if n = 0 then failA (e_wrap ''delete rule'' (sent ErrNotFound)) else returnA ())"

record rulePatch =
  rp_Name :: "string option"
  rp_TemplateKind :: "templateKind option"
  rp_TemplateSpec :: "rawJSON option"
  rp_ExplanationCEL :: "string option"
  rp_Enabled :: "bool option"
  rp_Severity :: "severity option"
  rp_Schedule :: "schedule option"
  rp_Notifications :: "string list option"
  rp_Labels :: "(string \<times> string) list option"
  rp_ExpectedRevision :: "int option"

definition patch_touches :: "rulePatch \<Rightarrow> bool" where
  "patch_touches p \<longleftrightarrow> rp_Name p \<noteq> None \<or> rp_TemplateKind p \<noteq> None \<or> rp_TemplateSpec p \<noteq> None
     \<or> rp_ExplanationCEL p \<noteq> None \<or> rp_Enabled p \<noteq> None \<or> rp_Severity p \<noteq> None \<or> rp_Schedule p \<noteq> None
     \<or> rp_Notifications p \<noteq> None \<or> rp_Labels p \<noteq> None"

definition or_old :: "'a option \<Rightarrow> 'a \<Rightarrow> 'a" where
  "or_old opt old = (case opt of None \<Rightarrow> old | Some v \<Rightarrow> v)"

definition patch_fields :: "(rawJSON \<Rightarrow> rawJSON) \<Rightarrow> rulePatch \<Rightarrow> rule \<Rightarrow> rule" where
  "patch_fields norm p r = r\<lparr>
     rule_Name := or_old (rp_Name p) (rule_Name r),
     rule_TemplateKind := or_old (rp_TemplateKind p) (rule_TemplateKind r),
     rule_TemplateSpec := (case rp_TemplateSpec p of None \<Rightarrow> rule_TemplateSpec r | Some s \<Rightarrow> norm s),
     rule_ExplanationCEL := or_old (rp_ExplanationCEL p) (rule_ExplanationCEL r),
     rule_Enabled := or_old (rp_Enabled p) (rule_Enabled r),
     rule_Severity := or_old (rp_Severity p) (rule_Severity r),
     rule_Schedule := (case rp_Schedule p of None \<Rightarrow> rule_Schedule r | Some s \<Rightarrow> Some s),
     rule_Notifications := or_old (rp_Notifications p) (rule_Notifications r),
     rule_Labels := or_old (rp_Labels p) (rule_Labels r) \<rparr>"

definition supersede :: "uuid \<Rightarrow> int \<Rightarrow> evaluationJob list act" where
  "supersede i revision = updateJobs
     (\<lambda>w j. job_RuleID j = i \<and> job_RuleRevision j \<le> revision \<and> job_Status j = EvaluationJobPending)
     (\<lambda>w j. j\<lparr> job_Status := EvaluationJobCancelled, job_LastError := ''rule revised'' \<rparr>)"

definition patchRule :: "cron_parser \<Rightarrow> uuid \<Rightarrow> rulePatch \<Rightarrow> unit act" where
  "patchRule parse i p =
     (if \<not> patch_touches p then
        bindA (wrapA ''patch rule existence check'' (existsRow t_rules (\<lambda>r. rule_ID r = i))) (\<lambda>found.
        if found then returnA () else failA (e_wrap ''patch rule'' (sent ErrNotFound)))
      else
        bindA (wrapA ''load rule for patch'' (selectOne t_rules (\<lambda>r. rule_ID r = i))) (\<lambda>current.
        if rp_ExpectedRevision p \<noteq> None \<and> rp_ExpectedRevision p \<noteq> Some (rule_Revision current)
        then failA (sent ErrRuleRevisionConflict)
        else
          let effectiveSchedule = (case rp_Schedule p of None \<Rightarrow> rule_Schedule current | Some s \<Rightarrow> Some s);
              effectiveEnabled = or_old (rp_Enabled p) (rule_Enabled current) in
          bindA (if effectiveEnabled \<and> scheduled_kind effectiveSchedule then
                   bindA (wrapA ''read database time for patched schedule'' selectNow) (\<lambda>now.
                   bindA (ofSum (Schedule_Next parse effectiveSchedule now)) (\<lambda>next. returnA (nullTime next)))
                 else returnA None) (\<lambda>nextRunAt.
          bindA (\<lambda>w. wrapA ''failed to patch rule'' (updateRules (\<lambda>r. rule_ID r = i)
                   (\<lambda>r. (patch_fields (jsonb w) p r)\<lparr> rule_Revision := rule_Revision r + 1,
                          rule_NextRunAt := nextRunAt \<rparr>)) w) (\<lambda>n.
          if n = 0 then failA (e_wrap ''patch rule'' (sent ErrNotFound))
          else bindA (wrapA ''cancel superseded evaluation jobs'' (supersede i (rule_Revision current))) (\<lambda>_.
               returnA ())))))"

definition PatchRule :: "cron_parser \<Rightarrow> uuid \<Rightarrow> rulePatch \<Rightarrow> unit act" where
  "PatchRule parse i p = inTx (patchRule parse i p)"

section \<open>The rule lock (storage/rule\_lock.go)\<close>

text \<open>
  \<open>TryWithRuleLock\<close>: a connection, \<open>pg_try_advisory_lock\<close>, the body, the unlock, whose error is only
  logged. \<open>None\<close> is \<open>acquired = false\<close>.
\<close>

definition TryWithRuleLock :: "uuid \<Rightarrow> 'a act \<Rightarrow> 'a option act" where
  "TryWithRuleLock i f w =
     (case stmt w of
        (Some err, w) \<Rightarrow> (Inl (wrap_error ''rule lock: acquire connection'' err), w)
      | (None, w) \<Rightarrow>
     (case stmt w of
        (Some err, w) \<Rightarrow> (Inl (wrap_error ''rule lock: try advisory lock'' err), w)
      | (None, w) \<Rightarrow>
          if w_locked w i then (Inr None, w)
          else case f w of (r, w) \<Rightarrow>
                 (case stmt w of (_, w) \<Rightarrow> (case r of Inl err \<Rightarrow> Inl err | Inr a \<Rightarrow> Inr (Some a), w))))"

section \<open>Evaluations\<close>

definition CreateEvaluation :: "evaluation \<Rightarrow> evaluation act" where
  "CreateEvaluation ev = wrapA ''failed to create evaluation'' (execute (\<lambda>w. let d = w_db w in
     if (eval_ScheduledAt ev = None) \<noteq> (eval_RuleRevision ev = None)
       then Inl (constraintViolation ''evaluation_schedule_identity_chk'')
     else if exists_row (\<lambda>v. eval_ID v = eval_ID ev) (t_evaluations d) then Inl uniqueViolation
     else if eval_ScheduledAt ev \<noteq> None \<and> exists_row (\<lambda>v. eval_RuleID v = eval_RuleID ev
               \<and> eval_RuleRevision v = eval_RuleRevision ev \<and> eval_ScheduledAt v = eval_ScheduledAt ev)
             (t_evaluations d) then Inl uniqueViolation
     else if \<not> exists_row (\<lambda>r. rule_ID r = eval_RuleID ev) (t_rules d)
       then Inl (constraintViolation ''evaluation_rule_fk'')
     else let row = ev\<lparr> eval_Evidence := jsonb w (eval_Evidence ev), eval_CreatedAt := w_dbnow w \<rparr>
          in Inr (d\<lparr> t_evaluations := t_evaluations d @ [row] \<rparr>, row)))"

definition GetEvaluation :: "uuid \<Rightarrow> evaluation act" where
  "GetEvaluation i = wrapA ''failed to get evaluation'' (selectOne t_evaluations (\<lambda>v. eval_ID v = i))"

end
