(* ===== verification/JobStore.thy ===== *)
theory JobStore
  imports RuleStore
begin

text \<open>
  The durable job queue, \<open>internal/storage/scheduling.go\<close>: planning of due cron occurrences, the
  lease-based claim of a job and its fencing token, and the transitions of a claimed job. A claim
  is the pair of a token and a lease; every later statement of the worker names the token, so a
  worker that lost its claim changes nothing.
\<close>

section \<open>Planning\<close>

record planResult =
  pr_RulesScanned :: nat
  pr_JobsCreated :: nat
  pr_Skipped :: nat
  pr_Initialized :: nat
  pr_MaxLag :: duration

definition emptyPlan :: planResult where
  "emptyPlan = \<lparr> pr_RulesScanned = 0, pr_JobsCreated = 0, pr_Skipped = 0, pr_Initialized = 0, pr_MaxLag = 0 \<rparr>"

text \<open>
  The loop over the occurrences up to \<open>now\<close>, which keeps the newest \<open>maxOccurrences\<close>. Whether it
  ends depends on the cron package: \<open>None\<close> is a loop that does not return.
\<close>

partial_function (option) collect ::
    "(time \<Rightarrow> gerror + time) \<Rightarrow> time \<Rightarrow> nat \<Rightarrow> time \<Rightarrow> time list \<Rightarrow> nat
     \<Rightarrow> (gerror + time list \<times> nat \<times> time) option" where
  "collect nextOf now maxOccurrences occurrence occurrences skipped =
     (if IsZero occurrence \<or> After occurrence now then Some (Inr (occurrences, skipped, occurrence))
      else
        let (occurrences, skipped) =
              (if length occurrences = maxOccurrences then (tl occurrences @ [occurrence], skipped + 1)
               else (occurrences @ [occurrence], skipped)) in
        case nextOf occurrence of
          Inl err \<Rightarrow> Some (Inl err)
        | Inr next \<Rightarrow> collect nextOf now maxOccurrences next occurrences skipped)"

declare collect.simps [code]

definition diverges :: gerror where
  "diverges = new_error ''<does not return>''"

definition due :: "time \<Rightarrow> rule \<Rightarrow> bool" where
  "due now r \<longleftrightarrow> rule_Enabled r \<and> scheduled_kind (rule_Schedule r)
     \<and> (case rule_NextRunAt r of None \<Rightarrow> True | Some t \<Rightarrow> t \<le> now)"

text \<open>\<open>ORDER BY next_run_at ASC NULLS FIRST LIMIT n\<close>.\<close>

definition dueRules :: "time \<Rightarrow> nat \<Rightarrow> db \<Rightarrow> rule list" where
  "dueRules now n d = take n
     (filter (\<lambda>r. rule_NextRunAt r = None) (filter (due now) (t_rules d))
      @ sort_key (\<lambda>r. the (rule_NextRunAt r))
          (filter (\<lambda>r. rule_NextRunAt r \<noteq> None) (filter (due now) (t_rules d))))"

definition selectDue :: "time \<Rightarrow> nat \<Rightarrow> rule list act" where
  "selectDue now n w =
     (case stmt w of
        (Some err, w) \<Rightarrow> (Inl (wrap_error ''select due schedules'' err), w)
      | (None, w) \<Rightarrow> (Inr (dueRules now n (w_db w)), w))"

text \<open>An error wrapped by \<open>fmt.Errorf\<close> with \<open>%w\<close>, without the translation of \<open>e\<close>.\<close>

definition plainWrap :: "string \<Rightarrow> 'a act \<Rightarrow> 'a act" where
  "plainWrap m f w = (case f w of (Inl err, w) \<Rightarrow> (Inl (wrap_error m err), w) | (Inr a, w) \<Rightarrow> (Inr a, w))"

text \<open>\<open>INSERT ... ON CONFLICT (rule_id, rule_revision, scheduled_at) DO NOTHING\<close>: whether a row came.\<close>

definition sameOccurrence :: "uuid \<Rightarrow> int \<Rightarrow> time \<Rightarrow> evaluationJob \<Rightarrow> bool" where
  "sameOccurrence r revision at j \<longleftrightarrow> job_RuleID j = r \<and> job_RuleRevision j = revision \<and> job_ScheduledAt j = at"

definition insertJob :: "evaluationJob \<Rightarrow> bool act" where
  "insertJob j = execute (\<lambda>w. let d = w_db w in
     if \<not> job_chk j then Inl (constraintViolation ''evaluation_job_chk'')
     else if exists_row (sameOccurrence (job_RuleID j) (job_RuleRevision j) (job_ScheduledAt j)) (t_jobs d)
       then Inr (d, False)
     else if exists_row (\<lambda>x. job_ID x = job_ID j) (t_jobs d) then Inl uniqueViolation
     else if \<not> exists_row (\<lambda>r. rule_ID r = job_RuleID j) (t_rules d)
       then Inl (constraintViolation ''evaluation_job_rule_fk'')
     else Inr (d\<lparr> t_jobs := t_jobs d @ [j\<lparr> job_CreatedAt := w_dbnow w, job_UpdatedAt := w_dbnow w \<rparr>] \<rparr>, True))"

fun insertOccurrences :: "rule \<Rightarrow> time \<Rightarrow> time list \<Rightarrow> planResult \<Rightarrow> planResult act" where
  "insertOccurrences rule now [] res = returnA res"
| "insertOccurrences rule now (at # ats) res =
     bindA (tickA newUUID) (\<lambda>i.
     bindA (plainWrap ''insert scheduled job'' (insertJob
       \<lparr> job_ID = i, job_RuleID = rule_ID rule, job_RuleRevision = rule_Revision rule, job_ScheduledAt = at,
         job_Status = EvaluationJobPending, job_Attempts = 0, job_AvailableAt = now, job_LeaseUntil = None,
         job_ClaimToken = None, job_LastError = '''', job_CreatedAt = 0, job_UpdatedAt = 0 \<rparr>)) (\<lambda>inserted.
     insertOccurrences rule now ats
       (if inserted then res\<lparr> pr_JobsCreated := pr_JobsCreated res + 1 \<rparr> else res)))"

definition setCursor :: "string \<Rightarrow> uuid \<Rightarrow> time \<Rightarrow> nat act" where
  "setCursor m i t = plainWrap m (updateRules (\<lambda>r. rule_ID r = i) (\<lambda>r. r\<lparr> rule_NextRunAt := nullTime t \<rparr>))"

definition planRule :: "cron_parser \<Rightarrow> time \<Rightarrow> duration \<Rightarrow> nat \<Rightarrow> rule \<Rightarrow> planResult \<Rightarrow> planResult act" where
  "planRule parse now catchUpWindow maxOccurrences rule res =
     (let nextOf = Schedule_Next parse (rule_Schedule rule) in
      if rule_Schedule rule = None then returnA res
      else case rule_NextRunAt rule of
        None \<Rightarrow>
          bindA (ofSum (nextOf now)) (\<lambda>next.
          bindA (setCursor ''initialize schedule'' (rule_ID rule) next) (\<lambda>_.
          returnA (res\<lparr> pr_Initialized := pr_Initialized res + 1 \<rparr>)))
      | Some cursor \<Rightarrow>
          let res = (if pr_MaxLag res < now - cursor then res\<lparr> pr_MaxLag := now - cursor \<rparr> else res);
              cutoff = now - catchUpWindow in
          bindA (if Before cursor cutoff then
                   bindA (ofSum (nextOf (cutoff - 1))) (\<lambda>t. returnA (t, res\<lparr> pr_Skipped := pr_Skipped res + 1 \<rparr>))
                 else returnA (cursor, res)) (\<lambda>(occurrence, res).
          bindA (case collect nextOf now maxOccurrences occurrence [] (pr_Skipped res) of
                   None \<Rightarrow> failA diverges | Some r \<Rightarrow> ofSum r) (\<lambda>(occurrences, skipped, occurrence).
          bindA (insertOccurrences rule now occurrences (res\<lparr> pr_Skipped := skipped \<rparr>)) (\<lambda>res.
          bindA (setCursor ''advance schedule'' (rule_ID rule) occurrence) (\<lambda>_. returnA res)))))"

fun planRules :: "cron_parser \<Rightarrow> time \<Rightarrow> duration \<Rightarrow> nat \<Rightarrow> rule list \<Rightarrow> planResult \<Rightarrow> planResult act" where
  "planRules parse now catchUpWindow maxOccurrences [] res = returnA res"
| "planRules parse now catchUpWindow maxOccurrences (r # rs) res =
     bindA (planRule parse now catchUpWindow maxOccurrences r res) (\<lambda>res.
     planRules parse now catchUpWindow maxOccurrences rs res)"

definition positiveOr :: "int \<Rightarrow> int \<Rightarrow> int" where
  "positiveOr dflt n = (if n \<le> 0 then dflt else n)"

definition PlanScheduledJobs :: "cron_parser \<Rightarrow> duration \<Rightarrow> int \<Rightarrow> int \<Rightarrow> planResult act" where
  "PlanScheduledJobs parse catchUpWindow maxOccurrences batchSize =
     (let catchUpWindow = positiveOr (24 * hour) catchUpWindow;
          maxOccurrences = nat (positiveOr 100 maxOccurrences);
          batchSize = nat (positiveOr 100 batchSize) in
      inTx (
        bindA (plainWrap ''read database time'' selectNow) (\<lambda>now.
        bindA (selectDue now batchSize) (\<lambda>rules.
        planRules parse now catchUpWindow maxOccurrences rules
          (emptyPlan\<lparr> pr_RulesScanned := length rules \<rparr>)))))"

section \<open>Claims\<close>

record claimedJob =
  cj_Job :: evaluationJob
  cj_Reclaimed :: bool

definition claimable :: "time \<Rightarrow> evaluationJob \<Rightarrow> bool" where
  "claimable now j \<longleftrightarrow> (job_Status j = EvaluationJobPending \<and> job_AvailableAt j \<le> now)
     \<or> (job_Status j = EvaluationJobRunning \<and> (case job_LeaseUntil j of None \<Rightarrow> False | Some t \<Rightarrow> t < now))"

definition firstBy :: "('r \<Rightarrow> 'k::linorder) \<Rightarrow> 'r list \<Rightarrow> 'r option" where
  "firstBy key rs = (case sort_key key rs of [] \<Rightarrow> None | r # _ \<Rightarrow> Some r)"

definition selectClaimable :: "time \<Rightarrow> evaluationJob option act" where
  "selectClaimable now w =
     (case stmt w of
        (Some err, w) \<Rightarrow> (Inl err, w)
      | (None, w) \<Rightarrow> (case firstBy job_ScheduledAt (filter (claimable now) (t_jobs (w_db w))) of
            None \<Rightarrow> (Inl noRows, w) | Some j \<Rightarrow> (Inr (Some j), w)))"

definition claimWith :: "uuid \<Rightarrow> time \<Rightarrow> evaluationJob \<Rightarrow> evaluationJob" where
  "claimWith token leaseUntil j = j\<lparr> job_Status := EvaluationJobRunning, job_ClaimToken := Some token,
     job_LeaseUntil := Some leaseUntil \<rparr>"

definition claimRow :: "time \<Rightarrow> evaluationJob \<Rightarrow> claimedJob option act" where
  "claimRow leaseUntil job =
     bindA (tickA newUUID) (\<lambda>token.
     bindA (updateJobs (\<lambda>w j. job_ID j = job_ID job) (\<lambda>w. claimWith token leaseUntil)) (\<lambda>_.
     returnA (Some \<lparr> cj_Job = claimWith token leaseUntil job,
                     cj_Reclaimed = (job_Status job = EvaluationJobRunning) \<rparr>)))"

definition claimTx :: "duration \<Rightarrow> claimedJob option act" where
  "claimTx lease =
     bindA selectNow (\<lambda>now.
     catchA (selectClaimable now) (\<lambda>r.
     case r of
       Inl err \<Rightarrow> if errors_Is err ErrNotFound \<or> errors_Is (e_wrap ''claim job'' err) ErrNotFound
                  then returnA None else failA err
     | Inr None \<Rightarrow> returnA None
     | Inr (Some job) \<Rightarrow> claimRow (now + lease) job))"

definition ClaimEvaluationJob :: "duration \<Rightarrow> claimedJob option act" where
  "ClaimEvaluationJob lease = inTx (claimTx lease)"

definition holds :: "uuid \<Rightarrow> uuid \<Rightarrow> evaluationJob \<Rightarrow> bool" where
  "holds i token j \<longleftrightarrow> job_ID j = i \<and> job_Status j = EvaluationJobRunning \<and> job_ClaimToken j = Some token"

definition leased :: "world \<Rightarrow> evaluationJob \<Rightarrow> bool" where
  "leased w j = (case job_LeaseUntil j of None \<Rightarrow> False | Some t \<Rightarrow> w_dbnow w < t)"

definition Microseconds :: "duration \<Rightarrow> int" where
  "Microseconds d = (if d < 0 then - ((- d) div 1000) else d div 1000)"

definition interval_us :: "duration \<Rightarrow> duration" where
  "interval_us d = Microseconds d * 1000"

definition StartEvaluationJob :: "uuid \<Rightarrow> uuid \<Rightarrow> int act" where
  "StartEvaluationJob i token =
     catchA (updateJobs (\<lambda>w j. holds i token j \<and> leased w j) (\<lambda>w j. j\<lparr> job_Attempts := job_Attempts j + 1 \<rparr>)) (\<lambda>r.
     let r = (case r of Inl err \<Rightarrow> Inl err | Inr [] \<Rightarrow> Inl noRows | Inr (j # _) \<Rightarrow> Inr (job_Attempts j)) in
     case r of
       Inl err \<Rightarrow> (let normalized = e_wrap ''start evaluation job'' err in
                   if errors_Is normalized ErrNotFound then failA (sent ErrStaleClaim) else failA normalized)
     | Inr attempts \<Rightarrow> returnA attempts)"

text \<open>The statements that report a lost claim when they touch no row.\<close>

definition claimedUpdate :: "(world \<Rightarrow> evaluationJob \<Rightarrow> bool) \<Rightarrow> (world \<Rightarrow> evaluationJob \<Rightarrow> evaluationJob) \<Rightarrow> unit act" where
  "claimedUpdate p f = bindA (updateJobs p f) (\<lambda>js. if js = [] then failA (sent ErrStaleClaim) else returnA ())"

definition HeartbeatEvaluationJob :: "uuid \<Rightarrow> uuid \<Rightarrow> duration \<Rightarrow> unit act" where
  "HeartbeatEvaluationJob i token lease =
     claimedUpdate (\<lambda>w j. holds i token j \<and> leased w j)
       (\<lambda>w j. j\<lparr> job_LeaseUntil := Some (w_dbnow w + interval_us lease) \<rparr>)"

definition ReleaseEvaluationJob :: "uuid \<Rightarrow> uuid \<Rightarrow> duration \<Rightarrow> unit act" where
  "ReleaseEvaluationJob i token delay =
     claimedUpdate (\<lambda>w. holds i token)
       (\<lambda>w j. j\<lparr> job_Status := EvaluationJobPending, job_AvailableAt := w_dbnow w + interval_us delay,
                job_ClaimToken := None, job_LeaseUntil := None \<rparr>)"

definition FailEvaluationJob :: "uuid \<Rightarrow> uuid \<Rightarrow> int \<Rightarrow> int \<Rightarrow> duration \<Rightarrow> gerror \<Rightarrow> unit act" where
  "FailEvaluationJob i token attempts maxAttempts retryAfter cause =
     (let status = (if maxAttempts \<le> attempts then EvaluationJobFailed else EvaluationJobPending) in
      claimedUpdate (\<lambda>w. holds i token)
        (\<lambda>w j. (j\<lparr> job_Status := status, job_Attempts := max (job_Attempts j) attempts, job_LastError := msg cause,
                  job_ClaimToken := None, job_LeaseUntil := None \<rparr>)
               \<lparr> job_AvailableAt := (if status = EvaluationJobPending then w_dbnow w + interval_us retryAfter
                                    else job_AvailableAt j) \<rparr>))"

definition AssertEvaluationJobClaim :: "evaluationJob \<Rightarrow> unit act" where
  "AssertEvaluationJobClaim job =
     bindA (wrapA ''load evaluation job claim'' (selectOne t_jobs (\<lambda>j. job_ID j = job_ID job))) (\<lambda>current.
     if job_Status current \<noteq> EvaluationJobRunning \<or> job_ClaimToken current = None \<or> job_ClaimToken job = None
          \<or> job_ClaimToken current \<noteq> job_ClaimToken job
     then failA (sent ErrStaleClaim)
     else
       bindA (plainWrap ''read database time for evaluation claim'' selectNow) (\<lambda>now.
       if (case job_LeaseUntil current of None \<Rightarrow> True | Some t \<Rightarrow> \<not> After t now) then failA (sent ErrStaleClaim)
       else
         bindA (wrapA ''load rule revision'' (selectOne t_rules (\<lambda>r. rule_ID r = job_RuleID job))) (\<lambda>r.
         if \<not> rule_Enabled r \<or> rule_Revision r \<noteq> job_RuleRevision job then failA (sent ErrObsoleteJob)
         else returnA ())))"

definition CompleteEvaluationJob :: "uuid \<Rightarrow> uuid \<Rightarrow> unit act" where
  "CompleteEvaluationJob i token =
     claimedUpdate (\<lambda>w. holds i token)
       (\<lambda>w j. j\<lparr> job_Status := EvaluationJobSucceeded, job_ClaimToken := None, job_LeaseUntil := None,
                job_LastError := '''' \<rparr>)"

definition CancelEvaluationJob :: "uuid \<Rightarrow> uuid \<Rightarrow> string \<Rightarrow> unit act" where
  "CancelEvaluationJob i token cause =
     bindA (updateJobs (\<lambda>w j. job_ID j = i \<and> job_ClaimToken j = Some token)
       (\<lambda>w j. j\<lparr> job_Status := EvaluationJobCancelled, job_LastError := cause, job_ClaimToken := None,
                job_LeaseUntil := None \<rparr>)) (\<lambda>_. returnA ())"

definition terminal_status :: "evaluationJobStatus \<Rightarrow> bool" where
  "terminal_status s \<longleftrightarrow> s = EvaluationJobSucceeded \<or> s = EvaluationJobFailed \<or> s = EvaluationJobCancelled"

definition DeleteTerminalEvaluationJobs :: "duration \<Rightarrow> nat act" where
  "DeleteTerminalEvaluationJobs retention = execute (\<lambda>w. let d = w_db w;
     old = (\<lambda>j. terminal_status (job_Status j) \<and> job_UpdatedAt j < w_dbnow w - interval_us retention) in
     Inr (d\<lparr> t_jobs := filter (\<lambda>j. \<not> old j) (t_jobs d) \<rparr>, length (filter old (t_jobs d))))"

definition CountEvaluationJobsByStatus :: "(evaluationJobStatus \<times> nat) list act" where
  "CountEvaluationJobsByStatus =
     bindA (selectMany t_jobs (\<lambda>j. \<not> (job_Status j = EvaluationJobSucceeded \<or> job_Status j = EvaluationJobCancelled))) (\<lambda>js.
     returnA (filter (\<lambda>(s, n). n \<noteq> 0) (map (\<lambda>s. (s, length (filter (\<lambda>j. job_Status j = s) js)))
       [EvaluationJobPending, EvaluationJobRunning, EvaluationJobFailed])))"

end
