(* ===== verification/Runner.thy ===== *)
theory Runner
  imports Registry AlertStore JobStore
begin

text \<open>
  The evaluation of a rule, \<open>internal/reconciliation/runner.go\<close>: a trigger takes the rule's lock,
  loads the rule, runs its template on the sources and, in one transaction, fences the revision or
  the claim, stores the evaluation and drives the alerts. The \<open>Store\<close> interface is a record of
  its methods; the type assertions of the code (\<open>TryWithRuleLock\<close>, \<open>RunInTx\<close>, the job methods) hold
  for the production store, the only one modelled. What the alert methods promise the runner is
  the locale \<open>alert_store\<close>.
\<close>

section \<open>The store interface\<close>

record store =
  st_GetRule :: "uuid \<Rightarrow> rule act"
  st_AssertRuleRevision :: "uuid \<Rightarrow> int \<Rightarrow> unit act"
  st_CreateEvaluation :: "evaluation \<Rightarrow> evaluation act"
  st_OpenOrUpdateAlert :: "openAlertInput \<Rightarrow> openAlertResult act"
  st_AutoResolveAlert :: "uuid \<Rightarrow> string \<Rightarrow> string \<Rightarrow> uuid \<Rightarrow> time \<Rightarrow> alert option act"
  st_ListActiveAlertFingerprints :: "uuid \<Rightarrow> string \<Rightarrow> string list act"
  st_StartEvaluationJob :: "uuid \<Rightarrow> uuid \<Rightarrow> int act"
  st_AssertEvaluationJobClaim :: "evaluationJob \<Rightarrow> unit act"
  st_CompleteEvaluationJob :: "uuid \<Rightarrow> uuid \<Rightarrow> unit act"

definition sqlStore :: store where
  "sqlStore = \<lparr> st_GetRule = GetRule, st_AssertRuleRevision = AssertRuleRevision,
     st_CreateEvaluation = CreateEvaluation, st_OpenOrUpdateAlert = OpenOrUpdateAlert,
     st_AutoResolveAlert = AutoResolveAlert, st_ListActiveAlertFingerprints = ListActiveAlertFingerprints,
     st_StartEvaluationJob = StartEvaluationJob, st_AssertEvaluationJobClaim = AssertEvaluationJobClaim,
     st_CompleteEvaluationJob = CompleteEvaluationJob \<rparr>"

lemma sqlStore_simps [simp]:
  "st_GetRule sqlStore = GetRule" "st_AssertRuleRevision sqlStore = AssertRuleRevision"
  "st_CreateEvaluation sqlStore = CreateEvaluation" "st_OpenOrUpdateAlert sqlStore = OpenOrUpdateAlert"
  "st_AutoResolveAlert sqlStore = AutoResolveAlert"
  "st_ListActiveAlertFingerprints sqlStore = ListActiveAlertFingerprints"
  "st_StartEvaluationJob sqlStore = StartEvaluationJob"
  "st_AssertEvaluationJobClaim sqlStore = AssertEvaluationJobClaim"
  "st_CompleteEvaluationJob sqlStore = CompleteEvaluationJob"
  by (simp_all add: sqlStore_def)

abbreviation EngineErrorFingerprint :: string where "EngineErrorFingerprint \<equiv> ''engine.error''"

record evaluateRequest =
  rq_PIT :: time
  rq_SafetyMargin :: duration
  rq_SourcePITs :: "(string \<times> time) list"

text \<open>
  The runner and the request's context: \<open>rn_ctx\<close> is what the evaluation context answers to the
  kernel, \<open>rn_cancelled\<close> what the caller's context answers once the template has returned.
\<close>

record runner =
  rn_engine :: "engine option"
  rn_templates :: "registry option"
  rn_resolvers :: resolvers
  rn_ctx :: ctx
  rn_cancelled :: "gerror option"

section \<open>Evidence\<close>

definition outcome_json :: "outcome \<Rightarrow> string" where
  "outcome_json oc = encode_fields (
     [(''fingerprint'', quoted (oc_Fingerprint oc)), (''passed'', FormatBool (oc_Passed oc))]
     @ (if oc_Passed oc then
          (if oc_Proof oc = [] then [] else [(''proof'', marshal (JObj (map (\<lambda>(k, v). (k, JStr v)) (oc_Proof oc))))])
        else
          (if oc_Evidence oc = [] then [] else [(''evidence'', marshal (JObj (oc_Evidence oc)))])))"

definition marshalOutcomes :: "outcome list \<Rightarrow> rawJSON" where
  "marshalOutcomes outcomes =
     (if outcomes = [] then ''[]'' else ''['' @ join '','' (map outcome_json outcomes) @ '']'')"

definition marshalErrorEvidence :: "gerror \<Rightarrow> rawJSON" where
  "marshalErrorEvidence err = marshal (JObj [(''error'', JStr (msg err))])"

section \<open>Alerts\<close>

definition driveOutcome :: "store \<Rightarrow> rule \<Rightarrow> uuid \<Rightarrow> string \<Rightarrow> time \<Rightarrow> outcome \<Rightarrow> unit act" where
  "driveOutcome S rule evaluationID periodID ended outcome =
     (if oc_Passed outcome then
        bindA (st_AutoResolveAlert S (rule_ID rule) (oc_Fingerprint outcome) periodID evaluationID ended)
          (\<lambda>_. returnA ())
      else
        bindA (st_OpenOrUpdateAlert S
          \<lparr> oi_RuleID = rule_ID rule, oi_Fingerprint = oc_Fingerprint outcome, oi_PeriodID = periodID,
            oi_Severity = rule_Severity rule, oi_EvaluationID = evaluationID,
            oi_Evidence = marshal (JObj (oc_Evidence outcome)), oi_Labels = rule_Labels rule,
            oi_OccurredAt = ended \<rparr>)
          (\<lambda>_. returnA ()))"

fun driveOutcomes :: "store \<Rightarrow> rule \<Rightarrow> uuid \<Rightarrow> string \<Rightarrow> time \<Rightarrow> outcome list \<Rightarrow> unit act" where
  "driveOutcomes S rule evaluationID periodID ended [] = returnA ()"
| "driveOutcomes S rule evaluationID periodID ended (oc # ocs) =
     bindA (driveOutcome S rule evaluationID periodID ended oc) (\<lambda>_.
     driveOutcomes S rule evaluationID periodID ended ocs)"

fun sweep :: "store \<Rightarrow> rule \<Rightarrow> uuid \<Rightarrow> string \<Rightarrow> time \<Rightarrow> string list \<Rightarrow> string list \<Rightarrow> unit act" where
  "sweep S rule evaluationID periodID ended seen [] = returnA ()"
| "sweep S rule evaluationID periodID ended seen (fp # fps) =
     (if fp \<in> set seen then sweep S rule evaluationID periodID ended seen fps
      else
        bindA (st_AutoResolveAlert S (rule_ID rule) fp periodID evaluationID ended) (\<lambda>_.
        sweep S rule evaluationID periodID ended seen fps))"

definition driveAlerts :: "store \<Rightarrow> rule \<Rightarrow> uuid \<Rightarrow> outcome list \<Rightarrow> string \<Rightarrow> time \<Rightarrow> unit act" where
  "driveAlerts S rule evaluationID outcomes periodID ended =
     bindA (driveOutcomes S rule evaluationID periodID ended outcomes) (\<lambda>_.
     bindA (st_ListActiveAlertFingerprints S (rule_ID rule) periodID) (\<lambda>active.
     sweep S rule evaluationID periodID ended (map oc_Fingerprint outcomes) active))"

definition openEngineErrorAlert :: "store \<Rightarrow> rule \<Rightarrow> evaluation \<Rightarrow> gerror \<Rightarrow> alert act" where
  "openEngineErrorAlert S rule evaluation evalErr =
     bindA (st_OpenOrUpdateAlert S
       \<lparr> oi_RuleID = rule_ID rule, oi_Fingerprint = EngineErrorFingerprint, oi_PeriodID = ContinuousPeriod,
         oi_Severity = SeverityHigh, oi_EvaluationID = eval_ID evaluation,
         oi_Evidence = marshalErrorEvidence evalErr,
         oi_Labels = map_put ''kind'' EngineErrorFingerprint (rule_Labels rule),
         oi_OccurredAt = eval_EndedAt evaluation \<rparr>) (\<lambda>result.
     returnA (or_Alert result))"

section \<open>The run\<close>

definition evaluateTemplate ::
  "runner \<Rightarrow> engine \<Rightarrow> evaluator \<Rightarrow> rule \<Rightarrow> evalInput \<Rightarrow> world \<Rightarrow> templateAnswer \<times> world" where
  "evaluateTemplate R eng T rule inp w =
     (tm_Evaluate T (rn_ctx R) (\<lambda>n. w_clock w (w_ticks w + n)) (rule_TemplateSpec rule) eng (rn_resolvers R) inp,
      w\<lparr> w_ticks := w_ticks w + 2 \<rparr>)"

definition newEvaluation ::
  "rule \<Rightarrow> uuid \<Rightarrow> time \<Rightarrow> time \<Rightarrow> evaluationJob option \<Rightarrow> templateAnswer \<Rightarrow> evaluation" where
  "newEvaluation rule i started ended completion answer =
     (let (result, evalErr) = answer;
          outcomes = (case result of None \<Rightarrow> [] | Some r \<Rightarrow> er_Outcomes r) in
      \<lparr> eval_ID = i, eval_RuleID = rule_ID rule, eval_StartedAt = started, eval_EndedAt = ended,
        eval_PitPerSource = (case result of None \<Rightarrow> [] | Some r \<Rightarrow> er_PitPerSource r),
        eval_Result = (if evalErr \<noteq> None then EvaluationError
                       else if list_ex (\<lambda>oc. \<not> oc_Passed oc) outcomes then EvaluationFail else EvaluationPass),
        eval_Evidence = (case evalErr of Some err \<Rightarrow> marshalErrorEvidence err | None \<Rightarrow> marshalOutcomes outcomes),
        eval_Error = (case evalErr of Some err \<Rightarrow> msg err | None \<Rightarrow> ''''),
        eval_CostUnits = (case result of None \<Rightarrow> 0 | Some r \<Rightarrow> er_CostUnits r),
        eval_ScheduledAt = map_option job_ScheduledAt completion,
        eval_RuleRevision = map_option job_RuleRevision completion, eval_CreatedAt = 0 \<rparr>)"

text \<open>
  The closure \<open>run\<close> commits: the fence, the evaluation, the alerts, the completion of the job.
\<close>

definition fenceRun :: "store \<Rightarrow> rule \<Rightarrow> evaluationJob option \<Rightarrow> unit act" where
  "fenceRun S rule completion =
     (case completion of
        Some job \<Rightarrow> st_AssertEvaluationJobClaim S job
      | None \<Rightarrow>
          catchA (st_AssertRuleRevision S (rule_ID rule) (rule_Revision rule)) (\<lambda>r.
          case r of
            Inr _ \<Rightarrow> returnA ()
          | Inl err \<Rightarrow>
              if errors_Is err ErrObsoleteJob
              then failA (errorf ErrRuleChanged ''rule was revised or disabled'') else failA err))"

definition alertRun :: "store \<Rightarrow> rule \<Rightarrow> string \<Rightarrow> time \<Rightarrow> templateAnswer \<Rightarrow> evaluation \<Rightarrow> unit act" where
  "alertRun S rule periodID ended answer evaluation =
     (case snd answer of
        Some evalErr \<Rightarrow> bindA (openEngineErrorAlert S rule evaluation evalErr) (\<lambda>_. returnA ())
      | None \<Rightarrow>
          bindA (driveAlerts S rule (eval_ID evaluation)
                   (case fst answer of None \<Rightarrow> [] | Some r \<Rightarrow> er_Outcomes r) periodID ended) (\<lambda>_.
          bindA (plainWrap ''auto-resolve engine.error'' (st_AutoResolveAlert S (rule_ID rule)
                   EngineErrorFingerprint ContinuousPeriod (eval_ID evaluation) ended)) (\<lambda>_.
          returnA ())))"

definition completeRun :: "store \<Rightarrow> evaluationJob option \<Rightarrow> unit act" where
  "completeRun S completion =
     (case completion of
        Some job \<Rightarrow> st_CompleteEvaluationJob S (job_ID job) (the (job_ClaimToken job))
      | None \<Rightarrow> returnA ())"

definition commitRun ::
  "store \<Rightarrow> rule \<Rightarrow> evaluationJob option \<Rightarrow> string \<Rightarrow> time \<Rightarrow> templateAnswer \<Rightarrow> evaluation \<Rightarrow> evaluation act" where
  "commitRun S rule completion periodID ended answer evaluation =
     bindA (fenceRun S rule completion) (\<lambda>_.
     bindA (st_CreateEvaluation S evaluation) (\<lambda>evaluation.
     bindA (alertRun S rule periodID ended answer evaluation) (\<lambda>_.
     bindA (completeRun S completion) (\<lambda>_.
     returnA evaluation))))"

definition run ::
  "runner \<Rightarrow> engine \<Rightarrow> store \<Rightarrow> rule \<Rightarrow> evaluator \<Rightarrow> evaluateRequest \<Rightarrow> evaluationJob option \<Rightarrow> evaluation act" where
  "run R eng S rule T req completion =
     bindA (if IsZero (rq_PIT req) then tickA goNow else returnA (rq_PIT req)) (\<lambda>pit.
     bindA (tickA goNow) (\<lambda>started.
     bindA (tickA (evaluateTemplate R eng T rule
        \<lparr> PIT = pit, PITExplicit = (\<not> IsZero (rq_PIT req)), SourcePITs = rq_SourcePITs req,
          in_SafetyMargin = rq_SafetyMargin req \<rparr>)) (\<lambda>answer.
     bindA (tickA goNow) (\<lambda>ended.
     case rn_cancelled R of
       Some err \<Rightarrow> failA err
     | None \<Rightarrow>
         bindA (tickA newUUID) (\<lambda>i.
         RunInTx (commitRun S rule completion (PeriodID (rule_PeriodType rule) (pit - rq_SafetyMargin req)) ended answer
           (newEvaluation rule i started ended completion answer)))))))"

section \<open>Triggers\<close>

definition loadRule ::
  "runner \<Rightarrow> store \<Rightarrow> uuid \<Rightarrow> int option \<Rightarrow> (engine \<times> rule \<times> evaluator) act" where
  "loadRule R S i expectedRevision =
     (case (rn_engine R, rn_templates R) of
        (Some eng, Some templates) \<Rightarrow>
          bindA (st_GetRule S i) (\<lambda>rule.
          if \<not> rule_Enabled rule then
            failA (if expectedRevision \<noteq> None then sent ErrObsoleteJob else errorf ErrValidation ''rule is disabled'')
          else if expectedRevision \<noteq> None \<and> expectedRevision \<noteq> Some (rule_Revision rule)
          then failA (sent ErrObsoleteJob)
          else bindA (ofSum (Registry_Get templates (rule_TemplateKind rule))) (\<lambda>T. returnA (eng, rule, T)))
      | _ \<Rightarrow> failA (new_error ''reconciliation runner requires engine and templates''))"

definition validateSourcePITs :: "evaluator \<Rightarrow> rule \<Rightarrow> (string \<times> time) list \<Rightarrow> gerror option" where
  "validateSourcePITs T rule overrides =
     (if overrides = [] then None
      else case tm_SourceKeys T (rule_TemplateSpec rule) of
        Inl err \<Rightarrow> Some err
      | Inr keys \<Rightarrow>
          (case filter (\<lambda>(key, _). key \<notin> set keys) overrides of
             [] \<Rightarrow> None
           | (key, _) # _ \<Rightarrow> Some (errorf ErrValidation
               (''sourcePITs: unknown source key '' @ Quote key @ '' for template '' @ rule_TemplateKind rule))))"

definition manualBody :: "runner \<Rightarrow> store \<Rightarrow> uuid \<Rightarrow> evaluateRequest \<Rightarrow> evaluation act" where
  "manualBody R S ruleID req =
     bindA (loadRule R S ruleID None) (\<lambda>(eng, rule, T).
     case validateSourcePITs T rule (rq_SourcePITs req) of
       Some err \<Rightarrow> failA err
     | None \<Rightarrow> run R eng S rule T req None)"

definition Evaluate_rule :: "runner \<Rightarrow> store \<Rightarrow> uuid \<Rightarrow> evaluateRequest \<Rightarrow> evaluation act" where
  "Evaluate_rule R S ruleID req =
     (if rq_SourcePITs req \<noteq> [] \<and> IsZero (rq_PIT req)
      then failA (errorf ErrValidation ''at is required when sourcePITs are provided'')
      else
        bindA (TryWithRuleLock ruleID (manualBody R S ruleID req)) (\<lambda>r.
        case r of None \<Rightarrow> failA (sent ErrRuleBusy) | Some evaluation \<Rightarrow> returnA evaluation))"

definition schedule_margin :: "rule \<Rightarrow> duration" where
  "schedule_margin rule =
     (case rule_Schedule rule of
        None \<Rightarrow> 30 * second
      | Some s \<Rightarrow> if SafetyMarginWasProvided s \<or> SafetyMargin s \<noteq> 0 then SafetyMargin s else 30 * second)"

text \<open>The closure under the lock: it reports the attempt it started along with its outcome.\<close>

definition scheduledBody :: "runner \<Rightarrow> store \<Rightarrow> evaluationJob \<Rightarrow> ((gerror + evaluation) \<times> int) act" where
  "scheduledBody R S job =
     catchA (st_StartEvaluationJob S (job_ID job) (the (job_ClaimToken job))) (\<lambda>r.
     case r of
       Inl err \<Rightarrow> returnA (Inl err, 0)
     | Inr attempts \<Rightarrow>
         catchA
           (bindA (loadRule R S (job_RuleID job) (Some (job_RuleRevision job))) (\<lambda>(eng, rule, T).
            run R eng S rule T
              \<lparr> rq_PIT = job_ScheduledAt job, rq_SafetyMargin = schedule_margin rule, rq_SourcePITs = [] \<rparr> (Some job)))
           (\<lambda>r. returnA (r, attempts)))"

definition EvaluateScheduled :: "runner \<Rightarrow> store \<Rightarrow> evaluationJob \<Rightarrow> world \<Rightarrow> ((gerror + evaluation) \<times> int) \<times> world" where
  "EvaluateScheduled R S job w =
     (if job_ClaimToken job = None then ((Inl (sent ErrStaleClaim), 0), w)
      else case TryWithRuleLock (job_RuleID job) (scheduledBody R S job) w of
        (Inl err, w) \<Rightarrow> ((Inl err, 0), w)
      | (Inr None, w) \<Rightarrow> ((Inl (sent ErrRuleBusy), 0), w)
      | (Inr (Some q), w) \<Rightarrow> (q, w))"

section \<open>What the runner relies on\<close>

text \<open>The fingerprints of a rule and period with an active alert, after a change to one such set.\<close>

type_synonym actives = "uuid \<Rightarrow> string \<Rightarrow> string set"

definition set_active :: "uuid \<Rightarrow> string \<Rightarrow> (string set \<Rightarrow> string set) \<Rightarrow> actives \<Rightarrow> actives" where
  "set_active r p f A = (\<lambda>r' p'. if r' = r \<and> p' = p then f (A r' p') else A r' p')"

lemma set_active_comp: "set_active r p f (set_active r p g A) = set_active r p (\<lambda>F. f (g F)) A"
  by (simp add: set_active_def fun_eq_iff)

lemma set_active_cong: "f (A r p) = g (A r p) \<Longrightarrow> set_active r p f A = set_active r p g A"
  by (auto simp: set_active_def fun_eq_iff)

lemma set_active_id: "set_active r p (\<lambda>F. F) A = A"
  by (simp add: set_active_def fun_eq_iff)

text \<open>The fingerprints whose last outcome failed.\<close>

definition after_outcome :: "string set \<Rightarrow> outcome \<Rightarrow> string set" where
  "after_outcome F oc = (if oc_Passed oc then F - {oc_Fingerprint oc} else insert (oc_Fingerprint oc) F)"

definition failing :: "outcome list \<Rightarrow> string set" where
  "failing outcomes = foldl after_outcome {} outcomes"

lemma foldl_after: "foldl after_outcome A ocs = failing ocs \<union> (A - set (map oc_Fingerprint ocs))"
proof (induction ocs arbitrary: A rule: rev_induct)
  case (snoc oc ocs)
  then show ?case by (auto simp: failing_def after_outcome_def)
qed (simp add: failing_def)

lemma failing_subset: "failing ocs \<subseteq> set (map oc_Fingerprint ocs)"
  by (induction ocs rule: rev_induct) (auto simp: failing_def after_outcome_def)

lemma failing_iff:
  assumes "distinct (map oc_Fingerprint ocs)"
  shows "failing ocs = {oc_Fingerprint oc | oc. oc \<in> set ocs \<and> \<not> oc_Passed oc}"
  using assms by (induction ocs rule: rev_induct) (auto simp: failing_def after_outcome_def image_iff)

text \<open>
  The contract of the alert methods, on the worlds they are used in: opening and resolving change
  the set of active fingerprints of one rule and period, listing reads it.
\<close>

locale alert_store =
  fixes S :: store and good :: "world \<Rightarrow> bool" and activeOf :: "db \<Rightarrow> actives"
  assumes opens: "good w \<Longrightarrow> st_OpenOrUpdateAlert S inp w = (Inr x, w') \<Longrightarrow>
      good w' \<and> activeOf (w_db w') = set_active (oi_RuleID inp) (periodOr (oi_PeriodID inp))
        (insert (oi_Fingerprint inp)) (activeOf (w_db w))"
    and resolves: "good w \<Longrightarrow> st_AutoResolveAlert S r fp p i at w = (Inr y, w') \<Longrightarrow>
      good w' \<and> activeOf (w_db w') = set_active r (periodOr p) (\<lambda>F. F - {fp}) (activeOf (w_db w))"
    and lists: "good w \<Longrightarrow> st_ListActiveAlertFingerprints S r p w = (Inr fps, w') \<Longrightarrow>
      good w' \<and> w_db w' = w_db w \<and> set fps = activeOf (w_db w) r (periodOr p)"
begin

lemma driveOutcome_active:
  assumes "good w" and "driveOutcome S rule i p at oc w = (Inr u, w')"
  shows "good w' \<and> activeOf (w_db w') = set_active (rule_ID rule) (periodOr p) (\<lambda>F. after_outcome F oc) (activeOf (w_db w))"
proof (cases "oc_Passed oc")
  case True
  then obtain y where "st_AutoResolveAlert S (rule_ID rule) (oc_Fingerprint oc) p i at w = (Inr y, w')"
    using assms(2) by (auto simp: driveOutcome_def act_dest)
  from resolves [OF assms(1) this] True show ?thesis by (simp add: after_outcome_def)
next
  case False
  then obtain x inp where "st_OpenOrUpdateAlert S inp w = (Inr x, w')" "oi_RuleID inp = rule_ID rule"
      "oi_PeriodID inp = p" "oi_Fingerprint inp = oc_Fingerprint oc"
    using assms(2) by (auto simp: driveOutcome_def act_dest)
  with opens [OF assms(1) this(1)] False show ?thesis by (simp add: after_outcome_def)
qed

lemma driveOutcomes_active:
  "good w \<Longrightarrow> driveOutcomes S rule i p at ocs w = (Inr u, w') \<Longrightarrow>
    good w' \<and> activeOf (w_db w') = set_active (rule_ID rule) (periodOr p) (\<lambda>F. foldl after_outcome F ocs) (activeOf (w_db w))"
proof (induction ocs arbitrary: w)
  case (Cons oc ocs)
  from Cons.prems(2) obtain v w1 where one: "driveOutcome S rule i p at oc w = (Inr v, w1)"
    and rest: "driveOutcomes S rule i p at ocs w1 = (Inr u, w')" by (auto simp: act_dest)
  from driveOutcome_active [OF Cons.prems(1) one] Cons.IH [OF _ rest] show ?case by (simp add: set_active_comp)
qed (simp add: set_active_id)

lemma sweep_active:
  "good w \<Longrightarrow> sweep S rule i p at seen fps w = (Inr u, w') \<Longrightarrow>
    good w' \<and> activeOf (w_db w') = set_active (rule_ID rule) (periodOr p) (\<lambda>F. F - (set fps - set seen)) (activeOf (w_db w))"
proof (induction fps arbitrary: w)
  case (Cons fp fps)
  show ?case
  proof (cases "fp \<in> set seen")
    case True
    then show ?thesis using Cons by (simp add: insert_Diff_if)
  next
    case False
    then obtain y w1 where one: "st_AutoResolveAlert S (rule_ID rule) fp p i at w = (Inr y, w1)"
      and rest: "sweep S rule i p at seen fps w1 = (Inr u, w')" using Cons.prems(2) by (auto simp: act_dest)
    have "(\<lambda>F :: string set. F - {fp} - (set fps - set seen)) = (\<lambda>F. F - (set (fp # fps) - set seen))"
      using False by auto
    with resolves [OF Cons.prems(1) one] Cons.IH [OF _ rest] show ?thesis by (simp add: set_active_comp)
  qed
qed (simp add: set_active_id)

text \<open>After the alerts are driven, the active fingerprints of the rule and period are the failing ones.\<close>

lemma driveAlerts_active:
  assumes "good w" and "driveAlerts S rule i ocs p at w = (Inr u, w')"
  shows "good w' \<and> activeOf (w_db w') = set_active (rule_ID rule) (periodOr p) (\<lambda>_. failing ocs) (activeOf (w_db w))"
proof -
  let ?r = "rule_ID rule" and ?p = "periodOr p"
  from assms(2) obtain v w1 fps w2 where
    out: "driveOutcomes S rule i p at ocs w = (Inr v, w1)"
    and list: "st_ListActiveAlertFingerprints S ?r p w1 = (Inr fps, w2)"
    and sw: "sweep S rule i p at (map oc_Fingerprint ocs) fps w2 = (Inr u, w')"
    by (auto simp: driveAlerts_def act_dest)
  have 1: "good w1" "activeOf (w_db w1) = set_active ?r ?p (\<lambda>F. foldl after_outcome F ocs) (activeOf (w_db w))"
    using driveOutcomes_active [OF assms(1) out] by blast+
  have 2: "good w2" "w_db w2 = w_db w1" "set fps = activeOf (w_db w1) ?r ?p"
    using lists [OF 1(1) list] by blast+
  have fps: "set fps = failing ocs \<union> (activeOf (w_db w) ?r ?p - set (map oc_Fingerprint ocs))"
    unfolding 2(3) 1(2) set_active_def by (simp add: foldl_after)
  have "activeOf (w_db w') = set_active ?r ?p (\<lambda>F. foldl after_outcome F ocs - (set fps - set (map oc_Fingerprint ocs)))
      (activeOf (w_db w))"
    using sweep_active [OF 2(1) sw] unfolding 2(2) 1(2) by (simp add: set_active_comp)
  also have "\<dots> = set_active ?r ?p (\<lambda>_. failing ocs) (activeOf (w_db w))"
    by (rule set_active_cong) (use failing_subset [of ocs] in \<open>auto simp: foldl_after fps\<close>)
  finally show ?thesis using sweep_active [OF 2(1) sw] by blast
qed

end

section \<open>Replay instants\<close>

lemma validated_keys:
  assumes "validateSourcePITs T rule overrides = None" and "map_of overrides k = Some t"
    and "tm_SourceKeys T (rule_TemplateSpec rule) = Inr keys"
  shows "k \<in> set keys"
proof -
  have "(k, t) \<in> set overrides" using assms(2) by (rule map_of_SomeD)
  moreover from this have "filter (\<lambda>(key, _). key \<notin> set keys) overrides = []"
    using assms(1,3) by (auto simp: validateSourcePITs_def split: if_splits list.splits prod.splits)
  ultimately show ?thesis by (auto simp: filter_empty_conv)
qed


definition parityRule :: rule where
  "parityRule = \<lparr> rule_ID = 3, rule_Name = ''r'', rule_TemplateKind = TemplateSourceParity,
     rule_TemplateSpec = parity_example_raw, rule_ExplanationCEL = '''', rule_Enabled = True,
     rule_Severity = SeverityHigh, rule_PeriodType = PeriodTypeContinuous,
     rule_Schedule = Some \<lparr> Kind = ScheduleCron, Expr = ''* * * * *'', TZ = '''', SafetyMargin = 0,
       SafetyMarginWasProvided = False \<rparr>,
     rule_Notifications = [], rule_Labels = [], rule_Revision = 4, rule_NextRunAt = Some 1990, rule_CreatedAt = 1,
     rule_UpdatedAt = 1 \<rparr>"


end
