(* ===== verification/AlertLifecycle.thy ===== *)
theory AlertLifecycle
  imports AlertStore
begin

text \<open>
  What the operations of \<open>AlertStore\<close> promise. Each is one atomic step of an abstract lifecycle:
  a row opened or moved together with the one event it appends, and a message exactly when that
  event notifies. Hence the log of every alert replays to the state of its row, whatever the
  sequence of operations and failures.
\<close>

section \<open>The lifecycle the operations implement\<close>

text \<open>Which event may take an alert from a status (none before its first failure) to another.\<close>

definition lifecycle :: "alertStatus option \<Rightarrow> alertEventType \<Rightarrow> alertStatus \<Rightarrow> bool" where
  "lifecycle prev ty next =
     (case prev of
        None \<Rightarrow> ty = AlertEventFail \<and> next = AlertOpen
      | Some s \<Rightarrow>
          (case ty of
             AlertEventFail \<Rightarrow> next = AlertOpen
           | AlertEventPass \<Rightarrow> s \<noteq> AlertResolved \<and> next = AlertResolved
           | AlertEventAck \<Rightarrow> s = AlertOpen \<and> next = AlertAcknowledged
           | AlertEventResolve \<Rightarrow> s \<noteq> AlertResolved \<and> next = AlertResolved
           | AlertEventAccept \<Rightarrow> s \<noteq> AlertResolved \<and> next = AlertResolved
           | AlertEventSnooze \<Rightarrow> s \<noteq> AlertResolved \<and> next = s
           | AlertEventUnsnooze \<Rightarrow> next = s
           | AlertEventOther _ \<Rightarrow> False))"

definition sameIdentity :: "alert \<Rightarrow> alert \<Rightarrow> bool" where
  "sameIdentity a b \<longleftrightarrow> alert_ID a = alert_ID b
     \<and> sameCase (alert_RuleID b) (alert_Fingerprint b) (alert_PeriodID b) a"

text \<open>A row agrees with itself: its resolution, acknowledgement and snooze fit its status.\<close>

definition row_ok :: "alert \<Rightarrow> bool" where
  "row_ok a \<longleftrightarrow> (alert_Status a = AlertResolved \<longleftrightarrow> alert_Resolution a \<noteq> None)
     \<and> (alert_Status a = AlertResolved \<longrightarrow> alert_Snooze a = None)
     \<and> (alert_Status a = AlertAcknowledged \<longrightarrow> alert_Ack a \<noteq> None)
     \<and> (alert_Status a = AlertOpen \<longrightarrow> alert_Ack a = None)"

text \<open>One step of the lifecycle: a row opened or changed together with the one event it appends.\<close>

inductive alert_step :: "db \<Rightarrow> alert \<Rightarrow> alertEvent \<Rightarrow> db \<Rightarrow> bool" where
  opened: "\<lbrakk> \<forall>b\<in>set (t_alerts d). alert_ID b \<noteq> alert_ID a
               \<and> \<not> sameCase (alert_RuleID a) (alert_Fingerprint a) (alert_PeriodID a) b;
             \<forall>b\<in>set (t_events d). ev_ID b \<noteq> ev_ID ev;
             row_ok a; alert_Status a = AlertOpen; alert_OccurrenceCount a = 1;
             ev_AlertID ev = alert_ID a; ev_Type ev = AlertEventFail; ev_PrevStatus ev = None;
             ev_NewStatus ev = AlertOpen \<rbrakk> \<Longrightarrow>
           alert_step d a ev (d\<lparr> t_alerts := t_alerts d @ [a], t_events := t_events d @ [ev] \<rparr>)"
| moved: "\<lbrakk> a \<in> set (t_alerts d); sameIdentity a' a; row_ok a';
            \<forall>b\<in>set (t_events d). ev_ID b \<noteq> ev_ID ev;
            ev_AlertID ev = alert_ID a; ev_PrevStatus ev = Some (alert_Status a);
            ev_NewStatus ev = alert_Status a'; lifecycle (Some (alert_Status a)) (ev_Type ev) (alert_Status a');
            alert_OccurrenceCount a' = alert_OccurrenceCount a + (if ev_Type ev = AlertEventFail then 1 else 0) \<rbrakk> \<Longrightarrow>
          alert_step d a' ev (d\<lparr> t_alerts := upd_where (\<lambda>b. alert_ID b = alert_ID a) (\<lambda>_. a') (t_alerts d),
                              t_events := t_events d @ [ev] \<rparr>)"

text \<open>
  The log of an alert: every event starts where the last one ended, the last one ends in the
  status of the row, and the occurrence count is the number of failures.
\<close>

fun chained :: "alertStatus option \<Rightarrow> alertEvent list \<Rightarrow> bool" where
  "chained s [] = True"
| "chained s (e # es) \<longleftrightarrow> ev_PrevStatus e = s \<and> lifecycle s (ev_Type e) (ev_NewStatus e)
     \<and> chained (Some (ev_NewStatus e)) es"

definition log_of :: "db \<Rightarrow> alert \<Rightarrow> alertEvent list" where
  "log_of d a = filter (\<lambda>e. ev_AlertID e = alert_ID a) (t_events d)"

definition log_ok :: "alert \<Rightarrow> alertEvent list \<Rightarrow> bool" where
  "log_ok a es \<longleftrightarrow> es \<noteq> [] \<and> chained None es \<and> ev_NewStatus (last es) = alert_Status a
     \<and> alert_OccurrenceCount a = int (length (filter (\<lambda>e. ev_Type e = AlertEventFail) es))"

definition case_of :: "alert \<Rightarrow> uuid \<times> string \<times> string" where
  "case_of a = (alert_RuleID a, alert_Fingerprint a, alert_PeriodID a)"

definition alerts_ok :: "db \<Rightarrow> bool" where
  "alerts_ok d \<longleftrightarrow> distinct (map alert_ID (t_alerts d)) \<and> distinct (map case_of (t_alerts d))
     \<and> distinct (map ev_ID (t_events d))
     \<and> (\<forall>e\<in>set (t_events d). \<exists>a\<in>set (t_alerts d). alert_ID a = ev_AlertID e)
     \<and> (\<forall>a\<in>set (t_alerts d). row_ok a \<and> log_ok a (log_of d a))"

lemma sameCase_case_of: "sameCase r f p a \<longleftrightarrow> case_of a = (r, f, p)"
  by (simp add: sameCase_def case_of_def)

lemma sameIdentity_iff: "sameIdentity a b \<longleftrightarrow> alert_ID a = alert_ID b \<and> case_of a = case_of b"
  by (auto simp: sameIdentity_def sameCase_def case_of_def)

lemma chained_snoc: "chained s (es @ [e]) \<longleftrightarrow> chained s es
    \<and> (let t = (if es = [] then s else Some (ev_NewStatus (last es))) in
       ev_PrevStatus e = t \<and> lifecycle t (ev_Type e) (ev_NewStatus e))"
  by (induction es arbitrary: s) (auto simp: Let_def)

lemma log_ok_snoc:
  assumes "log_ok a es" and "ev_PrevStatus e = Some (alert_Status a)" and "ev_NewStatus e = alert_Status a'"
    and "lifecycle (Some (alert_Status a)) (ev_Type e) (alert_Status a')"
    and "alert_OccurrenceCount a' = alert_OccurrenceCount a + (if ev_Type e = AlertEventFail then 1 else 0)"
  shows "log_ok a' (es @ [e])"
  using assms by (auto simp: log_ok_def chained_snoc Let_def)

lemma alert_step_ok:
  assumes "alert_step d a ev d'" and "alerts_ok d"
  shows "alerts_ok d'"
  using assms
proof cases
  case opened
  have none: "log_of d a = []"
    using opened(2) assms(2) by (force simp: log_of_def alerts_ok_def filter_empty_conv)
  show ?thesis
    using opened assms(2) none
    by (auto simp: alerts_ok_def log_of_def sameCase_case_of log_ok_def lifecycle_def case_of_def
        simp del: filter_filter)
next
  case (moved a0)
  let ?upd = "upd_where (\<lambda>b. alert_ID b = alert_ID a0) (\<lambda>_. a) (t_alerts d)"
  have ids: "distinct (map alert_ID (t_alerts d))" using assms(2) by (simp add: alerts_ok_def)
  have uniq: "alert_ID b = alert_ID a0 \<Longrightarrow> b = a0" if "b \<in> set (t_alerts d)" for b
    using distinct_map_eq [OF ids that moved(2)] by simp
  have sameids: "map alert_ID ?upd = map alert_ID (t_alerts d)"
    using moved(3) by (intro map_upd_where) (simp add: sameIdentity_iff)
  have samecases: "map case_of ?upd = map case_of (t_alerts d)"
    using uniq moved(3) unfolding upd_where_def map_map sameIdentity_iff by (intro map_cong refl) fastforce
  have rows: "set ?upd = insert a {b \<in> set (t_alerts d). alert_ID b \<noteq> alert_ID a0}"
    unfolding set_upd_where using moved(2) by blast
  have "log_ok a0 (log_of d a0)" using assms(2) moved(2) by (simp add: alerts_ok_def)
  then have new: "log_ok a (log_of d a0 @ [ev])"
    using moved(6-10) by (intro log_ok_snoc) simp_all
  have logs: "log_of d' a = log_of d a0 @ [ev]"
    "alert_ID b \<noteq> alert_ID a0 \<Longrightarrow> log_of d' b = log_of d b" for b
    using moved(1,3,6) by (simp_all add: log_of_def sameIdentity_iff)
  have ex: "\<exists>b\<in>set ?upd. alert_ID b = i" if "\<exists>b\<in>set (t_alerts d). alert_ID b = i" for i
    using that moved(2,3) unfolding rows sameIdentity_iff by (cases "i = alert_ID a0") auto
  show ?thesis
    unfolding alerts_ok_def
  proof (intro conjI ballI)
    show "distinct (map alert_ID (t_alerts d'))" "distinct (map case_of (t_alerts d'))"
      "distinct (map ev_ID (t_events d'))"
      using moved sameids samecases assms(2) by (auto simp: alerts_ok_def)
    show "\<exists>b\<in>set (t_alerts d'). alert_ID b = ev_AlertID e" if "e \<in> set (t_events d')" for e
    proof -
      have "\<exists>b\<in>set (t_alerts d). alert_ID b = ev_AlertID e"
        using that assms(2) moved(1,2,6) by (auto simp: alerts_ok_def)
      then show ?thesis using ex moved(1) by simp
    qed
    show "row_ok b" "log_ok b (log_of d' b)" if "b \<in> set (t_alerts d')" for b
      using that moved(1,4) rows new logs assms(2) unfolding alerts_ok_def by auto
  qed
qed

section \<open>Every operation is one step of the lifecycle\<close>

lemma appendAlertEvent_Inr:
  assumes "appendAlertEvent i ty prev next eid payload at notify w = (Inr ev, w')"
  shows "w_db w' = (w_db w)\<lparr> t_events := t_events (w_db w) @ [ev] \<rparr>
    \<and> ev_AlertID ev = i \<and> ev_Type ev = ty \<and> ev_PrevStatus ev = prev \<and> ev_NewStatus ev = next
    \<and> ev_EvaluationID ev = eid \<and> ev_Notify ev = notify \<and> ev_Payload ev = jsonb w payload
    \<and> (at \<noteq> 0 \<longrightarrow> ev_At ev = at)
    \<and> (\<forall>b\<in>set (t_events (w_db w)). ev_ID b \<noteq> ev_ID ev)
    \<and> (\<exists>a\<in>set (t_alerts (w_db w)). alert_ID a = i)"
  using assms
  by (auto simp: appendAlertEvent_def act_dest insertEvent_def Let_def exists_row_iff jsonb_def
      dest!: execute_Inr split: if_splits)

lemma appendAlertEvent_quiet [quietI]: "quietA (appendAlertEvent i ty prev next eid payload at notify)"
  unfolding appendAlertEvent_def insertEvent_def by (intro quietI)

lemma updateAlert_quiet [quietI]: "quietA (updateAlert i f a)"
  unfolding updateAlert_def by (intro quietI)

lemma find_id: "distinct (map alert_ID t) \<Longrightarrow> a \<in> set t \<Longrightarrow> alert_ID u = alert_ID a \<Longrightarrow>
    List.find (\<lambda>b. alert_ID b = alert_ID a) (upd_where (\<lambda>b. alert_ID b = alert_ID a) (\<lambda>_. u) t) = Some u"
  by (induction t) (auto simp: upd_where_def)

lemma updateAlert_Inr:
  assumes "updateAlert (alert_ID a) f a w = (Inr u, w')" and "distinct (map alert_ID (t_alerts (w_db w)))"
    and "a \<in> set (t_alerts (w_db w))"
    and "\<And>w1. w_jsonb w1 = w_jsonb w \<Longrightarrow> f w1 = f w" and "alert_ID (f w a) = alert_ID a"
  shows "u = (f w a)\<lparr> alert_UpdatedAt := w_dbnow w \<rparr>
    \<and> w_db w' = (w_db w)\<lparr> t_alerts := upd_where (\<lambda>b. alert_ID b = alert_ID a) (\<lambda>_. u) (t_alerts (w_db w)) \<rparr>"
proof -
  let ?u = "(f w a)\<lparr> alert_UpdatedAt := w_dbnow w \<rparr>" and ?t = "t_alerts (w_db w)"
  have f: "f (w\<lparr> w_stmts := n \<rparr>) = f w" for n by (rule assms(4)) simp
  have upd: "upd_where (\<lambda>b. alert_ID b = alert_ID a) (\<lambda>b. (f w b)\<lparr> alert_UpdatedAt := w_dbnow w \<rparr>) ?t
      = upd_where (\<lambda>b. alert_ID b = alert_ID a) (\<lambda>_. ?u) ?t"
    using distinct_map_eq [OF assms(2) _ assms(3)] by (auto simp: upd_where_def)
  have "List.find (\<lambda>b. alert_ID b = alert_ID a) (upd_where (\<lambda>b. alert_ID b = alert_ID a) (\<lambda>_. ?u) ?t) = Some ?u"
    by (rule find_id [OF assms(2,3)]) (simp add: assms(5))
  then show ?thesis
    using assms(1) by (auto simp: updateAlert_def Let_def f upd dest!: execute_Inr split: if_splits)
qed

text \<open>The body shared by all transitions of an existing row: update it, append the event.\<close>

lemma transition_step:
  assumes run: "bindA (wrapA m (updateAlert i f a)) (\<lambda>u.
        bindA (appendAlertEvent (alert_ID u) ty (Some prev) next eid payload at notify) (\<lambda>ev.
        returnA (g u ev))) w = (Inr x, w')"
    and i: "i = alert_ID a" and prev: "prev = alert_Status a"
    and ok: "alerts_ok (w_db w)" and a: "a \<in> set (t_alerts (w_db w))"
    and f: "\<And>w1. w_jsonb w1 = w_jsonb w \<Longrightarrow> f w1 = f w"
    and new: "sameIdentity (f w a) a" "row_ok (f w a)" "alert_Status (f w a) = next"
      "lifecycle (Some (alert_Status a)) ty next"
      "alert_OccurrenceCount (f w a) = alert_OccurrenceCount a + (if ty = AlertEventFail then 1 else 0)"
  shows "\<exists>ev. x = g ((f w a)\<lparr> alert_UpdatedAt := w_dbnow w \<rparr>) ev \<and> ev_Notify ev = notify
    \<and> ev_Type ev = ty \<and> ev_AlertID ev = alert_ID a \<and> ev_PrevStatus ev = Some (alert_Status a)
    \<and> ev_NewStatus ev = next \<and> ev_Payload ev = jsonb w payload \<and> ev_EvaluationID ev = eid
    \<and> alert_step (w_db w) ((f w a)\<lparr> alert_UpdatedAt := w_dbnow w \<rparr>) ev (w_db w')"
proof -
  let ?u = "(f w a)\<lparr> alert_UpdatedAt := w_dbnow w \<rparr>"
  from run i prev obtain u w1 ev where up: "updateAlert (alert_ID a) f a w = (Inr u, w1)"
    and app: "appendAlertEvent (alert_ID u) ty (Some (alert_Status a)) next eid payload at notify w1 = (Inr ev, w')"
    and x: "x = g u ev"
    by (auto simp: act_dest)
  have ids: "distinct (map alert_ID (t_alerts (w_db w)))" using ok by (simp add: alerts_ok_def)
  have id: "alert_ID (f w a) = alert_ID a" using new(1) by (simp add: sameIdentity_def)
  note u = updateAlert_Inr [OF up ids a f id]
  have q: "quiet w w1" using updateAlert_quiet up by (rule quietA_D)
  then have jb: "jsonb w1 = jsonb w" by (auto simp: quiet_def jsonb_def)
  note e = appendAlertEvent_Inr [OF app, unfolded jb]
  have "w_db w' = (w_db w)\<lparr> t_alerts := upd_where (\<lambda>b. alert_ID b = alert_ID a) (\<lambda>_. ?u) (t_alerts (w_db w)),
      t_events := t_events (w_db w) @ [ev] \<rparr>"
    using u e by simp
  moreover have "alert_step (w_db w) ?u ev ((w_db w)\<lparr> t_alerts := upd_where (\<lambda>b. alert_ID b = alert_ID a) (\<lambda>_. ?u)
      (t_alerts (w_db w)), t_events := t_events (w_db w) @ [ev] \<rparr>)"
    by (rule alert_step.moved [OF a]) (use new u e in \<open>auto simp: sameIdentity_def sameCase_def row_ok_def\<close>)
  ultimately show ?thesis using u e x id by auto
qed

definition observed :: "world \<Rightarrow> bool" where
  "observed w \<longleftrightarrow> w_publisher w \<or> w_collector w \<noteq> None"

text \<open>
  What an operation may do: nothing the outside can see, or, when it succeeds, one step of the
  lifecycle whose event is published exactly if it notifies.
\<close>

definition one_step :: "world \<Rightarrow> bool \<Rightarrow> world \<Rightarrow> bool" where
  "one_step w ok w' \<longleftrightarrow> observed w' = observed w \<and> w_fault w' = w_fault w \<and>
     ((w_db w' = w_db w \<and> outbox w' = outbox w)
      \<or> (ok \<and> (\<exists>a ev. alert_step (w_db w) a ev (w_db w')
            \<and> outbox w' = outbox w @ (if ev_Notify ev then [(a, ev)] else []))))"

lemma observed_quiet: "quiet w w' \<Longrightarrow> observed w' = observed w" "quiet w w' \<Longrightarrow> w_fault w' = w_fault w"
  by (auto simp: quiet_def observed_def)

lemma observed_record [simp]: "observed (recordAlertEvent a e w) = observed w"
  by (simp add: observed_def)

text \<open>
  A unit of work hands \<open>pr\<close> of its result to the publication: the row and the event, if it made one.
\<close>

definition moves :: "('x \<Rightarrow> alert option \<times> alertEvent option) \<Rightarrow> world \<Rightarrow> 'x \<Rightarrow> world \<Rightarrow> bool" where
  "moves pr w x w' \<longleftrightarrow> (snd (pr x) = None \<and> w_db w' = w_db w)
     \<or> (\<exists>a ev. pr x = (Some a, Some ev) \<and> alert_step (w_db w) a ev (w_db w'))"

definition unit_step :: "('x \<Rightarrow> alert option \<times> alertEvent option) \<Rightarrow> 'x act \<Rightarrow> bool" where
  "unit_step pr f \<longleftrightarrow> (\<forall>w x w'. alerts_ok (w_db w) \<longrightarrow> f w = (Inr x, w') \<longrightarrow> moves pr w x w')"

lemma publish_run: "publish ao eo w = (q, w') \<longleftrightarrow> q = Inr () \<and>
    w' = (case ao of None \<Rightarrow> w | Some a \<Rightarrow> recordAlertEvent a eo w)"
  by (auto simp: publish_def tickA_def)

lemma publish_step:
  assumes "quiet w w1" and "observed w"
    and "moves pr w x w1"
    and "w' = (case fst (pr x) of None \<Rightarrow> w1 | Some a \<Rightarrow> recordAlertEvent a (snd (pr x)) w1)"
  shows "one_step w True w'"
proof -
  have ob: "outbox w1 = outbox w" "w_publisher w1 \<or> w_collector w1 \<noteq> None"
    using quiet_outbox [OF assms(1)] assms(1,2) by (auto simp: quiet_def observed_def)
  from assms(3) [unfolded moves_def] show ?thesis
  proof (elim disjE exE conjE)
    assume "snd (pr x) = None" "w_db w1 = w_db w"
    then show ?thesis using ob assms(4) by (auto simp: one_step_def observed_quiet [OF assms(1)] split: option.splits)
  next
    fix a ev assume 2: "pr x = (Some a, Some ev)" "alert_step (w_db w) a ev (w_db w1)"
    then have "w_db w' = w_db w1" "outbox w' = outbox w @ (if ev_Notify ev then [(a, ev)] else [])"
      "observed w' = observed w" "w_fault w' = w_fault w"
      using assms(4) ob outbox_record [OF ob(2), of a ev] observed_quiet [OF assms(1)] by simp_all
    then show ?thesis using 2 by (auto simp: one_step_def)
  qed
qed

lemma quiet_stmts: "quiet w (w'\<lparr> w_stmts := n \<rparr>) = quiet w w'"
  by (simp add: quiet_def)

lemma unit_publish:
  assumes "unit_step pr f" and "quietA f" and "alerts_ok (w_db w)" and "observed w"
    and run: "bindA (inTx f) (\<lambda>x. bindA (publish (fst (pr x)) (snd (pr x))) (\<lambda>_. returnA (g x))) w = (q, w')"
  shows "one_step w (\<exists>x. q = Inr x) w'"
proof (cases "inTx f w")
  case (Pair r w1)
  have q1: "quiet w w1" by (rule quietA_D [OF quietA_inTx [OF assms(2)] Pair])
  show ?thesis
  proof (cases r)
    case (Inl err)
    then have "q = Inl err" "w' = w1" using run Pair by (auto simp: bindA_def)
    then show ?thesis using inTx_Inl [of f w err w1] Pair Inl quiet_outbox [OF q1] observed_quiet [OF q1] by (simp add: one_step_def)
  next
    case (Inr x)
    then have w': "q = Inr (g x)" "w' = (case fst (pr x) of None \<Rightarrow> w1 | Some a \<Rightarrow> recordAlertEvent a (snd (pr x)) w1)"
      using run Pair by (auto simp: bindA_def returnA_def publish_def tickA_def)
    obtain w2 where "f w = (Inr x, w2)" "w_db w1 = w_db w2"
      using inTx_Inr [of f w x w1] Pair Inr by auto
    then have "moves pr w x w1"
      using assms(1,3) unfolding unit_step_def moves_def by metis
    from publish_step [of w w1 pr x w', OF q1 assms(4) this w'(2)] show ?thesis using w'(1) by simp
  qed
qed

text \<open>The row an operation starts from, found in the table as it is.\<close>

lemma selected:
  assumes "selectOne t_alerts p w = (Inr a, w1)"
  shows "a \<in> set (t_alerts (w_db w))" "p a" "w_db w1 = w_db w" "w_jsonb w1 = w_jsonb w"
    "alerts_ok (w_db w) \<Longrightarrow> row_ok a"
  using selectOne_Inr [OF assms] find_SomeD [of p "t_alerts (w_db w)" a] by (auto simp: alerts_ok_def)

lemma jsonb_world: "w_jsonb w1 = w_jsonb w \<Longrightarrow> jsonb w1 = jsonb w"
  by (auto simp: jsonb_def)

lemma active_iff: "active a \<longleftrightarrow> alert_Status a \<noteq> AlertResolved"
  by (cases "alert_Status a") (simp_all add: active_def)

text \<open>The units of work of the operations.\<close>

lemma unit_select:
  assumes "\<And>a w x w'. k a w = (Inr x, w') \<Longrightarrow> alerts_ok (w_db w) \<Longrightarrow> a \<in> set (t_alerts (w_db w)) \<Longrightarrow> p a
      \<Longrightarrow> row_ok a \<Longrightarrow> moves pr w x w'"
  shows "unit_step pr (bindA (wrapA m1 (selectOne t_alerts p)) k)"
  unfolding unit_step_def
proof (intro allI impI)
  fix w x w'
  assume ok: "alerts_ok (w_db w)" and "bindA (wrapA m1 (selectOne t_alerts p)) k w = (Inr x, w')"
  then obtain a w1 where a: "selectOne t_alerts p w = (Inr a, w1)" "k a w1 = (Inr x, w')"
    by (auto simp: act_dest)
  from selected [OF a(1)] ok have "moves pr w1 x w'" by (intro assms [OF a(2)]) simp_all
  then show "moves pr w x w'" using selected(3) [OF a(1)] by (simp add: moves_def)
qed

lemma transition_moves:
  assumes "bindA (wrapA m (updateAlert i f a)) (\<lambda>u.
        bindA (appendAlertEvent (alert_ID u) ty (Some prev) next eid payload at notify) (\<lambda>ev.
        returnA (g u ev))) w = (Inr x, w')"
    and "alerts_ok (w_db w)" "a \<in> set (t_alerts (w_db w))" and "i = alert_ID a" "prev = alert_Status a"
    and "\<And>w1. w_jsonb w1 = w_jsonb w \<Longrightarrow> f w1 = f w"
    and "sameIdentity (f w a) a" "row_ok (f w a)" "alert_Status (f w a) = next"
      "lifecycle (Some (alert_Status a)) ty next"
      "alert_OccurrenceCount (f w a) = alert_OccurrenceCount a + (if ty = AlertEventFail then 1 else 0)"
    and "\<And>u ev. pr (g u ev) = (Some u, Some ev)"
  shows "moves pr w x w'"
  using transition_step [OF assms(1,4,5,2,3,6-11)] assms(12) by (auto simp: moves_def)

definition eventOf :: "alert \<times> alertEvent option \<Rightarrow> alert option \<times> alertEvent option" where
  "eventOf x = (Some (fst x), snd x)"

lemma eventOf_simps [simp]: "eventOf (a, e) = (Some a, e)"
  by (simp add: eventOf_def)

lemma moves_none: "snd (pr x) = None \<Longrightarrow> w_db w' = w_db w \<Longrightarrow> moves pr w x w'"
  by (simp add: moves_def)

lemmas transition_simps = sameIdentity_iff case_of_def row_ok_def lifecycle_def close_alert_def active_iff

lemma open_status: "s \<noteq> AlertResolved \<Longrightarrow> s \<noteq> AlertAcknowledged \<Longrightarrow> s = AlertOpen"
  by (cases s) simp_all

lemma ack_unit: "unit_step eventOf (ackTx i ack)"
  unfolding ackTx_def
proof (rule unit_select, goal_cases)
  case (1 a w x w')
  show ?case
  proof (cases "alert_Status a")
    case AlertOpen
    show ?thesis
      by (rule transition_moves [OF 1(1) [unfolded AlertOpen, simplified]])
        (use 1(2-) AlertOpen in \<open>simp_all add: transition_simps\<close>)
  qed (use 1 in \<open>auto intro: moves_none\<close>)
qed

lemma resolve_unit: "ty = AlertEventResolve \<or> ty = AlertEventAccept \<Longrightarrow> unit_step eventOf (resolveTx i res ty)"
  unfolding resolveTx_def Let_def
  by (rule unit_select, erule transition_moves)
    (auto simp: transition_simps jsonb_def intro!: ext)

lemma snooze_unit: "unit_step eventOf (snoozeTx i sz)"
  unfolding snoozeTx_def
  by (rule unit_select, erule transition_moves) (auto simp: transition_simps)

lemma bindA_now: "bindA (tickA goNow) k w = k (w_clock w (w_ticks w)) (w\<lparr> w_ticks := w_ticks w + 1 \<rparr>)"
  by (simp add: bindA_def tickA_def)

lemma unsnooze_unit: "unit_step eventOf (unsnoozeTx i author)"
  unfolding unsnoozeTx_def
proof (rule unit_select, goal_cases)
  case (1 a w x w')
  show ?case
  proof (cases "alert_Snooze a = None")
    case False
    let ?w1 = "w\<lparr> w_ticks := w_ticks w + 1 \<rparr>"
    have "moves eventOf ?w1 x w'"
      by (rule transition_moves [OF 1(1) [unfolded if_not_P [OF False] bindA_now]]) (use 1(2-) in \<open>simp_all add: transition_simps\<close>)
    then show ?thesis by (simp add: moves_def)
  qed (use 1 in \<open>auto intro: moves_none\<close>)
qed

lemma select_cases:
  assumes "catchA (selectOne t_alerts p) k w = (q, w')"
  obtains a where "k (Inr a) (w\<lparr> w_stmts := w_stmts w + 1 \<rparr>) = (q, w')" "a \<in> set (t_alerts (w_db w))" "p a"
      "List.find p (t_alerts (w_db w)) = Some a"
    | err where "k (Inl err) (w\<lparr> w_stmts := w_stmts w + 1 \<rparr>) = (q, w')"
      "w_fault w (w_stmts w) = Some err \<or> (err = noRows \<and> List.find p (t_alerts (w_db w)) = None)"
proof -
  from assms obtain r w1 where r: "selectOne t_alerts p w = (r, w1)" "k r w1 = (q, w')"
    by (auto simp: catchA_iff)
  show thesis
  proof (cases r)
    case (Inl err)
    with r selectOne_Inl [of t_alerts p w err w1] that(2) show thesis by auto
  next
    case (Inr a)
    with r selectOne_Inr [of t_alerts p w a w1] selected(1,2) [of p w a w1] that(1) show thesis by auto
  qed
qed

lemma moves_stmts: "moves pr (w\<lparr> w_stmts := n \<rparr>) x w' = moves pr w x w'"
  by (simp add: moves_def)

lemma autoResolve_unit:
  assumes "\<And>a. p a \<Longrightarrow> active a"
  shows "unit_step id (autoResolveTx p res eid)"
  unfolding unit_step_def
proof (intro allI impI)
  fix w x w'
  assume ok: "alerts_ok (w_db w)" and run: "autoResolveTx p res eid w = (Inr x, w')"
  from run show "moves id w x w'"
    unfolding autoResolveTx_def
  proof (cases rule: select_cases)
    case (1 a)
    then have "row_ok a" using ok by (simp add: alerts_ok_def)
    with 1 ok assms [of a] have "moves id (w\<lparr> w_stmts := w_stmts w + 1 \<rparr>) x w'"
      by (auto simp: transition_simps jsonb_def intro!: ext elim!: transition_moves)
    then show ?thesis by (simp add: moves_stmts)
  next
    case (2 err)
    then show ?thesis by (auto intro: moves_none split: if_splits)
  qed
qed

section \<open>Opening and re-failing\<close>

definition resultOf :: "openAlertResult \<Rightarrow> alert option \<times> alertEvent option" where
  "resultOf r = (Some (or_Alert r), Some (or_Event r))"

text \<open>What a failure reported for a case leaves, given the row the case had before.\<close>

definition open_spec :: "openAlertInput \<Rightarrow> (rawJSON \<Rightarrow> rawJSON) \<Rightarrow> alert option \<Rightarrow> openAlertResult \<Rightarrow> bool" where
  "open_spec inp norm old r \<longleftrightarrow>
     (let a = or_Alert r; ev = or_Event r in
      case_of a = (oi_RuleID inp, oi_Fingerprint inp, oi_PeriodID inp) \<and> row_ok a
      \<and> alert_Status a = AlertOpen \<and> alert_Ack a = None \<and> alert_Resolution a = None
      \<and> alert_LastSeenAt a = oi_OccurredAt inp \<and> alert_LastEvaluationID a = oi_EvaluationID inp
      \<and> alert_Evidence a = norm (oi_Evidence inp)
      \<and> ev_AlertID ev = alert_ID a \<and> ev_Type ev = AlertEventFail \<and> ev_NewStatus ev = AlertOpen
      \<and> ev_EvaluationID ev = Some (oi_EvaluationID inp)
      \<and> (case old of
           None \<Rightarrow> or_Created r \<and> \<not> or_Reopened r \<and> alert_OccurrenceCount a = 1
             \<and> alert_FirstSeenAt a = oi_OccurredAt inp \<and> alert_Severity a = oi_Severity inp
             \<and> alert_Snooze a = None \<and> ev_PrevStatus ev = None \<and> ev_Notify ev
         | Some b \<Rightarrow> \<not> or_Created r \<and> or_Reopened r = (alert_Status b = AlertResolved)
             \<and> alert_ID a = alert_ID b \<and> alert_OccurrenceCount a = alert_OccurrenceCount b + 1
             \<and> alert_FirstSeenAt a = alert_FirstSeenAt b \<and> alert_Severity a = alert_Severity b
             \<and> alert_Snooze a = (if snoozeActive b (oi_OccurredAt inp) then alert_Snooze b else None)
             \<and> ev_PrevStatus ev = Some (alert_Status b)
             \<and> ev_Notify ev = (\<not> snoozeActive b (oi_OccurredAt inp)
                  \<and> (alert_Snooze b \<noteq> None \<or> alert_Status b \<noteq> AlertOpen
                     \<or> \<not> sameEvidenceJSON (alert_Evidence b) (oi_Evidence inp)))))"

lemma refail_fields:
  "alert_ID (refail inp b w a) = alert_ID a" "case_of (refail inp b w a) = case_of a"
  "alert_Status (refail inp b w a) = AlertOpen"
  "alert_OccurrenceCount (refail inp b w a) = alert_OccurrenceCount a + 1"
  "alert_LastSeenAt (refail inp b w a) = oi_OccurredAt inp"
  "alert_FirstSeenAt (refail inp b w a) = alert_FirstSeenAt a"
  "alert_Severity (refail inp b w a) = alert_Severity a"
  "alert_LastEvaluationID (refail inp b w a) = oi_EvaluationID inp"
  "alert_Evidence (refail inp b w a) = jsonb w (oi_Evidence inp)"
  "alert_Snooze (refail inp b w a) = (if snoozeExpired b (oi_OccurredAt inp) then None else alert_Snooze a)"
  by (simp_all add: refail_def Let_def case_of_def)

lemma refail_row:
  assumes "row_ok b"
  shows "row_ok (refail inp b w b)" "alert_Ack (refail inp b w b) = None" "alert_Resolution (refail inp b w b) = None"
  using assms by (cases "alert_Status b"; simp add: row_ok_def refail_def Let_def)+

lemma refail_world: "w_jsonb w1 = w_jsonb w \<Longrightarrow> refail inp b w1 = refail inp b w"
  by (rule ext) (simp add: refail_def jsonb_def Let_def)

lemma failAgain_result:
  assumes run: "failAgain inp b w = (Inr r, w')" and ok: "alerts_ok (w_db w)" and b: "b \<in> set (t_alerts (w_db w))"
    and c: "sameCase (oi_RuleID inp) (oi_Fingerprint inp) (oi_PeriodID inp) b"
  shows "open_spec inp (jsonb w) (Some b) r \<and> moves resultOf w r w'"
proof -
  let ?u = "(refail inp b w b)\<lparr> alert_UpdatedAt := w_dbnow w \<rparr>"
  have row: "row_ok b" using ok b by (simp add: alerts_ok_def)
  have "\<exists>ev. r = \<lparr> or_Alert = ?u, or_Event = ev, or_Created = False, or_Reopened = (alert_Status b = AlertResolved) \<rparr>
     \<and> ev_Notify ev = refail_notify inp b \<and> ev_Type ev = AlertEventFail \<and> ev_AlertID ev = alert_ID b
     \<and> ev_PrevStatus ev = Some (alert_Status b) \<and> ev_NewStatus ev = AlertOpen
     \<and> ev_Payload ev = jsonb w (oi_Evidence inp) \<and> ev_EvaluationID ev = Some (oi_EvaluationID inp)
     \<and> alert_step (w_db w) ?u ev (w_db w')"
    by (rule transition_step [OF run [unfolded failAgain_def Let_def] refl refl ok b refail_world])
      (simp_all add: refail_fields refail_row [OF row] sameIdentity_iff lifecycle_def)
  then obtain ev where r: "r = \<lparr> or_Alert = ?u, or_Event = ev, or_Created = False,
        or_Reopened = (alert_Status b = AlertResolved) \<rparr>"
    and ev: "ev_Notify ev = refail_notify inp b" "ev_Type ev = AlertEventFail" "ev_AlertID ev = alert_ID b"
      "ev_PrevStatus ev = Some (alert_Status b)" "ev_NewStatus ev = AlertOpen"
      "ev_EvaluationID ev = Some (oi_EvaluationID inp)" "alert_step (w_db w) ?u ev (w_db w')"
    by (elim exE conjE)
  have "case_of b = (oi_RuleID inp, oi_Fingerprint inp, oi_PeriodID inp)" using c by (simp add: sameCase_case_of)
  moreover have "row_ok ?u" using refail_row(1) [OF row, of inp w] by (simp add: row_ok_def)
  moreover have "case_of ?u = case_of (refail inp b w b)" by (simp add: case_of_def)
  moreover have "refail_notify inp b \<longleftrightarrow> \<not> snoozeActive b (oi_OccurredAt inp)
      \<and> (alert_Snooze b \<noteq> None \<or> alert_Status b \<noteq> AlertOpen
         \<or> \<not> sameEvidenceJSON (alert_Evidence b) (oi_Evidence inp))"
    by (auto simp: refail_notify_def Let_def snoozeExpired_def)
  moreover have "(if snoozeExpired b (oi_OccurredAt inp) then None else alert_Snooze b)
      = (if snoozeActive b (oi_OccurredAt inp) then alert_Snooze b else None)"
    by (auto simp: snoozeExpired_def)
  ultimately show ?thesis
    using ev by (simp add: open_spec_def Let_def r refail_fields refail_row [OF row] moves_def resultOf_def)
qed

lemma openFresh_result:
  assumes run: "openFresh inp w = (Inr r, w')"
  shows "open_spec inp (jsonb w) None r \<and> moves resultOf w r w'
    \<and> List.find (sameCase (oi_RuleID inp) (oi_Fingerprint inp) (oi_PeriodID inp)) (t_alerts (w_db w)) = None"
proof -
  from run obtain a w1 w2 ev i where
    ins: "insertAlert \<lparr> alert_ID = i, alert_RuleID = oi_RuleID inp, alert_Fingerprint = oi_Fingerprint inp,
           alert_PeriodID = oi_PeriodID inp, alert_Status = AlertOpen, alert_Severity = oi_Severity inp,
           alert_FirstSeenAt = oi_OccurredAt inp, alert_LastSeenAt = oi_OccurredAt inp,
           alert_OccurrenceCount = 1, alert_LastEvaluationID = oi_EvaluationID inp,
           alert_Evidence = oi_Evidence inp, alert_Ack = None, alert_Resolution = None, alert_Snooze = None,
           alert_Labels = oi_Labels inp, alert_CreatedAt = 0, alert_UpdatedAt = 0 \<rparr> w1 = (Inr a, w2)"
    and w1: "w1 = w\<lparr> w_uuids := w_uuids w + 1 \<rparr>"
    and app: "appendAlertEvent (alert_ID a) AlertEventFail None AlertOpen (Some (oi_EvaluationID inp))
              (oi_Evidence inp) (oi_OccurredAt inp) True w2 = (Inr ev, w')"
    and r: "r = \<lparr> or_Alert = a, or_Event = ev, or_Created = True, or_Reopened = False \<rparr>"
    by (auto simp: openFresh_def Let_def act_dest)
  have a: "case_of a = (oi_RuleID inp, oi_Fingerprint inp, oi_PeriodID inp)" "row_ok a" "alert_Status a = AlertOpen"
    "alert_Ack a = None" "alert_Resolution a = None" "alert_Snooze a = None" "alert_OccurrenceCount a = 1"
    "alert_Severity a = oi_Severity inp" "alert_FirstSeenAt a = oi_OccurredAt inp"
    "alert_LastSeenAt a = oi_OccurredAt inp" "alert_LastEvaluationID a = oi_EvaluationID inp"
    "alert_Evidence a = jsonb w (oi_Evidence inp)"
    and fresh: "\<forall>b\<in>set (t_alerts (w_db w)). alert_ID b \<noteq> alert_ID a
        \<and> \<not> sameCase (alert_RuleID a) (alert_Fingerprint a) (alert_PeriodID a) b"
    and d2: "w_db w2 = (w_db w)\<lparr> t_alerts := t_alerts (w_db w) @ [a] \<rparr>"
    using execute_Inr [OF ins [unfolded insertAlert_def]] w1
    by (auto simp: Let_def exists_row_iff case_of_def row_ok_def jsonb_def split: if_splits)
  note e = appendAlertEvent_Inr [OF app]
  have "alert_step (w_db w) a ev ((w_db w)\<lparr> t_alerts := t_alerts (w_db w) @ [a], t_events := t_events (w_db w) @ [ev] \<rparr>)"
    by (rule alert_step.opened [OF fresh]) (use a e d2 in simp_all)
  then have "alert_step (w_db w) a ev (w_db w')" using e d2 by simp
  moreover have "\<forall>b\<in>set (t_alerts (w_db w)). \<not> sameCase (oi_RuleID inp) (oi_Fingerprint inp) (oi_PeriodID inp) b"
    using fresh a(1) by (simp add: sameCase_def case_of_def)
  ultimately show ?thesis using a e by (simp add: open_spec_def Let_def r moves_def resultOf_def find_none_iff)
qed

lemma openTx_result:
  assumes run: "openTx inp w = (Inr r, w')" and ok: "alerts_ok (w_db w)"
  shows "open_spec inp (jsonb w)
      (List.find (sameCase (oi_RuleID inp) (oi_Fingerprint inp) (oi_PeriodID inp)) (t_alerts (w_db w))) r
    \<and> moves resultOf w r w'"
  using run unfolding openTx_def
proof (cases rule: select_cases)
  case (1 a)
  let ?w = "w\<lparr> w_stmts := w_stmts w + 1 \<rparr>"
  have "jsonb ?w = jsonb w" by (simp add: jsonb_def fun_eq_iff)
  then show ?thesis
    using failAgain_result [of inp a ?w r w'] 1 ok by (simp add: moves_stmts)
next
  case (2 err)
  let ?w = "w\<lparr> w_stmts := w_stmts w + 1 \<rparr>"
  have "openFresh inp ?w = (Inr r, w')" using 2(1) by (simp split: if_splits)
  moreover have "jsonb ?w = jsonb w" by (simp add: jsonb_def fun_eq_iff)
  ultimately show ?thesis using openFresh_result [of inp ?w r w'] by (simp add: moves_stmts)
qed

lemma openTx_quiet: "quietA (openTx inp)"
  unfolding openTx_def openFresh_def failAgain_def insertAlert_def Let_def by (intro quietI)

lemma one_step_trans:
  "w_db w1 = w_db w \<Longrightarrow> quiet w w1 \<Longrightarrow> one_step w1 b w' \<Longrightarrow> one_step w b w'"
  by (simp add: one_step_def observed_quiet quiet_outbox)

lemma openAttempts_result:
  "openAttempts n inp w = (q, w') \<Longrightarrow> alerts_ok (w_db w) \<Longrightarrow> observed w \<Longrightarrow>
    one_step w (\<exists>x. q = Inr x) w' \<and> (\<forall>r. q = Inr r \<longrightarrow> open_spec inp (jsonb w)
      (List.find (sameCase (oi_RuleID inp) (oi_Fingerprint inp) (oi_PeriodID inp)) (t_alerts (w_db w))) r
      \<and> alert_step (w_db w) (or_Alert r) (or_Event r) (w_db w'))"
proof (induction n arbitrary: w)
  case 0
  then show ?case by (simp add: one_step_def)
next
  case (Suc n)
  obtain t w1 where once: "openOrUpdateAlertOnce inp w = (t, w1)" by fastforce
  then have q1: "quiet w w1"
    unfolding openOrUpdateAlertOnce_def by (rule quietA_D [OF quietA_inTx [OF openTx_quiet]])
  show ?case
  proof (cases t)
    case (Inl err)
    have same: "w_db w1 = w_db w" using once Inl by (simp add: openOrUpdateAlertOnce_def inTx_Inl)
    show ?thesis
    proof (cases "0 < n \<and> errors_Is err ErrDuplicateKeyValue")
      case True
      then have "openAttempts n inp w1 = (q, w')" using Suc.prems(1) once Inl by (auto simp: catchA_iff)
      moreover have "jsonb w1 = jsonb w" using q1 by (auto simp: quiet_def jsonb_def)
      ultimately show ?thesis
        using Suc.IH [of w1] Suc.prems(2,3) same observed_quiet [OF q1] one_step_trans [OF same q1]
        by metis
    next
      case False
      then have "q = Inl err" "w' = w1" using Suc.prems(1) once Inl by (auto simp: catchA_iff)
      then show ?thesis using same quiet_outbox [OF q1] observed_quiet [OF q1] by (simp add: one_step_def)
    qed
  next
    case (Inr r)
    then have w': "q = Inr r" "w' = (case fst (resultOf r) of None \<Rightarrow> w1 | Some a \<Rightarrow> recordAlertEvent a (snd (resultOf r)) w1)"
      using Suc.prems(1) once by (auto simp: catchA_iff bindA_def returnA_def publish_def tickA_def resultOf_def)
    obtain w2 where tx: "openTx inp w = (Inr r, w2)" "w_db w1 = w_db w2"
      using once Inr inTx_Inr [of "openTx inp" w r w1] by (auto simp: openOrUpdateAlertOnce_def)
    from openTx_result [OF tx(1) Suc.prems(2)] tx(2) have res: "open_spec inp (jsonb w)
      (List.find (sameCase (oi_RuleID inp) (oi_Fingerprint inp) (oi_PeriodID inp)) (t_alerts (w_db w))) r"
      and mv: "moves resultOf w r w1" by (simp_all add: moves_def)
    have "alert_step (w_db w) (or_Alert r) (or_Event r) (w_db w')"
      using mv w'(2) by (auto simp: moves_def resultOf_def)
    from publish_step [of w w1 resultOf r w', OF q1 Suc.prems(3) mv w'(2)] res w'(1) this show ?thesis by simp
  qed
qed

lemma ticked: "quiet w (w\<lparr> w_ticks := n \<rparr>)"
  by (simp add: quiet_def)

lemma start_time:
  assumes "bindA (if IsZero at then tickA goNow else returnA at) k w = (q, w')"
  obtains t w1 where "k t w1 = (q, w')" "w_db w1 = w_db w" "quiet w w1" "at \<noteq> 0 \<longrightarrow> t = at"
proof (cases "IsZero at")
  case True
  then show thesis using assms that [of "w_clock w (w_ticks w)" "w\<lparr> w_ticks := w_ticks w + 1 \<rparr>"]
    by (simp add: bindA_now ticked)
next
  case False
  then show thesis using assms that [of at w] by (simp add: bindA_def returnA_def)
qed

lemma OpenOrUpdateAlert_result:
  assumes "OpenOrUpdateAlert inp w = (q, w')" and "alerts_ok (w_db w)" and "observed w"
  shows "one_step w (\<exists>x. q = Inr x) w'
    \<and> (\<forall>r. q = Inr r \<longrightarrow> (\<exists>at. (oi_OccurredAt inp \<noteq> 0 \<longrightarrow> at = oi_OccurredAt inp)
         \<and> open_spec (inp\<lparr> oi_OccurredAt := at, oi_PeriodID := periodOr (oi_PeriodID inp) \<rparr>) (jsonb w)
             (List.find (sameCase (oi_RuleID inp) (oi_Fingerprint inp) (periodOr (oi_PeriodID inp)))
                (t_alerts (w_db w))) r)
         \<and> alert_step (w_db w) (or_Alert r) (or_Event r) (w_db w'))"
  using assms(1) unfolding OpenOrUpdateAlert_def
proof (rule start_time)
  fix t w1
  assume run: "openAttempts 2 (inp\<lparr> oi_OccurredAt := t, oi_PeriodID := periodOr (oi_PeriodID inp) \<rparr>) w1 = (q, w')"
    and w1: "w_db w1 = w_db w" "quiet w w1" and t: "oi_OccurredAt inp \<noteq> 0 \<longrightarrow> t = oi_OccurredAt inp"
  have "jsonb w1 = jsonb w" using w1(2) by (auto simp: quiet_def jsonb_def)
  with openAttempts_result [OF run] w1 assms(2,3) observed_quiet [OF w1(2)] t one_step_trans [OF w1]
  show ?thesis by auto
qed

section \<open>Any sequence of operations\<close>

datatype alertOp =
    DoOpen openAlertInput
  | DoAutoResolve uuid string string uuid time
  | DoAck uuid ack
  | DoResolve uuid resolution
  | DoAccept uuid resolution
  | DoSnooze uuid time string string
  | DoUnsnooze uuid string

definition forget :: "'a act \<Rightarrow> unit act" where
  "forget f = bindA f (\<lambda>_. returnA ())"

fun runAlertOp :: "alertOp \<Rightarrow> unit act" where
  "runAlertOp (DoOpen inp) = forget (OpenOrUpdateAlert inp)"
| "runAlertOp (DoAutoResolve r fp p e at) = forget (AutoResolveAlert r fp p e at)"
| "runAlertOp (DoAck i a) = forget (AckAlert i a)"
| "runAlertOp (DoResolve i r) = forget (ResolveAlertManual i r)"
| "runAlertOp (DoAccept i r) = forget (AcceptAlert i r)"
| "runAlertOp (DoSnooze i t b n) = forget (SnoozeAlert i t b n)"
| "runAlertOp (DoUnsnooze i b) = forget (UnsnoozeAlert i b)"

definition stepA :: "'a act \<Rightarrow> bool" where
  "stepA f \<longleftrightarrow> (\<forall>w q w'. alerts_ok (w_db w) \<longrightarrow> observed w \<longrightarrow> f w = (q, w') \<longrightarrow> one_step w (\<exists>x. q = Inr x) w')"

lemma forget_run: "forget f w = (q, w') \<longleftrightarrow> (\<exists>r. f w = (r, w') \<and> q = (case r of Inl err \<Rightarrow> Inl err | Inr _ \<Rightarrow> Inr ()))"
  by (auto simp: forget_def bindA_def split: prod.splits sum.splits)

lemma stepA_forget:
  assumes "stepA f"
  shows "stepA (forget f)"
  unfolding stepA_def
proof (intro allI impI)
  fix w q w'
  assume ok: "alerts_ok (w_db w)" "observed w" and "forget f w = (q, w')"
  then obtain r where r: "f w = (r, w')" "q = (case r of Inl err \<Rightarrow> Inl err | Inr _ \<Rightarrow> Inr ())"
    by (auto simp: forget_run)
  have "one_step w (\<exists>x. r = Inr x) w'"
    using assms ok r(1) unfolding stepA_def by (elim allE impE)
  moreover have "(\<exists>x. r = Inr x) = (\<exists>x. q = Inr x)" using r(2) by (cases r) auto
  ultimately show "one_step w (\<exists>x. q = Inr x) w'" by simp
qed

lemma stepA_fail: "stepA (failA err)"
  by (auto simp: stepA_def one_step_def)

lemma manual_step: "unit_step eventOf f \<Longrightarrow> quietA f \<Longrightarrow> stepA (manual f)"
  using unit_publish [of eventOf f _ fst]
  by (simp add: stepA_def manual_def eventOf_def case_prod_unfold)

lemma tx_quiet:
  "quietA (ackTx i a)" "quietA (resolveTx i r ty)" "quietA (snoozeTx i sz)" "quietA (unsnoozeTx i b)"
  "quietA (autoResolveTx p r e)"
  unfolding ackTx_def resolveTx_def snoozeTx_def unsnoozeTx_def autoResolveTx_def Let_def
  by (intro quietI)+

lemma stepA_if: "stepA f \<Longrightarrow> stepA g \<Longrightarrow> stepA (if b then f else g)"
  by simp

lemma stepA_start:
  assumes "\<And>t. stepA (k t)"
  shows "stepA (bindA (if IsZero at then tickA goNow else returnA at) k)"
  unfolding stepA_def
proof (intro allI impI)
  fix w q w'
  assume ok: "alerts_ok (w_db w)" "observed w"
    and "bindA (if IsZero at then tickA goNow else returnA at) k w = (q, w')"
  then obtain t w1 where k: "k t w1 = (q, w')" "w_db w1 = w_db w" "quiet w w1" using start_time by metis
  then have "one_step w1 (\<exists>x. q = Inr x) w'"
    using assms [of t] ok observed_quiet [OF k(3)] unfolding stepA_def by simp
  then show "one_step w (\<exists>x. q = Inr x) w'" by (rule one_step_trans [OF k(2,3)])
qed

lemma stepA_now: "(\<And>t. stepA (k t)) \<Longrightarrow> stepA (bindA (tickA goNow) k)"
  using stepA_start [of k 0] by simp

lemma applyResolution_step: "ty = AlertEventResolve \<or> ty = AlertEventAccept \<Longrightarrow> stepA (applyResolution i r ty)"
  unfolding applyResolution_def by (rule manual_step [OF resolve_unit tx_quiet(2)])

lemma AutoResolveAlert_step: "stepA (AutoResolveAlert r fp p e at)"
  unfolding AutoResolveAlert_def Let_def
proof (rule stepA_start)
  fix t
  let ?res = "\<lparr> Res_Kind = ResolutionAuto, Res_By = ''system'', Res_At = t, Res_Note = '''',
                 Res_TransactionRefs = [], Res_EvidenceSnapshot = '''' \<rparr>"
    and ?p = "\<lambda>a. sameCase r fp (periodOr p) a \<and> active a"
  show "stepA (bindA (inTx (autoResolveTx ?p ?res e)) (\<lambda>(resolved, event).
     bindA (publish resolved event) (\<lambda>_. returnA resolved)))"
    using unit_publish [of id "autoResolveTx ?p ?res e" _ fst, OF autoResolve_unit tx_quiet(5)]
    by (simp add: stepA_def case_prod_unfold)
qed

lemma runAlertOp_step: "stepA (runAlertOp op)"
proof (cases op)
  case (DoOpen inp)
  have "stepA (OpenOrUpdateAlert inp)" by (simp add: stepA_def OpenOrUpdateAlert_result)
  with DoOpen show ?thesis by (simp add: stepA_forget)
qed (auto intro!: stepA_forget stepA_fail stepA_if stepA_now manual_step ack_unit snooze_unit unsnooze_unit
      applyResolution_step AutoResolveAlert_step tx_quiet
      simp: AckAlert_def ResolveAlertManual_def AcceptAlert_def SnoozeAlert_def UnsnoozeAlert_def)

fun runAlertOps :: "alertOp list \<Rightarrow> world \<Rightarrow> world" where
  "runAlertOps [] w = w"
| "runAlertOps (op # ops) w = runAlertOps ops (snd (runAlertOp op w))"

section \<open>Properties\<close>

lemma alert_step_events: "alert_step d a ev d' \<Longrightarrow> t_events d' = t_events d @ [ev]"
  by (auto elim: alert_step.cases)

lemma one_step_facts:
  assumes "one_step w b w'" and "alerts_ok (w_db w)"
  shows "alerts_ok (w_db w')" "observed w' = observed w"
    "\<exists>evs. t_events (w_db w') = t_events (w_db w) @ evs
       \<and> map snd (outbox w') = map snd (outbox w) @ filter ev_Notify evs"
proof -
  show "alerts_ok (w_db w')" "observed w' = observed w"
    using assms by (auto simp: one_step_def dest: alert_step_ok)
  from assms(1) consider "w_db w' = w_db w" "outbox w' = outbox w"
    | a ev where "alert_step (w_db w) a ev (w_db w')"
        "outbox w' = outbox w @ (if ev_Notify ev then [(a, ev)] else [])"
    by (auto simp: one_step_def)
  then show "\<exists>evs. t_events (w_db w') = t_events (w_db w) @ evs
       \<and> map snd (outbox w') = map snd (outbox w) @ filter ev_Notify evs"
  proof cases
    case 1
    then show ?thesis by (intro exI [of _ "[]"]) simp
  next
    case 2
    then show ?thesis by (intro exI [of _ "[ev]"]) (simp add: alert_step_events)
  qed
qed

lemma runAlertOp_one_step: "alerts_ok (w_db w) \<Longrightarrow> observed w \<Longrightarrow>
    one_step w (\<exists>x. fst (runAlertOp op w) = Inr x) (snd (runAlertOp op w))"
  using runAlertOp_step [of op] by (simp add: stepA_def)

lemma runAlertOps_facts:
  assumes "alerts_ok (w_db w)" and "observed w"
  shows "alerts_ok (w_db (runAlertOps ops w)) \<and> (\<exists>evs. t_events (w_db (runAlertOps ops w)) = t_events (w_db w) @ evs
     \<and> map snd (outbox (runAlertOps ops w)) = map snd (outbox w) @ filter ev_Notify evs)"
  using assms
proof (induction ops arbitrary: w)
  case Nil
  then show ?case by simp
next
  case (Cons op ops)
  let ?w = "snd (runAlertOp op w)"
  note step = one_step_facts [OF runAlertOp_one_step [OF Cons.prems, of op] Cons.prems(1)]
  from step(3) obtain evs where evs: "t_events (w_db ?w) = t_events (w_db w) @ evs"
    "map snd (outbox ?w) = map snd (outbox w) @ filter ev_Notify evs" by (elim exE conjE)
  have "observed ?w" using step(2) Cons.prems(2) by simp
  from Cons.IH [OF step(1) this] obtain evs' where "alerts_ok (w_db (runAlertOps ops ?w))"
    "t_events (w_db (runAlertOps ops ?w)) = t_events (w_db ?w) @ evs'"
    "map snd (outbox (runAlertOps ops ?w)) = map snd (outbox ?w) @ filter ev_Notify evs'" by (elim conjE exE)
  with evs show ?case by (intro conjI exI [of _ "evs @ evs'"]) simp_all
qed

text \<open>
  C4. Every alert operation refines the lifecycle. From tables in order, whatever statement or
  commit fails, an operation that fails changes no table and emits no message; one that succeeds
  either changes nothing, or opens or moves exactly one row along the lifecycle, appends exactly
  one event that starts at the row's previous status and ends at its new one, and emits that
  event exactly if it notifies.
\<close>

theorem alert_operation_refines:
  assumes "alerts_ok (w_db w)" and "observed w" and "runAlertOp op w = (q, w')"
  shows "(w_db w' = w_db w \<and> outbox w' = outbox w)
    \<or> (q = Inr () \<and> (\<exists>a ev. alert_step (w_db w) a ev (w_db w')
          \<and> outbox w' = outbox w @ (if ev_Notify ev then [(a, ev)] else [])))"
  using runAlertOp_one_step [OF assms(1,2), of op] assms(3) by (auto simp: one_step_def)

text \<open>
  C5. The event log is the history of the alert. After any sequence of operations, from tables in
  order, there is one row per rule, fingerprint and period; each row agrees with itself (resolved
  exactly when it carries a resolution, never both resolved and snoozed, acknowledged with its
  acknowledgement); its log is a chain of allowed transitions ending in its status; and its
  occurrence count is the number of failures logged.
\<close>

theorem alert_log_replays:
  assumes "alerts_ok (w_db w)" and "observed w" and "a \<in> set (t_alerts (w_db (runAlertOps ops w)))"
  shows "row_ok a \<and> log_ok a (log_of (w_db (runAlertOps ops w)) a)
    \<and> (\<forall>b\<in>set (t_alerts (w_db (runAlertOps ops w))). case_of b = case_of a \<longrightarrow> b = a)"
  using runAlertOps_facts [OF assms(1,2), of ops] assms(3)
  by (auto simp: alerts_ok_def dest: distinct_map_eq)

text \<open>
  Publication is exact: after any sequence of operations, the messages emitted are the logged
  events whose notify flag is set, each once and in the order of the log.
\<close>

theorem published_is_log:
  assumes "alerts_ok (w_db w)" and "observed w"
  shows "\<exists>evs. t_events (w_db (runAlertOps ops w)) = t_events (w_db w) @ evs
    \<and> map snd (outbox (runAlertOps ops w)) = map snd (outbox w) @ filter ev_Notify evs"
  using runAlertOps_facts [OF assms] by simp

text \<open>
  C17. Deduplication and notification. A reported failure that is stored opens a new alert exactly
  when the case (rule, fingerprint, period) has none, and then notifies; otherwise it moves the
  one alert of the case to OPEN, counts the occurrence, keeps its identity and first sighting, and
  clears acknowledgement and resolution. It notifies unless a snooze is still running or the
  alert was open, not snoozed, and the evidence is the same; a snooze that has run out is cleared.
\<close>

theorem OpenOrUpdateAlert_dedup:
  assumes "alerts_ok (w_db w)" and "observed w" and "OpenOrUpdateAlert inp w = (Inr r, w')"
    and "oi_OccurredAt inp \<noteq> 0"
  shows "let old = List.find (sameCase (oi_RuleID inp) (oi_Fingerprint inp) (periodOr (oi_PeriodID inp))) (t_alerts (w_db w));
      a = or_Alert r; ev = or_Event r; at = oi_OccurredAt inp in
    case_of a = (oi_RuleID inp, oi_Fingerprint inp, periodOr (oi_PeriodID inp))
    \<and> alert_Status a = AlertOpen \<and> alert_Ack a = None \<and> alert_Resolution a = None
    \<and> or_Created r = (old = None)
    \<and> (case old of
         None \<Rightarrow> alert_OccurrenceCount a = 1 \<and> ev_Notify ev
       | Some b \<Rightarrow> alert_ID a = alert_ID b \<and> alert_OccurrenceCount a = alert_OccurrenceCount b + 1
           \<and> alert_FirstSeenAt a = alert_FirstSeenAt b
           \<and> alert_Snooze a = (if snoozeActive b at then alert_Snooze b else None)
           \<and> ev_PrevStatus ev = Some (alert_Status b)
           \<and> (ev_Notify ev \<longleftrightarrow> \<not> snoozeActive b at
                \<and> (alert_Snooze b \<noteq> None \<or> alert_Status b \<noteq> AlertOpen
                   \<or> \<not> sameEvidenceJSON (alert_Evidence b) (oi_Evidence inp))))"
  using OpenOrUpdateAlert_result [OF assms(3,1,2)] assms(4)
  by (auto simp: open_spec_def Let_def split: option.splits)

lemmas op_runs [code] = forget_def [THEN fun_cong] runAlertOp.simps [THEN fun_cong]

section \<open>A life of one alert\<close>

definition exampleRule :: rule where
  "exampleRule = \<lparr> rule_ID = 3, rule_Name = ''r'', rule_TemplateKind = TemplateLedgerVsPoolDrift,
     rule_TemplateSpec = '''', rule_ExplanationCEL = '''', rule_Enabled = True, rule_Severity = SeverityHigh,
     rule_PeriodType = PeriodTypeContinuous, rule_Schedule = None, rule_Notifications = [], rule_Labels = [],
     rule_Revision = 1, rule_NextRunAt = None, rule_CreatedAt = 1, rule_UpdatedAt = 1 \<rparr>"

definition exampleEvaluation :: evaluation where
  "exampleEvaluation = \<lparr> eval_ID = 6, eval_RuleID = 3, eval_StartedAt = 1, eval_EndedAt = 2, eval_PitPerSource = [],
     eval_Result = EvaluationFail, eval_Evidence = '''', eval_Error = '''', eval_CostUnits = 0,
     eval_ScheduledAt = None, eval_RuleRevision = None, eval_CreatedAt = 2 \<rparr>"

definition alertWorld :: world where
  "alertWorld = emptyWorld\<lparr> w_db := \<lparr> t_rules = [exampleRule], t_evaluations = [exampleEvaluation],
     t_alerts = [], t_events = [], t_jobs = [], t_policies = [], t_reconciliations = [] \<rparr>, w_clock := \<lambda>n. int n * second \<rparr>"

definition exampleInput :: "rawJSON \<Rightarrow> time \<Rightarrow> openAlertInput" where
  "exampleInput evidence at = \<lparr> oi_RuleID = 3, oi_Fingerprint = ''asset:E'', oi_PeriodID = '''',
     oi_Severity = SeverityHigh, oi_EvaluationID = 6, oi_Evidence = evidence, oi_Labels = [], oi_OccurredAt = at \<rparr>"

definition exampleOps :: "alertOp list" where
  "exampleOps =
    [DoOpen (exampleInput ''[1]'' (30 * second)), DoOpen (exampleInput ''[ 1]'' (31 * second)),
     DoAck 100 \<lparr> Ack_By = ''bob'', Ack_At = 32 * second, Ack_Note = '''' \<rparr>, DoOpen (exampleInput ''[1]'' (33 * second)),
     DoSnooze 100 minute ''bob'' '''', DoOpen (exampleInput ''[2]'' (50 * second)), DoOpen (exampleInput ''[2]'' (95 * second)),
     DoAutoResolve 3 ''asset:E'' '''' 6 (96 * second), DoOpen (exampleInput ''[2]'' (97 * second))]"

lemma example_run:
  "map ev_Notify (t_events (w_db (runAlertOps exampleOps alertWorld)))
     = [True, False, True, True, True, False, True, True, True]
   \<and> map alert_OccurrenceCount (t_alerts (w_db (runAlertOps exampleOps alertWorld))) = [6]"
  by code_simp

lemma example_start: "alerts_ok (w_db alertWorld)" "observed alertWorld" "t_events (w_db alertWorld) = []"
  "t_alerts (w_db alertWorld) = []" "outbox alertWorld = []"
  by (simp_all add: alertWorld_def alerts_ok_def observed_def outbox_def emptyWorld_def)

lemma example_open:
  "case OpenOrUpdateAlert (exampleInput ''[1]'' (30 * second)) alertWorld of (q, w') \<Rightarrow>
     (case q of Inr r \<Rightarrow> ev_ID (or_Event r) = 101 | _ \<Rightarrow> False) \<and> length (t_events (w_db w')) = 1"
  by code_simp

theorem alert_operation_refines_witness:
  "\<exists>a ev w'. runAlertOp (DoOpen (exampleInput ''[1]'' (30 * second))) alertWorld = (Inr (), w')
     \<and> alert_step (w_db alertWorld) a ev (w_db w') \<and> outbox w' = (if ev_Notify ev then [(a, ev)] else [])"
proof -
  obtain q w' where run: "runAlertOp (DoOpen (exampleInput ''[1]'' (30 * second))) alertWorld = (q, w')" by fastforce
  have "length (t_events (w_db w')) = 1"
    using run example_open by (auto simp: forget_run split: prod.splits)
  then have "w_db w' \<noteq> w_db alertWorld" using example_start(3) by auto
  then show ?thesis
    using alert_operation_refines [OF example_start(1,2) run] run example_start(5) by auto
qed

theorem alert_log_replays_witness:
  "\<exists>a. t_alerts (w_db (runAlertOps exampleOps alertWorld)) = [a] \<and> alert_OccurrenceCount a = 6
     \<and> row_ok a \<and> log_ok a (log_of (w_db (runAlertOps exampleOps alertWorld)) a)"
proof -
  obtain a where a: "t_alerts (w_db (runAlertOps exampleOps alertWorld)) = [a]" "alert_OccurrenceCount a = 6"
    using example_run by (auto simp: Cons_eq_map_conv map_eq_Cons_conv)
  then show ?thesis using alert_log_replays [OF example_start(1,2), of a exampleOps] by simp
qed

theorem published_is_log_witness:
  "map snd (outbox (runAlertOps exampleOps alertWorld)) = filter ev_Notify (t_events (w_db (runAlertOps exampleOps alertWorld)))
   \<and> length (t_events (w_db (runAlertOps exampleOps alertWorld))) = 9"
  using published_is_log [OF example_start(1,2), of exampleOps] example_run
  by (auto simp: example_start dest: arg_cong [of _ _ length])

theorem OpenOrUpdateAlert_dedup_witness:
  "\<exists>r w'. OpenOrUpdateAlert (exampleInput ''[1]'' (30 * second)) alertWorld = (Inr r, w')
     \<and> or_Created r \<and> alert_OccurrenceCount (or_Alert r) = 1 \<and> ev_Notify (or_Event r)"
proof -
  obtain r w' where run: "OpenOrUpdateAlert (exampleInput ''[1]'' (30 * second)) alertWorld = (Inr r, w')"
    using example_open by (auto split: prod.splits sum.splits)
  have "oi_OccurredAt (exampleInput ''[1]'' (30 * second)) \<noteq> 0" by (simp add: exampleInput_def)
  from OpenOrUpdateAlert_dedup [OF example_start(1,2) run this] run
  show ?thesis by (auto simp: example_start Let_def)
qed

end
