(* ===== verification/AlertContract.thy ===== *)
theory AlertContract
  imports Runner AlertLifecycle
begin

text \<open>
  The alert methods of the SQL store keep the contract the runner relies on: the locale
  \<open>alert_store\<close> interpreted on \<open>sqlStore\<close>.
\<close>

section \<open>The active fingerprints of the tables\<close>

definition activeFps :: "db \<Rightarrow> uuid \<Rightarrow> string \<Rightarrow> string set" where
  "activeFps d r p = alert_Fingerprint ` set (filter (\<lambda>a. alert_RuleID a = r \<and> alert_PeriodID a = p \<and> active a) (t_alerts d))"

lemma activeFps_iff: "fp \<in> activeFps d r p \<longleftrightarrow> (\<exists>a\<in>set (t_alerts d). case_of a = (r, fp, p) \<and> active a)"
  by (auto simp: activeFps_def case_of_def)

lemma activeFps_alerts: "t_alerts d' = t_alerts d \<Longrightarrow> activeFps d' = activeFps d"
  by (simp add: activeFps_def fun_eq_iff)

text \<open>A step of the lifecycle changes the case of its alert and no other.\<close>

lemma activeFps_step:
  assumes step: "alert_step d a ev d'" and ok: "alerts_ok d" and c: "case_of a = (r, fp, p)"
  shows "activeFps d' = set_active r p (if active a then insert fp else (\<lambda>F. F - {fp})) (activeFps d)"
proof -
  have uniq: "b = b'" if "b \<in> set (t_alerts d)" "b' \<in> set (t_alerts d)" "case_of b = case_of b'" for b b'
    using ok distinct_map_eq [of case_of "t_alerts d" b b'] that unfolding alerts_ok_def by blast
  have mem: "b \<in> set (t_alerts d') \<longleftrightarrow> b = a \<or> b \<in> set (t_alerts d) \<and> case_of b \<noteq> case_of a" for b
    using step
  proof cases
    case opened
    then show ?thesis by (auto simp: sameCase_case_of case_of_def)
  next
    case (moved a0)
    have ids: "alert_ID b = alert_ID a0 \<longleftrightarrow> b = a0" if "b \<in> set (t_alerts d)" for b
      using ok distinct_map_eq [of alert_ID "t_alerts d" b a0] that moved(2) unfolding alerts_ok_def by blast
    have "case_of a = case_of a0" using moved(3) by (simp add: sameIdentity_iff)
    then have "case_of b = case_of a \<longleftrightarrow> b = a0" if "b \<in> set (t_alerts d)" for b using uniq [OF that moved(2)] by auto
    with ids moved(1,2) show ?thesis by (auto simp: set_upd_where)
  qed
  have "f \<in> activeFps d' r' p' \<longleftrightarrow> f \<in> set_active r p (if active a then insert fp else (\<lambda>F. F - {fp})) (activeFps d) r' p'"
    for f r' p'
  proof (cases "case_of a = (r', f, p')")
    case True
    then have "f \<in> activeFps d' r' p' \<longleftrightarrow> active a" by (auto simp: activeFps_iff mem)
    with True c show ?thesis by (simp add: set_active_def)
  next
    case False
    then have "f \<in> activeFps d' r' p' \<longleftrightarrow> f \<in> activeFps d r' p'" by (auto simp: activeFps_iff mem)
    with False c show ?thesis by (auto simp: set_active_def)
  qed
  then show ?thesis by (intro ext set_eqI)
qed

section \<open>The contract\<close>

text \<open>The driver reports \<open>sql.ErrNoRows\<close> only when no row matches.\<close>

definition honest :: "world \<Rightarrow> bool" where
  "honest w \<longleftrightarrow> (\<forall>n err. w_fault w n = Some err \<longrightarrow> \<not> errors_Is err SqlErrNoRows)"

definition alert_world :: "world \<Rightarrow> bool" where
  "alert_world w \<longleftrightarrow> alerts_ok (w_db w) \<and> observed w \<and> honest w"

lemma alert_world_step: "alert_world w \<Longrightarrow> one_step w b w' \<Longrightarrow> alert_world w'"
  unfolding alert_world_def one_step_def honest_def by (auto intro: alert_step_ok)

lemma autoResolveTx_result:
  assumes run: "autoResolveTx p res i w = (Inr (ao, eo), w')" and ok: "alerts_ok (w_db w)" and honest: "honest w"
    and p: "\<And>a. p a \<Longrightarrow> active a"
  shows "(ao = None \<and> w_db w' = w_db w \<and> (\<forall>a\<in>set (t_alerts (w_db w)). \<not> p a))
    \<or> (\<exists>a ev b. ao = Some a \<and> alert_step (w_db w) a ev (w_db w') \<and> p b \<and> case_of a = case_of b \<and> \<not> active a)"
  using run unfolding autoResolveTx_def
proof (cases rule: select_cases)
  case (1 a)
  then have "row_ok a" "active a" using ok p by (simp_all add: alerts_ok_def)
  let ?w = "w\<lparr> w_stmts := w_stmts w + 1 \<rparr>"
  let ?f = "\<lambda>w a. (close_alert res w a)\<lparr> alert_LastEvaluationID := i \<rparr>"
  have "\<exists>ev. (ao, eo) = (Some ((?f ?w a)\<lparr> alert_UpdatedAt := w_dbnow ?w \<rparr>), Some ev)
      \<and> alert_step (w_db ?w) ((?f ?w a)\<lparr> alert_UpdatedAt := w_dbnow ?w \<rparr>) ev (w_db w')"
    using transition_step [OF 1(1) [unfolded sum.case] refl refl] 1(2) ok \<open>row_ok a\<close> \<open>active a\<close>
    by (auto simp: transition_simps jsonb_def)
  then obtain ev where "ao = Some ((?f ?w a)\<lparr> alert_UpdatedAt := w_dbnow ?w \<rparr>)"
    "alert_step (w_db w) ((?f ?w a)\<lparr> alert_UpdatedAt := w_dbnow ?w \<rparr>) ev (w_db w')" by auto
  moreover have "case_of ((?f ?w a)\<lparr> alert_UpdatedAt := w_dbnow ?w \<rparr>) = case_of a"
    "\<not> active ((?f ?w a)\<lparr> alert_UpdatedAt := w_dbnow ?w \<rparr>)"
    by (simp_all add: close_alert_def case_of_def active_iff)
  ultimately show ?thesis using 1(3) by blast
next
  case (2 err)
  then have "err = noRows \<and> List.find p (t_alerts (w_db w)) = None \<and> ao = None \<and> w_db w' = w_db w"
    using honest by (auto simp: honest_def split: if_splits)
  then show ?thesis by (auto simp: find_none_iff)
qed

lemma AutoResolveAlert_active:
  assumes run: "AutoResolveAlert r fp p i at w = (Inr y, w')" and w: "alert_world w"
  shows "alert_world w' \<and> activeFps (w_db w') = set_active r (periodOr p) (\<lambda>F. F - {fp}) (activeFps (w_db w))"
proof
  have ok: "alerts_ok (w_db w)" "observed w" "honest w" using w by (simp_all add: alert_world_def)
  show "alert_world w'"
    using AutoResolveAlert_step [of r fp p i at] run ok alert_world_step [OF w] unfolding stepA_def by blast
  from run obtain t w1 where run1: "bindA (inTx (autoResolveTx (\<lambda>a. sameCase r fp (periodOr p) a \<and> active a)
        \<lparr> Res_Kind = ResolutionAuto, Res_By = ''system'', Res_At = t, Res_Note = '''', Res_TransactionRefs = [],
          Res_EvidenceSnapshot = '''' \<rparr> i)) (\<lambda>(resolved, event). bindA (publish resolved event) (\<lambda>_. returnA resolved)) w1
      = (Inr y, w')"
    and w1: "w_db w1 = w_db w" "quiet w w1"
    unfolding AutoResolveAlert_def Let_def by (rule start_time) (rule that)
  then obtain ao eo w2 where tx: "autoResolveTx (\<lambda>a. sameCase r fp (periodOr p) a \<and> active a)
        \<lparr> Res_Kind = ResolutionAuto, Res_By = ''system'', Res_At = t, Res_Note = '''', Res_TransactionRefs = [],
          Res_EvidenceSnapshot = '''' \<rparr> i w1 = (Inr (ao, eo), w2)" and db: "w_db w' = w_db w2"
    by (auto simp: act_dest publish_run dest!: inTx_Inr split: option.splits)
  have w1': "alerts_ok (w_db w1)" "honest w1"
    using ok w1 by (simp_all add: honest_def observed_quiet(2))
  from autoResolveTx_result [OF tx w1'] have "(ao = None \<and> w_db w2 = w_db w1
        \<and> (\<forall>a\<in>set (t_alerts (w_db w1)). \<not> (sameCase r fp (periodOr p) a \<and> active a)))
    \<or> (\<exists>a ev b. ao = Some a \<and> alert_step (w_db w1) a ev (w_db w2) \<and> (sameCase r fp (periodOr p) b \<and> active b)
        \<and> case_of a = case_of b \<and> \<not> active a)" by simp
  then show "activeFps (w_db w') = set_active r (periodOr p) (\<lambda>F. F - {fp}) (activeFps (w_db w))"
  proof (elim disjE exE conjE)
    assume "w_db w2 = w_db w1" and none: "\<forall>a\<in>set (t_alerts (w_db w1)). \<not> (sameCase r fp (periodOr p) a \<and> active a)"
    moreover have "fp \<notin> activeFps (w_db w) r (periodOr p)"
      using none w1(1) by (auto simp: activeFps_iff sameCase_case_of)
    ultimately show ?thesis using db w1(1) by (auto simp: set_active_def fun_eq_iff)
  next
    fix a ev b assume step: "alert_step (w_db w1) a ev (w_db w2)" and b: "sameCase r fp (periodOr p) b"
      "case_of a = case_of b" and closed: "\<not> active a"
    from activeFps_step [OF step w1'(1), of r fp "periodOr p"] b closed db w1(1)
    show ?thesis by (simp add: sameCase_case_of)
  qed
qed

lemma OpenOrUpdateAlert_active:
  assumes run: "OpenOrUpdateAlert inp w = (Inr x, w')" and w: "alert_world w"
  shows "alert_world w' \<and> activeFps (w_db w') = set_active (oi_RuleID inp) (periodOr (oi_PeriodID inp))
    (insert (oi_Fingerprint inp)) (activeFps (w_db w))"
proof -
  have ok: "alerts_ok (w_db w)" "observed w" using w by (simp_all add: alert_world_def)
  note res = OpenOrUpdateAlert_result [OF run ok]
  then obtain at where "open_spec (inp\<lparr> oi_OccurredAt := at, oi_PeriodID := periodOr (oi_PeriodID inp) \<rparr>) (jsonb w)
             (List.find (sameCase (oi_RuleID inp) (oi_Fingerprint inp) (periodOr (oi_PeriodID inp))) (t_alerts (w_db w))) x"
    and step: "alert_step (w_db w) (or_Alert x) (or_Event x) (w_db w')" by blast
  then have "case_of (or_Alert x) = (oi_RuleID inp, oi_Fingerprint inp, periodOr (oi_PeriodID inp))" "active (or_Alert x)"
    by (simp_all add: open_spec_def Let_def active_iff)
  from activeFps_step [OF step ok(1) this(1)] this(2) alert_world_step [OF w] res show ?thesis by auto
qed

lemma ListActive_active:
  assumes run: "ListActiveAlertFingerprints r p w = (Inr fps, w')" and w: "alert_world w"
  shows "alert_world w' \<and> w_db w' = w_db w \<and> set fps = activeFps (w_db w) r (periodOr p)"
proof -
  obtain rows where sel: "selectMany t_alerts (\<lambda>a. alert_RuleID a = r \<and> alert_PeriodID a = periodOr p \<and> active a) w
      = (Inr rows, w')" "fps = map alert_Fingerprint rows"
    using run by (auto simp: ListActiveAlertFingerprints_def act_dest)
  from selectMany_Inr [OF sel(1)] sel(2) w show ?thesis
    by (auto simp: alert_world_def observed_def honest_def activeFps_def)
qed

text \<open>The tables the alert methods leave alone.\<close>

definition rest_of :: "db \<Rightarrow> rule list \<times> evaluation list \<times> evaluationJob list" where
  "rest_of d = (t_rules d, t_evaluations d, t_jobs d)"

definition alert_frame :: "rule list \<times> evaluation list \<times> evaluationJob list \<Rightarrow> world \<Rightarrow> bool" where
  "alert_frame X w \<longleftrightarrow> alert_world w \<and> rest_of (w_db w) = X"

lemma one_step_rest: "one_step w b w' \<Longrightarrow> rest_of (w_db w') = rest_of (w_db w)"
  by (auto simp: one_step_def rest_of_def elim: alert_step.cases)

lemma sql_rest:
  assumes w: "alert_world w"
  shows "OpenOrUpdateAlert inp w = (q, w') \<Longrightarrow> rest_of (w_db w') = rest_of (w_db w)"
    and "AutoResolveAlert r fp p i at w = (u, w') \<Longrightarrow> rest_of (w_db w') = rest_of (w_db w)"
proof -
  have ok: "alerts_ok (w_db w)" "observed w" using w by (simp_all add: alert_world_def)
  show "OpenOrUpdateAlert inp w = (q, w') \<Longrightarrow> rest_of (w_db w') = rest_of (w_db w)"
    using OpenOrUpdateAlert_result [OF _ ok] one_step_rest by blast
  show "AutoResolveAlert r fp p i at w = (u, w') \<Longrightarrow> rest_of (w_db w') = rest_of (w_db w)"
    using AutoResolveAlert_step [of r fp p i at] ok one_step_rest unfolding stepA_def by blast
qed

interpretation sql: alert_store sqlStore "alert_frame X" activeFps for X
  by unfold_locales
    (auto simp: alert_frame_def dest: OpenOrUpdateAlert_active AutoResolveAlert_active ListActive_active sql_rest)

end
