(* ===== verification/JobLifecycle.thy ===== *)
theory JobLifecycle
  imports JobStore
begin

text \<open>
  What the job queue promises: which occurrences the planner turns into jobs, that the rows of the
  queue keep their constraints and only move forward, that a lost claim changes nothing, and that
  a revised rule obsoletes the jobs of its old revisions.
\<close>

section \<open>The occurrences of a schedule\<close>

text \<open>The occurrences from \<open>t\<close> up to \<open>now\<close>, and the first one after them (zero when there is none).\<close>

inductive occurrences :: "(time \<Rightarrow> gerror + time) \<Rightarrow> time \<Rightarrow> time \<Rightarrow> time list \<Rightarrow> time \<Rightarrow> bool"
  for nextOf now where
  past: "t = 0 \<or> now < t \<Longrightarrow> occurrences nextOf now t [] t"
| fires: "t \<noteq> 0 \<Longrightarrow> t \<le> now \<Longrightarrow> nextOf t = Inr u \<Longrightarrow> occurrences nextOf now u os c \<Longrightarrow>
    occurrences nextOf now t (t # os) c"

inductive_cases occurrences_NilE: "occurrences nextOf now t [] c"

definition newest :: "nat \<Rightarrow> 'a list \<Rightarrow> 'a list" where
  "newest n xs = drop (length xs - n) xs"

text \<open>The documented behaviour of a cron schedule: the next occurrence is later, or there is none.\<close>

definition advancing :: "(time \<Rightarrow> gerror + time) \<Rightarrow> bool" where
  "advancing nextOf \<longleftrightarrow> (\<forall>t u. nextOf t = Inr u \<longrightarrow> u = 0 \<or> t < u)"

lemma collect_occurrences:
  assumes "occurrences nextOf now t os c" and "0 < n" and "length acc \<le> n"
  shows "collect nextOf now n t acc sk =
    Some (Inr (newest n (acc @ os), sk + (length (acc @ os) - n), c))"
  using assms
proof (induction arbitrary: acc sk rule: occurrences.induct)
  case (past t)
  then show ?case by (subst collect.simps) (auto simp: newest_def)
next
  case (fires t u os c)
  show ?case
  proof (cases "length acc = n")
    case True
    then have "collect nextOf now n t acc sk = collect nextOf now n u (tl acc @ [t]) (sk + 1)"
      using fires.hyps by (subst collect.simps) simp
    also have "\<dots> = Some (Inr (newest n ((tl acc @ [t]) @ os), sk + 1 + (length ((tl acc @ [t]) @ os) - n), c))"
      using True fires.prems by (intro fires.IH) auto
    finally show ?thesis
      using True fires.prems(1) by (cases acc) (auto simp: newest_def)
  next
    case False
    then have "collect nextOf now n t acc sk = collect nextOf now n u (acc @ [t]) sk"
      using fires.hyps by (subst collect.simps) simp
    also have "\<dots> = Some (Inr (newest n ((acc @ [t]) @ os), sk + (length ((acc @ [t]) @ os) - n), c))"
      using False fires.prems by (intro fires.IH) auto
    finally show ?thesis by simp
  qed
qed

lemma collect_returns:
  assumes "advancing nextOf"
  shows "(\<exists>err. collect nextOf now n t acc sk = Some (Inl err)) \<or> (\<exists>os c. occurrences nextOf now t os c)"
proof (induction "nat (now - t)" arbitrary: t acc sk rule: less_induct)
  case less
  show ?case
  proof (cases "t = 0 \<or> now < t")
    case True
    then show ?thesis by (auto intro: occurrences.past)
  next
    case False
    show ?thesis
    proof (cases "nextOf t")
      case (Inl err)
      then show ?thesis using False by (subst collect.simps) auto
    next
      case (Inr u)
      then have "u = 0 \<or> t < u" using assms unfolding advancing_def by blast
      then have IH: "(\<exists>err. collect nextOf now n u acc' sk' = Some (Inl err)) \<or> (\<exists>os c. occurrences nextOf now u os c)"
        for acc' sk'
      proof
        assume "u = 0" then show ?thesis by (auto intro: occurrences.past)
      next
        assume tu: "t < u"
        show ?thesis
        proof (cases "now < u")
          case True then show ?thesis by (auto intro: occurrences.past)
        next
          case False then show ?thesis using tu by (intro less) auto
        qed
      qed
      show ?thesis
      proof (cases "\<exists>os c. occurrences nextOf now u os c")
        case True
        then obtain os c where "occurrences nextOf now u os c" by blast
        then have "occurrences nextOf now t (t # os) c"
          using False Inr by (intro occurrences.fires) auto
        then show ?thesis by blast
      next
        case nonterm: False
        then have "\<exists>err. collect nextOf now n u acc' sk' = Some (Inl err)" for acc' sk'
          using IH by blast
        then show ?thesis using False Inr by (subst collect.simps) (auto simp: Let_def)
      qed
    qed
  qed
qed

lemma occurrences_bounds: "occurrences nextOf now t os c \<Longrightarrow> (\<forall>o'\<in>set os. o' \<le> now) \<and> (c = 0 \<or> now < c)"
  by (induction rule: occurrences.induct) auto

lemma occurrences_sorted:
  assumes "advancing nextOf"
  shows "occurrences nextOf now t os c \<Longrightarrow> sorted_wrt (<) os \<and> (\<forall>at\<in>set os. t \<le> at)"
proof (induction rule: occurrences.induct)
  case (fires t u os c)
  have "u = 0 \<or> t < u" using assms fires.hyps(3) unfolding advancing_def by blast
  moreover have "u = 0 \<Longrightarrow> os = []" using fires.hyps(4) by (auto elim: occurrences.cases)
  ultimately show ?case using fires.IH by fastforce
qed simp

lemma newest_subset: "set (newest n xs) \<subseteq> set xs" "length (newest n xs) \<le> n"
  by (auto simp: newest_def dest: in_set_dropD)

lemma newest_distinct: "sorted_wrt (<) (os :: time list) \<Longrightarrow> distinct (newest n os)"
  unfolding newest_def by (intro distinct_drop) (auto simp: strict_sorted_iff)

section \<open>Statements on jobs and rules\<close>

definition rows_ok :: "db \<Rightarrow> bool" where
  "rows_ok d \<longleftrightarrow> distinct (map rule_ID (t_rules d))"

definition occurrence_of :: "evaluationJob \<Rightarrow> uuid \<times> int \<times> time" where
  "occurrence_of j = (job_RuleID j, job_RuleRevision j, job_ScheduledAt j)"

definition jobs_ok :: "db \<Rightarrow> bool" where
  "jobs_ok d \<longleftrightarrow> distinct (map job_ID (t_jobs d)) \<and> distinct (map occurrence_of (t_jobs d))
     \<and> (\<forall>j\<in>set (t_jobs d). job_chk j)"

lemma sameOccurrence_iff: "sameOccurrence r v t j \<longleftrightarrow> occurrence_of j = (r, v, t)"
  by (simp add: sameOccurrence_def occurrence_of_def)

lemma plainWrap_Inr [simp]: "plainWrap m f w = (Inr a, w') \<longleftrightarrow> f w = (Inr a, w')"
  by (auto simp: plainWrap_def split: prod.splits sum.splits)

lemma plainWrap_Inl: "plainWrap m f w = (Inl err, w') \<longleftrightarrow> (\<exists>err'. f w = (Inl err', w') \<and> err = wrap_error m err')"
  by (auto simp: plainWrap_def split: prod.splits sum.splits)

lemma ofSum_iff [simp]: "ofSum s w = (q, w') \<longleftrightarrow> s = q \<and> w' = w"
  by (cases s) (auto simp: ofSum_def)

lemma selectNow_Inr: "selectNow w = (Inr t, w') \<Longrightarrow> t = w_dbnow w \<and> w' = w\<lparr> w_stmts := w_stmts w + 1 \<rparr>"
  by (auto simp: selectNow_def split: option.splits)

lemma insertJob_Inr:
  assumes "insertJob j w = (Inr b, w')"
  shows "quiet w w' \<and> (if b then w_db w' = (w_db w)\<lparr> t_jobs := t_jobs (w_db w)
      @ [j\<lparr> job_CreatedAt := w_dbnow w, job_UpdatedAt := w_dbnow w \<rparr>] \<rparr>
        \<and> job_chk j \<and> (\<forall>k\<in>set (t_jobs (w_db w)). job_ID k \<noteq> job_ID j \<and> occurrence_of k \<noteq> occurrence_of j)
      else w_db w' = w_db w \<and> (\<exists>k\<in>set (t_jobs (w_db w)). occurrence_of k = occurrence_of j))"
  using assms unfolding insertJob_def
  by (auto simp: Let_def quiet_def exists_row_iff sameOccurrence_def occurrence_of_def
      dest!: execute_Inr split: if_splits)

lemma job_chk_times [simp]: "job_chk (j\<lparr> job_CreatedAt := a, job_UpdatedAt := b \<rparr>) = job_chk j"
  "job_chk (j\<lparr> job_UpdatedAt := b \<rparr>) = job_chk j"
  by (simp_all add: job_chk_def)

lemma jobs_ok_snoc:
  assumes "jobs_ok d" and "job_chk j"
    and "\<forall>k\<in>set (t_jobs d). job_ID k \<noteq> job_ID j \<and> occurrence_of k \<noteq> occurrence_of j"
  shows "jobs_ok (d\<lparr> t_jobs := t_jobs d @ [j] \<rparr>)"
  using assms by (auto simp: jobs_ok_def)

text \<open>The rows the planner adds for the occurrences \<open>ats\<close> of a rule, and those that have no row yet.\<close>

definition from_rule :: "rule \<Rightarrow> time \<Rightarrow> time set \<Rightarrow> evaluationJob \<Rightarrow> bool" where
  "from_rule r now ats j \<longleftrightarrow> job_RuleID j = rule_ID r \<and> job_RuleRevision j = rule_Revision r
     \<and> job_ScheduledAt j \<in> ats \<and> job_Status j = EvaluationJobPending \<and> job_Attempts j = 0
     \<and> job_AvailableAt j = now"

definition unplanned :: "db \<Rightarrow> rule \<Rightarrow> time \<Rightarrow> bool" where
  "unplanned d r at \<longleftrightarrow> (\<forall>j\<in>set (t_jobs d). occurrence_of j \<noteq> (rule_ID r, rule_Revision r, at))"

lemma insertOccurrences_Inr:
  "insertOccurrences r now ats res w = (Inr res', w') \<Longrightarrow> distinct ats \<Longrightarrow>
    \<exists>new. w_db w' = (w_db w)\<lparr> t_jobs := t_jobs (w_db w) @ new \<rparr> \<and> quiet w w'
      \<and> map job_ScheduledAt new = filter (unplanned (w_db w) r) ats \<and> (\<forall>j\<in>set new. from_rule r now (set ats) j)
      \<and> (jobs_ok (w_db w) \<longrightarrow> jobs_ok (w_db w'))"
proof (induction ats arbitrary: res w)
  case Nil
  then show ?case by (auto intro: exI [of _ "[]"])
next
  case (Cons at ats)
  from Cons.prems obtain b w1 i res1 where
    ins: "insertJob \<lparr> job_ID = i, job_RuleID = rule_ID r, job_RuleRevision = rule_Revision r, job_ScheduledAt = at,
         job_Status = EvaluationJobPending, job_Attempts = 0, job_AvailableAt = now, job_LeaseUntil = None,
         job_ClaimToken = None, job_LastError = '''', job_CreatedAt = 0, job_UpdatedAt = 0 \<rparr>
         (w\<lparr> w_uuids := w_uuids w + 1 \<rparr>) = (Inr b, w1)" (is "insertJob ?j _ = _")
    and rest: "insertOccurrences r now ats res1 w1 = (Inr res', w')"
    by (auto simp: act_dest)
  obtain new where new: "w_db w' = (w_db w1)\<lparr> t_jobs := t_jobs (w_db w1) @ new \<rparr>" "quiet w1 w'"
      "map job_ScheduledAt new = filter (unplanned (w_db w1) r) ats" "\<forall>j\<in>set new. from_rule r now (set ats) j"
      "jobs_ok (w_db w1) \<longrightarrow> jobs_ok (w_db w')"
    using Cons.IH [OF rest] Cons.prems(2) by auto
  have j: "occurrence_of ?j = (rule_ID r, rule_Revision r, at)" by (simp add: occurrence_of_def)
  note i = insertJob_Inr [OF ins]
  show ?case
  proof (cases b)
    case True
    let ?row = "?j\<lparr> job_CreatedAt := w_dbnow w, job_UpdatedAt := w_dbnow w \<rparr>"
    have d1: "w_db w1 = (w_db w)\<lparr> t_jobs := t_jobs (w_db w) @ [?row] \<rparr>" using i True by simp
    have "jobs_ok (w_db w) \<longrightarrow> jobs_ok (w_db w1)"
      using i True unfolding d1 by (auto intro!: jobs_ok_snoc simp: occurrence_of_def job_chk_def)
    moreover have "unplanned (w_db w1) r x = unplanned (w_db w) r x" if "x \<in> set ats" for x
      using that Cons.prems(2) unfolding d1 unplanned_def by (auto simp: occurrence_of_def)
    then have "filter (unplanned (w_db w1) r) ats = filter (unplanned (w_db w) r) ats" by (rule filter_cong [OF refl])
    moreover have "unplanned (w_db w) r at" using i True j by (auto simp: unplanned_def)
    ultimately show ?thesis
      using new i d1 True by (intro exI [of _ "?row # new"]) (auto simp: quiet_def from_rule_def)
  next
    case False
    then have "w_db w1 = w_db w" "\<not> unplanned (w_db w) r at" using i j by (auto simp: unplanned_def)
    then show ?thesis
      using new i by (intro exI [of _ new]) (auto simp: quiet_def from_rule_def)
  qed
qed

section \<open>The planner\<close>

definition cron_advances :: "cron_parser \<Rightarrow> bool" where
  "cron_advances parse \<longleftrightarrow> (\<forall>e next t. parse e = Inr next \<longrightarrow> next t = 0 \<or> t < next t)"

lemma Schedule_Next_advancing: "cron_advances parse \<Longrightarrow> advancing (Schedule_Next parse so)"
  by (auto simp: cron_advances_def advancing_def Schedule_Next_def Let_def split: option.splits if_splits sum.splits)

definition future :: "time \<Rightarrow> time option \<Rightarrow> bool" where
  "future now c \<longleftrightarrow> (case c of None \<Rightarrow> True | Some t \<Rightarrow> now < t)"

text \<open>
  A rule whose schedule always fires again keeps a cursor, so it is never taken for one that is
  yet to be initialised.
\<close>

definition fires :: "cron_parser \<Rightarrow> rule \<Rightarrow> bool" where
  "fires parse r \<longleftrightarrow> rule_NextRunAt r \<noteq> Some 0 \<and> (\<forall>t u. Schedule_Next parse (rule_Schedule r) t = Inr u \<longrightarrow> u \<noteq> 0)"

definition rescheduled :: "cron_parser \<Rightarrow> time \<Rightarrow> rule \<Rightarrow> time option \<Rightarrow> bool" where
  "rescheduled parse now r c \<longleftrightarrow> future now c \<and> c \<noteq> Some 0 \<and> (fires parse r \<longrightarrow> c \<noteq> None)"

lemma rescheduled_nullTime: "t = 0 \<or> now < t \<Longrightarrow> (fires parse r \<Longrightarrow> t \<noteq> 0) \<Longrightarrow> rescheduled parse now r (nullTime t)"
  by (auto simp: rescheduled_def future_def nullTime_def)

lemma occurrences_fire: "occurrences nextOf now t os c \<Longrightarrow> \<forall>t u. nextOf t = Inr u \<longrightarrow> u \<noteq> 0 \<Longrightarrow> t \<noteq> 0 \<Longrightarrow> c \<noteq> 0"
  by (induction rule: occurrences.induct) auto

text \<open>
  The rows \<open>new\<close> and the cursor \<open>c\<close> that a pass gives a rule. A rule without a cursor gets one and no
  row. The occurrences that count for another are those between its cursor, or the first instant of
  the catch-up window that the schedule names when the cursor is older, and \<open>now\<close>; the newest
  \<open>n\<close> of them that have no row yet get one, in their order, and the cursor is the next occurrence.
\<close>

definition plans :: "cron_parser \<Rightarrow> time \<Rightarrow> duration \<Rightarrow> nat \<Rightarrow> db \<Rightarrow> rule \<Rightarrow> evaluationJob list \<Rightarrow> time option \<Rightarrow> bool" where
  "plans parse now window n d r new c \<longleftrightarrow>
     (let nextOf = Schedule_Next parse (rule_Schedule r) in
      case rule_NextRunAt r of
        None \<Rightarrow> new = [] \<and> map_sum id nullTime (nextOf now) = Inr c
      | Some cursor \<Rightarrow> \<exists>start os t.
          (if cursor < now - window then nextOf (now - window - 1) = Inr start else start = cursor)
          \<and> occurrences nextOf now start os t \<and> c = nullTime t
          \<and> map job_ScheduledAt new = filter (unplanned d r) (newest n os)
          \<and> (\<forall>j\<in>set new. from_rule r now (set (newest n os)) j))"

lemma plans_facts:
  assumes "plans parse now window n d r new c"
  shows "length new \<le> n" "\<forall>j\<in>set new. job_RuleID j = rule_ID r"
proof -
  have "length new \<le> n \<and> (\<forall>j\<in>set new. job_RuleID j = rule_ID r)"
  proof (cases "rule_NextRunAt r")
    case None
    then show ?thesis using assms by (simp add: plans_def)
  next
    case (Some cursor)
    then obtain os where new: "map job_ScheduledAt new = filter (unplanned d r) (newest n os)"
      "\<forall>j\<in>set new. from_rule r now (set (newest n os)) j"
      using assms unfolding plans_def Let_def by auto
    have "length new = length (filter (unplanned d r) (newest n os))" using arg_cong [OF new(1), of length] by simp
    also have "\<dots> \<le> length (newest n os)" by (rule length_filter_le)
    also have "\<dots> \<le> n" by (rule newest_subset(2))
    finally show ?thesis using new(2) by (auto simp: from_rule_def)
  qed
  then show "length new \<le> n" "\<forall>j\<in>set new. job_RuleID j = rule_ID r" by blast+
qed

text \<open>Rows of other rules do not count.\<close>

lemma plans_other:
  assumes "t_jobs d1 = t_jobs d @ old" and "\<forall>j\<in>set old. job_RuleID j \<noteq> rule_ID r"
  shows "plans parse now window n d1 r new c = plans parse now window n d r new c"
proof -
  have "unplanned d1 r = unplanned d r"
    using assms by (intro ext) (auto simp: unplanned_def occurrence_of_def)
  then show ?thesis unfolding plans_def by (simp only:)
qed

definition move_cursor :: "uuid \<Rightarrow> time option \<Rightarrow> time \<Rightarrow> rule list \<Rightarrow> rule list" where
  "move_cursor i c now rs = upd_where (\<lambda>x. rule_ID x = i) (\<lambda>x. x\<lparr> rule_NextRunAt := c, rule_UpdatedAt := now \<rparr>) rs"

lemma setCursor_Inr:
  "setCursor m i t w = (Inr n, w') \<Longrightarrow> quiet w w' \<and>
     w_db w' = (w_db w)\<lparr> t_rules := move_cursor i (nullTime t) (w_dbnow w) (t_rules (w_db w)) \<rparr>"
  by (auto simp: setCursor_def updateRules_def Let_def quiet_def move_cursor_def dest!: execute_Inr split: if_splits)

lemma planRule_Inr:
  assumes run: "planRule parse now window n r res w = (Inr res', w')"
    and adv: "cron_advances parse" and n: "0 < n" and s: "rule_Schedule r \<noteq> None"
  shows "\<exists>new c. w_db w' = (w_db w)\<lparr> t_rules := move_cursor (rule_ID r) c (w_dbnow w) (t_rules (w_db w)),
        t_jobs := t_jobs (w_db w) @ new \<rparr>
    \<and> quiet w w' \<and> rescheduled parse now r c \<and> plans parse now window n (w_db w) r new c
    \<and> (jobs_ok (w_db w) \<longrightarrow> jobs_ok (w_db w'))"
proof (cases "rule_NextRunAt r")
  case None
  let ?next = "Schedule_Next parse (rule_Schedule r)"
  from run None s obtain t k where t: "?next now = Inr t"
    and cur: "setCursor ''initialize schedule'' (rule_ID r) t w = (Inr k, w')"
    by (auto simp: planRule_def act_dest Let_def)
  have "t = 0 \<or> now < t" using t Schedule_Next_advancing [OF adv, of "rule_Schedule r"] by (auto simp: advancing_def)
  moreover have "fires parse r \<Longrightarrow> t \<noteq> 0" using t unfolding fires_def by blast
  ultimately show ?thesis
    using setCursor_Inr [OF cur] None t
    by (intro exI [of _ "[]"] exI [of _ "nullTime t"]) (auto simp: rescheduled_nullTime plans_def jobs_ok_def)
next
  case (Some cursor)
  let ?next = "Schedule_Next parse (rule_Schedule r)"
  from run Some s obtain start sk0 res1 os sk c res2 k w1 where
    start: "if cursor < now - window then ?next (now - window - 1) = Inr start else start = cursor"
    and coll: "collect ?next now n start [] sk0 = Some (Inr (os, sk, c))"
    and ins: "insertOccurrences r now os res1 w = (Inr res2, w1)"
    and cur: "setCursor ''advance schedule'' (rule_ID r) c w1 = (Inr k, w')"
    by (auto simp: planRule_def act_dest Let_def diverges_def split: option.splits if_splits prod.splits)
  obtain all c' where all: "occurrences ?next now start all c'"
    using collect_returns [OF Schedule_Next_advancing [OF adv], of "rule_Schedule r" now n start "[]" sk0] coll
    by auto
  have osc: "os = newest n all" "c = c'"
    using collect_occurrences [OF all n, of "[]" sk0] coll by auto
  have adv': "advancing ?next" by (rule Schedule_Next_advancing [OF adv])
  note b = occurrences_bounds [OF all]
  have dist: "distinct os" using occurrences_sorted [OF adv' all] unfolding osc(1) by (blast intro: newest_distinct)
  obtain new where new: "w_db w1 = (w_db w)\<lparr> t_jobs := t_jobs (w_db w) @ new \<rparr>" "quiet w w1"
      "map job_ScheduledAt new = filter (unplanned (w_db w) r) os" "\<forall>j\<in>set new. from_rule r now (set os) j"
      "jobs_ok (w_db w) \<longrightarrow> jobs_ok (w_db w1)"
    using insertOccurrences_Inr [OF ins dist] by (elim exE conjE)
  note cu = setCursor_Inr [OF cur]
  have now: "w_dbnow w1 = w_dbnow w" using new(2) by (simp add: quiet_def)
  have db: "w_db w' = (w_db w)\<lparr> t_rules := move_cursor (rule_ID r) (nullTime c) (w_dbnow w) (t_rules (w_db w)),
        t_jobs := t_jobs (w_db w) @ new \<rparr>"
    using cu new(1) now by simp
  have "plans parse now window n (w_db w) r new (nullTime c)"
    unfolding plans_def Let_def Some option.case
    by (intro exI conjI, rule start, rule all, simp add: osc(2), rule new(3) [unfolded osc(1)], rule new(4) [unfolded osc(1)])
  moreover have "jobs_ok (w_db w) \<longrightarrow> jobs_ok (w_db w')" using new(1,5) db by (simp add: jobs_ok_def)
  moreover have "rescheduled parse now r (nullTime c)"
  proof (rule rescheduled_nullTime)
    assume f: "fires parse r"
    then have "start \<noteq> 0" using start Some by (auto simp: fires_def split: if_splits)
    then show "c \<noteq> 0" using occurrences_fire [OF all] f osc(2) unfolding fires_def by blast
  qed (use b osc(2) in simp)
  moreover have "quiet w w'" using quiet_trans [OF new(2)] cu by blast
  ultimately show ?thesis using db by blast
qed

lemma move_cursor_set: "x \<in> set (move_cursor i c t rs) \<Longrightarrow>
    if rule_ID x = i then rule_NextRunAt x = c else x \<in> set rs"
  by (auto simp: move_cursor_def set_upd_where)

text \<open>A rule but for the cursor of its schedule.\<close>

definition cursorless :: "rule \<Rightarrow> rule" where
  "cursorless r = r\<lparr> rule_NextRunAt := None, rule_UpdatedAt := 0 \<rparr>"

lemma cursorless_simps [simp]: "rule_ID (cursorless r) = rule_ID r" "rule_Revision (cursorless r) = rule_Revision r"
  by (simp_all add: cursorless_def)

lemma move_cursor_cursorless [simp]: "map cursorless (move_cursor i c t rs) = map cursorless rs"
  unfolding move_cursor_def by (rule map_upd_where) (simp add: cursorless_def)

lemma cursorless_ids: "map cursorless rs = map cursorless rs' \<Longrightarrow> map rule_ID rs = map rule_ID rs'"
  by (drule arg_cong [of _ _ "map rule_ID"]) (simp add: comp_def)

text \<open>What a planning pass over the rules \<open>rs\<close> does to the tables.\<close>

definition planned :: "cron_parser \<Rightarrow> time \<Rightarrow> duration \<Rightarrow> nat \<Rightarrow> rule list \<Rightarrow> db \<Rightarrow> db \<Rightarrow> bool" where
  "planned parse now window n rs d d' \<longleftrightarrow>
     (\<exists>new. t_jobs d' = t_jobs d @ new
        \<and> (\<forall>j\<in>set new. \<exists>r\<in>set rs. job_RuleID j = rule_ID r)
        \<and> (\<forall>r\<in>set rs. \<exists>c. plans parse now window n d r (filter (\<lambda>j. job_RuleID j = rule_ID r) new) c
             \<and> rescheduled parse now r c \<and> (\<forall>x\<in>set (t_rules d'). rule_ID x = rule_ID r \<longrightarrow> rule_NextRunAt x = c)))
     \<and> d' = d\<lparr> t_rules := t_rules d', t_jobs := t_jobs d' \<rparr> \<and> map cursorless (t_rules d') = map cursorless (t_rules d)
     \<and> (\<forall>x\<in>set (t_rules d'). rule_ID x \<in> rule_ID ` set rs \<or> x \<in> set (t_rules d))
     \<and> (jobs_ok d \<longrightarrow> jobs_ok d')"

lemma planned_cursor:
  assumes "planned parse now window n rs d d'" and "x \<in> set (t_rules d')"
  shows "(\<exists>r\<in>set rs. rule_ID x = rule_ID r \<and> rescheduled parse now r (rule_NextRunAt x))
    \<or> x \<in> set (t_rules d) \<and> rule_ID x \<notin> rule_ID ` set rs"
proof (cases "rule_ID x \<in> rule_ID ` set rs")
  case True
  then obtain r where "r \<in> set rs" "rule_ID x = rule_ID r" by blast
  moreover from this obtain c where "rescheduled parse now r c" "rule_NextRunAt x = c"
    using assms unfolding planned_def by metis
  ultimately show ?thesis by blast
next
  case False
  then show ?thesis using assms unfolding planned_def by blast
qed

lemma planned_Cons:
  assumes step: "d1 = d\<lparr> t_rules := move_cursor (rule_ID r) c t (t_rules d), t_jobs := t_jobs d @ new \<rparr>"
      "rescheduled parse now r c" "plans parse now window n d r new c" "jobs_ok d \<longrightarrow> jobs_ok d1"
    and rest: "planned parse now window n rs d1 d2" and fresh: "rule_ID r \<notin> rule_ID ` set rs"
  shows "planned parse now window n (r # rs) d d2"
proof -
  let ?of = "\<lambda>q. filter (\<lambda>j. job_RuleID j = rule_ID q)"
  obtain new2 where new2: "t_jobs d2 = t_jobs d1 @ new2" "\<forall>j\<in>set new2. \<exists>r\<in>set rs. job_RuleID j = rule_ID r"
    and each: "\<And>q. q \<in> set rs \<Longrightarrow> \<exists>c. plans parse now window n d1 q (?of q new2) c \<and> rescheduled parse now q c
      \<and> (\<forall>x\<in>set (t_rules d2). rule_ID x = rule_ID q \<longrightarrow> rule_NextRunAt x = c)"
    using rest unfolding planned_def by blast
  note own = plans_facts(2) [OF step(3)]
  have "job_RuleID j \<noteq> rule_ID r" if "j \<in> set new2" for j using new2(2) fresh that by (metis image_eqI)
  then have "?of r new2 = []" by (simp add: filter_empty_conv)
  moreover have "?of r new = new" using own by (simp add: filter_id_conv)
  ultimately have mine: "?of r (new @ new2) = new" by simp
  have other: "?of q (new @ new2) = ?of q new2" if "q \<in> set rs" for q
    using own fresh that by (auto simp: filter_empty_conv)
  have cursor: "rule_NextRunAt x = c" if x: "x \<in> set (t_rules d2)" "rule_ID x = rule_ID r" for x
  proof -
    have "x \<in> set (t_rules d1)" using planned_cursor [OF rest x(1)] x(2) fresh by (metis image_eqI)
    then show ?thesis using move_cursor_set [of x "rule_ID r" c t "t_rules d"] x(2) step(1) by simp
  qed
  have plan: "\<exists>c. plans parse now window n d q (?of q (new @ new2)) c \<and> rescheduled parse now q c
      \<and> (\<forall>x\<in>set (t_rules d2). rule_ID x = rule_ID q \<longrightarrow> rule_NextRunAt x = c)" if q: "q \<in> set (r # rs)" for q
  proof (cases "q = r")
    case True
    then show ?thesis using mine cursor step(2,3) by auto
  next
    case False
    then have q': "q \<in> set rs" using q by simp
    have "\<forall>j\<in>set new. job_RuleID j \<noteq> rule_ID q" using own fresh q' by auto
    then have "plans parse now window n d1 q (?of q new2) x = plans parse now window n d q (?of q (new @ new2)) x" for x
      using step(1) other [OF q'] by (subst plans_other) auto
    then show ?thesis using each [OF q'] by simp
  qed
  have "\<forall>x\<in>set (t_rules d2). rule_ID x \<in> rule_ID ` set (r # rs) \<or> x \<in> set (t_rules d)"
  proof
    fix x assume "x \<in> set (t_rules d2)"
    then have "rule_ID x \<in> rule_ID ` set rs \<or> x \<in> set (t_rules d1)" using rest unfolding planned_def by blast
    then show "rule_ID x \<in> rule_ID ` set (r # rs) \<or> x \<in> set (t_rules d)"
      using move_cursor_set [of x "rule_ID r" c t "t_rules d"] step(1) by (auto split: if_splits)
  qed
  moreover have "d2 = d\<lparr> t_rules := t_rules d2, t_jobs := t_jobs d2 \<rparr>" "map cursorless (t_rules d2) = map cursorless (t_rules d)"
    using rest step(1) unfolding planned_def by (auto dest: arg_cong [of _ _ "\<lambda>d. d"])
  moreover have "t_jobs d2 = t_jobs d @ new @ new2" using new2(1) step(1) by simp
  moreover have "\<forall>j\<in>set (new @ new2). \<exists>r'\<in>set (r # rs). job_RuleID j = rule_ID r'"
    using own new2(2) by auto
  moreover have "jobs_ok d \<longrightarrow> jobs_ok d2" using rest step(4) unfolding planned_def by blast
  ultimately show ?thesis
    unfolding planned_def using plan by blast
qed

lemma planRules_Inr:
  assumes "cron_advances parse" and "0 < n"
  shows "planRules parse now window n rs res w = (Inr res', w') \<Longrightarrow> distinct (map rule_ID rs) \<Longrightarrow>
    \<forall>r\<in>set rs. rule_Schedule r \<noteq> None \<Longrightarrow> planned parse now window n rs (w_db w) (w_db w') \<and> quiet w w'"
proof (induction rs arbitrary: res w)
  case Nil
  then show ?case by (auto simp: planned_def intro: exI [of _ "[]"])
next
  case (Cons r rs)
  from Cons.prems(1) obtain res1 w1 where r: "planRule parse now window n r res w = (Inr res1, w1)"
    and rest: "planRules parse now window n rs res1 w1 = (Inr res', w')" by (auto simp: act_dest)
  have sched: "rule_Schedule r \<noteq> None" using Cons.prems(3) by simp
  obtain new c where one: "w_db w1 = (w_db w)\<lparr> t_rules := move_cursor (rule_ID r) c (w_dbnow w) (t_rules (w_db w)),
        t_jobs := t_jobs (w_db w) @ new \<rparr>" "quiet w w1" "rescheduled parse now r c"
      "plans parse now window n (w_db w) r new c" "jobs_ok (w_db w) \<longrightarrow> jobs_ok (w_db w1)"
    using planRule_Inr [OF r assms sched] by (elim exE conjE)
  have IH: "planned parse now window n rs (w_db w1) (w_db w')" "quiet w1 w'"
    using Cons.IH [OF rest] Cons.prems(2,3) by auto
  have "rule_ID r \<notin> rule_ID ` set rs" using Cons.prems(2) by simp
  from planned_Cons [OF one(1,3-5) IH(1) this] quiet_trans [OF one(2) IH(2)] show ?case by blast
qed

lemma dueRules_facts:
  assumes "rows_ok d"
  shows "distinct (map rule_ID (dueRules now n d))" "length (dueRules now n d) \<le> n"
    "\<And>r. r \<in> set (dueRules now n d) \<Longrightarrow> r \<in> set (t_rules d) \<and> due now r \<and> rule_Schedule r \<noteq> None"
proof -
  let ?a = "filter (\<lambda>r. rule_NextRunAt r = None) (filter (due now) (t_rules d))"
  let ?b = "sort_key (\<lambda>r. the (rule_NextRunAt r)) (filter (\<lambda>r. rule_NextRunAt r \<noteq> None) (filter (due now) (t_rules d)))"
  have inj: "inj_on rule_ID (set (t_rules d))" and dist: "distinct (t_rules d)"
    using assms by (auto simp: rows_ok_def distinct_map)
  have "distinct (?a @ ?b)" using dist by auto
  then have "distinct (dueRules now n d)" unfolding dueRules_def by (rule distinct_take)
  moreover have sub: "set (dueRules now n d) \<subseteq> {r \<in> set (t_rules d). due now r}"
    by (auto simp: dueRules_def dest!: in_set_takeD)
  ultimately show "distinct (map rule_ID (dueRules now n d))"
    using inj by (auto simp: distinct_map intro: inj_on_subset)
  show "length (dueRules now n d) \<le> n" by (simp add: dueRules_def)
  show "r \<in> set (t_rules d) \<and> due now r \<and> rule_Schedule r \<noteq> None" if "r \<in> set (dueRules now n d)" for r
    using sub that by (auto simp: due_def scheduled_kind_def split: option.splits)
qed

lemma plan_exact_core:
  assumes "cron_advances parse" and "rows_ok (w_db w)"
    and "PlanScheduledJobs parse window maxOcc batch w = (Inr res, w')"
  shows "let n = nat (positiveOr 100 maxOcc); now = w_dbnow w;
             rs = dueRules now (nat (positiveOr 100 batch)) (w_db w) in
    planned parse now (positiveOr (24 * hour) window) n rs (w_db w) (w_db w')"
proof -
  let ?n = "nat (positiveOr 100 maxOcc)" and ?b = "nat (positiveOr 100 batch)" and ?win = "positiveOr (24 * hour) window"
  from assms(3) obtain now rs w1 w2 res0 w3 where now: "selectNow w = (Inr now, w1)"
    and rs: "selectDue now ?b w1 = (Inr rs, w2)"
    and run: "planRules parse now ?win ?n rs res0 w2 = (Inr res, w3)" and w': "w_db w' = w_db w3"
    by (auto simp: PlanScheduledJobs_def Let_def act_dest dest!: inTx_Inr)
  have n: "now = w_dbnow w" "w_db w1 = w_db w" using selectNow_Inr [OF now] by auto
  have r: "rs = dueRules now ?b (w_db w)" "w_db w2 = w_db w"
    using rs n by (auto simp: selectDue_def split: option.splits)
  have pos: "0 < ?n" by (simp add: positiveOr_def)
  have "distinct (map rule_ID rs)" "\<forall>r\<in>set rs. rule_Schedule r \<noteq> None"
    using dueRules_facts(1,3) [OF assms(2)] r(1) by auto
  from planRules_Inr [OF assms(1) pos run this] n r w' show ?thesis by (simp add: Let_def)
qed

text \<open>
  C9. Planning is exact. When a planning pass commits, the rows it added for each due rule it scanned
  are, in order, the newest \<open>maxOccurrences\<close> occurrences of the rule's schedule between its cursor (or
  the start of the catch-up window, when the cursor is older) and now that had no row for its revision,
  each pending, unattempted and available at once; the rule's cursor is then the schedule's next
  occurrence, after now (or none, never when its schedule always fires again). A rule that had no cursor
  gets one and no row. No row was added for any other rule, no other rule changed, and nothing but the
  rules' cursors and the jobs did. The cron package is assumed to return a later instant or none, as it
  documents.
\<close>

theorem plan_exact:
  assumes "cron_advances parse" and "rows_ok (w_db w)"
    and "PlanScheduledJobs parse window maxOcc batch w = (Inr res, w')"
  shows "let n = nat (positiveOr 100 maxOcc); now = w_dbnow w;
             rs = dueRules now (nat (positiveOr 100 batch)) (w_db w) in
    planned parse now (positiveOr (24 * hour) window) n rs (w_db w) (w_db w')"
  by (rule plan_exact_core [OF assms])

text \<open>A schedule that fires every ten units of time, and a rule with one due and one missed occurrence.\<close>

definition everyTen :: cron_parser where
  "everyTen e = Inr (\<lambda>t. (t div 10 + 1) * 10)"

lemma everyTen_advances: "cron_advances everyTen"
proof -
  have "(t::int) < (t div 10 + 1) * 10" for t by presburger
  then show ?thesis by (simp add: cron_advances_def everyTen_def)
qed

definition cronRule :: rule where
  "cronRule = \<lparr> rule_ID = 3, rule_Name = ''r'', rule_TemplateKind = TemplateLedgerVsPoolDrift, rule_TemplateSpec = '''',
     rule_ExplanationCEL = '''', rule_Enabled = True, rule_Severity = SeverityHigh, rule_PeriodType = PeriodTypeContinuous,
     rule_Schedule = Some \<lparr> Kind = ScheduleCron, Expr = ''* * * * *'', TZ = '''', SafetyMargin = 0,
       SafetyMarginWasProvided = False \<rparr>,
     rule_Notifications = [], rule_Labels = [], rule_Revision = 4, rule_NextRunAt = Some 1990, rule_CreatedAt = 1,
     rule_UpdatedAt = 1 \<rparr>"

definition planWorld :: world where
  "planWorld = emptyWorld\<lparr> w_db := (w_db emptyWorld)\<lparr> t_rules := [cronRule] \<rparr> \<rparr>"

theorem plan_exact_witness:
  "let w' = snd (PlanScheduledJobs everyTen 0 0 0 planWorld) in
     planned everyTen 2000 (24 * hour) 100 [cronRule] (w_db planWorld) (w_db w')
     \<and> map job_ScheduledAt (t_jobs (w_db w')) = [1990, 2000]"
proof -
  let ?run = "PlanScheduledJobs everyTen 0 0 0 planWorld"
  have ok: "fst ?run = Inr \<lparr> pr_RulesScanned = 1, pr_JobsCreated = 2, pr_Skipped = 0, pr_Initialized = 0, pr_MaxLag = 10 \<rparr>"
    by code_simp
  have jobs: "map job_ScheduledAt (t_jobs (w_db (snd ?run))) = [1990, 2000]" by code_simp
  have rows: "rows_ok (w_db planWorld)" by (simp add: rows_ok_def planWorld_def emptyWorld_def)
  have d: "dueRules 2000 100 (w_db planWorld) = [cronRule]" by code_simp
  have now: "w_dbnow planWorld = 2000" by (simp add: planWorld_def emptyWorld_def)
  from ok have "?run = (Inr \<lparr> pr_RulesScanned = 1, pr_JobsCreated = 2, pr_Skipped = 0, pr_Initialized = 0, pr_MaxLag = 10 \<rparr>, snd ?run)"
    by (metis prod.collapse)
  from plan_exact [OF everyTen_advances rows this] jobs show ?thesis
    by (simp add: positiveOr_def d now)
qed

section \<open>Transitions of a job\<close>

definition job_le :: "evaluationJob \<Rightarrow> evaluationJob \<Rightarrow> bool" where
  "job_le j j' \<longleftrightarrow> job_ID j' = job_ID j \<and> occurrence_of j' = occurrence_of j \<and> job_Attempts j \<le> job_Attempts j'
     \<and> (terminal_status (job_Status j) \<longrightarrow> j' = j)"

definition progress :: "db \<Rightarrow> db \<Rightarrow> bool" where
  "progress d d' \<longleftrightarrow> (\<forall>j\<in>set (t_jobs d). \<forall>j'\<in>set (t_jobs d'). job_ID j' = job_ID j \<longrightarrow> job_le j j')"

definition rules_le :: "db \<Rightarrow> db \<Rightarrow> bool" where
  "rules_le d d' \<longleftrightarrow> (\<forall>r\<in>set (t_rules d). \<exists>r'\<in>set (t_rules d'). rule_ID r' = rule_ID r \<and> rule_Revision r \<le> rule_Revision r')"

definition sound_step :: "db \<Rightarrow> db \<Rightarrow> bool" where
  "sound_step d d' \<longleftrightarrow> jobs_ok d' \<and> rows_ok d' \<and> progress d d' \<and> rules_le d d'"

lemma rules_le_trans: "rules_le d1 d2 \<Longrightarrow> rules_le d2 d3 \<Longrightarrow> rules_le d1 d3"
  unfolding rules_le_def by (metis order_trans)

lemma rules_le_cursorless:
  assumes "map cursorless (t_rules d') = map cursorless (t_rules d)"
  shows "rules_le d d'"
  unfolding rules_le_def
proof
  fix r assume "r \<in> set (t_rules d)"
  then have "cursorless r \<in> set (map cursorless (t_rules d'))" unfolding assms by simp
  then obtain r' where "r' \<in> set (t_rules d')" "cursorless r = cursorless r'" by auto
  then show "\<exists>r'\<in>set (t_rules d'). rule_ID r' = rule_ID r \<and> rule_Revision r \<le> rule_Revision r'"
    by (intro bexI [of _ r']) (metis cursorless_simps order_refl)+
qed

lemma unique_job: "jobs_ok d \<Longrightarrow> j \<in> set (t_jobs d) \<Longrightarrow> k \<in> set (t_jobs d) \<Longrightarrow> job_ID j = job_ID k \<Longrightarrow> j = k"
  unfolding jobs_ok_def by (blast dest: distinct_map_eq)

lemma progress_same: "jobs_ok d \<Longrightarrow> set (t_jobs d') \<subseteq> set (t_jobs d) \<Longrightarrow> progress d d'"
  unfolding progress_def job_le_def by (metis order_refl subsetD unique_job)

lemma progress_append: "jobs_ok d' \<Longrightarrow> t_jobs d' = t_jobs d @ new \<Longrightarrow> progress d d'"
  unfolding progress_def job_le_def by (metis Un_iff order_refl set_append unique_job)

lemma sound_same: "jobs_ok d \<Longrightarrow> rows_ok d \<Longrightarrow> t_jobs d' = t_jobs d \<Longrightarrow> map cursorless (t_rules d') = map cursorless (t_rules d)
    \<Longrightarrow> sound_step d d'"
  by (auto simp: sound_step_def rows_ok_def jobs_ok_def dest: cursorless_ids intro!: progress_same rules_le_cursorless)

lemma sound_refl: "jobs_ok d \<Longrightarrow> rows_ok d \<Longrightarrow> sound_step d d"
  by (rule sound_same) simp_all

lemma updateJobs_cases:
  assumes "updateJobs p f w = (q, w')"
  obtains err where "q = Inl err" "w_db w' = w_db w"
  | g where "g = (\<lambda>j. (f (w\<lparr> w_stmts := w_stmts w + 1 \<rparr>) j)\<lparr> job_UpdatedAt := w_dbnow w \<rparr>)"
      "q = Inr (map g (filter (p (w\<lparr> w_stmts := w_stmts w + 1 \<rparr>)) (t_jobs (w_db w))))"
      "w_db w' = (w_db w)\<lparr> t_jobs := upd_where (p (w\<lparr> w_stmts := w_stmts w + 1 \<rparr>)) g (t_jobs (w_db w)) \<rparr>"
      "\<forall>j\<in>set (t_jobs (w_db w)). p (w\<lparr> w_stmts := w_stmts w + 1 \<rparr>) j \<longrightarrow> job_chk (g j)"
proof (cases q)
  case (Inl err)
  then show thesis using assms that(1) unfolding updateJobs_def by (auto dest: execute_Inl)
next
  case (Inr js)
  let ?w = "w\<lparr> w_stmts := w_stmts w + 1 \<rparr>"
  let ?g = "\<lambda>j. (f ?w j)\<lparr> job_UpdatedAt := w_dbnow w \<rparr>" and ?t = "t_jobs (w_db w)"
  have now: "w_dbnow ?w = w_dbnow w" "w_db ?w = w_db w" by simp_all
  obtain d where d: "(if exists_row (\<lambda>j. p ?w j \<and> \<not> job_chk (f ?w j)) ?t then Inl (constraintViolation ''evaluation_job_chk'')
      else Inr ((w_db w)\<lparr> t_jobs := upd_where (p ?w) ?g ?t \<rparr>, map ?g (filter (p ?w) ?t))) = Inr (d, js)"
    and w': "w' = ?w\<lparr> w_db := d \<rparr>"
    using execute_Inr [OF assms [unfolded updateJobs_def Inr]] unfolding Let_def now by blast
  have "js = map ?g (filter (p ?w) ?t) \<and> d = (w_db w)\<lparr> t_jobs := upd_where (p ?w) ?g ?t \<rparr>
    \<and> \<not> exists_row (\<lambda>j. p ?w j \<and> \<not> job_chk (f ?w j)) ?t"
    using d by (simp only: sum.inject prod.inject sum.distinct simp_thms split: if_splits)
  then have "js = map ?g (filter (p ?w) ?t) \<and> w_db w' = (w_db w)\<lparr> t_jobs := upd_where (p ?w) ?g ?t \<rparr>
    \<and> (\<forall>j\<in>set ?t. p ?w j \<longrightarrow> job_chk (f ?w j))"
    using w' by (simp add: exists_row_iff)
  then show thesis using that(2) [OF refl] Inr by simp
qed

text \<open>What a transition may do to a row it selects.\<close>

definition transition :: "evaluationJob \<Rightarrow> evaluationJob \<Rightarrow> bool" where
  "transition j j' \<longleftrightarrow> job_ID j' = job_ID j \<and> occurrence_of j' = occurrence_of j \<and> job_Attempts j \<le> job_Attempts j'
     \<and> \<not> terminal_status (job_Status j)"

lemma updateJobs_sound:
  assumes run: "updateJobs p f w = (q, w')" and ok: "jobs_ok (w_db w)" "rows_ok (w_db w)"
    and tr: "\<And>w1 j. j \<in> set (t_jobs (w_db w)) \<Longrightarrow> job_chk j \<Longrightarrow> p w1 j \<Longrightarrow> transition j (f w1 j)"
  shows "sound_step (w_db w) (w_db w')"
  using run
proof (cases rule: updateJobs_cases)
  case (1 err)
  then show ?thesis using ok by (simp add: sound_refl)
next
  case (2 g)
  let ?w = "w\<lparr> w_stmts := w_stmts w + 1 \<rparr>" and ?t = "t_jobs (w_db w)"
  have g: "transition j (g j)" if "j \<in> set ?t" "p ?w j" for j
    using tr [of j ?w] that ok(1) by (simp add: 2(1) transition_def jobs_ok_def occurrence_of_def)
  have maps: "map job_ID (upd_where (p ?w) g ?t) = map job_ID ?t"
    "map occurrence_of (upd_where (p ?w) g ?t) = map occurrence_of ?t"
    using g by (auto simp: upd_where_def transition_def)
  have "jobs_ok (w_db w')"
    using ok(1) 2(3,4) maps by (auto simp: jobs_ok_def set_upd_where)
  moreover have "progress (w_db w) (w_db w')"
    unfolding progress_def
  proof (intro ballI impI)
    fix j j' assume j: "j \<in> set ?t" and j': "j' \<in> set (t_jobs (w_db w'))" and id: "job_ID j' = job_ID j"
    from j' 2(3) consider "j' \<in> set ?t" | k where "k \<in> set ?t" "p ?w k" "j' = g k" by (auto simp: set_upd_where)
    then show "job_le j j'"
    proof cases
      case 1
      then show ?thesis using unique_job [OF ok(1) j 1] id by (simp add: job_le_def)
    next
      case (2 k)
      have "job_ID j = job_ID k" using g [OF 2(1,2)] id unfolding 2(3) transition_def by simp
      then have "k = j" using unique_job [OF ok(1) j 2(1)] by blast
      then have "transition j j'" using g [OF 2(1,2)] 2(3) by simp
      then show ?thesis unfolding transition_def job_le_def by simp
    qed
  qed
  moreover have "rules_le (w_db w) (w_db w')" using 2(3) by (intro rules_le_cursorless) simp
  ultimately show ?thesis using ok(2) 2(3) by (simp add: sound_step_def rows_ok_def)
qed

lemma claimedUpdate_sound:
  assumes run: "claimedUpdate p f w = (q, w')" and ok: "jobs_ok (w_db w)" "rows_ok (w_db w)"
    and tr: "\<And>w1 j. j \<in> set (t_jobs (w_db w)) \<Longrightarrow> job_chk j \<Longrightarrow> p w1 j \<Longrightarrow> transition j (f w1 j)"
  shows "sound_step (w_db w) (w_db w')"
proof -
  obtain r where "updateJobs p f w = (r, w')"
    using run by (cases q) (auto simp: claimedUpdate_def act_dest split: if_splits)
  from updateJobs_sound [OF this ok tr] show ?thesis by blast
qed

lemma firstBy_Some: "firstBy key rs = Some r \<Longrightarrow> r \<in> set rs \<and> (\<forall>x\<in>set rs. key r \<le> key x)"
proof -
  assume "firstBy key rs = Some r"
  then obtain t where s: "sort_key key rs = r # t" by (auto simp: firstBy_def split: list.splits)
  have "sorted (map key (sort_key key rs))" by (rule sorted_sort_key)
  moreover have "set rs = insert r (set t)" by (metis s list.simps(15) set_sort)
  ultimately show ?thesis using s by auto
qed

lemma firstBy_None: "firstBy key rs = None \<longleftrightarrow> rs = []"
  by (metis firstBy_def list.exhaust list.simps(4,5) option.distinct(1) set_empty set_sort)

lemma claimable_open: "claimable now j \<Longrightarrow> \<not> terminal_status (job_Status j)"
  by (auto simp: claimable_def terminal_status_def)

lemma claimTx_cases:
  assumes run: "claimTx lease w = (q, w')"
  obtains "w_db w' = w_db w" "\<And>c. q \<noteq> Inr (Some c)"
    "q = Inr None \<Longrightarrow> (\<forall>n. w_fault w n = None) \<Longrightarrow> \<forall>j\<in>set (t_jobs (w_db w)). \<not> claimable (w_dbnow w) j"
  | j w1 where "j \<in> set (t_jobs (w_db w))" "claimable (w_dbnow w) j"
      "\<forall>k\<in>set (t_jobs (w_db w)). claimable (w_dbnow w) k \<longrightarrow> job_ScheduledAt j \<le> job_ScheduledAt k"
      "claimRow (w_dbnow w + lease) j w1 = (q, w')" "w_db w1 = w_db w" "w_dbnow w1 = w_dbnow w"
      "w_uuid w1 = w_uuid w" "w_uuids w1 = w_uuids w"
proof -
  let ?w = "w\<lparr> w_stmts := w_stmts w + 1 \<rparr>" and ?v = "w\<lparr> w_stmts := w_stmts w + 1 + 1 \<rparr>"
  let ?first = "firstBy job_ScheduledAt (filter (claimable (w_dbnow w)) (t_jobs (w_db w)))"
  consider (early) "w_fault w (w_stmts w) \<noteq> None" | (sel) "w_fault w (w_stmts w) = None" "w_fault w (w_stmts w + 1) \<noteq> None"
    | (none) "w_fault w (w_stmts w) = None" "w_fault w (w_stmts w + 1) = None" "?first = None"
    | (row) j where "w_fault w (w_stmts w) = None" "w_fault w (w_stmts w + 1) = None" "?first = Some j"
    by blast
  then show thesis
  proof cases
    case early
    then show thesis using run that(1) by (auto simp: claimTx_def bindA_def selectNow_def)
  next
    case sel
    then have faulty: "(\<forall>n. w_fault w n = None) = False" by metis
    from sel show thesis using run that(1)
      by (auto simp: faulty claimTx_def bindA_def catchA_def selectNow_def selectClaimable_def split: if_splits)
  next
    case none
    then have "q = Inr None \<and> w' = ?v"
      using run by (auto simp: claimTx_def bindA_def catchA_def selectNow_def selectClaimable_def e_wrap_Is noRows_def)
    moreover have "\<forall>j\<in>set (t_jobs (w_db w)). \<not> claimable (w_dbnow w) j"
      using none(3) by (simp add: firstBy_None filter_empty_conv)
    ultimately show thesis using that(1) by simp
  next
    case (row j)
    then have "claimRow (w_dbnow w + lease) j ?v = (q, w')"
      using run by (simp add: claimTx_def bindA_def catchA_def selectNow_def selectClaimable_def)
    from that(2) [OF _ _ _ this] firstBy_Some [OF row(3)] show thesis by auto
  qed
qed

end
