(* ===== verification/Statements.thy ===== *)
theory Statements
  imports JobStore
begin

text \<open>
  Frame conditions: what the storage operations leave alone, whatever their outcome. A relation on
  worlds that is kept by the parts every action is built of is kept by the action; the locale
  collects these arguments once for the statements on the database.
\<close>

text \<open>An action stays within a relation on worlds.\<close>

definition within :: "(world \<Rightarrow> world \<Rightarrow> bool) \<Rightarrow> 'a act \<Rightarrow> bool" where
  "within R f \<longleftrightarrow> (\<forall>w. R w (snd (f w)))"

lemma withinD: "within R f \<Longrightarrow> f w = (q, w') \<Longrightarrow> R w w'"
  by (metis snd_conv within_def)

lemma withinI: "(\<And>w q w'. f w = (q, w') \<Longrightarrow> R w w') \<Longrightarrow> within R f"
  by (metis prod.collapse within_def)

lemma within_split:
  "(\<And>a b. within R (f a b)) \<Longrightarrow> within R (case ab of (a, b) \<Rightarrow> f a b)"
  "within R f0 \<Longrightarrow> (\<And>x. within R (g x)) \<Longrightarrow> within R (case o1 of None \<Rightarrow> f0 | Some x \<Rightarrow> g x)"
  "(\<And>x. within R (h x)) \<Longrightarrow> (\<And>y. within R (k y)) \<Longrightarrow> within R (case s of Inl x \<Rightarrow> h x | Inr y \<Rightarrow> k y)"
  by (auto split: prod.split option.split sum.split)

section \<open>Statements\<close>

locale frame =
  fixes R :: "world \<Rightarrow> world \<Rightarrow> bool"
  assumes refl: "R w w"
    and trans: "R w1 w2 \<Longrightarrow> R w2 w3 \<Longrightarrow> R w1 w3"
    and statement: "R w (w\<lparr> w_stmts := n \<rparr>)"
    and uuid: "R w (w\<lparr> w_uuids := w_uuids w + 1 \<rparr>)"
    and restore: "R w w' \<Longrightarrow> R w (w'\<lparr> w_db := w_db w \<rparr>)"
begin

lemma basic: "within R (returnA a)" "within R (failA err)" "within R (ofSum s)" "within R (tickA newUUID)"
  "within R (selectOne tbl p)" "within R (selectMany tbl p)" "within R selectNow" "within R (selectDue now n)"
  "within R (selectClaimable now)"
  by (auto simp: within_def returnA_def failA_def tickA_def selectOne_def selectMany_def selectNow_def selectDue_def
      selectClaimable_def ofSum_def refl statement uuid [simplified] split: option.split sum.split)

lemma bind: "within R f \<Longrightarrow> (\<And>a. within R (k a)) \<Longrightarrow> within R (bindA f k)"
  by (rule withinI) (auto simp: bindA_def dest: withinD intro: trans split: prod.splits sum.splits)

lemma bind_value:
  assumes f: "within R f" and P: "\<And>w a w'. f w = (Inr a, w') \<Longrightarrow> P a" and k: "\<And>a. P a \<Longrightarrow> within R (k a)"
  shows "within R (bindA f k)"
proof (rule withinI)
  fix w q w' assume run: "bindA f k w = (q, w')"
  obtain q1 w1 where 1: "f w = (q1, w1)" by fastforce
  show "R w w'"
  proof (cases q1)
    case (Inl err)
    then show ?thesis using run 1 withinD [OF f 1] by (simp add: bindA_def)
  next
    case (Inr a)
    then have "k a w1 = (q, w')" using run 1 by (simp add: bindA_def)
    from withinD [OF k [OF P [OF 1 [unfolded Inr]]] this] show ?thesis by (rule trans [OF withinD [OF f 1]])
  qed
qed

lemma wrap: "within R f \<Longrightarrow> within R (wrapA m f)" "within R f \<Longrightarrow> within R (plainWrap m f)"
  by (rule withinI, auto simp: wrapA_def plainWrap_def dest: withinD split: prod.splits sum.splits)+

lemma catch: "within R f \<Longrightarrow> (\<And>r. within R (k r)) \<Longrightarrow> within R (catchA f k)"
  by (rule withinI) (auto simp: catchA_iff dest: withinD intro: trans)

lemma branch: "within R f \<Longrightarrow> within R g \<Longrightarrow> within R (if b then f else g)"
  by simp

lemma tx:
  assumes "within R f" shows "within R (inTx f)"
proof (rule withinI)
  fix w q w' assume run: "inTx f w = (q, w')"
  obtain q1 w1 where f: "f w = (q1, w1)" by fastforce
  have "R w w1" using withinD [OF assms f] .
  then have "R w (w1\<lparr> w_stmts := n \<rparr>)" for n by (rule trans) (rule statement)
  then show "R w w'"
    using run f restore [OF \<open>R w w1\<close>] restore [OF \<open>R w (w1\<lparr> w_stmts := w_stmts w1 + 1 \<rparr>)\<close>]
    by (auto simp: inTx_def split: sum.splits option.splits)
qed

lemma change:
  assumes "\<And>w d a. change w = Inr (d, a) \<Longrightarrow> R w (w\<lparr> w_db := d \<rparr>)"
  shows "within R (execute change)"
proof (rule withinI)
  fix w q w' assume run: "execute change w = (q, w')"
  show "R w w'"
  proof (cases q)
    case (Inl err)
    then show ?thesis using run statement by (auto dest!: execute_Inl)
  next
    case (Inr a)
    then obtain d where d: "change (w\<lparr> w_stmts := w_stmts w + 1 \<rparr>) = Inr (d, a)"
      and w': "w' = w\<lparr> w_stmts := w_stmts w + 1 \<rparr>\<lparr> w_db := d \<rparr>" using execute_Inr [OF run [unfolded Inr]] by auto
    show ?thesis unfolding w' by (rule trans [OF statement assms [OF d]])
  qed
qed

lemmas intros = basic bind wrap branch tx

text \<open>The planner, for a relation kept by a cursor's update and by the insertion of occurrences.\<close>

lemma planning:
  assumes cursor: "\<And>m i t. within R (setCursor m i t)"
    and insert: "\<And>r now ats res. within R (insertOccurrences r now ats res)"
  shows "within R (PlanScheduledJobs parse window n batch)"
proof -
  have "within R (planRule parse now window n r res)" for now window n r res
    unfolding planRule_def Let_def by (intro intros within_split cursor insert)
  then have "within R (planRules parse now window n rs res)" for now window n rs res
    by (induction rs arbitrary: res) (auto intro!: intros)
  then show ?thesis
    unfolding PlanScheduledJobs_def Let_def by (intro intros)
qed

end

end
