(* ===== verification/JobQueue.thy ===== *)
theory JobQueue
  imports JobLifecycle Statements
begin

text \<open>
  The operations on rules and jobs as one queue: every operation keeps the constraints of the
  tables and only moves jobs and revisions forward; a claim is exclusive; a lost claim and a
  superseded revision are fenced.
\<close>

section \<open>Patching a rule\<close>

definition superseded :: "uuid \<Rightarrow> int \<Rightarrow> evaluationJob \<Rightarrow> bool" where
  "superseded i revision j \<longleftrightarrow> job_RuleID j = i \<and> job_RuleRevision j \<le> revision \<and> job_Status j = EvaluationJobPending"

lemma updateRules_Inr: "updateRules p f w = (Inr n, w') \<Longrightarrow>
    w_db w' = (w_db w)\<lparr> t_rules := upd_where p (\<lambda>r. (f r)\<lparr> rule_UpdatedAt := w_dbnow w \<rparr>) (t_rules (w_db w)) \<rparr>
    \<and> n = length (filter p (t_rules (w_db w))) \<and> w_dbnow w' = w_dbnow w"
  by (auto simp: updateRules_def Let_def dest!: execute_Inr split: if_splits)

lemma patchRule_Inr:
  assumes run: "patchRule parse i p w = (Inr (), w')" and touch: "patch_touches p"
  obtains current w1 norm nxt js w2 where "List.find (\<lambda>r. rule_ID r = i) (t_rules (w_db w)) = Some current"
    "rp_ExpectedRevision p = None \<or> rp_ExpectedRevision p = Some (rule_Revision current)"
    "w_db w1 = (w_db w)\<lparr> t_rules := upd_where (\<lambda>r. rule_ID r = i)
       (\<lambda>r. (patch_fields norm p r)\<lparr> rule_Revision := rule_Revision r + 1, rule_NextRunAt := nxt,
              rule_UpdatedAt := w_dbnow w \<rparr>) (t_rules (w_db w)) \<rparr>"
    "supersede i (rule_Revision current) w1 = (Inr js, w2)" "w_db w' = w_db w2" "norm = jsonb w"
proof -
  from run touch obtain current w1 nxt w2 n w3 js w4 where
    cur: "selectOne t_rules (\<lambda>r. rule_ID r = i) w = (Inr current, w1)"
    and exp: "rp_ExpectedRevision p = None \<or> rp_ExpectedRevision p = Some (rule_Revision current)"
    and sched: "(if or_old (rp_Enabled p) (rule_Enabled current)
          \<and> scheduled_kind (case rp_Schedule p of None \<Rightarrow> rule_Schedule current | Some s \<Rightarrow> Some s) then
        bindA (wrapA ''read database time for patched schedule'' selectNow) (\<lambda>now.
        bindA (ofSum (Schedule_Next parse (case rp_Schedule p of None \<Rightarrow> rule_Schedule current | Some s \<Rightarrow> Some s) now))
          (\<lambda>t. returnA (nullTime t)))
      else returnA None) w1 = (Inr nxt, w2)"
    and upd: "updateRules (\<lambda>r. rule_ID r = i) (\<lambda>r. (patch_fields (jsonb w2) p r)
        \<lparr> rule_Revision := rule_Revision r + 1, rule_NextRunAt := nxt \<rparr>) w2 = (Inr n, w3)"
    and sup: "supersede i (rule_Revision current) w3 = (Inr js, w4)" and w': "w' = w4"
    by (auto simp: patchRule_def act_dest Let_def split: if_splits)
  note c = selectOne_Inr [OF cur]
  have w2: "w_db w2 = w_db w1" "w_dbnow w2 = w_dbnow w1"
    using sched by (auto simp: act_dest dest!: selectNow_Inr split: if_splits)
  have "w_db w3 = (w_db w)\<lparr> t_rules := upd_where (\<lambda>r. rule_ID r = i)
       (\<lambda>r. (patch_fields (jsonb w2) p r)\<lparr> rule_Revision := rule_Revision r + 1, rule_NextRunAt := nxt,
              rule_UpdatedAt := w_dbnow w \<rparr>) (t_rules (w_db w)) \<rparr>"
    using updateRules_Inr [OF upd] w2 c by simp
  moreover have "jsonb w2 = jsonb w"
    using sched c by (auto simp: act_dest jsonb_def fun_eq_iff selectNow_def split: if_splits option.splits)
  ultimately show thesis using that [OF _ exp _ sup] c w' by simp
qed

lemma patch_id [simp]: "rule_ID (patch_fields norm p r) = rule_ID r"
  by (simp add: patch_fields_def)

lemma supersede_sound: "supersede i v w = (q, w') \<Longrightarrow> jobs_ok (w_db w) \<Longrightarrow> rows_ok (w_db w) \<Longrightarrow>
    sound_step (w_db w) (w_db w')"
  unfolding supersede_def
  by (erule updateJobs_sound) (auto simp: transition_def occurrence_of_def terminal_status_def)

lemma upd_rules_sound:
  assumes "jobs_ok d" and "rows_ok d" and "\<And>r. rule_ID (g r) = rule_ID r" and "\<And>r. rule_Revision r \<le> rule_Revision (g r)"
  shows "sound_step d (d\<lparr> t_rules := upd_where p g (t_rules d) \<rparr>)"
proof -
  have "rules_le d (d\<lparr> t_rules := upd_where p g (t_rules d) \<rparr>)"
    unfolding rules_le_def
  proof
    fix r assume r: "r \<in> set (t_rules d)"
    show "\<exists>r'\<in>set (t_rules (d\<lparr> t_rules := upd_where p g (t_rules d) \<rparr>)).
        rule_ID r' = rule_ID r \<and> rule_Revision r \<le> rule_Revision r'"
      using r assms(3,4) by (intro bexI [of _ "if p r then g r else r"]) (auto simp: upd_where_def)
  qed
  moreover have "map rule_ID (upd_where p g (t_rules d)) = map rule_ID (t_rules d)"
    by (rule map_upd_where) (rule assms(3))
  ultimately show ?thesis
    using assms(1,2) by (auto simp: sound_step_def jobs_ok_def rows_ok_def intro!: progress_same)
qed

lemma sound_trans_upd:
  assumes "sound_step d d1" and "t_jobs d1 = t_jobs d" and "sound_step d1 d2"
  shows "sound_step d d2"
  using assms unfolding sound_step_def progress_def by (auto intro: rules_le_trans)

lemma PatchRule_sound:
  assumes run: "PatchRule parse i p w = (q, w')" and ok: "jobs_ok (w_db w)" "rows_ok (w_db w)"
  shows "sound_step (w_db w) (w_db w')"
proof (cases q)
  case (Inl err)
  then have "w_db w' = w_db w" using run inTx_Inl unfolding PatchRule_def by blast
  then show ?thesis using ok by (simp add: sound_refl)
next
  case (Inr u)
  then obtain w2 where w2: "patchRule parse i p w = (Inr (), w2)" "w_db w' = w_db w2"
    using inTx_Inr [of _ w u w'] run unfolding PatchRule_def by fastforce
  show ?thesis
  proof (cases "patch_touches p")
    case False
    then have "w_db w2 = w_db w"
      using w2(1) by (auto simp: patchRule_def act_dest existsRow_def dest!: selectMany_Inr split: if_splits)
    then show ?thesis using ok w2(2) by (simp add: sound_refl)
  next
    case True
    obtain current :: rule and w1 norm nxt js w3 where
      up: "w_db w1 = (w_db w)\<lparr> t_rules := upd_where (\<lambda>r. rule_ID r = i)
         (\<lambda>r. (patch_fields norm p r)\<lparr> rule_Revision := rule_Revision r + 1, rule_NextRunAt := nxt,
                rule_UpdatedAt := w_dbnow w \<rparr>) (t_rules (w_db w)) \<rparr>"
      and sup: "supersede i (rule_Revision current) w1 = (Inr js, w3)" and db: "w_db w2 = w_db w3"
      by (rule patchRule_Inr [OF w2(1) True]) (rule that, assumption+)
    have s1: "sound_step (w_db w) (w_db w1)" unfolding up by (rule upd_rules_sound [OF ok]) simp_all
    have "sound_step (w_db w1) (w_db w3)"
      using supersede_sound [OF sup] s1 by (simp add: sound_step_def)
    then show ?thesis using sound_trans_upd [OF s1 _] up w2(2) db by simp
  qed
qed

section \<open>Every operation\<close>

text \<open>Actions that change no table, and actions that change them soundly.\<close>

definition readsA :: "'a act \<Rightarrow> bool" where
  "readsA f \<longleftrightarrow> (\<forall>w q w'. f w = (q, w') \<longrightarrow> w_db w' = w_db w)"

definition soundA :: "'a act \<Rightarrow> bool" where
  "soundA f \<longleftrightarrow> (\<forall>w q w'. f w = (q, w') \<longrightarrow> jobs_ok (w_db w) \<longrightarrow> rows_ok (w_db w) \<longrightarrow> sound_step (w_db w) (w_db w'))"

named_theorems readsI
named_theorems soundI

lemma readsA_basic [readsI]:
  "readsA (returnA a)" "readsA (failA err)" "readsA selectNow" "readsA (ofSum s)" "readsA (tickA newUUID)"
  "readsA (selectOne tbl p)" "readsA (selectMany tbl p)"
  by (auto simp: readsA_def selectNow_def selectOne_def selectMany_def ofSum_def split: option.splits sum.splits)

lemma readsA_bind [readsI]: "readsA f \<Longrightarrow> (\<And>a. readsA (k a)) \<Longrightarrow> readsA (bindA f k)"
  unfolding readsA_def by (auto simp: bindA_def split: prod.splits sum.splits)

lemma readsA_wrap [readsI]: "readsA f \<Longrightarrow> readsA (wrapA m f)" "readsA f \<Longrightarrow> readsA (plainWrap m f)"
  unfolding readsA_def by (auto simp: wrapA_def plainWrap_def split: prod.splits sum.splits)

lemma readsA_if [readsI]: "readsA f \<Longrightarrow> readsA g \<Longrightarrow> readsA (if b then f else g)"
  by simp

lemma soundA_reads [soundI]: "readsA f \<Longrightarrow> soundA f"
  unfolding readsA_def soundA_def by (simp add: sound_refl)

lemma soundA_bind: "readsA f \<Longrightarrow> (\<And>a. soundA (k a)) \<Longrightarrow> soundA (bindA f k)"
  unfolding readsA_def soundA_def bindA_def by (fastforce split: prod.splits sum.splits intro: sound_refl)

lemma soundA_bind_reads: "soundA f \<Longrightarrow> (\<And>a. readsA (k a)) \<Longrightarrow> soundA (bindA f k)"
  unfolding readsA_def soundA_def bindA_def by (fastforce split: prod.splits sum.splits)

lemma soundA_catch_reads: "soundA f \<Longrightarrow> (\<And>a. readsA (k a)) \<Longrightarrow> soundA (catchA f k)"
  unfolding readsA_def soundA_def catchA_def by (fastforce split: prod.splits)

lemma soundA_wrap [soundI]: "soundA f \<Longrightarrow> soundA (wrapA m f)"
  unfolding soundA_def wrapA_def by (fastforce split: prod.splits sum.splits)

lemma soundA_updateJobs:
  assumes "\<And>w j. job_chk j \<Longrightarrow> p w j \<Longrightarrow> transition j (f w j)"
  shows "soundA (updateJobs p f)"
  unfolding soundA_def using updateJobs_sound assms by blast

lemma soundA_claimedUpdate:
  assumes "\<And>w j. job_chk j \<Longrightarrow> p w j \<Longrightarrow> transition j (f w j)"
  shows "soundA (claimedUpdate p f)"
  unfolding claimedUpdate_def
  by (intro soundA_bind_reads soundA_updateJobs assms readsI)

lemma insertRule_sound [soundI]: "soundA (insertRule x)"
  unfolding soundA_def
proof (intro allI impI)
  fix u s u' assume run: "insertRule x u = (s, u')" and ok: "jobs_ok (w_db u)" "rows_ok (w_db u)"
  show "sound_step (w_db u) (w_db u')"
  proof (cases s)
    case (Inl err)
    then show ?thesis using run ok unfolding insertRule_def by (auto dest!: execute_Inl intro: sound_refl)
  next
    case (Inr row)
    then have "w_db u' = (w_db u)\<lparr> t_rules := t_rules (w_db u) @ [row] \<rparr>" "rule_ID row = rule_ID x"
      "rule_ID x \<notin> rule_ID ` set (t_rules (w_db u))"
      using run unfolding insertRule_def
      by (auto simp: Let_def exists_row_iff dest!: execute_Inr split: if_splits)
    then show ?thesis using ok
      by (auto simp: sound_step_def jobs_ok_def rows_ok_def rules_le_def intro!: progress_same)
  qed
qed

lemma CreateRule_sound: "soundA (CreateRule parse r)"
  unfolding CreateRule_def Let_def by (intro soundA_bind readsI soundI)

text \<open>The operations that touch the queue, as the client issues them, and the clock of the database.\<close>

datatype queueCall =
    DoCreateRule rule
  | DoPatch uuid rulePatch
  | DoDeleteRule uuid
  | DoPlan duration int int
  | DoClaim duration
  | DoStart uuid uuid
  | DoHeartbeat uuid uuid duration
  | DoRelease uuid uuid duration
  | DoFail uuid uuid int int duration gerror
  | DoComplete uuid uuid
  | DoCancel uuid uuid string
  | DoCleanup duration
  | DoClock time

definition ran :: "'a act \<Rightarrow> unit act" where
  "ran f w = map_prod (map_sum id (\<lambda>_. ())) id (f w)"

definition setNow :: "time \<Rightarrow> unit act" where
  "setNow t w = (Inr (), w\<lparr> w_dbnow := t \<rparr>)"

fun queueOp :: "cron_parser \<Rightarrow> queueCall \<Rightarrow> unit act" where
  "queueOp parse (DoCreateRule r) = ran (CreateRule parse r)"
| "queueOp parse (DoPatch i p) = PatchRule parse i p"
| "queueOp parse (DoDeleteRule i) = DeleteRule i"
| "queueOp parse (DoPlan window n batch) = ran (PlanScheduledJobs parse window n batch)"
| "queueOp parse (DoClaim lease) = ran (ClaimEvaluationJob lease)"
| "queueOp parse (DoStart i token) = ran (StartEvaluationJob i token)"
| "queueOp parse (DoHeartbeat i token lease) = HeartbeatEvaluationJob i token lease"
| "queueOp parse (DoRelease i token delay) = ReleaseEvaluationJob i token delay"
| "queueOp parse (DoFail i token attempts maxAttempts after cause) =
     FailEvaluationJob i token attempts maxAttempts after cause"
| "queueOp parse (DoComplete i token) = CompleteEvaluationJob i token"
| "queueOp parse (DoCancel i token cause) = CancelEvaluationJob i token cause"
| "queueOp parse (DoCleanup retention) = ran (DeleteTerminalEvaluationJobs retention)"
| "queueOp parse (DoClock t) = setNow t"

fun queueRun :: "cron_parser \<Rightarrow> queueCall list \<Rightarrow> world \<Rightarrow> world list" where
  "queueRun parse [] w = []"
| "queueRun parse (op # ops) w = (let w' = snd (queueOp parse op w) in w' # queueRun parse ops w')"

lemma ran_iff: "ran f w = (q, w') \<longleftrightarrow> (\<exists>r. f w = (r, w') \<and> q = map_sum id (\<lambda>_. ()) r)"
  by (auto simp: ran_def map_prod_def split: prod.splits)

lemma PlanScheduledJobs_sound:
  assumes adv: "cron_advances parse" and run: "PlanScheduledJobs parse window n batch w = (q, w')"
    and ok: "jobs_ok (w_db w)" "rows_ok (w_db w)"
  shows "sound_step (w_db w) (w_db w')"
proof (cases q)
  case (Inl err)
  then have "w_db w' = w_db w" using run inTx_Inl unfolding PlanScheduledJobs_def Let_def by blast
  then show ?thesis using ok by (simp add: sound_refl)
next
  case (Inr res)
  have "\<exists>now win k rs. planned parse now win k rs (w_db w) (w_db w')"
    using plan_exact_core [OF adv ok(2) run [unfolded Inr]] unfolding Let_def by blast
  then obtain new where p: "t_jobs (w_db w') = t_jobs (w_db w) @ new" "jobs_ok (w_db w')"
      "map cursorless (t_rules (w_db w')) = map cursorless (t_rules (w_db w))"
    using ok(1) unfolding planned_def by blast
  from cursorless_ids [OF p(3)] have "rows_ok (w_db w')" using ok(2) by (simp add: rows_ok_def)
  then show ?thesis
    using p(2) progress_append [OF p(2,1)] rules_le_cursorless [OF p(3)] by (simp add: sound_step_def)
qed

lemma claimRow_sound:
  assumes run: "claimRow until j w = (q, w')" and ok: "jobs_ok (w_db w)" "rows_ok (w_db w)"
    and j: "j \<in> set (t_jobs (w_db w))" "claimable now j"
  shows "sound_step (w_db w) (w_db w')"
proof -
  obtain r token w1 where up: "updateJobs (\<lambda>w k. job_ID k = job_ID j) (\<lambda>w. claimWith token until) w1 = (r, w')"
    and w1: "w_db w1 = w_db w"
    using run by (cases q) (auto simp: claimRow_def act_dest)
  show ?thesis
    unfolding w1 [symmetric]
    using up ok [folded w1]
  proof (rule updateJobs_sound)
    fix w2 k assume k: "k \<in> set (t_jobs (w_db w1))" "job_ID k = job_ID j"
    then have "k = j" using unique_job [OF ok(1) _ j(1)] w1 by simp
    then show "transition k (claimWith token until k)"
      using claimable_open [OF j(2)] by (simp add: transition_def claimWith_def occurrence_of_def)
  qed
qed

lemma ClaimEvaluationJob_sound:
  assumes run: "ClaimEvaluationJob lease w = (q, w')" and ok: "jobs_ok (w_db w)" "rows_ok (w_db w)"
  shows "sound_step (w_db w) (w_db w')"
proof (cases q)
  case (Inl err)
  then have "w_db w' = w_db w" using run inTx_Inl unfolding ClaimEvaluationJob_def by blast
  then show ?thesis using ok by (simp add: sound_refl)
next
  case (Inr c)
  obtain w2 where w2: "claimTx lease w = (Inr c, w2)" "w_db w' = w_db w2"
    using inTx_Inr [OF run [unfolded ClaimEvaluationJob_def Inr]] by auto
  from w2(1) show ?thesis
  proof (cases rule: claimTx_cases)
    case 1
    then show ?thesis using ok w2(2) by (simp add: sound_refl)
  next
    case (2 j w1)
    have "sound_step (w_db w1) (w_db w2)"
      using claimRow_sound [OF 2(4)] 2(1,2,5) ok by auto
    then show ?thesis using 2(5) w2(2) by simp
  qed
qed

lemma PatchRule_soundA: "soundA (PatchRule parse i p)"
  unfolding soundA_def by (intro allI impI) (rule PatchRule_sound)

lemma ClaimEvaluationJob_soundA: "soundA (ClaimEvaluationJob lease)"
  unfolding soundA_def by (intro allI impI) (rule ClaimEvaluationJob_sound)

lemma PlanScheduledJobs_soundA: "cron_advances parse \<Longrightarrow> soundA (PlanScheduledJobs parse window n batch)"
  unfolding soundA_def by (intro allI impI) (rule PlanScheduledJobs_sound)

lemma running_open: "terminal_status EvaluationJobRunning = False"
  by (simp add: terminal_status_def)

lemma claimed_soundA:
  "soundA (HeartbeatEvaluationJob i token lease)" "soundA (ReleaseEvaluationJob i token delay)"
  "soundA (FailEvaluationJob i token attempts maxAttempts after cause)" "soundA (CompleteEvaluationJob i token)"
  unfolding HeartbeatEvaluationJob_def ReleaseEvaluationJob_def FailEvaluationJob_def CompleteEvaluationJob_def Let_def
  by (rule soundA_claimedUpdate, auto simp: running_open transition_def occurrence_of_def holds_def)+

lemma StartEvaluationJob_soundA: "soundA (StartEvaluationJob i token)"
  unfolding StartEvaluationJob_def Let_def
  by (rule soundA_catch_reads, rule soundA_updateJobs)
    (auto simp: running_open transition_def occurrence_of_def holds_def readsA_def split: sum.splits list.splits if_splits)

lemma CancelEvaluationJob_soundA: "soundA (CancelEvaluationJob i token cause)"
  unfolding CancelEvaluationJob_def
  by (intro soundA_bind_reads soundA_updateJobs readsI)
    (auto simp: transition_def occurrence_of_def job_chk_def terminal_status_def split: if_splits)

lemma DeleteTerminal_soundA: "soundA (DeleteTerminalEvaluationJobs retention)"
  unfolding soundA_def
proof (intro allI impI)
  fix w q w' assume run: "DeleteTerminalEvaluationJobs retention w = (q, w')" and ok: "jobs_ok (w_db w)" "rows_ok (w_db w)"
  have "w_db w' = w_db w \<or> (\<exists>P. w_db w' = (w_db w)\<lparr> t_jobs := filter P (t_jobs (w_db w)) \<rparr>)"
    using run unfolding DeleteTerminalEvaluationJobs_def
    by (cases q) (auto simp: Let_def dest!: execute_Inl execute_Inr)
  then show "sound_step (w_db w) (w_db w')"
  proof (elim disjE exE)
    fix P assume d: "w_db w' = (w_db w)\<lparr> t_jobs := filter P (t_jobs (w_db w)) \<rparr>"
    have "jobs_ok (w_db w')" using ok(1) unfolding d jobs_ok_def by (auto intro: distinct_map_filter)
    moreover have "progress (w_db w) (w_db w')" by (rule progress_same [OF ok(1)]) (auto simp: d)
    ultimately show ?thesis
      using ok(2) rules_le_cursorless [of "w_db w'" "w_db w"] by (simp add: sound_step_def rows_ok_def d)
  qed (use ok in \<open>simp add: sound_refl\<close>)
qed

lemma soundA_ran: "soundA f \<Longrightarrow> soundA (ran f)"
  unfolding soundA_def by (auto simp: ran_iff)

lemma setNow_soundA: "soundA (setNow t)"
  by (simp add: soundA_def setNow_def sound_refl)

lemmas queue_soundA = CreateRule_sound PatchRule_soundA PlanScheduledJobs_soundA ClaimEvaluationJob_soundA
  StartEvaluationJob_soundA claimed_soundA CancelEvaluationJob_soundA DeleteTerminal_soundA

lemma queueOp_soundA: "cron_advances parse \<Longrightarrow> (\<And>i. op \<noteq> DoDeleteRule i) \<Longrightarrow> soundA (queueOp parse op)"
  by (cases op) (auto intro: queue_soundA soundA_ran setNow_soundA)

text \<open>Deleting a rule deletes what belongs to it, or fails and changes nothing.\<close>

lemma DeleteRule_rows:
  assumes "DeleteRule i w = (q, w')"
  shows "w_db w' = w_db w \<or> t_rules (w_db w') = filter (\<lambda>r. rule_ID r \<noteq> i) (t_rules (w_db w))
    \<and> t_jobs (w_db w') = filter (\<lambda>j. job_RuleID j \<noteq> i) (t_jobs (w_db w))"
proof -
  have "t_rules d' = filter (\<lambda>r. rule_ID r \<noteq> i) (t_rules d) \<and> t_jobs d' = filter (\<lambda>j. job_RuleID j \<noteq> i) (t_jobs d)"
    if "cascadeRule i d = Inr d'" for d d' using that by (auto simp: cascadeRule_def Let_def split: if_splits)
  then show ?thesis
    using assms unfolding DeleteRule_def
    by (cases q) (auto simp: Let_def act_dest dest!: execute_Inl execute_Inr split: if_splits sum.splits)
qed

text \<open>
  What one operation does to the rows of the rules and jobs: a rule keeps its row and at least its
  revision, unless the operation is its deletion, which leaves neither the row nor a job of the rule.
\<close>

definition keeps_rule :: "db \<Rightarrow> rule \<Rightarrow> bool" where
  "keeps_rule d' r \<longleftrightarrow> (\<exists>r'\<in>set (t_rules d'). rule_ID r' = rule_ID r \<and> rule_Revision r \<le> rule_Revision r')"

definition loses_rule :: "db \<Rightarrow> rule \<Rightarrow> bool" where
  "loses_rule d' r \<longleftrightarrow> rule_ID r \<notin> rule_ID ` set (t_rules d') \<and> rule_ID r \<notin> job_RuleID ` set (t_jobs d')"

definition queue_step :: "queueCall \<Rightarrow> db \<Rightarrow> db \<Rightarrow> bool" where
  "queue_step op d d' \<longleftrightarrow> jobs_ok d' \<and> rows_ok d' \<and> progress d d'
     \<and> (\<forall>r\<in>set (t_rules d). keeps_rule d' r \<or> op = DoDeleteRule (rule_ID r) \<and> loses_rule d' r)"

lemma queue_step_sound: "sound_step d d' \<Longrightarrow> queue_step op d d'"
  by (auto simp: queue_step_def sound_step_def rules_le_def keeps_rule_def)

lemma DeleteRule_step:
  assumes run: "DeleteRule i w = (q, w')" and ok: "jobs_ok (w_db w)" "rows_ok (w_db w)"
  shows "queue_step (DoDeleteRule i) (w_db w) (w_db w')"
  using DeleteRule_rows [OF run]
proof (elim disjE conjE)
  assume "w_db w' = w_db w"
  then show ?thesis using ok by (simp add: queue_step_sound sound_refl)
next
  assume rules: "t_rules (w_db w') = filter (\<lambda>r. rule_ID r \<noteq> i) (t_rules (w_db w))"
    and jobs: "t_jobs (w_db w') = filter (\<lambda>j. job_RuleID j \<noteq> i) (t_jobs (w_db w))"
  have "jobs_ok (w_db w')" using ok(1) unfolding jobs_ok_def jobs by (auto intro: distinct_map_filter)
  moreover have "rows_ok (w_db w')" using ok(2) unfolding rows_ok_def rules by (rule distinct_map_filter)
  moreover have "progress (w_db w) (w_db w')" by (rule progress_same [OF ok(1)]) (auto simp: jobs)
  ultimately show ?thesis
    by (auto simp: queue_step_def keeps_rule_def loses_rule_def rules jobs)
qed

lemma queueOp_step:
  assumes "cron_advances parse" and "jobs_ok (w_db w)" and "rows_ok (w_db w)"
  shows "queue_step op (w_db w) (w_db (snd (queueOp parse op w)))"
proof (cases "\<exists>i. op = DoDeleteRule i")
  case True
  then obtain i where op: "op = DoDeleteRule i" by blast
  show ?thesis
    unfolding op queueOp.simps by (rule DeleteRule_step [OF prod.collapse [symmetric] assms(2,3)])
next
  case False
  then show ?thesis
    using queueOp_soundA [OF assms(1), of op] assms(2,3) unfolding soundA_def by (metis prod.collapse queue_step_sound)
qed

fun queue_chain :: "db \<Rightarrow> queueCall list \<Rightarrow> db list \<Rightarrow> bool" where
  "queue_chain d [] [] = True"
| "queue_chain d (op # ops) (d' # ds) = (queue_step op d d' \<and> queue_chain d' ops ds)"
| "queue_chain d ops ds = False"

lemma queue_chain_run:
  assumes "cron_advances parse"
  shows "jobs_ok (w_db w) \<Longrightarrow> rows_ok (w_db w) \<Longrightarrow> queue_chain (w_db w) ops (map w_db (queueRun parse ops w))"
proof (induction ops arbitrary: w)
  case (Cons op ops)
  have "queue_step op (w_db w) (w_db (snd (queueOp parse op w)))" by (rule queueOp_step [OF assms Cons.prems])
  then show ?case using Cons.IH by (simp add: Let_def queue_step_def)
qed simp

text \<open>
  C7. The queue only moves forward. Starting from tables that keep their constraints, along any
  sequence of the operations on rules and jobs (creating, patching and deleting rules, planning, every
  transition of a job, the cleanup of finished jobs), whatever faults the database raises and wherever
  its clock goes: the constraints hold after every operation (one row per rule occurrence, a claim token
  and a lease exactly on running jobs, attempts not negative), no operation changes which occurrence a
  job is for, lowers its attempts or touches a finished job that it keeps, and each rule keeps its row
  and never goes back to an older revision, except that its own deletion removes it with all its jobs.
\<close>

theorem queue_moves_forward:
  assumes "cron_advances parse" and "jobs_ok (w_db w)" and "rows_ok (w_db w)"
  shows "queue_chain (w_db w) ops (map w_db (queueRun parse ops w))"
  by (rule queue_chain_run [OF assms])

section \<open>Where rules come from\<close>

text \<open>No operation but a creation brings a rule id into the table.\<close>

definition only_new :: "uuid set \<Rightarrow> world \<Rightarrow> world \<Rightarrow> bool" where
  "only_new I w w' \<longleftrightarrow> rule_ID ` set (t_rules (w_db w')) \<subseteq> I \<union> rule_ID ` set (t_rules (w_db w))"

interpretation only_new: frame "only_new I" for I
proof
  show "only_new I w1 w2 \<Longrightarrow> only_new I w2 w3 \<Longrightarrow> only_new I w1 w3" for w1 w2 w3
    unfolding only_new_def by blast
qed (auto simp: only_new_def)

lemma only_new_updates:
  "(\<And>r. rule_ID (f r) = rule_ID r) \<Longrightarrow> within (only_new I) (updateRules p f)"
  "within (only_new I) (updateJobs q g)" "within (only_new I) (insertJob j)"
  unfolding updateRules_def updateJobs_def insertJob_def Let_def
  by (rule only_new.change, auto simp: only_new_def set_upd_where split: if_splits)+

lemma only_new_plan: "within (only_new I) (PlanScheduledJobs parse window n batch)"
proof (rule only_new.planning)
  show "within (only_new I) (setCursor m i t)" for m i t
    unfolding setCursor_def by (intro only_new.intros only_new_updates) simp
  show "within (only_new I) (insertOccurrences r now ats res)" for r now ats res
    by (induction ats arbitrary: res) (auto intro!: only_new.intros only_new_updates)
qed

lemma only_new_changes:
  "within (only_new {rule_ID r}) (CreateRule parse r)" "within (only_new I) (PatchRule parse i p)" "within (only_new I) (DeleteRule i)"
proof -
  have "within (only_new {rule_ID r}) (insertRule x)" if "rule_ID x = rule_ID r" for x
    unfolding insertRule_def Let_def using that
    by (intro only_new.change) (auto simp: only_new_def split: if_splits)
  then show "within (only_new {rule_ID r}) (CreateRule parse r)"
    unfolding CreateRule_def Let_def
    by (intro only_new.bind_value [where P = "\<lambda>x. rule_ID x = rule_ID r"] only_new.intros)
      (auto simp: act_dest split: if_splits)
  have "within (only_new I) (\<lambda>w. wrapA m (updateRules q (\<lambda>r. (patch_fields (f w) p r)\<lparr> rule_Revision := rule_Revision r + 1, rule_NextRunAt := t \<rparr>)) w)"
    for m q f t by (rule withinI) (rule withinD [OF only_new.wrap(1) [OF only_new_updates(1)]], auto)
  then show "within (only_new I) (PatchRule parse i p)"
    unfolding PatchRule_def patchRule_def Let_def existsRow_def supersede_def by (intro only_new.intros only_new_updates)
  show "within (only_new I) (DeleteRule i)"
    by (rule withinI) (auto simp: only_new_def dest!: DeleteRule_rows)
qed

lemma only_new_jobs:
  "within (only_new I) (ClaimEvaluationJob lease)" "within (only_new I) (StartEvaluationJob i token)"
  "within (only_new I) (CancelEvaluationJob i token cause)" "within (only_new I) (claimedUpdate p f)"
  "within (only_new I) (DeleteTerminalEvaluationJobs retention)"
proof -
  show "within (only_new I) (ClaimEvaluationJob lease)"
    unfolding ClaimEvaluationJob_def claimTx_def claimRow_def
    by (intro only_new.intros only_new.catch within_split only_new_updates)
  show "within (only_new I) (StartEvaluationJob i token)"
    unfolding StartEvaluationJob_def Let_def by (intro only_new.intros only_new.catch within_split only_new_updates)
  show "within (only_new I) (CancelEvaluationJob i token cause)" "within (only_new I) (claimedUpdate p f)"
    unfolding CancelEvaluationJob_def claimedUpdate_def by (intro only_new.intros only_new_updates)+
  show "within (only_new I) (DeleteTerminalEvaluationJobs retention)"
    unfolding DeleteTerminalEvaluationJobs_def Let_def by (rule only_new.change) (auto simp: only_new_def)
qed

lemma queueOp_only_new: "within (only_new {i. \<exists>r. op = DoCreateRule r \<and> i = rule_ID r}) (queueOp parse op)"
proof -
  have ran: "within (only_new I) (ran f)" if "within (only_new I) f" for I and f :: "'a act"
    by (rule withinI) (use that in \<open>auto simp: ran_iff dest: withinD\<close>)
  have "within (only_new I) (setNow t)" for I t by (simp add: within_def setNow_def only_new_def)
  then show ?thesis
    by (cases op) (auto intro: ran only_new_plan only_new_changes only_new_jobs
        simp: HeartbeatEvaluationJob_def ReleaseEvaluationJob_def FailEvaluationJob_def CompleteEvaluationJob_def Let_def)
qed

text \<open>A revision that was left behind stays behind, also when the rule is deleted, unless its id is given out again.\<close>

definition past :: "uuid \<Rightarrow> int \<Rightarrow> db \<Rightarrow> bool" where
  "past i v d \<longleftrightarrow> (\<forall>r\<in>set (t_rules d). rule_ID r = i \<longrightarrow> v < rule_Revision r)"

section \<open>Fencing\<close>

lemma find_rule: "rows_ok d \<Longrightarrow> r \<in> set (t_rules d) \<Longrightarrow> List.find (\<lambda>x. rule_ID x = rule_ID r) (t_rules d) = Some r"
  unfolding rows_ok_def by (rule find_unique)

text \<open>What a confirmed claim says of the rule of the job.\<close>

lemma asserted_revision:
  assumes "fst (AssertEvaluationJobClaim j w) = Inr ()" and "rows_ok (w_db w)" and "r \<in> set (t_rules (w_db w))"
    and "rule_ID r = job_RuleID j"
  shows "rule_Revision r = job_RuleRevision j \<and> rule_Enabled r"
proof -
  obtain w' where "AssertEvaluationJobClaim j w = (Inr (), w')" using assms(1) by (metis prod.collapse)
  then obtain x where x: "List.find (\<lambda>x. rule_ID x = job_RuleID j) (t_rules (w_db w)) = Some x"
      "rule_Enabled x" "rule_Revision x = job_RuleRevision j"
    by (auto simp: AssertEvaluationJobClaim_def act_dest dest!: selectOne_Inr selectNow_Inr split: if_splits)
  then show ?thesis using find_rule [OF assms(2,3)] assms(4) by simp
qed

lemma asserted_row:
  assumes "fst (AssertEvaluationJobClaim j w) = Inr ()"
  shows "\<exists>r\<in>set (t_rules (w_db w)). rule_ID r = job_RuleID j \<and> rule_Revision r = job_RuleRevision j"
proof -
  obtain w' where "AssertEvaluationJobClaim j w = (Inr (), w')" using assms by (metis prod.collapse)
  then obtain x where "List.find (\<lambda>x. rule_ID x = job_RuleID j) (t_rules (w_db w)) = Some x" "rule_Revision x = job_RuleRevision j"
    by (auto simp: AssertEvaluationJobClaim_def act_dest dest!: selectOne_Inr selectNow_Inr split: if_splits)
  then show ?thesis by (auto simp: find_Some_iff in_set_conv_nth intro!: bexI [of _ x])
qed

text \<open>
  A revision that was left behind stays behind: while the rule has its row because revisions only
  grow, and after its deletion as long as its id is not given out again.
\<close>

definition beyond :: "uuid \<Rightarrow> int \<Rightarrow> db \<Rightarrow> bool" where
  "beyond i v d \<longleftrightarrow> (\<forall>r\<in>set (t_rules d). rule_ID r = i \<longrightarrow> v < rule_Revision r)"

definition id_kept :: "uuid \<Rightarrow> queueCall list \<Rightarrow> bool" where
  "id_kept i ops \<longleftrightarrow> DoDeleteRule i \<notin> set ops \<or> (\<forall>r. DoCreateRule r \<in> set ops \<longrightarrow> rule_ID r \<noteq> i)"

lemma beyond_step:
  assumes "queue_step op d d'" and "beyond i v d" and ids: "rule_ID ` set (t_rules d') \<subseteq> I \<union> rule_ID ` set (t_rules d)"
    and "i \<in> rule_ID ` set (t_rules d) \<or> i \<notin> I"
  shows "beyond i v d'"
  unfolding beyond_def
proof (intro ballI impI)
  fix r' assume r': "r' \<in> set (t_rules d')" "rule_ID r' = i"
  then have i: "i \<in> rule_ID ` set (t_rules d')" by blast
  then have "i \<in> rule_ID ` set (t_rules d)" using ids assms(4) by blast
  then obtain r where r: "r \<in> set (t_rules d)" "rule_ID r = i" by blast
  have "\<not> loses_rule d' r" using i unfolding loses_rule_def r(2) by simp
  then obtain r2 where r2: "r2 \<in> set (t_rules d')" "rule_ID r2 = i" "rule_Revision r \<le> rule_Revision r2"
    using assms(1) r unfolding queue_step_def keeps_rule_def by blast
  have "r2 = r'" using assms(1) r2 r' unfolding queue_step_def rows_ok_def by (metis distinct_map_eq)
  then show "v < rule_Revision r'" using r2 r assms(2) by (force simp: beyond_def)
qed

lemma beyond_run:
  assumes "cron_advances parse"
  shows "jobs_ok (w_db w) \<Longrightarrow> rows_ok (w_db w) \<Longrightarrow> beyond i v (w_db w) \<Longrightarrow>
    i \<in> rule_ID ` set (t_rules (w_db w)) \<and> DoDeleteRule i \<notin> set ops \<or> (\<forall>r. DoCreateRule r \<in> set ops \<longrightarrow> rule_ID r \<noteq> i) \<Longrightarrow>
    beyond i v (w_db (last (w # queueRun parse ops w)))"
proof (induction ops arbitrary: w)
  case (Cons op ops)
  let ?w = "snd (queueOp parse op w)" and ?ids = "\<lambda>w. rule_ID ` set (t_rules (w_db w))"
  have step: "queue_step op (w_db w) (w_db ?w)" by (rule queueOp_step [OF assms Cons.prems(1,2)])
  have ids: "?ids ?w \<subseteq> {j. \<exists>r. op = DoCreateRule r \<and> j = rule_ID r} \<union> ?ids w"
    using withinD [OF queueOp_only_new, of parse op w _ ?w] unfolding only_new_def by (metis prod.collapse)
  have "beyond i v (w_db ?w)" by (rule beyond_step [OF step Cons.prems(3) ids]) (use Cons.prems(4) in auto)
  moreover have "i \<in> ?ids ?w" if "i \<in> ?ids w" "op \<noteq> DoDeleteRule i"
  proof -
    from that(1) obtain r where r: "r \<in> set (t_rules (w_db w))" "i = rule_ID r" by blast
    then have "keeps_rule (w_db ?w) r" using step that(2) unfolding queue_step_def by blast
    then show ?thesis unfolding keeps_rule_def r(2) by (metis image_eqI)
  qed
  then have "i \<in> ?ids ?w \<and> DoDeleteRule i \<notin> set ops \<or> (\<forall>r. DoCreateRule r \<in> set ops \<longrightarrow> rule_ID r \<noteq> i)"
    using Cons.prems(4) by auto
  moreover have "jobs_ok (w_db ?w)" "rows_ok (w_db ?w)" using step by (simp_all add: queue_step_def)
  ultimately have "beyond i v (w_db (last (?w # queueRun parse ops ?w)))" by (intro Cons.IH)
  then show ?case by (simp add: Let_def)
qed simp

text \<open>
  C18. A revision is fenced. After a material patch of a rule committed, the rule has the next
  revision, the expected one was current, no job of the superseded revisions is pending, other
  jobs are as they were; and whatever the queue does afterwards, the claim of a job of a
  superseded revision is never confirmed again, so its verdict cannot be persisted. That holds
  whether the rule is kept or deleted; only a rule created under the id of a deleted one, which
  the service never does as it draws a fresh id, is left out.
\<close>

theorem superseded_never_asserted:
  assumes "cron_advances parse" and "jobs_ok (w_db w)" and "rows_ok (w_db w)"
    and "PatchRule parse (rule_ID r) p w = (Inr (), w1)" and "patch_touches p" and "r \<in> set (t_rules (w_db w))"
    and "job_RuleID j = rule_ID r" and "job_RuleRevision j \<le> rule_Revision r" and "id_kept (rule_ID r) ops"
  shows "(rp_ExpectedRevision p = None \<or> rp_ExpectedRevision p = Some (rule_Revision r))
    \<and> (\<exists>r'\<in>set (t_rules (w_db w1)). rule_ID r' = rule_ID r \<and> rule_Revision r' = rule_Revision r + 1)
    \<and> (\<forall>k\<in>set (t_jobs (w_db w1)). \<not> superseded (rule_ID r) (rule_Revision r) k)
    \<and> (\<forall>k\<in>set (t_jobs (w_db w)). \<not> superseded (rule_ID r) (rule_Revision r) k \<longrightarrow> k \<in> set (t_jobs (w_db w1)))
    \<and> fst (AssertEvaluationJobClaim j (last (w1 # queueRun parse ops w1))) \<noteq> Inr ()"
proof -
  let ?i = "rule_ID r"
  obtain w2 where w2: "patchRule parse ?i p w = (Inr (), w2)" "w_db w1 = w_db w2"
    using inTx_Inr [OF assms(4) [unfolded PatchRule_def]] by auto
  obtain current :: rule and v1 norm nxt js v2 where cur: "List.find (\<lambda>r. rule_ID r = ?i) (t_rules (w_db w)) = Some current"
      and exp: "rp_ExpectedRevision p = None \<or> rp_ExpectedRevision p = Some (rule_Revision current)"
      and up: "w_db v1 = (w_db w)\<lparr> t_rules := upd_where (\<lambda>r. rule_ID r = ?i)
         (\<lambda>r. (patch_fields norm p r)\<lparr> rule_Revision := rule_Revision r + 1, rule_NextRunAt := nxt,
                rule_UpdatedAt := w_dbnow w \<rparr>) (t_rules (w_db w)) \<rparr>"
      and sup: "supersede ?i (rule_Revision current) v1 = (Inr js, v2)" and db: "w_db w2 = w_db v2"
    by (rule patchRule_Inr [OF w2(1) assms(5)]) (rule that, assumption+)
  have c: "current = r" using cur find_rule [OF assms(3,6)] by simp
  let ?p = "superseded ?i (rule_Revision r)" and ?c = "\<lambda>k. k\<lparr> job_Status := EvaluationJobCancelled,
    job_LastError := ''rule revised'', job_UpdatedAt := w_dbnow v1 \<rparr>"
  have jobs: "t_jobs (w_db w1) = upd_where ?p ?c (t_jobs (w_db w))" and rules: "t_rules (w_db w1) = t_rules (w_db v1)"
    using sup [unfolded supersede_def] unfolding c w2(2) db
    by (cases rule: updateJobs_cases; simp add: up superseded_def [abs_def])+
  have "\<exists>r'\<in>set (t_rules (w_db w1)). rule_ID r' = rule_ID r \<and> rule_Revision r' = rule_Revision r + 1"
    unfolding rules up
    by (rule bexI [of _ "(patch_fields norm p r)\<lparr> rule_Revision := rule_Revision r + 1, rule_NextRunAt := nxt,
          rule_UpdatedAt := w_dbnow w \<rparr>"]) (use assms(6) in \<open>auto simp: upd_where_def\<close>)
  moreover have "\<not> ?p k" if "k \<in> set (t_jobs (w_db w1))" for k
    using that unfolding jobs by (auto simp: set_upd_where superseded_def)
  moreover have "k \<in> set (t_jobs (w_db w1))" if "k \<in> set (t_jobs (w_db w))" "\<not> ?p k" for k
    using that unfolding jobs by (auto simp: set_upd_where)
  moreover have "fst (AssertEvaluationJobClaim j (last (w1 # queueRun parse ops w1))) \<noteq> Inr ()"
  proof
    let ?w = "last (w1 # queueRun parse ops w1)"
    assume "fst (AssertEvaluationJobClaim j ?w) = Inr ()"
    then obtain x where x: "x \<in> set (t_rules (w_db ?w))" "rule_ID x = ?i" "rule_Revision x = job_RuleRevision j"
      using asserted_row assms(7) by metis
    obtain r1 where r1: "r1 \<in> set (t_rules (w_db w1))" "rule_ID r1 = ?i" "rule_Revision r1 = rule_Revision r + 1"
      using calculation(1) by blast
    have ok1: "jobs_ok (w_db w1)" "rows_ok (w_db w1)"
      using PatchRule_sound [OF assms(4,2,3)] by (simp_all add: sound_step_def)
    have "beyond ?i (rule_Revision r) (w_db w1)"
      unfolding beyond_def using ok1(2) r1 unfolding rows_ok_def by (metis distinct_map_eq zless_add1_eq)
    from beyond_run [OF assms(1) ok1 this] have "beyond ?i (rule_Revision r) (w_db ?w)"
      using assms(9) r1(1,2) unfolding id_kept_def by (metis image_eqI)
    then show False using x assms(8) unfolding beyond_def by fastforce
  qed
  ultimately show ?thesis using exp c by blast
qed

text \<open>
  C8. A claim takes the earliest claimable job and is exclusive. The row gets a fresh token and a
  lease; it is claimable by nobody before the lease ends, and the token of any earlier claim of
  the job is lost. When there is nothing to claim nothing changes, and without a fault that is
  only answered when no job is claimable.
\<close>

theorem claim_exclusive:
  assumes "jobs_ok (w_db w)" and "ClaimEvaluationJob lease w = (Inr c, w')"
  shows "let now = w_dbnow w; token = w_uuid w (w_uuids w); jobs = t_jobs (w_db w) in
    case c of
      None \<Rightarrow> w_db w' = w_db w \<and> ((\<forall>n. w_fault w n = None) \<longrightarrow> (\<forall>j\<in>set jobs. \<not> claimable now j))
    | Some cj \<Rightarrow> \<exists>j\<in>set jobs. claimable now j
        \<and> (\<forall>k\<in>set jobs. claimable now k \<longrightarrow> job_ScheduledAt j \<le> job_ScheduledAt k)
        \<and> cj = \<lparr> cj_Job = claimWith token (now + lease) j, cj_Reclaimed = (job_Status j = EvaluationJobRunning) \<rparr>
        \<and> (\<forall>k\<in>set jobs. k \<noteq> j \<longrightarrow> k \<in> set (t_jobs (w_db w')))
        \<and> (\<forall>k\<in>set (t_jobs (w_db w')). job_ID k = job_ID j \<longrightarrow>
              (\<forall>t\<le>now + lease. \<not> claimable t k) \<and> (\<forall>token'. holds (job_ID j) token' k \<longleftrightarrow> token' = token))"
proof -
  obtain w2 where w2: "claimTx lease w = (Inr c, w2)" "w_db w' = w_db w2"
    using inTx_Inr [OF assms(2) [unfolded ClaimEvaluationJob_def]] by auto
  from w2(1) show ?thesis
  proof (cases rule: claimTx_cases)
    case 1
    then show ?thesis using w2(2) by (cases c) (auto simp: Let_def)
  next
    case (2 j w1)
    let ?token = "w_uuid w (w_uuids w)"
    let ?claim = "claimWith ?token (w_dbnow w + lease)"
    obtain js w3 where up: "updateJobs (\<lambda>w k. job_ID k = job_ID j) (\<lambda>w. ?claim) w3 = (Inr js, w2)"
      and w3: "w_db w3 = w_db w" "w_dbnow w3 = w_dbnow w"
      and c: "c = Some \<lparr> cj_Job = ?claim j, cj_Reclaimed = (job_Status j = EvaluationJobRunning) \<rparr>"
      using 2(4-8) by (auto simp: claimRow_def act_dest)
    have d: "t_jobs (w_db w2) = upd_where (\<lambda>k. job_ID k = job_ID j) (\<lambda>k. (?claim k)\<lparr> job_UpdatedAt := w_dbnow w \<rparr>) (t_jobs (w_db w))"
      using up by (cases rule: updateJobs_cases) (auto simp: w3)
    have uniq: "k = j" if "k \<in> set (t_jobs (w_db w))" "job_ID k = job_ID j" for k
      using unique_job [OF assms(1) that(1) 2(1)] that(2) .
    have row: "k = (?claim j)\<lparr> job_UpdatedAt := w_dbnow w \<rparr>"
      if "k \<in> set (t_jobs (w_db w'))" "job_ID k = job_ID j" for k
      using that uniq unfolding w2(2) d by (auto simp: set_upd_where claimWith_def)
    have "(\<forall>t\<le>w_dbnow w + lease. \<not> claimable t k) \<and> (\<forall>token'. holds (job_ID j) token' k \<longleftrightarrow> token' = ?token)"
      if "k \<in> set (t_jobs (w_db w'))" "job_ID k = job_ID j" for k
      by (auto simp: row [OF that] claimable_def holds_def claimWith_def)
    moreover have "k \<in> set (t_jobs (w_db w'))" if "k \<in> set (t_jobs (w_db w))" "k \<noteq> j" for k
      using that uniq unfolding w2(2) d by (auto simp: set_upd_where)
    ultimately show ?thesis
      unfolding Let_def c option.case by (intro bexI [OF _ 2(1)] conjI 2(2,3) refl) blast+
  qed
qed

text \<open>
  The answer of a statement guarded by the predicate \<open>p\<close> on the job row: \<open>f\<close> on the rows it selects,
  a stale claim and no change when there is none.
\<close>

fun fenced :: "world \<Rightarrow> (evaluationJob \<Rightarrow> bool) \<Rightarrow> (evaluationJob \<Rightarrow> evaluationJob) \<Rightarrow> (gerror + 'a) \<times> world \<Rightarrow> bool" where
  "fenced w p f (Inl err, w') \<longleftrightarrow> errors_Is err ErrStaleClaim \<and> (\<forall>j\<in>set (t_jobs (w_db w)). \<not> p j) \<and> w_db w' = w_db w"
| "fenced w p f (Inr a, w') \<longleftrightarrow> (\<exists>j\<in>set (t_jobs (w_db w)). p j)
     \<and> w_db w' = (w_db w)\<lparr> t_jobs := upd_where p (\<lambda>j. (f j)\<lparr> job_UpdatedAt := w_dbnow w \<rparr>) (t_jobs (w_db w)) \<rparr>"

lemma updateJobs_run:
  assumes "w_fault w (w_stmts w) = None" and "\<And>v j. j \<in> set (t_jobs (w_db w)) \<Longrightarrow> p v j \<Longrightarrow> job_chk (f v j)"
  shows "updateJobs p f w = (let v = w\<lparr> w_stmts := w_stmts w + 1 \<rparr>; g = (\<lambda>j. (f v j)\<lparr> job_UpdatedAt := w_dbnow w \<rparr>) in
     (Inr (map g (filter (p v) (t_jobs (w_db w)))), v\<lparr> w_db := (w_db w)\<lparr> t_jobs := upd_where (p v) g (t_jobs (w_db w)) \<rparr> \<rparr>))"
proof -
  have "\<not> exists_row (\<lambda>j. p (w\<lparr> w_stmts := w_stmts w + 1 \<rparr>) j \<and> \<not> job_chk (f (w\<lparr> w_stmts := w_stmts w + 1 \<rparr>) j)) (t_jobs (w_db w))"
    using assms(2) by (auto simp: exists_row_iff)
  then show ?thesis using assms(1) by (simp add: updateJobs_def execute_def Let_def)
qed

lemma claimedUpdate_fenced:
  assumes "w_fault w (w_stmts w) = None" and "\<And>v j. j \<in> set (t_jobs (w_db w)) \<Longrightarrow> p v j \<Longrightarrow> job_chk (f v j)"
    and "\<And>v. w_dbnow v = w_dbnow w \<Longrightarrow> p v = p w \<and> f v = f w"
  shows "fenced w (p w) (f w) (claimedUpdate p f w)"
proof -
  let ?v = "w\<lparr> w_stmts := w_stmts w + 1 \<rparr>" and ?t = "t_jobs (w_db w)"
  let ?g = "\<lambda>j. (f w j)\<lparr> job_UpdatedAt := w_dbnow w \<rparr>"
  let ?w' = "?v\<lparr> w_db := (w_db w)\<lparr> t_jobs := upd_where (p w) ?g ?t \<rparr> \<rparr>"
  have v: "p ?v = p w" "f ?v = f w" using assms(3) [of ?v] by simp_all
  have up: "updateJobs p f w = (Inr (map ?g (filter (p w) ?t)), ?w')"
    using updateJobs_run [of w p f, OF assms(1,2)] unfolding Let_def v .
  show ?thesis
  proof (cases "filter (p w) ?t = []")
    case True
    then have no: "\<forall>j\<in>set ?t. \<not> p w j" by (simp add: filter_empty_conv)
    then have "w_db ?w' = w_db w" by (simp add: upd_where_id)
    with True no show ?thesis by (simp add: claimedUpdate_def bindA_def up failA_def)
  next
    case False
    then have "\<exists>j\<in>set ?t. p w j" by (simp add: filter_empty_conv)
    with False show ?thesis by (simp add: claimedUpdate_def bindA_def up returnA_def)
  qed
qed

lemma transition_fences:
  assumes "jobs_ok (w_db w)" and "w_fault w (w_stmts w) = None"
  shows "let now = w_dbnow w; live = (\<lambda>j. holds i token j \<and> leased w j) in
    fenced w live (\<lambda>j. j\<lparr> job_Attempts := job_Attempts j + 1 \<rparr>) (StartEvaluationJob i token w)
    \<and> fenced w live (\<lambda>j. j\<lparr> job_LeaseUntil := Some (now + interval_us d) \<rparr>) (HeartbeatEvaluationJob i token d w)
    \<and> fenced w (holds i token) (\<lambda>j. j\<lparr> job_Status := EvaluationJobPending, job_AvailableAt := now + interval_us d,
          job_ClaimToken := None, job_LeaseUntil := None \<rparr>) (ReleaseEvaluationJob i token d w)
    \<and> fenced w (holds i token) (\<lambda>j. j\<lparr> job_Status := (if m \<le> n then EvaluationJobFailed else EvaluationJobPending),
          job_Attempts := max (job_Attempts j) n, job_LastError := msg cause, job_ClaimToken := None,
          job_LeaseUntil := None, job_AvailableAt := (if n < m then now + interval_us d else job_AvailableAt j) \<rparr>)
        (FailEvaluationJob i token n m d cause w)
    \<and> fenced w (holds i token) (\<lambda>j. j\<lparr> job_Status := EvaluationJobSucceeded, job_ClaimToken := None,
          job_LeaseUntil := None, job_LastError := '''' \<rparr>) (CompleteEvaluationJob i token w)"
proof -
  have chk: "job_chk j" if "j \<in> set (t_jobs (w_db w))" for j using assms(1) that by (simp add: jobs_ok_def)
  note u = claimedUpdate_fenced [OF assms(2)]
  have s: "fenced w (\<lambda>j. holds i token j \<and> leased w j) (\<lambda>j. j\<lparr> job_Attempts := job_Attempts j + 1 \<rparr>) (StartEvaluationJob i token w)"
  proof -
    have c: "job_chk (j\<lparr> job_Attempts := job_Attempts j + 1 \<rparr>)" if "j \<in> set (t_jobs (w_db w))" for j
      using chk [OF that] by (simp add: job_chk_def)
    let ?v = "w\<lparr> w_stmts := w_stmts w + 1 \<rparr>"
    have "leased ?v = leased w" by (rule ext) (simp add: leased_def split: option.split)
    then have up: "updateJobs (\<lambda>w j. holds i token j \<and> leased w j) (\<lambda>w j. j\<lparr> job_Attempts := job_Attempts j + 1 \<rparr>) w
        = (let g = (\<lambda>j. j\<lparr> job_Attempts := job_Attempts j + 1, job_UpdatedAt := w_dbnow w \<rparr>);
               p = (\<lambda>j. holds i token j \<and> leased w j); ts = t_jobs (w_db w) in
           (Inr (map g (filter p ts)), ?v\<lparr> w_db := (w_db w)\<lparr> t_jobs := upd_where p g ts \<rparr> \<rparr>))"
      by (subst updateJobs_run [OF assms(2)]) (simp_all add: c Let_def)
    show ?thesis
      by (cases "filter (\<lambda>j. holds i token j \<and> leased w j) (t_jobs (w_db w))")
        (auto simp: StartEvaluationJob_def catchA_def up Let_def failA_def returnA_def
          noRows_def e_wrap_Is filter_empty_conv filter_eq_Cons_iff upd_where_id split: if_splits)
  qed
  have live: "leased v = leased w" if "w_dbnow v = w_dbnow w" for v
    using that by (intro ext) (simp add: leased_def split: option.split)
  have h: "fenced w (\<lambda>j. holds i token j \<and> leased w j) (\<lambda>j. j\<lparr> job_LeaseUntil := Some (w_dbnow w + interval_us d) \<rparr>)
      (HeartbeatEvaluationJob i token d w)"
    unfolding HeartbeatEvaluationJob_def
  proof (rule u)
    fix v j assume "j \<in> set (t_jobs (w_db w))" "holds i token j \<and> leased v j"
    then show "job_chk (j\<lparr> job_LeaseUntil := Some (w_dbnow v + interval_us d) \<rparr>)"
      using chk [of j] by (auto simp: job_chk_def holds_def)
  next
    fix v :: world assume "w_dbnow v = w_dbnow w"
    then show "(\<lambda>j. holds i token j \<and> leased v j) = (\<lambda>j. holds i token j \<and> leased w j)
      \<and> (\<lambda>j. j\<lparr> job_LeaseUntil := Some (w_dbnow v + interval_us d) \<rparr>) = (\<lambda>j. j\<lparr> job_LeaseUntil := Some (w_dbnow w + interval_us d) \<rparr>)"
      using live by metis
  qed
  have r: "fenced w (holds i token) (\<lambda>j. j\<lparr> job_Status := EvaluationJobPending, job_AvailableAt := w_dbnow w + interval_us d,
      job_ClaimToken := None, job_LeaseUntil := None \<rparr>) (ReleaseEvaluationJob i token d w)"
    unfolding ReleaseEvaluationJob_def
    by (rule u) (use chk in \<open>auto simp: job_chk_def split: if_splits\<close>)
  have f: "fenced w (holds i token) (\<lambda>j. j\<lparr> job_Status := (if m \<le> n then EvaluationJobFailed else EvaluationJobPending),
      job_Attempts := max (job_Attempts j) n, job_LastError := msg cause, job_ClaimToken := None, job_LeaseUntil := None,
      job_AvailableAt := (if (if m \<le> n then EvaluationJobFailed else EvaluationJobPending) = EvaluationJobPending
        then w_dbnow w + interval_us d else job_AvailableAt j) \<rparr>) (FailEvaluationJob i token n m d cause w)"
    unfolding FailEvaluationJob_def Let_def
    by (rule u) (use chk in \<open>auto simp: job_chk_def le_max_iff_disj split: if_splits\<close>)
  have k: "fenced w (holds i token) (\<lambda>j. j\<lparr> job_Status := EvaluationJobSucceeded, job_ClaimToken := None,
      job_LeaseUntil := None, job_LastError := [] \<rparr>) (CompleteEvaluationJob i token w)"
    unfolding CompleteEvaluationJob_def
    by (rule u) (use chk in \<open>auto simp: job_chk_def split: if_splits\<close>)
  show ?thesis
    using s h r f k unfolding Let_def by (cases "m \<le> n") (simp_all add: not_less not_le)
qed

lemma CancelEvaluationJob_row:
  assumes ok: "jobs_ok (w_db w)" and fault: "w_fault w (w_stmts w) = None"
  shows "w_db (snd (CancelEvaluationJob i token cause w)) = (w_db w)\<lparr> t_jobs :=
      upd_where (\<lambda>j. job_ID j = i \<and> job_ClaimToken j = Some token)
        (\<lambda>j. j\<lparr> job_Status := EvaluationJobCancelled, job_LastError := cause, job_ClaimToken := None,
                job_LeaseUntil := None, job_UpdatedAt := w_dbnow w \<rparr>) (t_jobs (w_db w)) \<rparr>"
    and "fst (CancelEvaluationJob i token cause w) = Inr ()"
proof -
  have "job_chk (j\<lparr> job_Status := EvaluationJobCancelled, job_LastError := cause, job_ClaimToken := None,
      job_LeaseUntil := None \<rparr>)" if "j \<in> set (t_jobs (w_db w))" for j
    using ok that by (auto simp: jobs_ok_def job_chk_def)
  then show "w_db (snd (CancelEvaluationJob i token cause w)) = (w_db w)\<lparr> t_jobs :=
      upd_where (\<lambda>j. job_ID j = i \<and> job_ClaimToken j = Some token)
        (\<lambda>j. j\<lparr> job_Status := EvaluationJobCancelled, job_LastError := cause, job_ClaimToken := None,
                job_LeaseUntil := None, job_UpdatedAt := w_dbnow w \<rparr>) (t_jobs (w_db w)) \<rparr>"
    and "fst (CancelEvaluationJob i token cause w) = Inr ()"
    by (simp_all add: CancelEvaluationJob_def bindA_def updateJobs_run [OF fault] Let_def returnA_def)
qed

text \<open>
  What a cancellation does: it is not told whether a row was still held, and answers success either way.
\<close>

definition cancels :: "world \<Rightarrow> uuid \<Rightarrow> uuid \<Rightarrow> string \<Rightarrow> (gerror + unit) \<times> world \<Rightarrow> bool" where
  "cancels w i token cause r \<longleftrightarrow> fst r = Inr () \<and> w_db (snd r) = (w_db w)\<lparr> t_jobs := upd_where (holds i token)
     (\<lambda>j. j\<lparr> job_Status := EvaluationJobCancelled, job_LastError := cause, job_ClaimToken := None,
             job_LeaseUntil := None, job_UpdatedAt := w_dbnow w \<rparr>) (t_jobs (w_db w)) \<rparr>
   \<and> ((\<forall>j\<in>set (t_jobs (w_db w)). \<not> holds i token j) \<longrightarrow> w_db (snd r) = w_db w)"

lemma CancelEvaluationJob_cancels:
  assumes ok: "jobs_ok (w_db w)" and fault: "w_fault w (w_stmts w) = None"
  shows "cancels w i token cause (CancelEvaluationJob i token cause w)"
proof -
  have "(job_ID j = i \<and> job_ClaimToken j = Some token) = holds i token j" if "j \<in> set (t_jobs (w_db w))" for j
    using ok that by (auto simp: jobs_ok_def job_chk_def holds_def split: if_splits)
  then have "upd_where (\<lambda>j. job_ID j = i \<and> job_ClaimToken j = Some token) f (t_jobs (w_db w)) = upd_where (holds i token) f (t_jobs (w_db w))"
    for f unfolding upd_where_def by (intro map_cong) auto
  with CancelEvaluationJob_row [OF assms] show ?thesis by (simp add: cancels_def upd_where_id)
qed

text \<open>
  C19. A claim is a fence. Without a fault, a start, a heartbeat, a release, a failure and a completion
  of a claimed job answer \<open>ErrStaleClaim\<close> and change nothing exactly when no row is running under the
  given token (for a start and a heartbeat: with a lease that has not ended); otherwise they change that
  row and only that row: a start counts an attempt, a heartbeat extends the lease, a release and a
  failure with attempts left make it pending after the delay, the last failure makes it failed and a
  completion makes it succeeded. A cancellation changes the row held under the token and only that row,
  to cancelled; with a lost token it changes nothing either, but unlike the others it answers success.
\<close>

theorem claim_fence:
  assumes "jobs_ok (w_db w)" and "w_fault w (w_stmts w) = None"
  shows "let now = w_dbnow w; live = (\<lambda>j. holds i token j \<and> leased w j) in
    fenced w live (\<lambda>j. j\<lparr> job_Attempts := job_Attempts j + 1 \<rparr>) (StartEvaluationJob i token w)
    \<and> fenced w live (\<lambda>j. j\<lparr> job_LeaseUntil := Some (now + interval_us d) \<rparr>) (HeartbeatEvaluationJob i token d w)
    \<and> fenced w (holds i token) (\<lambda>j. j\<lparr> job_Status := EvaluationJobPending, job_AvailableAt := now + interval_us d,
          job_ClaimToken := None, job_LeaseUntil := None \<rparr>) (ReleaseEvaluationJob i token d w)
    \<and> fenced w (holds i token) (\<lambda>j. j\<lparr> job_Status := (if m \<le> n then EvaluationJobFailed else EvaluationJobPending),
          job_Attempts := max (job_Attempts j) n, job_LastError := msg cause, job_ClaimToken := None,
          job_LeaseUntil := None, job_AvailableAt := (if n < m then now + interval_us d else job_AvailableAt j) \<rparr>)
        (FailEvaluationJob i token n m d cause w)
    \<and> fenced w (holds i token) (\<lambda>j. j\<lparr> job_Status := EvaluationJobSucceeded, job_ClaimToken := None,
          job_LeaseUntil := None, job_LastError := '''' \<rparr>) (CompleteEvaluationJob i token w)
    \<and> cancels w i token reason (CancelEvaluationJob i token reason w)"
  using transition_fences [OF assms] CancelEvaluationJob_cancels [OF assms] unfolding Let_def by blast

section \<open>The properties at concrete inputs\<close>

text \<open>A plan, a claim, a start; the lease runs out, a second claim, a late completion under the first token.\<close>

definition exampleCalls :: "queueCall list" where
  "exampleCalls = [DoPlan 0 0 0, DoClaim 500, DoStart 100 102, DoClock 2600, DoClaim 500, DoComplete 100 102,
     DoStart 100 103, DoComplete 100 103]"

definition planned_world :: world where
  "planned_world = last (queueRun everyTen [DoPlan 0 0 0] planWorld)"

lemma planWorld_ok: "jobs_ok (w_db planWorld)" "rows_ok (w_db planWorld)"
  by (simp_all add: jobs_ok_def rows_ok_def planWorld_def emptyWorld_def)

lemma planned_world_ok: "jobs_ok (w_db planned_world)"
  unfolding planned_world_def jobs_ok_def by code_simp

theorem queue_moves_forward_witness:
  "queue_chain (w_db planWorld) (exampleCalls @ [DoDeleteRule 3])
     (map w_db (queueRun everyTen (exampleCalls @ [DoDeleteRule 3]) planWorld))
   \<and> map (\<lambda>j. (job_ScheduledAt j, job_Status j, job_Attempts j)) (t_jobs (w_db (last (queueRun everyTen exampleCalls planWorld))))
     = [(1990, EvaluationJobSucceeded, 2), (2000, EvaluationJobPending, 0)]
   \<and> t_jobs (w_db (last (queueRun everyTen (exampleCalls @ [DoDeleteRule 3]) planWorld))) = []"
  using queue_moves_forward [OF everyTen_advances planWorld_ok, of "exampleCalls @ [DoDeleteRule 3]"]
  by (rule conjI) code_simp

definition renameRule :: rulePatch where
  "renameRule = \<lparr> rp_Name = Some ''new'', rp_TemplateKind = None, rp_TemplateSpec = None, rp_ExplanationCEL = None,
     rp_Enabled = None, rp_Severity = None, rp_Schedule = None, rp_Notifications = None, rp_Labels = None,
     rp_ExpectedRevision = Some 4 \<rparr>"

definition oldJob :: evaluationJob where
  "oldJob = hd (t_jobs (w_db (last (queueRun everyTen [DoPlan 0 0 0, DoClaim 500] planWorld))))"

theorem superseded_never_asserted_witness:
  "let w = last (queueRun everyTen [DoPlan 0 0 0, DoClaim 500] planWorld);
       w1 = snd (PatchRule everyTen 3 renameRule w) in
     fst (AssertEvaluationJobClaim oldJob w) = Inr ()
     \<and> fst (AssertEvaluationJobClaim oldJob (last (w1 # queueRun everyTen [DoPlan 0 0 0] w1))) \<noteq> Inr ()
     \<and> fst (AssertEvaluationJobClaim oldJob (last (w1 # queueRun everyTen [DoDeleteRule 3] w1))) \<noteq> Inr ()"
proof -
  let ?w = "last (queueRun everyTen [DoPlan 0 0 0, DoClaim 500] planWorld)"
  let ?r = "hd (t_rules (w_db ?w))"
  have ok: "jobs_ok (w_db ?w)" "rows_ok (w_db ?w)" unfolding jobs_ok_def rows_ok_def by code_simp+
  have "fst (PatchRule everyTen (rule_ID ?r) renameRule ?w) = Inr ()" by code_simp
  then have run: "PatchRule everyTen (rule_ID ?r) renameRule ?w = (Inr (), snd (PatchRule everyTen (rule_ID ?r) renameRule ?w))"
    by (metis prod.collapse)
  have r: "rule_ID ?r = 3" "?r \<in> set (t_rules (w_db ?w))" "patch_touches renameRule"
    "job_RuleID oldJob = rule_ID ?r" "job_RuleRevision oldJob \<le> rule_Revision ?r"
    "fst (AssertEvaluationJobClaim oldJob ?w) = Inr ()"
    by code_simp+
  have kept: "id_kept (rule_ID ?r) [DoPlan 0 0 0]" "id_kept (rule_ID ?r) [DoDeleteRule 3]" by (simp_all add: id_kept_def)
  note never = superseded_never_asserted [OF everyTen_advances ok run r(3,2,4,5)]
  have "fst (AssertEvaluationJobClaim oldJob (last (snd (PatchRule everyTen 3 renameRule ?w) # queueRun everyTen ops
      (snd (PatchRule everyTen 3 renameRule ?w))))) \<noteq> Inr ()" if "id_kept (rule_ID ?r) ops" for ops
    using never [OF that] unfolding r(1) by blast
  from this [OF kept(1)] this [OF kept(2)] r(6) show ?thesis unfolding Let_def by blast
qed

theorem claim_exclusive_witness:
  "\<exists>cj w'. ClaimEvaluationJob 500 planned_world = (Inr (Some cj), w') \<and> job_ScheduledAt (cj_Job cj) = 1990
     \<and> (\<forall>k\<in>set (t_jobs (w_db w')). job_ID k = job_ID (cj_Job cj) \<longrightarrow> \<not> claimable 2500 k)"
proof -
  have "map_sum id (map_option (\<lambda>cj. job_ScheduledAt (cj_Job cj))) (fst (ClaimEvaluationJob 500 planned_world)) = Inr (Some 1990)"
    by code_simp
  then obtain cj w' where run: "ClaimEvaluationJob 500 planned_world = (Inr (Some cj), w')"
    and at: "job_ScheduledAt (cj_Job cj) = 1990"
    by (cases "ClaimEvaluationJob 500 planned_world"; case_tac a) auto
  have now: "w_dbnow planned_world = 2000" by code_simp
  obtain j where j: "cj = \<lparr> cj_Job = claimWith (w_uuid planned_world (w_uuids planned_world)) (2000 + 500) j,
        cj_Reclaimed = (job_Status j = EvaluationJobRunning) \<rparr>"
    "\<forall>k\<in>set (t_jobs (w_db w')). job_ID k = job_ID j \<longrightarrow> (\<forall>t\<le>2000 + 500. \<not> claimable t k)"
    using claim_exclusive [OF planned_world_ok run] unfolding Let_def option.case now by blast
  then have "\<forall>k\<in>set (t_jobs (w_db w')). job_ID k = job_ID (cj_Job cj) \<longrightarrow> \<not> claimable 2500 k"
    by (simp add: claimWith_def)
  with run at show ?thesis by blast
qed

theorem claim_fence_witness:
  "fenced planned_world (holds 100 102) (\<lambda>j. j\<lparr> job_Status := EvaluationJobSucceeded, job_ClaimToken := None,
       job_LeaseUntil := None, job_LastError := '''' \<rparr>) (CompleteEvaluationJob 100 102 planned_world)
   \<and> errors_Is (projl (fst (CompleteEvaluationJob 100 102 planned_world))) ErrStaleClaim
   \<and> fst (CancelEvaluationJob 100 102 ''late'' planned_world) = Inr ()"
proof (intro conjI)
  have "w_fault planned_world (w_stmts planned_world) = None" by code_simp
  note fence = claim_fence [OF planned_world_ok this, of 100 102]
  from fence show "fenced planned_world (holds 100 102)
      (\<lambda>j. j\<lparr> job_Status := EvaluationJobSucceeded, job_ClaimToken := None, job_LeaseUntil := None, job_LastError := '''' \<rparr>)
      (CompleteEvaluationJob 100 102 planned_world)"
    unfolding Let_def by blast
  from fence [of 0 0 0 "new_error ''''" "''late''"] show "fst (CancelEvaluationJob 100 102 ''late'' planned_world) = Inr ()"
    unfolding Let_def cancels_def by blast
qed code_simp

end
