(* ===== verification/EvaluationRun.thy ===== *)
theory EvaluationRun
  imports AlertContract JobQueue
begin

text \<open>
  What an evaluation of a rule leaves behind, across the runner, the templates, the alert store and
  the job queue: the evaluation, the alerts and the completion of the job are committed together
  or not at all; the active alerts become the failing outcomes; an occurrence is evaluated once.
\<close>

section \<open>Statements of the run\<close>

lemma quietA_more [quietI]: "quietA selectNow" "quietA f \<Longrightarrow> quietA (plainWrap m f)" "quietA (ofSum s)"
proof -
  show "quietA selectNow" by (rule quietA_I) (auto simp: selectNow_def quiet_def split: option.splits)
  show "quietA (plainWrap m f)" if "quietA f"
    by (rule quietA_I) (use that in \<open>auto simp: plainWrap_def dest: quietA_D split: prod.splits sum.splits\<close>)
  show "quietA (ofSum s)" by (rule quietA_I) (auto simp: quiet_def)
qed

lemma quietA_updateJobs [quietI]: "quietA (updateJobs p f)"
  unfolding updateJobs_def by (rule quietI)

lemma quietA_claimed [quietI]: "quietA (claimedUpdate p f)"
  unfolding claimedUpdate_def by (intro quietI)

lemma quietA_run [quietI]:
  "quietA (AssertRuleRevision i v)" "quietA (AssertEvaluationJobClaim j)" "quietA (CreateEvaluation ev)"
  "quietA (CompleteEvaluationJob i t)"
  unfolding AssertRuleRevision_def AssertEvaluationJobClaim_def CreateEvaluation_def CompleteEvaluationJob_def
  by (intro quietI)+

lemma assert_reads: "readsA (AssertRuleRevision i v)" "readsA (AssertEvaluationJobClaim j)"
  unfolding AssertRuleRevision_def AssertEvaluationJobClaim_def by (intro readsI)+

lemma jsonb_stmts [simp]: "jsonb (w\<lparr> w_stmts := n \<rparr>) = jsonb w"
  by (simp add: jsonb_def fun_eq_iff)

lemma CreateEvaluation_Inr:
  assumes "CreateEvaluation ev w = (Inr row, w')"
  shows "w_db w' = (w_db w)\<lparr> t_evaluations := t_evaluations (w_db w) @ [row] \<rparr>
    \<and> row = ev\<lparr> eval_Evidence := jsonb w (eval_Evidence ev), eval_CreatedAt := w_dbnow w \<rparr>
    \<and> (\<forall>v\<in>set (t_evaluations (w_db w)). eval_ID v \<noteq> eval_ID ev
         \<and> (eval_ScheduledAt ev \<noteq> None \<longrightarrow> \<not> (eval_RuleID v = eval_RuleID ev
              \<and> eval_RuleRevision v = eval_RuleRevision ev \<and> eval_ScheduledAt v = eval_ScheduledAt ev)))"
  using assms unfolding CreateEvaluation_def
  by (auto simp: Let_def exists_row_iff dest!: execute_Inr split: if_splits)

text \<open>The row held under the token of \<open>job\<close> was completed, and there was one.\<close>

definition completed :: "evaluationJob \<Rightarrow> evaluationJob list \<Rightarrow> evaluationJob list \<Rightarrow> bool" where
  "completed job js js' \<longleftrightarrow> (\<exists>j\<in>set js. holds (job_ID job) (the (job_ClaimToken job)) j)
     \<and> (\<exists>now. js' = upd_where (holds (job_ID job) (the (job_ClaimToken job)))
          (\<lambda>j. j\<lparr> job_Status := EvaluationJobSucceeded, job_ClaimToken := None, job_LeaseUntil := None,
                  job_LastError := '''', job_UpdatedAt := now \<rparr>) js)"

lemma CompleteEvaluationJob_Inr:
  assumes "CompleteEvaluationJob i token w = (Inr (), w')" and "i = job_ID job" and "token = the (job_ClaimToken job)"
  shows "w_db w' = (w_db w)\<lparr> t_jobs := t_jobs (w_db w') \<rparr> \<and> completed job (t_jobs (w_db w)) (t_jobs (w_db w'))"
proof -
  from assms(1) obtain js where up: "updateJobs (\<lambda>w. holds i token)
      (\<lambda>w j. j\<lparr> job_Status := EvaluationJobSucceeded, job_ClaimToken := None, job_LeaseUntil := None, job_LastError := '''' \<rparr>) w
      = (Inr js, w')" and ne: "js \<noteq> []"
    by (auto simp: CompleteEvaluationJob_def claimedUpdate_def act_dest split: if_splits)
  from up show ?thesis
  proof (cases rule: updateJobs_cases)
    case (2 g)
    then show ?thesis using ne assms(2,3)
      by (auto simp: completed_def filter_empty_conv intro!: exI [of _ "w_dbnow w"])
  qed simp
qed

text \<open>A transaction of \<open>RunInTx\<close> outside another.\<close>

lemma RunInTx_cases:
  assumes "RunInTx f w = (q, w')" and "w_collector w = None"
  shows "case q of Inl err \<Rightarrow> w_db w' = w_db w
    | Inr a \<Rightarrow> \<exists>w1. f (w\<lparr> w_collector := Some [] \<rparr>) = (Inr a, w1) \<and> w_db w' = w_db w1"
  using assms
  by (auto simp: RunInTx_def inTx_def flushAlertEvents_def Let_def split: prod.splits sum.splits option.splits if_splits)

lemma alert_world_quiet: "alert_world w \<Longrightarrow> quiet w w' \<Longrightarrow> t_alerts (w_db w') = t_alerts (w_db w) \<Longrightarrow>
    t_events (w_db w') = t_events (w_db w) \<Longrightarrow> alert_world w'"
  using observed_quiet [of w w'] by (simp add: alert_world_def honest_def alerts_ok_def log_of_def)

lemma periodOr_PeriodID [simp]: "periodOr (PeriodID p t) = PeriodID p t"
  by (auto simp: periodOr_def PeriodID_def format_day_def format_week_def format_month_def split: prod.splits)

section \<open>The committed run\<close>

text \<open>
  The active fingerprints after an evaluation: an error adds the engine alert; otherwise the
  failing outcomes replace the active fingerprints of the period and the engine alert closes.
\<close>

definition alerts_after :: "rule \<Rightarrow> string \<Rightarrow> templateAnswer \<Rightarrow> actives \<Rightarrow> actives" where
  "alerts_after rule p answer A =
     (case snd answer of
        Some _ \<Rightarrow> set_active (rule_ID rule) ContinuousPeriod (insert EngineErrorFingerprint) A
      | None \<Rightarrow> set_active (rule_ID rule) ContinuousPeriod (\<lambda>F. F - {EngineErrorFingerprint})
                 (set_active (rule_ID rule) (periodOr p)
                    (\<lambda>_. failing (case fst answer of None \<Rightarrow> [] | Some r \<Rightarrow> er_Outcomes r)) A))"

text \<open>What the fence of the transaction established.\<close>

definition fenced_run :: "rule \<Rightarrow> evaluationJob option \<Rightarrow> db \<Rightarrow> bool" where
  "fenced_run rule completion d \<longleftrightarrow>
     (\<exists>r. List.find (\<lambda>r. rule_ID r = (case completion of None \<Rightarrow> rule_ID rule | Some job \<Rightarrow> job_RuleID job)) (t_rules d) = Some r
        \<and> rule_Enabled r
        \<and> rule_Revision r = (case completion of None \<Rightarrow> rule_Revision rule | Some job \<Rightarrow> job_RuleRevision job))
     \<and> (\<forall>job. completion = Some job \<longrightarrow> (\<exists>token. job_ClaimToken job = Some token
           \<and> (\<exists>j\<in>set (t_jobs d). holds (job_ID job) token j)))"

lemma AssertRuleRevision_Inr: "AssertRuleRevision i v w = (Inr u, w') \<Longrightarrow>
    \<exists>r. List.find (\<lambda>r. rule_ID r = i) (t_rules (w_db w)) = Some r \<and> rule_Enabled r \<and> rule_Revision r = v"
  by (auto simp: AssertRuleRevision_def act_dest dest!: selectOne_Inr split: if_splits)

lemma AssertEvaluationJobClaim_Inr: "AssertEvaluationJobClaim job w = (Inr u, w') \<Longrightarrow>
    (\<exists>r. List.find (\<lambda>r. rule_ID r = job_RuleID job) (t_rules (w_db w)) = Some r \<and> rule_Enabled r
        \<and> rule_Revision r = job_RuleRevision job)
    \<and> (\<exists>token. job_ClaimToken job = Some token \<and> (\<exists>j\<in>set (t_jobs (w_db w)). holds (job_ID job) token j))"
  by (auto simp: AssertEvaluationJobClaim_def act_dest holds_def dest!: selectOne_Inr selectNow_Inr dest: find_SomeD
      split: if_splits)

lemma fence_facts:
  assumes "fenceRun sqlStore rule completion w = (Inr u, w')"
  shows "w_db w' = w_db w \<and> quiet w w' \<and> fenced_run rule completion (w_db w)"
proof (cases completion)
  case None
  then obtain x where a: "AssertRuleRevision (rule_ID rule) (rule_Revision rule) w = (Inr x, w')"
    using assms by (cases "AssertRuleRevision (rule_ID rule) (rule_Revision rule) w"; case_tac a)
      (auto simp: fenceRun_def catchA_def split: if_splits)
  from AssertRuleRevision_Inr [OF a] assert_reads(1) quietA_D [OF quietA_run(1) a] a None show ?thesis
    unfolding readsA_def fenced_run_def by auto
next
  case (Some job)
  then have a: "AssertEvaluationJobClaim job w = (Inr u, w')" using assms by (simp add: fenceRun_def)
  from AssertEvaluationJobClaim_Inr [OF a] assert_reads(2) quietA_D [OF quietA_run(2) a] a Some show ?thesis
    unfolding readsA_def fenced_run_def by auto
qed

lemma commitRun_alerts:
  assumes run: "alertRun sqlStore rule p ended answer ev w = (Inr u, w')"
    and w: "alert_world w"
  shows "alert_world w' \<and> rest_of (w_db w') = rest_of (w_db w)
    \<and> activeFps (w_db w') = alerts_after rule p answer (activeFps (w_db w))"
proof -
  let ?X = "rest_of (w_db w)"
  have f: "alert_frame ?X w" using w by (simp add: alert_frame_def)
  have cont: "periodOr ContinuousPeriod = ContinuousPeriod" by (simp add: periodOr_def)
  show ?thesis
  proof (cases "snd answer")
    case (Some err)
    then obtain inp x where "st_OpenOrUpdateAlert sqlStore inp w = (Inr x, w')" "oi_RuleID inp = rule_ID rule"
        "oi_PeriodID inp = ContinuousPeriod" "oi_Fingerprint inp = EngineErrorFingerprint"
      using run by (auto simp: alertRun_def openEngineErrorAlert_def act_dest simp del: sqlStore_simps)
    with sql.opens [OF f this(1)] Some cont show ?thesis by (simp add: alert_frame_def alerts_after_def)
  next
    case None
    let ?ocs = "case fst answer of None \<Rightarrow> [] | Some r \<Rightarrow> er_Outcomes r"
    from run None obtain x y w1 where d: "driveAlerts sqlStore rule (eval_ID ev) ?ocs p ended w = (Inr x, w1)"
      and e: "st_AutoResolveAlert sqlStore (rule_ID rule) EngineErrorFingerprint ContinuousPeriod (eval_ID ev) ended w1 = (Inr y, w')"
      by (auto simp: alertRun_def act_dest simp del: sqlStore_simps)
    note 1 = sql.driveAlerts_active [OF f d]
    from 1 sql.resolves [OF conjunct1 [OF 1] e] None cont show ?thesis
      by (simp add: alert_frame_def alerts_after_def)
  qed
qed

lemma commitRun_Inr:
  assumes run: "commitRun sqlStore rule completion p ended answer ev0 w = (Inr ev, w')" and w: "alert_world w"
  shows "ev = ev0\<lparr> eval_Evidence := jsonb w (eval_Evidence ev0), eval_CreatedAt := w_dbnow w \<rparr>
    \<and> (\<forall>v\<in>set (t_evaluations (w_db w)). eval_ID v \<noteq> eval_ID ev0
         \<and> (eval_ScheduledAt ev0 \<noteq> None \<longrightarrow> \<not> (eval_RuleID v = eval_RuleID ev0
              \<and> eval_RuleRevision v = eval_RuleRevision ev0 \<and> eval_ScheduledAt v = eval_ScheduledAt ev0)))
    \<and> t_evaluations (w_db w') = t_evaluations (w_db w) @ [ev] \<and> t_rules (w_db w') = t_rules (w_db w)
    \<and> activeFps (w_db w') = alerts_after rule p answer (activeFps (w_db w))
    \<and> fenced_run rule completion (w_db w)
    \<and> (\<forall>job. completion = Some job \<longrightarrow>
         completed job (t_jobs (w_db w)) (t_jobs (w_db w')))
    \<and> (completion = None \<longrightarrow> t_jobs (w_db w') = t_jobs (w_db w)) \<and> alerts_ok (w_db w')"
proof -
  from run obtain u1 w1 w2 u3 w3 u4 where
    fence: "fenceRun sqlStore rule completion w = (Inr u1, w1)"
    and create: "CreateEvaluation ev0 w1 = (Inr ev, w2)"
    and alerts: "alertRun sqlStore rule p ended answer ev w2 = (Inr u3, w3)"
    and complete: "completeRun sqlStore completion w3 = (Inr u4, w')"
    by (auto simp: commitRun_def act_dest)
  have f: "w_db w1 = w_db w" "quiet w w1" "fenced_run rule completion (w_db w)"
    by (use fence_facts [OF fence] in blast)+
  note c = CreateEvaluation_Inr [OF create]
  have "quiet w1 w2" by (rule quietA_D [OF quietA_run(3) create])
  then have w2: "alert_world w2" using alert_world_quiet [of w1 w2] alert_world_quiet [OF w f(2)] f(1) c by simp
  note a = commitRun_alerts [OF alerts w2]
  have jb: "jsonb w1 = jsonb w" "w_dbnow w1 = w_dbnow w" using f(2) by (simp_all add: quiet_def jsonb_def fun_eq_iff)
  have fin: "t_alerts (w_db w') = t_alerts (w_db w3)" "t_events (w_db w') = t_events (w_db w3)"
    "t_rules (w_db w') = t_rules (w_db w3)" "t_evaluations (w_db w') = t_evaluations (w_db w3)"
    "\<forall>job. completion = Some job \<longrightarrow>
         completed job (t_jobs (w_db w3)) (t_jobs (w_db w'))"
    "completion = None \<longrightarrow> t_jobs (w_db w') = t_jobs (w_db w3)"
    using complete unfolding completeRun_def by (auto split: option.splits dest!: CompleteEvaluationJob_Inr [OF _ refl refl] dest: arg_cong [where f = t_alerts]
        arg_cong [where f = t_events] arg_cong [where f = t_rules] arg_cong [where f = t_evaluations])
  have rest: "rest_of (w_db w3) = (t_rules (w_db w), t_evaluations (w_db w) @ [ev], t_jobs (w_db w))"
    using a c f(1) by (simp add: rest_of_def)
  have "activeFps (w_db w2) = activeFps (w_db w)" by (rule activeFps_alerts) (simp add: c f(1))
  moreover have "activeFps (w_db w') = activeFps (w_db w3)" by (rule activeFps_alerts) (rule fin(1))
  moreover have "alerts_ok (w_db w')" using a fin(1,2) by (simp add: alert_world_def alerts_ok_def log_of_def)
  ultimately show ?thesis
    using a c f(1,3) jb fin rest by (simp add: rest_of_def)
qed

section \<open>Nothing is published before the commit\<close>

named_theorems buffersI

lemma buffers_quiet: "quietA f \<Longrightarrow> buffers f"
  unfolding buffers_def by (intro allI impI) (drule (1) quietA_D, simp add: quiet_def)

lemma buffers_basic [buffersI]: "buffers (returnA a)" "buffers (failA err)" "buffers (tickA goNow)"
  by (intro buffers_quiet quietI)+

lemma buffers_then:
  assumes "buffers f" and "\<And>x. buffers (k x)" and "f w = (r, w1)" and "k x w1 = (q, w')" and "w_collector w = Some p"
  shows "(\<exists>p'. w_collector w' = Some (p @ p')) \<and> w_published w' = w_published w \<and> w_publisher w' = w_publisher w"
proof -
  obtain p1 where 1: "w_collector w1 = Some (p @ p1)" "w_published w1 = w_published w" "w_publisher w1 = w_publisher w"
    using assms(1,3,5) unfolding buffers_def by blast
  obtain p2 where "w_collector w' = Some ((p @ p1) @ p2)" "w_published w' = w_published w1" "w_publisher w' = w_publisher w1"
    using assms(2,4) 1(1) unfolding buffers_def by blast
  with 1 show ?thesis by simp
qed

lemma buffers_catch [buffersI]: "buffers f \<Longrightarrow> (\<And>r. buffers (k r)) \<Longrightarrow> buffers (catchA f k)"
  unfolding buffers_def [of "catchA f k"] catchA_iff by (intro allI impI) (elim exE conjE, rule buffers_then)

lemma buffers_bind [buffersI]:
  assumes "buffers f" and "\<And>a. buffers (k a)"
  shows "buffers (bindA f k)"
proof -
  have "bindA f k = catchA f (\<lambda>r. case r of Inl err \<Rightarrow> failA err | Inr a \<Rightarrow> k a)"
    by (rule ext) (auto simp: bindA_def catchA_def failA_def split: prod.splits sum.splits)
  moreover have "buffers (case r of Inl err \<Rightarrow> failA err | Inr a \<Rightarrow> k a)" for r
    by (cases r) (auto intro: buffersI assms(2))
  ultimately show ?thesis using buffers_catch [OF assms(1)] by metis
qed

lemma buffers_plainWrap [buffersI]: "buffers f \<Longrightarrow> buffers (plainWrap m f)"
  unfolding buffers_def plainWrap_def by (auto split: prod.splits sum.splits)

lemma buffers_if [buffersI]: "buffers f \<Longrightarrow> buffers g \<Longrightarrow> buffers (if b then f else g)"
  by simp

lemma buffers_publish [buffersI]: "buffers (publish ao eo)"
  unfolding buffers_def
  by (auto simp: publish_run recordAlertEvent_def split: option.splits)

lemma buffers_alerts [buffersI]: "buffers (AutoResolveAlert r fp p i at)" "buffers (OpenOrUpdateAlert inp)"
  "buffers (ListActiveAlertFingerprints r p)"
proof -
  show "buffers (AutoResolveAlert r fp p i at)"
    unfolding AutoResolveAlert_def Let_def
    by (auto intro!: buffersI buffers_quiet [OF quietA_inTx] tx_quiet split: prod.split)
  have "buffers (openAttempts n inp)" for n inp
  proof (induction n)
    case (Suc n)
    have "buffers (case r of
         Inr result \<Rightarrow> bindA (publish (Some (or_Alert result)) (Some (or_Event result))) (\<lambda>_. returnA result)
       | Inl err \<Rightarrow> if 0 < n \<and> errors_Is err ErrDuplicateKeyValue then openAttempts n inp else failA err)" for r
      by (cases r) (auto intro!: buffersI Suc.IH)
    then show ?case
      unfolding openAttempts.simps
      by (intro buffers_catch) (auto simp: openOrUpdateAlertOnce_def intro!: buffers_quiet [OF quietA_inTx] openTx_quiet)
  qed (simp add: buffersI)
  then show "buffers (OpenOrUpdateAlert inp)"
    unfolding OpenOrUpdateAlert_def by (auto intro!: buffersI)
  show "buffers (ListActiveAlertFingerprints r p)"
    unfolding ListActiveAlertFingerprints_def by (intro buffers_quiet quietI)
qed

lemma buffers_driveAlerts [buffersI]: "buffers (driveAlerts sqlStore rule i ocs p at)"
proof -
  have "buffers (driveOutcomes sqlStore rule i p at ocs)" for ocs
    by (induction ocs) (auto simp: driveOutcome_def intro!: buffersI)
  moreover have "buffers (sweep sqlStore rule i p at seen fps)" for seen fps
    by (induction fps) (auto intro!: buffersI)
  ultimately show ?thesis unfolding driveAlerts_def by (auto intro!: buffersI)
qed

lemma commitRun_buffers: "buffers (commitRun sqlStore rule completion p ended answer ev)"
proof -
  have "quietA (fenceRun sqlStore rule completion)"
    unfolding fenceRun_def by (cases completion) (auto intro!: quietI split: sum.split)
  moreover have "buffers (alertRun sqlStore rule p ended answer ev)" for ev
    unfolding alertRun_def openEngineErrorAlert_def by (cases "snd answer") (auto intro!: buffersI)
  moreover have "quietA (completeRun sqlStore completion)"
    unfolding completeRun_def by (cases completion) (auto intro!: quietI)
  moreover have "buffers (CreateEvaluation ev)" by (rule buffers_quiet) (rule quietA_run(3))
  ultimately show ?thesis
    unfolding commitRun_def by (auto intro!: buffersI intro: buffers_quiet)
qed

section \<open>Evaluations\<close>

lemma evaluateTemplate_quiet: "quietA (tickA (evaluateTemplate R eng T rule inp))"
  by (rule quietA_I) (auto simp: tickA_def evaluateTemplate_def quiet_def)

text \<open>A run stops because its context was cancelled, or ends in its one transaction.\<close>

lemma run_shape:
  assumes "run R eng S rule T req completion w = (q, w')"
  obtains err where "q = Inl err" "w_db w' = w_db w" "quiet w w'"
  | pit clock answer started ended i w1 where
      "tm_Evaluate T (rn_ctx R) clock (rule_TemplateSpec rule) eng (rn_resolvers R)
         \<lparr> PIT = pit, PITExplicit = (\<not> IsZero (rq_PIT req)), SourcePITs = rq_SourcePITs req,
           in_SafetyMargin = rq_SafetyMargin req \<rparr> = answer"
      "rq_PIT req \<noteq> 0 \<longrightarrow> pit = rq_PIT req" "w_db w1 = w_db w" "quiet w w1"
      "RunInTx (commitRun S rule completion (PeriodID (rule_PeriodType rule) (pit - rq_SafetyMargin req)) ended answer
         (newEvaluation rule i started ended completion answer)) w1 = (q, w')"
proof -
  from assms [unfolded run_def] show thesis
  proof (rule start_time)
    fix pit and w1 :: world
    let ?inp = "\<lparr> PIT = pit, PITExplicit = (\<not> IsZero (rq_PIT req)), SourcePITs = rq_SourcePITs req,
           in_SafetyMargin = rq_SafetyMargin req \<rparr>"
    let ?w2 = "w1\<lparr> w_ticks := w_ticks w1 + 1 \<rparr>"
    let ?answer = "tm_Evaluate T (rn_ctx R) (\<lambda>n. w_clock ?w2 (w_ticks ?w2 + n)) (rule_TemplateSpec rule) eng (rn_resolvers R) ?inp"
    let ?started = "w_clock w1 (w_ticks w1)" and ?ended = "w_clock w1 (w_ticks w1 + 3)"
    let ?w3 = "w1\<lparr> w_ticks := w_ticks w1 + 4 \<rparr>"
    let ?w4 = "?w3\<lparr> w_uuids := w_uuids w1 + 1 \<rparr>"
    assume rest: "bindA (tickA goNow) (\<lambda>started. bindA (tickA (evaluateTemplate R eng T rule ?inp)) (\<lambda>answer.
        bindA (tickA goNow) (\<lambda>ended. case rn_cancelled R of Some err \<Rightarrow> failA err
          | None \<Rightarrow> bindA (tickA newUUID) (\<lambda>i. RunInTx (commitRun S rule completion
              (PeriodID (rule_PeriodType rule) (pit - rq_SafetyMargin req)) ended answer
              (newEvaluation rule i started ended completion answer)))))) w1 = (q, w')"
      and w1: "w_db w1 = w_db w" "quiet w w1" and pit: "rq_PIT req \<noteq> 0 \<longrightarrow> pit = rq_PIT req"
    show thesis
    proof (cases "rn_cancelled R")
      case (Some err)
      then have "q = Inl err \<and> w' = ?w3"
        using rest by (simp add: bindA_def tickA_def evaluateTemplate_def failA_def numeral_eq_Suc)
      then show thesis using w1 that(1) by (auto simp: quiet_def)
    next
      case None
      then have "RunInTx (commitRun S rule completion (PeriodID (rule_PeriodType rule) (pit - rq_SafetyMargin req))
          ?ended ?answer (newEvaluation rule (w_uuid w1 (w_uuids w1)) ?started ?ended completion ?answer)) ?w4 = (q, w')"
        using rest by (simp add: bindA_def tickA_def evaluateTemplate_def numeral_eq_Suc)
      then show thesis using w1 pit by (intro that(2) [OF refl]) (auto simp: quiet_def)
    qed
  qed
qed

lemma run_outcome:
  assumes "alert_world (w\<lparr> w_collector := Some [] \<rparr>)" and "w_collector w = None"
    and "run R eng sqlStore rule T req completion w = (q, w')"
  shows "case q of
      Inl err \<Rightarrow> w_db w' = w_db w \<and> w_published w' = w_published w
    | Inr ev \<Rightarrow> \<exists>pit clock result evalErr.
        tm_Evaluate T (rn_ctx R) clock (rule_TemplateSpec rule) eng (rn_resolvers R)
          \<lparr> PIT = pit, PITExplicit = (\<not> IsZero (rq_PIT req)), SourcePITs = rq_SourcePITs req,
            in_SafetyMargin = rq_SafetyMargin req \<rparr> = (result, evalErr)
        \<and> (rq_PIT req \<noteq> 0 \<longrightarrow> pit = rq_PIT req)
        \<and> t_evaluations (w_db w') = t_evaluations (w_db w) @ [ev] \<and> eval_RuleID ev = rule_ID rule
        \<and> (eval_Result ev = EvaluationError \<longleftrightarrow> evalErr \<noteq> None)
        \<and> (eval_Result ev = EvaluationPass \<longleftrightarrow>
             evalErr = None \<and> (\<forall>res. result = Some res \<longrightarrow> (\<forall>oc\<in>set (er_Outcomes res). oc_Passed oc)))
        \<and> fenced_run rule completion (w_db w)
        \<and> activeFps (w_db w') = alerts_after rule (PeriodID (rule_PeriodType rule) (pit - rq_SafetyMargin req))
            (result, evalErr) (activeFps (w_db w))
        \<and> alerts_ok (w_db w') \<and> t_rules (w_db w') = t_rules (w_db w)
        \<and> (\<forall>job. completion = Some job \<longrightarrow>
             completed job (t_jobs (w_db w)) (t_jobs (w_db w'))
             \<and> eval_ScheduledAt ev = Some (job_ScheduledAt job) \<and> eval_RuleRevision ev = Some (job_RuleRevision job)
             \<and> (\<forall>v\<in>set (t_evaluations (w_db w)). \<not> (eval_RuleID v = rule_ID rule
                 \<and> eval_RuleRevision v = Some (job_RuleRevision job) \<and> eval_ScheduledAt v = Some (job_ScheduledAt job))))"
  using assms(3)
proof (rule run_shape)
  fix err assume "q = Inl err" "w_db w' = w_db w" "quiet w w'"
  then show ?thesis by (simp add: quiet_def)
next
  fix pit clock answer started ended i w1
  let ?p = "PeriodID (rule_PeriodType rule) (pit - rq_SafetyMargin req)"
  let ?ev = "newEvaluation rule i started ended completion answer"
  assume T: "tm_Evaluate T (rn_ctx R) clock (rule_TemplateSpec rule) eng (rn_resolvers R)
         \<lparr> PIT = pit, PITExplicit = (\<not> IsZero (rq_PIT req)), SourcePITs = rq_SourcePITs req,
           in_SafetyMargin = rq_SafetyMargin req \<rparr> = answer"
    and pit: "rq_PIT req \<noteq> 0 \<longrightarrow> pit = rq_PIT req" and w1: "w_db w1 = w_db w" "quiet w w1"
    and tx: "RunInTx (commitRun sqlStore rule completion ?p ended answer ?ev) w1 = (q, w')"
  have c: "w_collector w1 = None" using w1(2) assms(2) by (simp add: quiet_def)
  note out = RunInTx_outcome [OF commitRun_buffers c tx]
  show ?thesis
  proof (cases q)
    case (Inl err)
    with out w1 show ?thesis by (simp add: quiet_def)
  next
    case (Inr ev)
    obtain w2 where com: "commitRun sqlStore rule completion ?p ended answer ?ev (w1\<lparr> w_collector := Some [] \<rparr>) = (Inr ev, w2)"
      and db: "w_db w' = w_db w2" using out Inr by auto
    have "alert_world (w1\<lparr> w_collector := Some [] \<rparr>)"
      using assms(1) w1 by (simp add: alert_world_def honest_def observed_def quiet_def)
    note r = commitRun_Inr [OF com this]
    obtain result evalErr where a: "answer = (result, evalErr)" by (cases answer)
    have "eval_RuleID ev = rule_ID rule" "(eval_Result ev = EvaluationError) = (evalErr \<noteq> None)"
      "(eval_Result ev = EvaluationPass) = (evalErr = None
         \<and> (\<forall>res. result = Some res \<longrightarrow> (\<forall>oc\<in>set (er_Outcomes res). oc_Passed oc)))"
      using r by (auto simp: newEvaluation_def Let_def a list_ex_iff split: option.splits)
    moreover have "\<forall>job. completion = Some job \<longrightarrow> eval_ScheduledAt ?ev = Some (job_ScheduledAt job)
        \<and> eval_RuleRevision ?ev = Some (job_RuleRevision job) \<and> eval_RuleID ?ev = rule_ID rule"
      by (simp add: newEvaluation_def a Let_def)
    ultimately show ?thesis using r db w1(1) T pit a Inr
      by (auto intro!: exI [of _ pit] exI [of _ clock])
  qed
qed

text \<open>
  C1. An evaluation is committed whole. A run that fails leaves every table as it was and
  publishes nothing. A run that succeeds appends exactly one evaluation, whose verdict is ERROR
  exactly when the template failed and PASS exactly when every outcome passed; its fence held when
  the transaction ran; the active alerts of the rule are the failing outcomes of the evaluated
  period (an engine error adds the engine alert instead, and any later success closes it); the
  alerts of other rules and periods are untouched; and a scheduled run has completed its job and
  is the first evaluation of its occurrence.
\<close>

theorem evaluation_is_committed_whole:
  assumes "alert_world (w\<lparr> w_collector := Some [] \<rparr>)" and "w_collector w = None"
    and "run R eng sqlStore rule T req completion w = (q, w')"
  shows "case q of
      Inl err \<Rightarrow> w_db w' = w_db w \<and> w_published w' = w_published w
    | Inr ev \<Rightarrow> \<exists>pit clock result evalErr.
        tm_Evaluate T (rn_ctx R) clock (rule_TemplateSpec rule) eng (rn_resolvers R)
          \<lparr> PIT = pit, PITExplicit = (\<not> IsZero (rq_PIT req)), SourcePITs = rq_SourcePITs req,
            in_SafetyMargin = rq_SafetyMargin req \<rparr> = (result, evalErr)
        \<and> (rq_PIT req \<noteq> 0 \<longrightarrow> pit = rq_PIT req)
        \<and> t_evaluations (w_db w') = t_evaluations (w_db w) @ [ev] \<and> eval_RuleID ev = rule_ID rule
        \<and> (eval_Result ev = EvaluationError \<longleftrightarrow> evalErr \<noteq> None)
        \<and> (eval_Result ev = EvaluationPass \<longleftrightarrow>
             evalErr = None \<and> (\<forall>res. result = Some res \<longrightarrow> (\<forall>oc\<in>set (er_Outcomes res). oc_Passed oc)))
        \<and> fenced_run rule completion (w_db w)
        \<and> activeFps (w_db w') = alerts_after rule (PeriodID (rule_PeriodType rule) (pit - rq_SafetyMargin req))
            (result, evalErr) (activeFps (w_db w))
        \<and> alerts_ok (w_db w') \<and> t_rules (w_db w') = t_rules (w_db w)
        \<and> (\<forall>job. completion = Some job \<longrightarrow>
             completed job (t_jobs (w_db w)) (t_jobs (w_db w'))
             \<and> eval_ScheduledAt ev = Some (job_ScheduledAt job) \<and> eval_RuleRevision ev = Some (job_RuleRevision job)
             \<and> (\<forall>v\<in>set (t_evaluations (w_db w)). \<not> (eval_RuleID v = rule_ID rule
                 \<and> eval_RuleRevision v = Some (job_RuleRevision job) \<and> eval_ScheduledAt v = Some (job_ScheduledAt job))))"
  by (rule run_outcome [OF assms])

definition exampleRunner :: runner where
  "exampleRunner = \<lparr> rn_engine = Some toy_engine, rn_templates = Some (projr DefaultRegistry),
     rn_resolvers = parity_example_resolvers, rn_ctx = \<lambda>_. None, rn_cancelled = None \<rparr>"

definition manualRequest :: evaluateRequest where
  "manualRequest = \<lparr> rq_PIT = 5, rq_SafetyMargin = 0, rq_SourcePITs = [(''pool:p#0'', 3)] \<rparr>"

definition evalWorld :: world where
  "evalWorld = emptyWorld\<lparr> w_db := (w_db emptyWorld)\<lparr> t_rules := [parityRule] \<rparr> \<rparr>"

lemma evalWorld_ok: "alert_world (evalWorld\<lparr> w_collector := Some [] \<rparr>)" "w_collector evalWorld = None"
  by (simp_all add: alert_world_def alerts_ok_def observed_def honest_def evalWorld_def emptyWorld_def)

text \<open>A manual evaluation of a failing rule: one FAIL row and one active alert.\<close>

theorem evaluation_is_committed_whole_witness:
  "\<exists>ev w'. run exampleRunner toy_engine sqlStore parityRule NewSourceParity manualRequest None evalWorld = (Inr ev, w')
     \<and> t_evaluations (w_db w') = [ev] \<and> eval_Result ev = EvaluationFail
     \<and> activeFps (w_db w') 3 ''continuous'' = {''asset:E''} \<and> alerts_ok (w_db w')"
proof -
  let ?run = "run exampleRunner toy_engine sqlStore parityRule NewSourceParity manualRequest None evalWorld"
  have "case ?run of (q, w') \<Rightarrow> map_sum (\<lambda>_. ()) eval_Result q = Inr EvaluationFail
      \<and> activeFps (w_db w') 3 ''continuous'' = {''asset:E''}"
    by code_simp
  then obtain ev w' where run: "?run = (Inr ev, w')" and rest: "eval_Result ev = EvaluationFail"
    "activeFps (w_db w') 3 ''continuous'' = {''asset:E''}"
    by (cases ?run; case_tac a) auto
  have "t_evaluations (w_db evalWorld) = []" by (simp add: evalWorld_def emptyWorld_def)
  with evaluation_is_committed_whole [OF evalWorld_ok run] run rest show ?thesis by auto
qed

section \<open>Scheduled evaluations\<close>

lemma TryWithRuleLock_cases:
  assumes "TryWithRuleLock i f w = (q, w')"
  obtains err where "q = Inl err" "w_db w' = w_db w" "quiet w w'"
  | "q = Inr None" "w_db w' = w_db w" "quiet w w'"
  | r w1 w2 where "f w1 = (r, w2)" "w_db w1 = w_db w" "quiet w w1" "w_db w' = w_db w2" "quiet w2 w'"
      "q = map_sum id Some r"
proof -
  let ?w1 = "w\<lparr> w_stmts := w_stmts w + 1 \<rparr>" and ?w2 = "w\<lparr> w_stmts := w_stmts w + 1 + 1 \<rparr>"
  consider (early) "w_fault w (w_stmts w) \<noteq> None \<or> w_fault w (w_stmts w + 1) \<noteq> None \<or> w_locked w i"
    | (body) "w_fault w (w_stmts w) = None" "w_fault w (w_stmts w + 1) = None" "\<not> w_locked w i" by blast
  then show thesis
  proof cases
    case early
    then show thesis using assms that(1,2)
      by (auto simp: TryWithRuleLock_def quiet_def split: option.splits if_splits prod.splits)
  next
    case body
    obtain r w3 where r: "f ?w2 = (r, w3)" by fastforce
    then have "q = map_sum id Some r" "w' = w3\<lparr> w_stmts := w_stmts w3 + 1 \<rparr>"
      using assms body by (auto simp: TryWithRuleLock_def split: sum.splits)
    then show thesis using that(3) [OF r] by (auto simp: quiet_def)
  qed
qed

lemma loadRule_Inr:
  assumes "loadRule R sqlStore i expected w = (Inr (eng, rule, T), w')"
  shows "w_db w' = w_db w \<and> quiet w w' \<and> rule_ID rule = i \<and> rule_Enabled rule
    \<and> List.find (\<lambda>r. rule_ID r = i) (t_rules (w_db w)) = Some rule
    \<and> (\<forall>v. expected = Some v \<longrightarrow> rule_Revision rule = v) \<and> rn_engine R = Some eng
    \<and> (\<exists>reg. rn_templates R = Some reg \<and> Registry_Get reg (rule_TemplateKind rule) = Inr T)"
  using assms unfolding loadRule_def
  by (auto simp: act_dest GetRule_def quiet_def dest!: selectOne_Inr dest: find_SomeD split: option.splits if_splits)

lemma loadRule_reads: "readsA (loadRule R sqlStore i expected)" "quietA (loadRule R sqlStore i expected)"
proof -
  have "readsA (GetRule i)" "quietA (GetRule i)" unfolding GetRule_def by (intro readsI, intro quietI)
  then show "readsA (loadRule R sqlStore i expected)" "quietA (loadRule R sqlStore i expected)"
    unfolding loadRule_def by (auto intro!: readsI quietI split: option.split)
qed

text \<open>The tables after an attempt of the job held under a live claim was counted.\<close>

definition started :: "uuid \<Rightarrow> uuid \<Rightarrow> world \<Rightarrow> db" where
  "started i token w = (w_db w)\<lparr> t_jobs := upd_where (\<lambda>j. holds i token j \<and> leased w j)
     (\<lambda>j. j\<lparr> job_Attempts := job_Attempts j + 1, job_UpdatedAt := w_dbnow w \<rparr>) (t_jobs (w_db w)) \<rparr>"

lemma StartEvaluationJob_run:
  assumes "StartEvaluationJob i token w = (q, w')"
  shows "quiet w w'
    \<and> (\<forall>err. q = Inl err \<longrightarrow> w_db w' = w_db w)
    \<and> (\<forall>n. q = Inr n \<longrightarrow> w_db w' = started i token w \<and> (\<exists>j\<in>set (t_jobs (w_db w)). holds i token j \<and> leased w j \<and> n = job_Attempts j + 1))"
proof -
  let ?p = "\<lambda>w j. holds i token j \<and> leased w j" and ?f = "\<lambda>w j. j\<lparr> job_Attempts := job_Attempts j + 1 \<rparr>"
  obtain r where up: "updateJobs ?p ?f w = (r, w')"
    and q: "q = (case r of Inl err \<Rightarrow> if errors_Is (e_wrap ''start evaluation job'' err) ErrNotFound
           then Inl (sent ErrStaleClaim) else Inl (e_wrap ''start evaluation job'' err)
         | Inr [] \<Rightarrow> Inl (sent ErrStaleClaim) | Inr (j # _) \<Rightarrow> Inr (job_Attempts j))"
    using assms
    by (auto simp: StartEvaluationJob_def catchA_iff Let_def noRows_def e_wrap_Is split: sum.splits list.splits if_splits)
  have quiet: "quiet w w'" by (rule quietA_D [OF quietA_updateJobs up])
  from up show ?thesis
  proof (cases rule: updateJobs_cases)
    case (1 err)
    then show ?thesis using q quiet by (auto split: if_splits)
  next
    case (2 g)
    have l: "leased (w\<lparr> w_stmts := n \<rparr>) = leased w" for n by (rule ext) (simp add: leased_def split: option.split)
    let ?ps = "filter (\<lambda>j. holds i token j \<and> leased w j) (t_jobs (w_db w))"
    show ?thesis
    proof (cases ?ps)
      case Nil
      then show ?thesis using 2 q quiet by (simp add: l filter_empty_conv upd_where_id)
    next
      case (Cons j js)
      then have "j \<in> set ?ps" by simp
      then have j: "j \<in> set (t_jobs (w_db w))" "holds i token j" "leased w j" by auto
      have "q = Inr (job_Attempts j + 1)" using 2 q Cons by (simp add: l)
      then show ?thesis using j 2(1,3) quiet by (auto simp: started_def l)
    qed
  qed
qed

lemma leased_quiet: "quiet w w1 \<Longrightarrow> leased w1 = leased w"
  by (rule ext) (simp add: quiet_def leased_def split: option.split)

lemma alert_world_tx: "alert_world (w\<lparr> w_collector := Some [] \<rparr>) \<Longrightarrow> quiet w w1 \<Longrightarrow> t_alerts (w_db w1) = t_alerts (w_db w) \<Longrightarrow>
    t_events (w_db w1) = t_events (w_db w) \<Longrightarrow> alert_world (w1\<lparr> w_collector := Some [] \<rparr>)"
  by (simp add: alert_world_def honest_def observed_def quiet_def alerts_ok_def log_of_def)

lemma scheduled_body_outcome:
  assumes "alert_world (w\<lparr> w_collector := Some [] \<rparr>)" and "w_collector w = None"
    and body: "bindA (loadRule R sqlStore (job_RuleID job) (Some (job_RuleRevision job))) (\<lambda>(eng, rule, T).
        run R eng sqlStore rule T
          \<lparr> rq_PIT = job_ScheduledAt job, rq_SafetyMargin = schedule_margin rule, rq_SourcePITs = [] \<rparr> (Some job)) w = (t, w')"
  shows "case t of
      Inl err \<Rightarrow> w_db w' = w_db w \<and> w_published w' = w_published w
    | Inr ev \<Rightarrow> (\<exists>r\<in>set (t_rules (w_db w)). rule_ID r = job_RuleID job \<and> rule_Enabled r \<and> rule_Revision r = job_RuleRevision job)
        \<and> t_evaluations (w_db w') = t_evaluations (w_db w) @ [ev]
        \<and> eval_RuleID ev = job_RuleID job \<and> eval_RuleRevision ev = Some (job_RuleRevision job)
        \<and> eval_ScheduledAt ev = Some (job_ScheduledAt job)
        \<and> (\<forall>v\<in>set (t_evaluations (w_db w)). \<not> (eval_RuleID v = job_RuleID job
              \<and> eval_RuleRevision v = Some (job_RuleRevision job) \<and> eval_ScheduledAt v = Some (job_ScheduledAt job)))
        \<and> completed job (t_jobs (w_db w)) (t_jobs (w_db w'))"
proof -
  obtain l w1 where load: "loadRule R sqlStore (job_RuleID job) (Some (job_RuleRevision job)) w = (l, w1)" by fastforce
  have w1: "w_db w1 = w_db w" "quiet w w1"
    using loadRule_reads load unfolding readsA_def by (blast, blast dest: quietA_D)
  show ?thesis
  proof (cases l)
    case (Inl err)
    then have "t = Inl err" "w' = w1" using body load by (auto simp: bindA_def)
    then show ?thesis using w1 by (simp add: quiet_def)
  next
    case (Inr x)
    obtain eng rule T where x: "x = (eng, rule, T)" by (cases x)
    note ld = loadRule_Inr [OF load [unfolded Inr x]]
    have run: "run R eng sqlStore rule T \<lparr> rq_PIT = job_ScheduledAt job, rq_SafetyMargin = schedule_margin rule,
        rq_SourcePITs = [] \<rparr> (Some job) w1 = (t, w')"
      using body load Inr x by (simp add: bindA_def)
    have "alert_world (w1\<lparr> w_collector := Some [] \<rparr>)" "w_collector w1 = None"
      using assms(1,2) w1 by (simp_all add: alert_world_def honest_def observed_def quiet_def)
    note out = run_outcome [OF this run]
    have "rule \<in> set (t_rules (w_db w))" using ld by (auto dest: find_SomeD)
    with out ld w1 show ?thesis by (cases t) (auto simp: quiet_def)
  qed
qed

lemma EvaluateScheduled_outcome:
  assumes "alert_world (w\<lparr> w_collector := Some [] \<rparr>)" and "w_collector w = None" and "jobs_ok (w_db w)"
    and "EvaluateScheduled R sqlStore job w = ((q, attempts), w')"
  shows "case q of
      Inl err \<Rightarrow> w_published w' = w_published w
        \<and> w_db w' = (if attempts = 0 then w_db w else started (job_ID job) (the (job_ClaimToken job)) w)
        \<and> (attempts = 0 \<or> (\<exists>j\<in>set (t_jobs (w_db w)). holds (job_ID job) (the (job_ClaimToken job)) j
              \<and> leased w j \<and> attempts = job_Attempts j + 1))
    | Inr ev \<Rightarrow>
        (\<exists>token j r. job_ClaimToken job = Some token \<and> j \<in> set (t_jobs (w_db w)) \<and> holds (job_ID job) token j
           \<and> leased w j \<and> attempts = job_Attempts j + 1
           \<and> r \<in> set (t_rules (w_db w)) \<and> rule_ID r = job_RuleID job \<and> rule_Enabled r
           \<and> rule_Revision r = job_RuleRevision job)
        \<and> t_evaluations (w_db w') = t_evaluations (w_db w) @ [ev]
        \<and> eval_RuleID ev = job_RuleID job \<and> eval_RuleRevision ev = Some (job_RuleRevision job)
        \<and> eval_ScheduledAt ev = Some (job_ScheduledAt job)
        \<and> (\<forall>v\<in>set (t_evaluations (w_db w)). \<not> (eval_RuleID v = job_RuleID job
              \<and> eval_RuleRevision v = Some (job_RuleRevision job) \<and> eval_ScheduledAt v = Some (job_ScheduledAt job)))
        \<and> completed job (t_jobs (started (job_ID job) (the (job_ClaimToken job)) w)) (t_jobs (w_db w'))"
proof (cases "job_ClaimToken job")
  case None
  then show ?thesis using assms(4) by (auto simp: EvaluateScheduled_def)
next
  case (Some token)
  obtain lock w0 where lock: "TryWithRuleLock (job_RuleID job) (scheduledBody R sqlStore job) w = (lock, w0)" by fastforce
  then have res: "(case lock of Inl err \<Rightarrow> (Inl err, 0) | Inr None \<Rightarrow> (Inl (sent ErrRuleBusy), 0) | Inr (Some x) \<Rightarrow> x)
      = (q, attempts)" "w' = w0"
    using assms(4) Some by (auto simp: EvaluateScheduled_def split: sum.splits option.splits)
  from lock show ?thesis
  proof (cases rule: TryWithRuleLock_cases)
    case (1 err)
    then show ?thesis using res by (auto simp: quiet_def)
  next
    case 2
    then show ?thesis using res by (auto simp: quiet_def)
  next
    case (3 r w1 w2)
    obtain s w3 where start: "StartEvaluationJob (job_ID job) token w1 = (s, w3)" by fastforce
    note st = StartEvaluationJob_run [OF start]
    show ?thesis
    proof (cases s)
      case (Inl err)
      then have "r = Inr (Inl err, 0)" "w2 = w3"
        using 3(1) start Some by (auto simp: scheduledBody_def catchA_def)
      then show ?thesis using 3 res st Inl by (auto simp: quiet_def)
    next
      case (Inr n)
      obtain t where body: "bindA (loadRule R sqlStore (job_RuleID job) (Some (job_RuleRevision job))) (\<lambda>(eng, rule, T).
            run R eng sqlStore rule T
              \<lparr> rq_PIT = job_ScheduledAt job, rq_SafetyMargin = schedule_margin rule, rq_SourcePITs = [] \<rparr> (Some job)) w3 = (t, w2)"
        and r: "r = Inr (t, n)"
        using 3(1) start Some Inr by (auto simp: scheduledBody_def catchA_def split: prod.splits)
      have qt: "q = t" "attempts = n" using res 3(6) r by auto
      obtain j where j: "j \<in> set (t_jobs (w_db w))" "holds (job_ID job) token j" "leased w j" "n = job_Attempts j + 1"
        using st Inr 3(2) leased_quiet [OF 3(3)] by auto
      have pos: "n \<noteq> 0" using j(1,4) assms(3) by (auto simp: jobs_ok_def job_chk_def)
      have "started (job_ID job) token w1 = started (job_ID job) token w"
        using 3(2,3) by (simp add: started_def leased_quiet [OF 3(3)] quiet_def)
      then have w3: "quiet w w3" "w_db w3 = started (job_ID job) token w"
        using st Inr quiet_trans [OF 3(3)] by auto
      have same: "t_rules (w_db w3) = t_rules (w_db w)" "t_evaluations (w_db w3) = t_evaluations (w_db w)"
        "t_alerts (w_db w3) = t_alerts (w_db w)" "t_events (w_db w3) = t_events (w_db w)"
        by (simp_all add: w3(2) started_def)
      have "alert_world (w3\<lparr> w_collector := Some [] \<rparr>)" "w_collector w3 = None"
        using alert_world_tx [OF assms(1) w3(1) same(3,4)] assms(2) w3(1) by (simp_all add: quiet_def)
      note out = scheduled_body_outcome [OF this body]
      show ?thesis
      proof (cases t)
        case (Inl err)
        then have "w_db w' = w_db w3" "w_published w' = w_published w"
          using out res(2) 3(4,5) w3(1) by (simp_all add: quiet_def)
        then show ?thesis using qt Inl pos w3(2) Some j by auto
      next
        case (Inr ev)
        have "t_jobs (started (job_ID job) token w) = t_jobs (w_db w3)" by (simp only: w3(2))
        then show ?thesis using Inr out qt j same res(2) 3(4) Some by auto
      qed
    qed
  qed
qed

text \<open>
  C20. An occurrence is evaluated at most once. When a scheduled evaluation succeeds, its job was
  held under the worker's live claim and had counted one more attempt, the rule was enabled at the
  job's revision, no evaluation of that rule, revision and instant existed, exactly this one is
  added and exactly that job is marked succeeded. When it does not succeed, nothing has changed but
  the attempts of the job, which count the attempt it reports, and nothing was published.
\<close>

theorem occurrence_evaluated_once:
  assumes "alert_world (w\<lparr> w_collector := Some [] \<rparr>)" and "w_collector w = None" and "jobs_ok (w_db w)"
    and "EvaluateScheduled R sqlStore job w = ((q, attempts), w')"
  shows "case q of
      Inl err \<Rightarrow> w_published w' = w_published w
        \<and> w_db w' = (if attempts = 0 then w_db w else started (job_ID job) (the (job_ClaimToken job)) w)
        \<and> (attempts = 0 \<or> (\<exists>j\<in>set (t_jobs (w_db w)). holds (job_ID job) (the (job_ClaimToken job)) j
              \<and> leased w j \<and> attempts = job_Attempts j + 1))
    | Inr ev \<Rightarrow>
        (\<exists>token j r. job_ClaimToken job = Some token \<and> j \<in> set (t_jobs (w_db w)) \<and> holds (job_ID job) token j
           \<and> leased w j \<and> attempts = job_Attempts j + 1
           \<and> r \<in> set (t_rules (w_db w)) \<and> rule_ID r = job_RuleID job \<and> rule_Enabled r
           \<and> rule_Revision r = job_RuleRevision job)
        \<and> t_evaluations (w_db w') = t_evaluations (w_db w) @ [ev]
        \<and> eval_RuleID ev = job_RuleID job \<and> eval_RuleRevision ev = Some (job_RuleRevision job)
        \<and> eval_ScheduledAt ev = Some (job_ScheduledAt job)
        \<and> (\<forall>v\<in>set (t_evaluations (w_db w)). \<not> (eval_RuleID v = job_RuleID job
              \<and> eval_RuleRevision v = Some (job_RuleRevision job) \<and> eval_ScheduledAt v = Some (job_ScheduledAt job)))
        \<and> completed job (t_jobs (started (job_ID job) (the (job_ClaimToken job)) w)) (t_jobs (w_db w'))"
  by (rule EvaluateScheduled_outcome [OF assms])

text \<open>The first of the two planned occurrences of the rule, claimed for 500 and evaluated.\<close>

definition claimedWorld :: world where
  "claimedWorld = (let w = last (queueRun everyTen [DoPlan 0 0 0, DoClaim 500] evalWorld) in
     evalWorld\<lparr> w_db := w_db w, w_uuids := w_uuids w \<rparr>)"

definition claimedOccurrence :: evaluationJob where
  "claimedOccurrence = hd (t_jobs (w_db claimedWorld))"

theorem occurrence_evaluated_once_witness:
  "\<exists>ev w'. EvaluateScheduled exampleRunner sqlStore claimedOccurrence claimedWorld = ((Inr ev, 1), w')
     \<and> t_evaluations (w_db w') = [ev] \<and> eval_ScheduledAt ev = Some 1990
     \<and> map job_Status (t_jobs (w_db w')) = [EvaluationJobSucceeded, EvaluationJobPending]"
proof -
  let ?run = "EvaluateScheduled exampleRunner sqlStore claimedOccurrence claimedWorld"
  have "case ?run of ((q, n), w') \<Rightarrow> map_sum (\<lambda>_. ()) eval_Result q = Inr EvaluationFail \<and> n = 1
      \<and> map job_Status (t_jobs (w_db w')) = [EvaluationJobSucceeded, EvaluationJobPending]"
    by code_simp
  then obtain ev w' where run: "?run = ((Inr ev, 1), w')"
    and jobs: "map job_Status (t_jobs (w_db w')) = [EvaluationJobSucceeded, EvaluationJobPending]"
    by (cases ?run; case_tac a; case_tac aa) auto
  have ok: "jobs_ok (w_db claimedWorld)" unfolding jobs_ok_def by code_simp
  have w: "t_alerts (w_db claimedWorld) = []" "t_events (w_db claimedWorld) = []" "w_publisher claimedWorld"
    "w_collector claimedWorld = None" "t_evaluations (w_db claimedWorld) = []" "job_ScheduledAt claimedOccurrence = 1990"
    by code_simp+
  have "w_fault claimedWorld = (\<lambda>_. None)" by (simp add: claimedWorld_def evalWorld_def emptyWorld_def Let_def)
  then have "alert_world (claimedWorld\<lparr> w_collector := Some [] \<rparr>)"
    using w by (simp add: alert_world_def alerts_ok_def observed_def honest_def)
  from occurrence_evaluated_once [OF this w(4) ok run] run jobs w(5,6) show ?thesis by simp
qed

end
