(* ===== verification/Planner.thy ===== *)
theory Planner
  imports JobQueue
begin

text \<open>
  The planner of the worker, \<open>plan\<close> of \<open>internal/worker/worker.go\<close>: it repeats planning passes of
  one batch until a pass finds less than a full batch. Whether it returns is a question of its own:
  it does when every schedule fires again, and it does not when a full batch of schedules never
  fires.
\<close>

section \<open>The loop\<close>

definition catchUpWindow :: duration where "catchUpWindow = 24 * hour"
definition maxCatchUpPerRule :: int where "maxCatchUpPerRule = 100"
definition plannerBatchSize :: int where "plannerBatchSize = 100"

definition addPlan :: "planResult \<Rightarrow> planResult \<Rightarrow> planResult" where
  "addPlan totals result =
     \<lparr> pr_RulesScanned = pr_RulesScanned totals + pr_RulesScanned result,
       pr_JobsCreated = pr_JobsCreated totals + pr_JobsCreated result,
       pr_Skipped = pr_Skipped totals + pr_Skipped result,
       pr_Initialized = pr_Initialized totals + pr_Initialized result,
       pr_MaxLag = (if pr_MaxLag totals < pr_MaxLag result then pr_MaxLag result else pr_MaxLag totals) \<rparr>"

text \<open>
  \<open>stopped i\<close> tells whether the context is done before pass \<open>i\<close>, \<open>others i\<close> what the other sessions
  did to the database since the pass before it. The result is the logged error or the totals handed
  to the metrics; \<open>None\<close> is a loop that does not return.
\<close>

partial_function (option) planLoop ::
    "cron_parser \<Rightarrow> (nat \<Rightarrow> bool) \<Rightarrow> (nat \<Rightarrow> world \<Rightarrow> world) \<Rightarrow> nat \<Rightarrow> planResult \<Rightarrow> world
     \<Rightarrow> ((gerror + planResult) \<times> world) option" where
  "planLoop parse stopped others i totals w =
     (if stopped i then Some (Inr totals, w)
      else
        case PlanScheduledJobs parse catchUpWindow maxCatchUpPerRule plannerBatchSize (others i w) of
          (Inl err, w) \<Rightarrow> Some (Inl err, w)
        | (Inr result, w) \<Rightarrow>
            if pr_RulesScanned result < nat plannerBatchSize then Some (Inr (addPlan totals result), w)
            else planLoop parse stopped others (i + 1) (addPlan totals result) w)"

declare planLoop.simps [code]

definition plan :: "cron_parser \<Rightarrow> (nat \<Rightarrow> bool) \<Rightarrow> (nat \<Rightarrow> world \<Rightarrow> world) \<Rightarrow> world
    \<Rightarrow> ((gerror + planResult) \<times> world) option" where
  "plan parse stopped others w = planLoop parse stopped others 0 emptyPlan w"

section \<open>What a pass does to the due rules\<close>

lemma planRule_scanned: "planRule parse now window n r res w = (Inr res', w') \<Longrightarrow> pr_RulesScanned res' = pr_RulesScanned res"
proof -
  have ins: "insertOccurrences r now os res1 w1 = (Inr res2, w2) \<Longrightarrow> pr_RulesScanned res2 = pr_RulesScanned res1"
    for os res1 w1 res2 w2
    by (induction os arbitrary: res1 w1) (auto simp: act_dest split: if_splits)
  show "planRule parse now window n r res w = (Inr res', w') \<Longrightarrow> pr_RulesScanned res' = pr_RulesScanned res"
    by (cases "rule_NextRunAt r")
      (auto simp: planRule_def act_dest Let_def dest!: ins split: if_splits option.splits prod.splits)
qed

lemma planRules_scanned: "planRules parse now window n rs res w = (Inr res', w') \<Longrightarrow> pr_RulesScanned res' = pr_RulesScanned res"
  by (induction rs arbitrary: res w) (auto simp: act_dest dest: planRule_scanned)

lemma pass_facts:
  assumes adv: "cron_advances parse" and rows: "rows_ok (w_db w)"
    and run: "PlanScheduledJobs parse catchUpWindow maxCatchUpPerRule plannerBatchSize w = (Inr res, w')"
  shows "pr_RulesScanned res = length (dueRules (w_dbnow w) 100 (w_db w))"
    "planned parse (w_dbnow w) catchUpWindow 100 (dueRules (w_dbnow w) 100 (w_db w)) (w_db w) (w_db w')"
    "w_dbnow w' = w_dbnow w"
proof -
  have const: "nat (positiveOr 100 plannerBatchSize) = 100" "nat (positiveOr 100 maxCatchUpPerRule) = 100"
    "positiveOr (24 * hour) catchUpWindow = catchUpWindow"
    by (simp_all add: positiveOr_def plannerBatchSize_def maxCatchUpPerRule_def catchUpWindow_def)
  show "planned parse (w_dbnow w) catchUpWindow 100 (dueRules (w_dbnow w) 100 (w_db w)) (w_db w) (w_db w')"
    using plan_exact_core [OF assms] unfolding Let_def const .
  from run [unfolded PlanScheduledJobs_def Let_def const] obtain now rs w1 w2 w3 where now: "selectNow w = (Inr now, w1)"
    and rs: "selectDue now 100 w1 = (Inr rs, w2)"
    and rest: "planRules parse now catchUpWindow 100 rs (emptyPlan\<lparr> pr_RulesScanned := length rs \<rparr>) w2 = (Inr res, w3)"
    and w': "quiet w3 w'"
    by (auto simp: act_dest quiet_def dest!: inTx_Inr)
  have 1: "now = w_dbnow w" "w_db w1 = w_db w" "w_dbnow w1 = w_dbnow w" using selectNow_Inr [OF now] by auto
  have 2: "rs = dueRules now 100 (w_db w1)" "w_dbnow w2 = w_dbnow w1"
    using rs by (auto simp: selectDue_def split: option.splits)
  show "pr_RulesScanned res = length (dueRules (w_dbnow w) 100 (w_db w))"
    using planRules_scanned [OF rest] 1 2 by simp
  have "rows_ok (w_db w)" by (rule rows)
  then have "distinct (map rule_ID rs)" "\<forall>r\<in>set rs. rule_Schedule r \<noteq> None"
    using dueRules_facts(1,3) 1 2 by auto
  from planRules_Inr [OF adv _ rest this] show "w_dbnow w' = w_dbnow w"
    using w' 1 2 by (simp add: quiet_def)
qed

definition due_ids :: "time \<Rightarrow> db \<Rightarrow> uuid set" where
  "due_ids now d = rule_ID ` set (filter (due now) (t_rules d))"

definition all_fire :: "cron_parser \<Rightarrow> db \<Rightarrow> bool" where
  "all_fire parse d \<longleftrightarrow> (\<forall>r\<in>set (t_rules d). fires parse r)"

lemma cursorless_fields: "cursorless x = cursorless y \<Longrightarrow>
    rule_ID x = rule_ID y \<and> rule_Schedule x = rule_Schedule y \<and> rule_Enabled x = rule_Enabled y"
  by (cases x, cases y) (simp add: cursorless_def)

lemma pass_due:
  assumes rows: "rows_ok d" and fire: "all_fire parse d" and p: "planned parse now window n (dueRules now k d) d d'"
  shows "due_ids now d' = due_ids now d - rule_ID ` set (dueRules now k d)"
    "all_fire parse d'" "rows_ok d'"
proof -
  let ?rs = "dueRules now k d"
  have same: "map cursorless (t_rules d') = map cursorless (t_rules d)" using p unfolding planned_def by blast
  note each = planned_cursor [OF p]
  show rows': "rows_ok d'" using rows cursorless_ids [OF same] by (simp add: rows_ok_def)
  have sub: "r \<in> set (t_rules d)" if "r \<in> set ?rs" for r using dueRules_facts(3) [OF rows that] by blast
  have not_due: "\<not> due now x" if x: "x \<in> set (t_rules d')" and i: "rule_ID x \<in> rule_ID ` set ?rs" for x
  proof -
    from each [OF x] i obtain r where "r \<in> set ?rs" "rescheduled parse now r (rule_NextRunAt x)" by blast
    then show ?thesis using fire sub [of r]
      by (auto simp: all_fire_def rescheduled_def due_def future_def split: option.splits)
  qed
  have kept: "\<exists>x\<in>set (t_rules d'). rule_ID x = rule_ID r" if "r \<in> set (t_rules d)" for r
    using that cursorless_ids [OF same] by (metis image_iff list.set_map)
  show "due_ids now d' = due_ids now d - rule_ID ` set ?rs"
  proof (intro equalityI subsetI)
    fix i assume "i \<in> due_ids now d'"
    then obtain x where "x \<in> set (t_rules d')" "due now x" "i = rule_ID x" by (auto simp: due_ids_def)
    then show "i \<in> due_ids now d - rule_ID ` set ?rs"
      using each [of x] not_due [of x] by (auto simp: due_ids_def)
  next
    fix i assume i: "i \<in> due_ids now d - rule_ID ` set ?rs"
    then obtain r where r: "r \<in> set (t_rules d)" "due now r" "i = rule_ID r" by (auto simp: due_ids_def)
    obtain x where x: "x \<in> set (t_rules d')" "rule_ID x = rule_ID r" using kept [OF r(1)] by blast
    have "x \<in> set (t_rules d)" using each [OF x(1)] x(2) i r(3) by auto
    then have "x = r" using rows r(1) x(2) by (auto simp: rows_ok_def distinct_map dest: inj_onD)
    then show "i \<in> due_ids now d'" using x(1) r by (auto simp: due_ids_def)
  qed
  show "all_fire parse d'"
    unfolding all_fire_def
  proof
    fix x assume x: "x \<in> set (t_rules d')"
    then have "cursorless x \<in> set (map cursorless (t_rules d))" unfolding same [symmetric] by simp
    then obtain r where r: "r \<in> set (t_rules d)" "cursorless x = cursorless r" by auto
    have "rule_NextRunAt x \<noteq> Some 0"
      using each [OF x] fire by (auto simp: rescheduled_def all_fire_def fires_def)
    then show "fires parse x"
      using fire r(1) cursorless_fields [OF r(2)] by (auto simp: all_fire_def fires_def)
  qed
qed


section \<open>A pass ends the round or shrinks it\<close>

lemma finite_due [simp]: "finite (due_ids now d)"
  by (simp add: due_ids_def)

lemma dueRules_ids: "rows_ok d \<Longrightarrow> rule_ID ` set (dueRules now k d) \<subseteq> due_ids now d"
  using dueRules_facts(3) by (fastforce simp: due_ids_def)

lemma dueRules_card: "rows_ok d \<Longrightarrow> card (rule_ID ` set (dueRules now k d)) = length (dueRules now k d)"
  using dueRules_facts(1) by (metis distinct_card length_map list.set_map)

lemma dueRules_short:
  assumes "length (dueRules now k d) < k"
  shows "rule_ID ` set (dueRules now k d) = due_ids now d"
proof -
  let ?a = "filter (\<lambda>r. rule_NextRunAt r = None) (filter (due now) (t_rules d))"
  let ?b = "sort_key (\<lambda>r. the (rule_NextRunAt r)) (filter (\<lambda>r. rule_NextRunAt r \<noteq> None) (filter (due now) (t_rules d)))"
  have "dueRules now k d = ?a @ ?b" using assms by (auto simp: dueRules_def min_def split: if_splits)
  then show ?thesis by (auto simp: due_ids_def)
qed

lemma planLoop_drains:
  assumes adv: "cron_advances parse"
    and others: "\<And>i v. t_rules (w_db (others i v)) = t_rules (w_db v) \<and> w_dbnow (others i v) = w_dbnow v"
  shows "rows_ok (w_db w) \<Longrightarrow> all_fire parse (w_db w) \<Longrightarrow>
    \<exists>q w'. planLoop parse stopped others i totals w = Some (q, w') \<and> (case q of
        Inl err \<Rightarrow> True
      | Inr sums \<Rightarrow> (\<forall>k\<ge>i. \<not> stopped k) \<longrightarrow> (\<forall>r\<in>set (t_rules (w_db w')). \<not> due (w_dbnow w) r)
          \<and> pr_RulesScanned sums = pr_RulesScanned totals + card (due_ids (w_dbnow w) (w_db w)))"
proof (induction "card (due_ids (w_dbnow w) (w_db w))" arbitrary: i totals w rule: less_induct)
  case less
  let ?v = "others i w" and ?pass = "PlanScheduledJobs parse catchUpWindow maxCatchUpPerRule plannerBatchSize"
  have v: "rows_ok (w_db ?v)" "all_fire parse (w_db ?v)" "w_dbnow ?v = w_dbnow w"
    "due_ids (w_dbnow w) (w_db ?v) = due_ids (w_dbnow w) (w_db w)"
    using less.prems others [of i w] by (simp_all add: rows_ok_def all_fire_def due_ids_def)
  show ?case
  proof (cases "stopped i")
    case True
    then show ?thesis by (subst planLoop.simps) auto
  next
    case False
    obtain q w1 where pass: "?pass ?v = (q, w1)" by fastforce
    show ?thesis
    proof (cases q)
      case (Inl err)
      then show ?thesis using pass False by (subst planLoop.simps) simp
    next
      case (Inr res)
      let ?rs = "dueRules (w_dbnow w) 100 (w_db ?v)" and ?D = "due_ids (w_dbnow w) (w_db w)"
      note facts = pass_facts [OF adv v(1) pass [unfolded Inr], unfolded v(3)]
      note shrink = pass_due [OF v(1,2) facts(2)]
      have ids: "rule_ID ` set ?rs \<subseteq> ?D" "card (rule_ID ` set ?rs) = length ?rs"
        using dueRules_ids [OF v(1), of "w_dbnow w" 100] dueRules_card [OF v(1)] v(4) by simp_all
      have left: "due_ids (w_dbnow w) (w_db w1) = ?D - rule_ID ` set ?rs" using shrink(1) v(4) by simp
      have card: "card (due_ids (w_dbnow w) (w_db w1)) + length ?rs = card ?D"
        unfolding left using ids card_Diff_subset [OF _ ids(1)] card_mono [OF _ ids(1)] by simp
      show ?thesis
      proof (cases "length ?rs < 100")
        case True
        then have "due_ids (w_dbnow w) (w_db w1) = {}"
          unfolding left using dueRules_short [OF True] v(4) by simp
        then have "\<forall>r\<in>set (t_rules (w_db w1)). \<not> due (w_dbnow w) r" "card ?D = length ?rs"
          using card by (auto simp: due_ids_def)
        then show ?thesis
          using pass Inr False True facts(1) by (subst planLoop.simps) (simp add: plannerBatchSize_def addPlan_def)
      next
        case full: False
        have "card (due_ids (w_dbnow w1) (w_db w1)) < card ?D" using card full facts(3) v(3) by simp
        from less.hyps [OF this shrink(3,2), of "i + 1" "addPlan totals res"]
        obtain q' w' where rest: "planLoop parse stopped others (i + 1) (addPlan totals res) w1 = Some (q', w')"
          and post: "case q' of Inl err \<Rightarrow> True
            | Inr sums \<Rightarrow> (\<forall>k\<ge>i + 1. \<not> stopped k) \<longrightarrow> (\<forall>r\<in>set (t_rules (w_db w')). \<not> due (w_dbnow w1) r)
                \<and> pr_RulesScanned sums = pr_RulesScanned (addPlan totals res) + card (due_ids (w_dbnow w1) (w_db w1))"
          by blast
        have "planLoop parse stopped others i totals w = Some (q', w')"
          using pass Inr False full facts(1) rest by (subst planLoop.simps) (simp add: plannerBatchSize_def)
        moreover have "case q' of Inl err \<Rightarrow> True
          | Inr sums \<Rightarrow> (\<forall>k\<ge>i. \<not> stopped k) \<longrightarrow> (\<forall>r\<in>set (t_rules (w_db w')). \<not> due (w_dbnow w) r)
              \<and> pr_RulesScanned sums = pr_RulesScanned totals + card ?D"
          using post card facts(1,3) v(3) by (cases q') (auto simp: addPlan_def)
        ultimately show ?thesis by blast
      qed
    qed
  qed
qed

section \<open>A round beside other sessions\<close>

text \<open>
  What the other sessions may do between two passes of a round: time passes, but not beyond \<open>hi\<close>, and
  the cursors of the rules move on, as the passes of other workers make them do; the rules are otherwise
  left as they are.
\<close>

definition moved_on :: "time \<Rightarrow> time option \<Rightarrow> time option \<Rightarrow> bool" where
  "moved_on now c c' \<longleftrightarrow> c' = c \<or> (\<exists>b. c' = Some b \<and> b \<noteq> 0 \<and> now \<le> b \<and> (\<forall>a. c = Some a \<longrightarrow> a \<le> b))"

definition keeps_pace :: "time \<Rightarrow> world \<Rightarrow> world \<Rightarrow> bool" where
  "keeps_pace hi v v' \<longleftrightarrow> w_dbnow v \<le> w_dbnow v' \<and> (w_dbnow v \<le> hi \<longrightarrow> w_dbnow v' \<le> hi)
     \<and> list_all2 (\<lambda>r r'. cursorless r' = cursorless r \<and> moved_on (w_dbnow v) (rule_NextRunAt r) (rule_NextRunAt r'))
         (t_rules (w_db v)) (t_rules (w_db v'))"

text \<open>How far the cursors of the rules can still move before they are all in the future of \<open>hi\<close>.\<close>

definition slack :: "time \<Rightarrow> time \<Rightarrow> rule \<Rightarrow> nat" where
  "slack lo hi r = (case rule_NextRunAt r of None \<Rightarrow> nat (hi + 2 - lo) | Some t \<Rightarrow> nat (hi + 1 - t))"

lemma sum_list_le: "list_all2 (\<lambda>r r'. f r' \<le> f r) rs rs' \<Longrightarrow> sum_list (map f rs') \<le> (sum_list (map f rs) :: nat)"
  by (induction rule: list_all2_induct) auto

lemma sum_list_less:
  "list_all2 (\<lambda>r r'. f r' \<le> f r \<and> (P r \<longrightarrow> f r' < f r)) rs rs' \<Longrightarrow> \<exists>r\<in>set rs. P r \<Longrightarrow>
    sum_list (map f rs') < (sum_list (map f rs) :: nat)"
proof (induction rule: list_all2_induct)
  case (Cons r rs r' rs')
  have le: "sum_list (map f rs') \<le> sum_list (map f rs)"
    by (rule sum_list_le, rule list_all2_mono [OF Cons.hyps(2)]) blast
  show ?case
  proof (cases "P r")
    case True
    then have "f r' < f r" using Cons.hyps(1) by blast
    then show ?thesis using le by simp
  next
    case False
    then have "\<exists>r\<in>set rs. P r" using Cons.prems by simp
    then have "sum_list (map f rs') < sum_list (map f rs)" by (rule Cons.IH)
    moreover have "f r' \<le> f r" using Cons.hyps(1) by blast
    ultimately show ?thesis by simp
  qed
qed simp

lemma moved_on_slack: "moved_on now (rule_NextRunAt r) (rule_NextRunAt r') \<Longrightarrow> lo \<le> now \<Longrightarrow> slack lo hi r' \<le> slack lo hi r"
  by (auto simp: moved_on_def slack_def split: option.splits)

lemma keeps_pace_facts:
  assumes kp: "keeps_pace hi v v'" and rows: "rows_ok (w_db v)" and fire: "all_fire parse (w_db v)" and lo: "lo \<le> w_dbnow v"
  shows "rows_ok (w_db v')" "all_fire parse (w_db v')"
    "sum_list (map (slack lo hi) (t_rules (w_db v'))) \<le> sum_list (map (slack lo hi) (t_rules (w_db v)))"
proof -
  have l: "list_all2 (\<lambda>r r'. cursorless r' = cursorless r \<and> moved_on (w_dbnow v) (rule_NextRunAt r) (rule_NextRunAt r'))
      (t_rules (w_db v)) (t_rules (w_db v'))" using kp by (simp add: keeps_pace_def)
  have "map cursorless (t_rules (w_db v')) = map cursorless (t_rules (w_db v))"
    using l by (induction rule: list_all2_induct) simp_all
  from cursorless_ids [OF this] rows show "rows_ok (w_db v')" by (simp add: rows_ok_def)
  show "sum_list (map (slack lo hi) (t_rules (w_db v'))) \<le> sum_list (map (slack lo hi) (t_rules (w_db v)))"
    by (rule sum_list_le, rule list_all2_mono [OF l]) (use lo in \<open>blast intro: moved_on_slack\<close>)
  show "all_fire parse (w_db v')"
    unfolding all_fire_def
  proof
    fix x assume x: "x \<in> set (t_rules (w_db v'))"
    have "\<forall>x\<in>set (t_rules (w_db v')). \<exists>r\<in>set (t_rules (w_db v)). cursorless x = cursorless r
        \<and> moved_on (w_dbnow v) (rule_NextRunAt r) (rule_NextRunAt x)"
      using l by (induction rule: list_all2_induct) auto
    with x obtain r where r: "r \<in> set (t_rules (w_db v))" "cursorless x = cursorless r"
      and m: "moved_on (w_dbnow v) (rule_NextRunAt r) (rule_NextRunAt x)" by blast
    then have "fires parse r" using fire by (simp add: all_fire_def)
    then show "fires parse x" using cursorless_fields [OF r(2)] m by (auto simp: fires_def moved_on_def)
  qed
qed

lemma pass_slack:
  assumes rows: "rows_ok d" and fire: "all_fire parse d" and p: "planned parse now window n (dueRules now k d) d d'"
    and some: "dueRules now k d \<noteq> []" and now: "lo \<le> now" "now \<le> hi"
  shows "sum_list (map (slack lo hi) (t_rules d')) < sum_list (map (slack lo hi) (t_rules d))"
proof (rule sum_list_less)
  let ?rs = "dueRules now k d"
  have same: "map cursorless (t_rules d') = map cursorless (t_rules d)" using p unfolding planned_def by blast
  have sub: "r \<in> set (t_rules d) \<and> due now r" if "r \<in> set ?rs" for r using dueRules_facts(3) [OF rows that] by blast
  have uniq: "x = y" if "x \<in> set (t_rules d)" "y \<in> set (t_rules d)" "rule_ID x = rule_ID y" for x y
    using rows that unfolding rows_ok_def by (blast dest: distinct_map_eq)
  show "list_all2 (\<lambda>r r'. slack lo hi r' \<le> slack lo hi r \<and> (r \<in> set ?rs \<longrightarrow> slack lo hi r' < slack lo hi r)) (t_rules d) (t_rules d')"
    unfolding list_all2_conv_all_nth
  proof (intro conjI allI impI)
    show len: "length (t_rules d) = length (t_rules d')" using arg_cong [OF same, of length] by simp
    fix i assume i: "i < length (t_rules d)"
    let ?x = "t_rules d ! i" and ?y = "t_rules d' ! i"
    have x: "?x \<in> set (t_rules d)" and y: "?y \<in> set (t_rules d')" using i len by simp_all
    have "cursorless ?y = cursorless ?x" using arg_cong [OF same, of "\<lambda>l. l ! i"] i len by simp
    then have id: "rule_ID ?y = rule_ID ?x" using cursorless_fields by blast
    have "if ?x \<in> set ?rs then slack lo hi ?y < slack lo hi ?x else ?y = ?x"
    proof (cases "?x \<in> set ?rs")
      case True
      with planned_cursor [OF p y] id obtain r where r: "r \<in> set ?rs" "rule_ID ?y = rule_ID r"
          "rescheduled parse now r (rule_NextRunAt ?y)" by auto
      then have "r = ?x" using sub [of r] id by (intro uniq) (use x in auto)
      then obtain t where "rule_NextRunAt ?y = Some t" "now < t"
        using r fire x by (auto simp: rescheduled_def future_def all_fire_def split: option.splits)
      moreover have "case rule_NextRunAt ?x of None \<Rightarrow> True | Some a \<Rightarrow> a \<le> now" using sub [OF True] by (simp add: due_def)
      ultimately show ?thesis using True now by (auto simp: slack_def split: option.splits)
    next
      case False
      have "rule_ID ?y \<notin> rule_ID ` set ?rs" using False id sub uniq [OF x] by auto
      then have "?y \<in> set (t_rules d)" using planned_cursor [OF p y] by blast
      then show ?thesis using False uniq [OF _ x id] by simp
    qed
    then show "slack lo hi ?y \<le> slack lo hi ?x" "?x \<in> set ?rs \<Longrightarrow> slack lo hi ?y < slack lo hi ?x"
      by (auto split: if_splits)
  qed
  show "\<exists>r\<in>set (t_rules d). r \<in> set ?rs" using some sub by (cases ?rs) auto
qed

lemma planLoop_returns:
  assumes adv: "cron_advances parse" and others: "\<And>i v. keeps_pace hi v (others i v)"
  shows "rows_ok (w_db w) \<Longrightarrow> all_fire parse (w_db w) \<Longrightarrow> lo \<le> w_dbnow w \<Longrightarrow> w_dbnow w \<le> hi \<Longrightarrow>
    \<exists>q w'. planLoop parse stopped others i totals w = Some (q, w') \<and> (case q of
        Inl err \<Rightarrow> True
      | Inr sums \<Rightarrow> (\<forall>k\<ge>i. \<not> stopped k) \<longrightarrow> (\<forall>r\<in>set (t_rules (w_db w')). \<not> due (w_dbnow w') r))"
proof (induction "sum_list (map (slack lo hi) (t_rules (w_db w)))" arbitrary: i totals w rule: less_induct)
  case less
  let ?v = "others i w" and ?pass = "PlanScheduledJobs parse catchUpWindow maxCatchUpPerRule plannerBatchSize"
  note v = keeps_pace_facts [OF others less.prems(1-3), of i]
  have now: "lo \<le> w_dbnow ?v" "w_dbnow ?v \<le> hi" using others [of w i] less.prems(3,4) by (auto simp: keeps_pace_def)
  show ?case
  proof (cases "stopped i")
    case True
    then show ?thesis by (subst planLoop.simps) auto
  next
    case False
    obtain q w1 where pass: "?pass ?v = (q, w1)" by fastforce
    show ?thesis
    proof (cases q)
      case (Inl err)
      then show ?thesis using pass False by (subst planLoop.simps) simp
    next
      case (Inr res)
      let ?rs = "dueRules (w_dbnow ?v) 100 (w_db ?v)"
      note facts = pass_facts [OF adv v(1) pass [unfolded Inr]]
      note shrink = pass_due [OF v(1,2) facts(2)]
      show ?thesis
      proof (cases "length ?rs < 100")
        case True
        then have "due_ids (w_dbnow ?v) (w_db w1) = {}" unfolding shrink(1) using dueRules_short by blast
        then have "\<forall>r\<in>set (t_rules (w_db w1)). \<not> due (w_dbnow w1) r" using facts(3) by (auto simp: due_ids_def)
        then show ?thesis
          using pass Inr False True facts(1) by (subst planLoop.simps) (simp add: plannerBatchSize_def)
      next
        case full: False
        then have "?rs \<noteq> []" by auto
        from less_le_trans [OF pass_slack [OF v(1,2) facts(2) this now] v(3)]
        have smaller: "sum_list (map (slack lo hi) (t_rules (w_db w1))) < sum_list (map (slack lo hi) (t_rules (w_db w)))" .
        obtain q' w' where rest: "planLoop parse stopped others (i + 1) (addPlan totals res) w1 = Some (q', w')"
          and post: "case q' of Inl err \<Rightarrow> True
            | Inr sums \<Rightarrow> (\<forall>k\<ge>i + 1. \<not> stopped k) \<longrightarrow> (\<forall>r\<in>set (t_rules (w_db w')). \<not> due (w_dbnow w') r)"
          using less.hyps [OF smaller shrink(3,2), of "i + 1" "addPlan totals res"] now facts(3) by auto
        have "planLoop parse stopped others i totals w = Some (q', w')"
          using pass Inr False full facts(1) rest by (subst planLoop.simps) (simp add: plannerBatchSize_def)
        moreover have "case q' of Inl err \<Rightarrow> True
          | Inr sums \<Rightarrow> (\<forall>k\<ge>i. \<not> stopped k) \<longrightarrow> (\<forall>r\<in>set (t_rules (w_db w')). \<not> due (w_dbnow w') r)"
          using post by (cases q') auto
        ultimately show ?thesis by blast
      qed
    qed
  qed
qed


text \<open>Ten units after every tenth instant: a schedule that always fires again.\<close>

definition offTen :: cron_parser where
  "offTen e = Inr (\<lambda>t. (t div 10 + 1) * 10 + 1)"

lemma offTen_advances: "cron_advances offTen"
proof -
  have "(t::int) < (t div 10 + 1) * 10 + 1" for t by presburger
  then show ?thesis by (simp add: cron_advances_def offTen_def)
qed

lemma offTen_fires: "fires offTen cronRule"
proof -
  have "((t::int) div 10 + 1) * 10 + 1 \<noteq> 0" for t by presburger
  then show ?thesis by (simp add: fires_def cronRule_def Schedule_Next_def offTen_def)
qed

text \<open>The clock is at 2021 before the first pass, and stays there.\<close>

definition later :: "nat \<Rightarrow> world \<Rightarrow> world" where
  "later i v = v\<lparr> w_dbnow := max (w_dbnow v) 2021 \<rparr>"


section \<open>Schedules that never fire\<close>

text \<open>
  A due rule without a cursor whose schedule has no next occurrence: initialising it leaves it as it
  was, so the next pass finds it again, before every rule that has a cursor.
\<close>

definition stuck :: "cron_parser \<Rightarrow> rule \<Rightarrow> bool" where
  "stuck parse r \<longleftrightarrow> rule_Enabled r \<and> scheduled_kind (rule_Schedule r) \<and> rule_NextRunAt r = None
     \<and> (\<forall>t. Schedule_Next parse (rule_Schedule r) t = Inr 0)"

definition starving :: "cron_parser \<Rightarrow> db \<Rightarrow> bool" where
  "starving parse d \<longleftrightarrow> rows_ok d \<and> (\<forall>r\<in>set (t_rules d). rule_chk r \<and> (rule_NextRunAt r = None \<longrightarrow> stuck parse r))
     \<and> 100 \<le> length (filter (stuck parse) (t_rules d))"

lemma stuck_due: "stuck parse r \<Longrightarrow> due now r \<and> rule_Schedule r \<noteq> None \<and> rule_NextRunAt r = None"
  by (auto simp: stuck_def due_def scheduled_kind_def split: option.splits)

lemma starving_due:
  assumes "starving parse d"
  shows "length (dueRules now 100 d) = 100" "\<forall>r\<in>set (dueRules now 100 d). stuck parse r"
proof -
  let ?a = "filter (\<lambda>r. rule_NextRunAt r = None) (filter (due now) (t_rules d))"
  have a: "?a = filter (stuck parse) (t_rules d)"
    unfolding filter_filter using assms
    by (intro filter_cong) (auto simp: starving_def dest: stuck_due)
  then have n: "100 \<le> length ?a" using assms by (simp add: starving_def)
  then have "dueRules now 100 d = take 100 ?a" by (simp add: dueRules_def)
  then show "length (dueRules now 100 d) = 100" "\<forall>r\<in>set (dueRules now 100 d). stuck parse r"
    using n unfolding a by (auto dest: in_set_takeD)
qed

text \<open>Writing the cursor of a stuck rule.\<close>

lemma stuck_cursor:
  assumes "starving parse d" and "r \<in> set (t_rules d)" and "stuck parse r" and "rule_ID r = i"
  shows "starving parse (d\<lparr> t_rules := move_cursor i None t (t_rules d) \<rparr>)"
proof -
  define f where "f = (\<lambda>x :: rule. if rule_ID x = i then x\<lparr> rule_NextRunAt := None, rule_UpdatedAt := t \<rparr> else x)"
  have rules: "move_cursor i None t (t_rules d) = map f (t_rules d)" by (simp add: move_cursor_def upd_where_def f_def)
  have same: "stuck parse (f x) = stuck parse x \<and> rule_chk (f x) = rule_chk x \<and> rule_ID (f x) = rule_ID x
      \<and> rule_NextRunAt (f x) = rule_NextRunAt x" if x: "x \<in> set (t_rules d)" for x
  proof (cases "rule_ID x = i")
    case True
    then have "x = r" using assms(1,2,4) x by (auto simp: starving_def rows_ok_def distinct_map dest: inj_onD)
    then show ?thesis using assms(3) by (auto simp: f_def stuck_def rule_chk_def)
  qed (simp add: f_def)
  have "map rule_ID (map f (t_rules d)) = map rule_ID (t_rules d)" using same by simp
  moreover have "length (filter (stuck parse) (map f (t_rules d))) = length (filter (stuck parse) (t_rules d))"
    unfolding filter_map length_map comp_def using same by (intro arg_cong [where f = length] filter_cong) auto
  moreover have "\<forall>y\<in>set (map f (t_rules d)). rule_chk y \<and> (rule_NextRunAt y = None \<longrightarrow> stuck parse y)"
    using assms(1) same unfolding starving_def by simp
  moreover have tr: "t_rules (d\<lparr> t_rules := map f (t_rules d) \<rparr>) = map f (t_rules d)" by simp
  ultimately show ?thesis
    using assms(1) unfolding starving_def rows_ok_def rules tr by (simp only:)
qed

lemma planRules_stuck:
  assumes nofault: "\<And>n. w_fault w n = None"
  shows "starving parse (w_db w) \<Longrightarrow> \<forall>r\<in>set rs. r \<in> set (t_rules (w_db w)) \<and> stuck parse r \<Longrightarrow> distinct (map rule_ID rs) \<Longrightarrow>
    \<exists>res' w'. planRules parse now window n rs res w = (Inr res', w') \<and> starving parse (w_db w') \<and> w_fault w' = w_fault w"
  using nofault
proof (induction rs arbitrary: res w)
  case (Cons r rs)
  then have r: "stuck parse r" "r \<in> set (t_rules (w_db w))" by simp_all
  let ?w = "w\<lparr> w_stmts := w_stmts w + 1,
      w_db := (w_db w)\<lparr> t_rules := move_cursor (rule_ID r) None (w_dbnow w) (t_rules (w_db w)) \<rparr> \<rparr>"
  have chk: "\<not> exists_row (\<lambda>x. rule_ID x = rule_ID r \<and> \<not> rule_chk (x\<lparr> rule_NextRunAt := None \<rparr>)) (t_rules (w_db w))"
    using Cons.prems(1) by (auto simp: exists_row_iff starving_def rule_chk_def)
  obtain sched where "rule_Schedule r = Some sched" using stuck_due [OF r(1)] by auto
  then have one: "planRule parse now window n r res w = (Inr (res\<lparr> pr_Initialized := pr_Initialized res + 1 \<rparr>), ?w)"
    using stuck_due [OF r(1)] r(1) chk Cons.prems(4)
    by (simp add: planRule_def Let_def stuck_def bindA_def setCursor_def plainWrap_def updateRules_def execute_def
        nullTime_def move_cursor_def returnA_def ofSum_def)
  have w: "starving parse (w_db ?w)" using stuck_cursor [OF Cons.prems(1) r(2,1) refl] by simp
  have "x \<in> set (t_rules (w_db ?w))" if x: "x \<in> set rs" for x
  proof -
    have "x \<in> set (t_rules (w_db w))" using Cons.prems(2) x by simp
    moreover have "rule_ID x \<noteq> rule_ID r" using Cons.prems(3) x by (auto dest: image_eqI)
    ultimately have "x \<in> set (t_rules (w_db w))" "rule_ID x \<noteq> rule_ID r" by simp_all
    then show ?thesis by (auto simp: move_cursor_def upd_where_def)
  qed
  then have rs: "\<forall>x\<in>set rs. x \<in> set (t_rules (w_db ?w)) \<and> stuck parse x" using Cons.prems(2) by simp
  have dist: "distinct (map rule_ID rs)" using Cons.prems(3) by simp
  have fault: "\<And>n. w_fault ?w n = None" "w_fault ?w = w_fault w" using Cons.prems(4) by simp_all
  obtain res' w' where "planRules parse now window n rs (res\<lparr> pr_Initialized := pr_Initialized res + 1 \<rparr>) ?w = (Inr res', w')"
    "starving parse (w_db w')" "w_fault w' = w_fault ?w" using Cons.IH [OF w rs dist fault(1)] by blast
  then show ?case using one fault(2) by (simp add: bindA_def)
qed simp

lemma pass_stuck:
  assumes nofault: "\<And>n. w_fault w n = None" and starve: "starving parse (w_db w)"
  shows "\<exists>res w'. PlanScheduledJobs parse catchUpWindow maxCatchUpPerRule plannerBatchSize w = (Inr res, w')
    \<and> pr_RulesScanned res = 100 \<and> starving parse (w_db w') \<and> w_fault w' = w_fault w"
proof -
  let ?w = "w\<lparr> w_stmts := w_stmts w + 1 + 1 \<rparr>" and ?rs = "dueRules (w_dbnow w) 100 (w_db w)"
  have const: "nat (positiveOr 100 plannerBatchSize) = 100" "nat (positiveOr 100 maxCatchUpPerRule) = 100"
    by (simp_all add: positiveOr_def plannerBatchSize_def maxCatchUpPerRule_def)
  have rows: "rows_ok (w_db w)" using starve by (simp add: starving_def)
  have w: "\<And>n. w_fault ?w n = None" "starving parse (w_db ?w)" using assms by simp_all
  have rs: "\<forall>r\<in>set ?rs. r \<in> set (t_rules (w_db ?w)) \<and> stuck parse r" "distinct (map rule_ID ?rs)"
    using starving_due(2) [OF starve] dueRules_facts(1,3) [OF rows] by auto
  obtain res' w' where "planRules parse (w_dbnow w) (positiveOr (24 * hour) catchUpWindow) 100 ?rs
      (emptyPlan\<lparr> pr_RulesScanned := length ?rs \<rparr>) ?w = (Inr res', w')" "starving parse (w_db w')" "w_fault w' = w_fault ?w"
    using planRules_stuck [OF w rs] by blast
  moreover from planRules_scanned [OF this(1)] have "pr_RulesScanned res' = 100" using starving_due(1) [OF starve] by simp
  ultimately show ?thesis
    using nofault unfolding PlanScheduledJobs_def Let_def const
    by (simp add: inTx_def bindA_def plainWrap_def selectNow_def selectDue_def)
qed

text \<open>
  C23. Schedules that never fire starve the planner. When a full batch of enabled cron rules has no
  next occurrence and hence no cursor, every rule without a cursor is one of them, the database raises
  no fault and nothing else runs between the passes, a planning round that is not stopped never
  returns: every pass selects that batch again, before every rule with a due cursor, and finds it full.
\<close>

theorem planner_starves:
  assumes "\<And>n. w_fault w n = None" and "starving parse (w_db w)"
  shows "plan parse (\<lambda>_. False) (\<lambda>_ v. v) w = None"
proof (rule ccontr)
  assume "plan parse (\<lambda>_. False) (\<lambda>_ v. v) w \<noteq> None"
  then obtain y where y: "planLoop parse (\<lambda>_. False) (\<lambda>_ v. v) 0 emptyPlan w = Some y"
    unfolding plan_def by blast
  let ?P = "\<lambda>p (stopped :: nat \<Rightarrow> bool) (others :: nat \<Rightarrow> world \<Rightarrow> world) (i :: nat) (t :: planResult) v (r :: (gerror + planResult) \<times> world).
      \<not> (p = parse \<and> stopped = (\<lambda>_. False) \<and> others = (\<lambda>_ v. v) \<and> (\<forall>n. w_fault v n = None) \<and> starving parse (w_db v))"
  have "?P parse (\<lambda>_. False) (\<lambda>_ v. v) 0 emptyPlan w y"
  proof (rule planLoop.raw_induct [where P = ?P, OF _ y])
    fix f p stopped others i t v r
    assume IH: "\<And>p stopped others i t v r. f p stopped others i t v = Some r \<Longrightarrow> ?P p stopped others i t v r"
      and step: "(if stopped i then Some (Inr t, v)
         else case PlanScheduledJobs p catchUpWindow maxCatchUpPerRule plannerBatchSize (others i v) of
           (Inl err, w) \<Rightarrow> Some (Inl err, w)
         | (Inr result, w) \<Rightarrow> if pr_RulesScanned result < nat plannerBatchSize then Some (Inr (addPlan t result), w)
             else f p stopped others (i + 1) (addPlan t result) w) = Some r"
    show "?P p stopped others i t v r"
    proof
      assume a: "p = parse \<and> stopped = (\<lambda>_. False) \<and> others = (\<lambda>_ v. v) \<and> (\<forall>n. w_fault v n = None) \<and> starving parse (w_db v)"
      then obtain res v' where pass: "PlanScheduledJobs parse catchUpWindow maxCatchUpPerRule plannerBatchSize v = (Inr res, v')"
          "pr_RulesScanned res = 100" "starving parse (w_db v')" "w_fault v' = w_fault v"
        using pass_stuck [of v parse] by blast
      then have "f p stopped others (i + 1) (addPlan t res) v' = Some r"
        using step a by (simp add: plannerBatchSize_def)
      from IH [OF this] a pass(3,4) show False by simp
    qed
  qed
  then show False using assms by simp
qed

text \<open>A hundred rules with an empty cron expression, and one whose cursor is due.\<close>

definition neverRule :: "nat \<Rightarrow> rule" where
  "neverRule n = cronRule\<lparr> rule_ID := 100 + n, rule_NextRunAt := None,
     rule_Schedule := Some \<lparr> Kind = ScheduleCron, Expr = '''', TZ = '''', SafetyMargin = 0,
       SafetyMarginWasProvided = False \<rparr> \<rparr>"

definition starvedWorld :: world where
  "starvedWorld = emptyWorld\<lparr> w_db := (w_db emptyWorld)\<lparr> t_rules := cronRule # map neverRule [0..<100] \<rparr> \<rparr>"

theorem planner_starves_witness:
  "due 2000 cronRule \<and> cronRule \<in> set (t_rules (w_db starvedWorld))
   \<and> plan everyTen (\<lambda>_. False) (\<lambda>_ v. v) starvedWorld = None"
proof -
  have stuck: "stuck everyTen (neverRule n)" for n
    by (simp add: stuck_def neverRule_def cronRule_def scheduled_kind_def Schedule_Next_def)
  have "filter (stuck everyTen) (map neverRule [0..<100]) = map neverRule [0..<100]"
    using stuck by (auto simp: filter_id_conv)
  then have "100 \<le> length (filter (stuck everyTen) (cronRule # map neverRule [0..<100]))" by simp
  moreover have "rule_chk (neverRule n)" "rule_chk cronRule" "rule_NextRunAt cronRule \<noteq> None" for n
    by (simp_all add: neverRule_def cronRule_def rule_chk_def PeriodType_Valid_def Severity_Valid_def)
  moreover have "distinct (map rule_ID (cronRule # map neverRule [0..<100]))"
    by (auto simp: distinct_map inj_on_def neverRule_def cronRule_def)
  ultimately have starve: "starving everyTen (w_db starvedWorld)"
    using stuck by (auto simp: starving_def rows_ok_def starvedWorld_def)
  have nofault: "w_fault starvedWorld n = None" for n by (simp add: starvedWorld_def emptyWorld_def)
  from planner_starves [OF nofault starve] show ?thesis
    by (simp add: starvedWorld_def due_def cronRule_def scheduled_kind_def)
qed

end
