(* ===== verification/Worker.thy ===== *)
theory Worker
  imports EvaluationRun Planner
begin

text \<open>
  The worker, \<open>internal/worker/worker.go\<close>: its configuration, the delays between attempts, one turn
  of an executor (claim, evaluate, settle the claim), the heartbeat of a claim and the cleanup. The
  heartbeat runs beside the evaluation; what it reported by the time the evaluation returns is an
  argument of \<open>process\<close>, and its statements are steps of their own.
\<close>

section \<open>Configuration\<close>

record config =
  cfg_Listen :: string
  cfg_Version :: string
  cfg_Debug :: bool
  Concurrency :: int
  PollingInterval :: duration
  LeaseDuration :: duration
  HeartbeatInterval :: duration
  Retention :: duration
  PlannerInterval :: duration

definition worker_defaults :: "config \<Rightarrow> config" where
  "worker_defaults c =
     (let c = (if Concurrency c \<le> 0 then c\<lparr> Concurrency := 4 \<rparr> else c);
          c = (if PollingInterval c \<le> 0 then c\<lparr> PollingInterval := second \<rparr> else c);
          c = (if LeaseDuration c \<le> 0 then c\<lparr> LeaseDuration := 2 * minute \<rparr> else c) in
      if HeartbeatInterval c \<le> 0 then
        let c = c\<lparr> HeartbeatInterval := 30 * second \<rparr> in
        if LeaseDuration c \<le> HeartbeatInterval c then c\<lparr> HeartbeatInterval := LeaseDuration c div 4 \<rparr> else c
      else c)"

text \<open>\<open>maxOpen\<close> is the pool's \<open>MaxOpenConnections\<close> when there is a store, \<open>metrics\<close> the error of the meter.\<close>

definition New_worker :: "config \<Rightarrow> int option \<Rightarrow> gerror option \<Rightarrow> gerror + config" where
  "New_worker config0 maxOpen metrics =
     (let c = worker_defaults config0 in
      if HeartbeatInterval c \<le> 0 \<or> LeaseDuration c \<le> HeartbeatInterval c
      then Inl (new_error ''worker heartbeat interval must be shorter than lease'')
      else
        let c = (if Retention c \<le> 0 then c\<lparr> Retention := 30 * 24 * hour \<rparr> else c);
            c = (if PlannerInterval c \<le> 0 then c\<lparr> PlannerInterval := minute \<rparr> else c) in
        if (case maxOpen of None \<Rightarrow> False | Some n \<Rightarrow> 0 < n \<and> n \<le> Concurrency c)
        then Inl (new_error ''worker concurrency must leave at least one PostgreSQL connection for lease heartbeats'')
        else case metrics of Some err \<Rightarrow> Inl err | None \<Rightarrow> Inr c)"

section \<open>Delays\<close>

definition maxAttempts :: int where "maxAttempts = 5"
definition ruleBusyRetryDelay :: duration where "ruleBusyRetryDelay = 5 * second"

function retryLoop :: "int \<Rightarrow> int \<Rightarrow> duration \<Rightarrow> duration" where
  "retryLoop attempt i delay =
     (if i < attempt \<and> delay < 5 * minute then retryLoop attempt (i + 1) (delay * 2) else delay)"
  by pat_completeness auto
termination by (relation "measure (\<lambda>(attempt, i, delay). nat (attempt - i))") auto

declare retryLoop.simps [simp del]

definition retryDelay :: "int \<Rightarrow> duration" where
  "retryDelay attempt =
     (let delay = retryLoop attempt 1 (5 * second) in if 5 * minute < delay then 5 * minute else delay)"

text \<open>\<open>random n\<close> is a draw of \<open>rand.Int64N n\<close>.\<close>

definition jitteredPolling :: "config \<Rightarrow> (int \<Rightarrow> int) \<Rightarrow> duration" where
  "jitteredPolling c random =
     (let base = PollingInterval c; delta = base div 5 in
      if delta \<le> 0 then base else base - delta + random (2 * delta + 1))"

section \<open>Executors\<close>

definition settle :: "bool \<Rightarrow> evaluationJob \<Rightarrow> uuid \<Rightarrow> int \<Rightarrow> gerror \<Rightarrow> unit act" where
  "settle stopping job token attempts err =
     (if stopping then ReleaseEvaluationJob (job_ID job) token 0
      else if errors_Is err ErrRuleBusy then ReleaseEvaluationJob (job_ID job) token ruleBusyRetryDelay
      else if errors_Is err ErrObsoleteJob then CancelEvaluationJob (job_ID job) token (msg err)
      else if errors_Is err ErrStaleClaim \<or> errors_Is err ErrNotFound then returnA ()
      else
        let attempts = (if attempts = 0 then job_Attempts job + 1 else attempts) in
        FailEvaluationJob (job_ID job) token attempts maxAttempts (retryDelay attempts) err)"

text \<open>
  \<open>stopping\<close>: the worker's context is done when the evaluation has returned; \<open>heartbeatErr\<close>: the
  error the heartbeat reported by then.
\<close>

definition process :: "runner \<Rightarrow> bool \<Rightarrow> gerror option \<Rightarrow> claimedJob \<Rightarrow> world \<Rightarrow> world" where
  "process R stopping heartbeatErr claimed w =
     (let job = cj_Job claimed in
      case job_ClaimToken job of
        None \<Rightarrow> w
      | Some token \<Rightarrow>
          let ((q, attempts), w) = EvaluateScheduled R sqlStore job w;
              err = (case heartbeatErr of
                       Some err \<Rightarrow> Some err
                     | None \<Rightarrow> (case q of Inl err \<Rightarrow> Some err | Inr _ \<Rightarrow> None)) in
          case err of
            None \<Rightarrow> w
          | Some err \<Rightarrow> snd (settle stopping job token attempts err w))"

text \<open>One turn of the loop, and the turns of an executor until its context is done.\<close>

definition executorTurn :: "config \<Rightarrow> runner \<Rightarrow> bool \<Rightarrow> gerror option \<Rightarrow> world \<Rightarrow> world" where
  "executorTurn c R stopping heartbeatErr w =
     (case ClaimEvaluationJob (LeaseDuration c) w of
        (Inl err, w) \<Rightarrow> w
      | (Inr None, w) \<Rightarrow> w
      | (Inr (Some claimed), w) \<Rightarrow> process R stopping heartbeatErr claimed w)"

fun executorLoop :: "config \<Rightarrow> (runner \<times> bool \<times> gerror option \<times> (world \<Rightarrow> world)) list \<Rightarrow> world \<Rightarrow> world" where
  "executorLoop c [] w = w"
| "executorLoop c ((R, stopping, heartbeatErr, others) # turns) w =
     executorLoop c turns (others (executorTurn c R stopping heartbeatErr w))"

text \<open>
  The heartbeat: a statement per tick, \<open>others\<close> being what happened since the tick before, until the
  context is done or a statement fails.
\<close>

fun heartbeat :: "config \<Rightarrow> uuid \<Rightarrow> uuid \<Rightarrow> (world \<Rightarrow> world) list \<Rightarrow> world \<Rightarrow> gerror option \<times> world" where
  "heartbeat c i token [] w = (None, w)"
| "heartbeat c i token (others # ticks) w =
     (case HeartbeatEvaluationJob i token (LeaseDuration c) (others w) of
        (Inl err, w) \<Rightarrow> (Some err, w)
      | (Inr _, w) \<Rightarrow> heartbeat c i token ticks w)"

definition cleanupTick :: "config \<Rightarrow> nat act" where
  "cleanupTick c = DeleteTerminalEvaluationJobs (Retention c)"

text \<open>The counts as handed to the gauge, zero where the store has none.\<close>

definition recordJobCounts :: "(evaluationJobStatus \<times> nat) list act" where
  "recordJobCounts =
     bindA CountEvaluationJobsByStatus (\<lambda>counts.
     returnA (map (\<lambda>s. (s, case map_of counts s of None \<Rightarrow> 0 | Some n \<Rightarrow> n))
       [EvaluationJobPending, EvaluationJobRunning, EvaluationJobFailed]))"

section \<open>Bounds\<close>

lemma retryLoop_closed: "0 < delay \<Longrightarrow>
    min (retryLoop attempt i delay) (5 * minute) = min (delay * 2 ^ nat (attempt - i)) (5 * minute)"
proof (induction attempt i delay rule: retryLoop.induct)
  case (1 attempt i delay)
  show ?case
  proof (cases "i < attempt \<and> delay < 5 * minute")
    case True
    then have "nat (attempt - i) = Suc (nat (attempt - (i + 1)))" by linarith
    then have "delay * 2 ^ nat (attempt - i) = delay * 2 * 2 ^ nat (attempt - (i + 1))" by simp
    moreover have "retryLoop attempt i delay = retryLoop attempt (i + 1) (delay * 2)"
      using True by (subst retryLoop.simps) simp
    ultimately show ?thesis using 1 True by simp
  next
    case False
    then have loop: "retryLoop attempt i delay = delay" by (subst retryLoop.simps) auto
    show ?thesis
    proof (cases "i < attempt")
      case True
      then have "5 * minute \<le> delay" using False by linarith
      moreover have "delay * 1 \<le> delay * 2 ^ nat (attempt - i)" using 1(2) by (intro mult_left_mono) simp_all
      ultimately have "5 * minute \<le> delay * 2 ^ nat (attempt - i)" "5 * minute \<le> delay" by linarith+
      then show ?thesis unfolding loop by (simp only: min_absorb2)
    qed (simp add: loop)
  qed
qed

text \<open>
  The delay before a retry is five seconds, doubled for each attempt after the first, at most
  five minutes; for any number of attempts, without overflow.
\<close>

theorem retryDelay_backoff:
  "retryDelay attempt = min (5 * second * 2 ^ nat (attempt - 1)) (5 * minute)"
proof -
  have "retryDelay attempt = min (retryLoop attempt 1 (5 * second)) (5 * minute)"
    by (simp add: retryDelay_def Let_def min_def)
  also have "\<dots> = min (5 * second * 2 ^ nat (attempt - 1)) (5 * minute)" by (rule retryLoop_closed) simp
  finally show ?thesis .
qed

text \<open>
  A worker starts with a usable configuration. When it is built, the heartbeat is positive and
  shorter than the lease it renews, every interval is positive, at least one connection of a
  bounded pool is left for heartbeats, every value that was given positive is kept, and the
  polling delay stays within a fifth of the polling interval.
\<close>

theorem worker_config_usable:
  assumes "New_worker config0 maxOpen metrics = Inr c" and "\<And>n. 0 < n \<Longrightarrow> 0 \<le> random n \<and> random n < n"
  shows "0 < HeartbeatInterval c \<and> HeartbeatInterval c < LeaseDuration c
    \<and> 0 < Concurrency c \<and> 0 < PollingInterval c \<and> 0 < Retention c \<and> 0 < PlannerInterval c
    \<and> (\<forall>n. maxOpen = Some n \<and> 0 < n \<longrightarrow> Concurrency c < n)
    \<and> (0 < HeartbeatInterval config0 \<longrightarrow> HeartbeatInterval c = HeartbeatInterval config0)
    \<and> (0 < LeaseDuration config0 \<longrightarrow> LeaseDuration c = LeaseDuration config0)
    \<and> (0 < Concurrency config0 \<longrightarrow> Concurrency c = Concurrency config0)
    \<and> \<bar>jitteredPolling c random - PollingInterval c\<bar> \<le> PollingInterval c div 5"
proof -
  let ?d = "worker_defaults config0"
  have d: "0 < Concurrency ?d" "0 < PollingInterval ?d" "0 < LeaseDuration ?d"
    "0 < HeartbeatInterval config0 \<Longrightarrow> HeartbeatInterval ?d = HeartbeatInterval config0"
    "0 < LeaseDuration config0 \<Longrightarrow> LeaseDuration ?d = LeaseDuration config0"
    "0 < Concurrency config0 \<Longrightarrow> Concurrency ?d = Concurrency config0"
    by (simp_all add: worker_defaults_def Let_def)
  have c: "HeartbeatInterval c = HeartbeatInterval ?d" "LeaseDuration c = LeaseDuration ?d" "Concurrency c = Concurrency ?d"
    "PollingInterval c = PollingInterval ?d" "0 < HeartbeatInterval ?d" "HeartbeatInterval ?d < LeaseDuration ?d"
    "0 < Retention c" "0 < PlannerInterval c" "\<forall>n. maxOpen = Some n \<and> 0 < n \<longrightarrow> Concurrency ?d < n"
    using assms(1) by (auto simp: New_worker_def Let_def split: if_splits option.splits)
  have "\<bar>jitteredPolling c random - PollingInterval c\<bar> \<le> PollingInterval c div 5"
    using d(2) c(4) assms(2) [of "2 * (PollingInterval c div 5) + 1"]
    by (auto simp: jitteredPolling_def Let_def abs_le_iff)
  with c d show ?thesis by simp
qed

definition zeroConfig :: config where
  "zeroConfig = \<lparr> cfg_Listen = '''', cfg_Version = '''', cfg_Debug = False, Concurrency = 0, PollingInterval = 0,
     LeaseDuration = 20 * second, HeartbeatInterval = 0, Retention = 0, PlannerInterval = 0 \<rparr>"

text \<open>Thirty seconds are too long for a lease of twenty, so the heartbeat is a quarter of it.\<close>

theorem worker_config_usable_witness:
  "\<exists>c. New_worker zeroConfig (Some 10) None = Inr c \<and> HeartbeatInterval c = 5 * second \<and> Concurrency c = 4
     \<and> HeartbeatInterval c < LeaseDuration c \<and> \<bar>jitteredPolling c (\<lambda>_. 0) - PollingInterval c\<bar> \<le> PollingInterval c div 5"
proof -
  let ?c = "projr (New_worker zeroConfig (Some 10) None)"
  have c: "New_worker zeroConfig (Some 10) None = Inr ?c" "HeartbeatInterval ?c = 5 * second" "Concurrency ?c = 4"
    by (simp_all add: New_worker_def worker_defaults_def zeroConfig_def Let_def)
  have "0 \<le> (\<lambda>_ :: int. 0 :: int) n \<and> (\<lambda>_ :: int. 0 :: int) n < n" if "0 < n" for n using that by simp
  from worker_config_usable [OF c(1) this] c show ?thesis by blast
qed

section \<open>Settling a claim\<close>

lemma fenced_row:
  assumes "fenced w p f r" and "j \<in> set (t_jobs (w_db w))" and "p j"
  shows "(f j)\<lparr> job_UpdatedAt := w_dbnow w \<rparr> \<in> set (t_jobs (w_db (snd r)))
    \<and> w_db (snd r) = (w_db w)\<lparr> t_jobs := t_jobs (w_db (snd r)) \<rparr>"
  using assms by (cases r; cases "fst r") (auto simp: set_upd_where)

text \<open>A job whose claim was given up, claimable again from \<open>t\<close> on.\<close>

definition waits :: "time \<Rightarrow> evaluationJob \<Rightarrow> bool" where
  "waits t k \<longleftrightarrow> job_Status k = EvaluationJobPending \<and> job_AvailableAt k = t \<and> job_ClaimToken k = None"

text \<open>What becomes of the claimed job \<open>k\<close> after an attempt, the \<open>n\<close>th, ended with \<open>err\<close>.\<close>

definition settled :: "bool \<Rightarrow> uuid \<Rightarrow> uuid \<Rightarrow> time \<Rightarrow> int \<Rightarrow> gerror \<Rightarrow> evaluationJob \<Rightarrow> bool" where
  "settled stopping i token now n err k \<longleftrightarrow> job_ID k = i \<and>
     (if stopping then waits now k
      else if errors_Is err ErrRuleBusy then waits (now + 5 * second) k
      else if errors_Is err ErrObsoleteJob then job_Status k = EvaluationJobCancelled
      else if errors_Is err ErrStaleClaim \<or> errors_Is err ErrNotFound then holds i token k
      else job_Attempts k = n \<and>
        (if n < 5 then waits (now + min (5 * second * 2 ^ nat (n - 1)) (5 * minute)) k
         else job_Status k = EvaluationJobFailed))"

lemma retryDelay_closed: "retryDelay attempt = min (5 * second * 2 ^ nat (attempt - 1)) (5 * minute)"
proof -
  have "retryDelay attempt = min (retryLoop attempt 1 (5 * second)) (5 * minute)"
    by (simp add: retryDelay_def Let_def min_def)
  also have "\<dots> = min (5 * second * 2 ^ nat (attempt - 1)) (5 * minute)" by (rule retryLoop_closed) simp
  finally show ?thesis .
qed

lemma interval_us_id: "1000 dvd d \<Longrightarrow> interval_us d = d"
  by (auto simp: interval_us_def Microseconds_def div_minus_minus elim!: dvdE)

lemma interval_us_retry: "interval_us (retryDelay n) = retryDelay n"
  by (rule interval_us_id) (auto simp: retryDelay_closed min_def intro: dvd_mult2)

lemma fenced_settled:
  assumes "fenced w p f r" and "j \<in> set (t_jobs (w_db w))" and "p j"
    and "settled stopping i token (w_dbnow w) n err ((f j)\<lparr> job_UpdatedAt := w_dbnow w \<rparr>)"
  shows "let w' = snd r in w_db w' = (w_db w)\<lparr> t_jobs := t_jobs (w_db w') \<rparr>
    \<and> (\<exists>k\<in>set (t_jobs (w_db w')). settled stopping i token (w_dbnow w) n err k)"
  using fenced_row [OF assms(1-3)] assms(4) unfolding Let_def by blast

lemma settle_row:
  assumes ok: "jobs_ok (w_db w)" and fault: "w_fault w (w_stmts w) = None"
    and j: "j \<in> set (t_jobs (w_db w))" "holds (job_ID job) token j"
    and n: "n = (if attempts = 0 then job_Attempts job + 1 else attempts)" "job_Attempts j \<le> n"
  shows "let w' = snd (settle stopping job token attempts err w) in
    w_db w' = (w_db w)\<lparr> t_jobs := t_jobs (w_db w') \<rparr>
    \<and> (\<exists>k\<in>set (t_jobs (w_db w')). settled stopping (job_ID job) token (w_dbnow w) n err k)"
proof -
  note fences = transition_fences [OF ok fault, of "job_ID job" token, unfolded Let_def]
  have id: "job_ID j = job_ID job" using j(2) by (simp add: holds_def)
  have us: "interval_us 0 = 0" "interval_us ruleBusyRetryDelay = 5 * second"
    by (simp_all add: interval_us_id ruleBusyRetryDelay_def)
  have release: "settled stopping (job_ID job) token (w_dbnow w) n err
      (j\<lparr> job_Status := EvaluationJobPending, job_AvailableAt := w_dbnow w + interval_us d, job_ClaimToken := None,
          job_LeaseUntil := None, job_UpdatedAt := w_dbnow w \<rparr>)"
    if "stopping \<and> d = 0 \<or> \<not> stopping \<and> errors_Is err ErrRuleBusy \<and> d = ruleBusyRetryDelay" for d
    using that by (auto simp: settled_def waits_def us id)
  have fence_release: "fenced w (holds (job_ID job) token) (\<lambda>j. j\<lparr> job_Status := EvaluationJobPending,
      job_AvailableAt := w_dbnow w + interval_us d, job_ClaimToken := None, job_LeaseUntil := None \<rparr>)
      (ReleaseEvaluationJob (job_ID job) token d w)" for d
    using fences by blast
  consider (stop) "stopping" | (busy) "\<not> stopping" "errors_Is err ErrRuleBusy"
    | (obsolete) "\<not> stopping" "\<not> errors_Is err ErrRuleBusy" "errors_Is err ErrObsoleteJob"
    | (stale) "\<not> stopping" "\<not> errors_Is err ErrRuleBusy" "\<not> errors_Is err ErrObsoleteJob"
        "errors_Is err ErrStaleClaim \<or> errors_Is err ErrNotFound"
    | (failed) "\<not> stopping" "\<not> errors_Is err ErrRuleBusy" "\<not> errors_Is err ErrObsoleteJob"
        "\<not> (errors_Is err ErrStaleClaim \<or> errors_Is err ErrNotFound)" by blast
  then show ?thesis
  proof cases
    case stop
    then have "settle stopping job token attempts err = ReleaseEvaluationJob (job_ID job) token 0" by (simp add: settle_def)
    then show ?thesis using fenced_settled [OF fence_release [of 0] j release] stop by simp
  next
    case busy
    then have "settle stopping job token attempts err = ReleaseEvaluationJob (job_ID job) token ruleBusyRetryDelay"
      by (simp add: settle_def)
    then show ?thesis using fenced_settled [OF fence_release [of ruleBusyRetryDelay] j release] busy by simp
  next
    case obsolete
    let ?k = "j\<lparr> job_Status := EvaluationJobCancelled, job_LastError := msg err, job_ClaimToken := None,
                job_LeaseUntil := None, job_UpdatedAt := w_dbnow w \<rparr>"
    have s: "settle stopping job token attempts err = CancelEvaluationJob (job_ID job) token (msg err)"
      using obsolete by (simp add: settle_def)
    have "?k \<in> set (t_jobs (w_db (snd (settle stopping job token attempts err w))))"
      unfolding s CancelEvaluationJob_row [OF ok fault] using j
      by (simp add: set_upd_where holds_def)
    moreover have "settled stopping (job_ID job) token (w_dbnow w) n err ?k" using obsolete id by (simp add: settled_def)
    ultimately show ?thesis using CancelEvaluationJob_row [OF ok fault, of "job_ID job" token "msg err"] unfolding Let_def s by auto
  next
    case stale
    then show ?thesis using j id by (auto simp: settle_def Let_def settled_def returnA_def)
  next
    case failed
    let ?act = "FailEvaluationJob (job_ID job) token n maxAttempts (retryDelay n) err"
    let ?f = "\<lambda>j. j\<lparr> job_Status := (if maxAttempts \<le> n then EvaluationJobFailed else EvaluationJobPending),
          job_Attempts := max (job_Attempts j) n, job_LastError := msg err, job_ClaimToken := None, job_LeaseUntil := None,
          job_AvailableAt := (if n < maxAttempts then w_dbnow w + interval_us (retryDelay n) else job_AvailableAt j) \<rparr>"
    have s: "settle stopping job token attempts err = ?act" using failed n(1) by (simp add: settle_def Let_def)
    have f: "fenced w (holds (job_ID job) token) ?f (?act w)" using fences by blast
    have iv: "interval_us (retryDelay n) = min (5 * second * 2 ^ nat (n - 1)) (5 * minute)"
      using interval_us_retry retryDelay_closed by metis
    have "settled stopping (job_ID job) token (w_dbnow w) n err ((?f j)\<lparr> job_UpdatedAt := w_dbnow w \<rparr>)"
      using failed n(2) id iv by (simp add: settled_def waits_def maxAttempts_def max_absorb2)
    from fenced_settled [OF f j this] show ?thesis unfolding s .
  qed
qed


section \<open>A turn of an executor\<close>

lemma started_ok: "jobs_ok (w_db w) \<Longrightarrow> jobs_ok (started i token w)"
proof -
  assume ok: "jobs_ok (w_db w)"
  let ?p = "\<lambda>j. holds i token j \<and> leased w j" and ?f = "\<lambda>j. j\<lparr> job_Attempts := job_Attempts j + 1, job_UpdatedAt := w_dbnow w \<rparr>"
  have "map job_ID (upd_where ?p ?f (t_jobs (w_db w))) = map job_ID (t_jobs (w_db w))" by (rule map_upd_where) simp
  moreover have "map occurrence_of (upd_where ?p ?f (t_jobs (w_db w))) = map occurrence_of (t_jobs (w_db w))"
    by (rule map_upd_where) (simp add: occurrence_of_def)
  moreover have "\<forall>j\<in>set (upd_where ?p ?f (t_jobs (w_db w))). job_chk j"
    using ok by (auto simp: set_upd_where jobs_ok_def job_chk_def)
  ultimately show ?thesis using ok by (simp add: jobs_ok_def started_def)
qed

text \<open>The row of a claim after its attempt was counted, if it was.\<close>

lemma started_row:
  assumes ok: "jobs_ok (w_db w)" and j: "j \<in> set (t_jobs (w_db w))" "holds i token j"
    and d: "d = (if attempts = 0 then w_db w else started i token w)"
    and a: "attempts = 0 \<or> (\<exists>j\<in>set (t_jobs (w_db w)). holds i token j \<and> leased w j \<and> attempts = job_Attempts j + 1)"
  shows "\<exists>k\<in>set (t_jobs d). holds i token k \<and> job_Attempts k = (if attempts = 0 then job_Attempts j else attempts)
    \<and> (attempts = 0 \<or> attempts = job_Attempts j + 1) \<and> jobs_ok d"
proof (cases "attempts = 0")
  case True
  then show ?thesis using assms by auto
next
  case False
  then obtain x where x: "x \<in> set (t_jobs (w_db w))" "holds i token x" "leased w x" "attempts = job_Attempts x + 1"
    using a by auto
  then have "x = j" using unique_job [OF ok x(1) j(1)] j(2) by (simp add: holds_def)
  then have "j\<lparr> job_Attempts := job_Attempts j + 1, job_UpdatedAt := w_dbnow w \<rparr> \<in> set (t_jobs d)"
    using False d x by (auto simp: started_def set_upd_where)
  then show ?thesis using False x(4) \<open>x = j\<close> d started_ok [OF ok] j(2)
    by (intro bexI [of _ "j\<lparr> job_Attempts := job_Attempts j + 1, job_UpdatedAt := w_dbnow w \<rparr>"]) (auto simp: holds_def)
qed

text \<open>Settling changes nothing when no row is running under the token.\<close>

lemma updateJobs_none:
  assumes "updateJobs p f w = (q, w')" and "\<And>v j. j \<in> set (t_jobs (w_db w)) \<Longrightarrow> \<not> p v j"
  shows "w_db w' = w_db w"
  using assms(1)
proof (cases rule: updateJobs_cases)
  case (2 g)
  then show ?thesis using assms(2) by (simp add: upd_where_id)
qed

lemma settle_none:
  assumes none: "\<And>j. j \<in> set (t_jobs (w_db w)) \<Longrightarrow> \<not> (job_ID j = job_ID job \<and> job_ClaimToken j = Some token)"
  shows "w_db (snd (settle stopping job token attempts err w)) = w_db w"
proof -
  have u: "w_db (snd (updateJobs p f w)) = w_db w"
    if "\<And>v j. p v j \<Longrightarrow> job_ID j = job_ID job \<and> job_ClaimToken j = Some token" for p f
    using updateJobs_none [of p f w "fst (updateJobs p f w)" "snd (updateJobs p f w)"] none that by (metis prod.collapse)
  have c: "w_db (snd (bindA (updateJobs p f) (\<lambda>js. if P js then failA e else returnA ()) w)) = w_db w"
    if "\<And>v j. p v j \<Longrightarrow> job_ID j = job_ID job \<and> job_ClaimToken j = Some token" for p f P e
    using u [of p f, OF that] by (auto simp: bindA_def failA_def returnA_def split: prod.split sum.split)
  have d: "w_db (snd (bindA (updateJobs p f) (\<lambda>_. returnA ()) w)) = w_db w"
    if "\<And>v j. p v j \<Longrightarrow> job_ID j = job_ID job \<and> job_ClaimToken j = Some token" for p f
    using u [of p f, OF that] by (auto simp: bindA_def returnA_def split: prod.split sum.split)
  have h: "holds (job_ID job) token j \<Longrightarrow> job_ID j = job_ID job \<and> job_ClaimToken j = Some token" for j
    by (simp add: holds_def)
  show ?thesis
    unfolding settle_def ReleaseEvaluationJob_def CancelEvaluationJob_def FailEvaluationJob_def claimedUpdate_def Let_def
    using c [of "\<lambda>w. holds (job_ID job) token", OF h] d [of "\<lambda>w j. job_ID j = job_ID job \<and> job_ClaimToken j = Some token"]
    by (auto simp: returnA_def)
qed

lemma completed_none:
  assumes "completed job js js'" and "\<forall>j\<in>set js. job_chk j" and "job_ClaimToken job = Some token"
    and "\<And>j. j \<in> set js \<Longrightarrow> job_ID j = job_ID job \<Longrightarrow> holds (job_ID job) token j"
  shows "k \<in> set js' \<Longrightarrow> \<not> (job_ID k = job_ID job \<and> job_ClaimToken k = Some token)"
  using assms unfolding completed_def by (auto simp: set_upd_where)

text \<open>
  C21. Every attempt settles its claim. Let a worker process a job it claimed. If the evaluation is
  committed, the tables stay as the commit left them, the job succeeded, whatever the heartbeat
  reports and even during a shutdown. Otherwise no verdict is stored and the row is settled by the
  error (the heartbeat's before the evaluation's): given back at once on shutdown, after five
  seconds when the rule was busy, cancelled when its revision is obsolete, left to whoever holds it
  when the claim is stale or the rule is gone; and any other error consumes one attempt, the job
  waiting for the backoff of that attempt, or failed for good at the fifth.
\<close>

theorem process_settles:
  assumes "alert_world (w\<lparr> w_collector := Some [] \<rparr>)" and "w_collector w = None" and "jobs_ok (w_db w)"
    and "j \<in> set (t_jobs (w_db w))" and "holds (job_ID job) token j" and "job_ClaimToken job = Some token"
    and "job_Attempts job = job_Attempts j"
    and "EvaluateScheduled R sqlStore job w = ((q, attempts), w1)" and "w_fault w1 (w_stmts w1) = None"
  shows "let w' = process R stopping heartbeatErr \<lparr> cj_Job = job, cj_Reclaimed = b \<rparr> w in
    case q of
      Inr ev \<Rightarrow> w_db w' = w_db w1 \<and> (\<exists>k\<in>set (t_jobs (w_db w')). job_ID k = job_ID job \<and> job_Status k = EvaluationJobSucceeded)
    | Inl err \<Rightarrow> t_evaluations (w_db w') = t_evaluations (w_db w) \<and> t_alerts (w_db w') = t_alerts (w_db w)
        \<and> (\<exists>k\<in>set (t_jobs (w_db w')). settled stopping (job_ID job) token (w_dbnow w1) (job_Attempts j + 1)
              (case heartbeatErr of None \<Rightarrow> err | Some e \<Rightarrow> e) k)"
proof -
  note out = EvaluateScheduled_outcome [OF assms(1-3,8)]
  have proc: "process R stopping heartbeatErr \<lparr> cj_Job = job, cj_Reclaimed = b \<rparr> w =
    (case (case heartbeatErr of Some e \<Rightarrow> Some e | None \<Rightarrow> (case q of Inl e \<Rightarrow> Some e | Inr _ \<Rightarrow> None)) of
       None \<Rightarrow> w1 | Some e \<Rightarrow> snd (settle stopping job token attempts e w1))"
    by (simp add: process_def Let_def assms(6,8))
  show ?thesis
  proof (cases q)
    case (Inr ev)
    have com: "completed job (t_jobs (started (job_ID job) token w)) (t_jobs (w_db w1))" using out Inr assms(6) by simp
    have ok: "jobs_ok (started (job_ID job) token w)" by (rule started_ok [OF assms(3)])
    obtain x where x: "x \<in> set (t_jobs (started (job_ID job) token w))" "holds (job_ID job) token x"
      using com assms(6) unfolding completed_def by auto
    have held: "holds (job_ID job) token y" if "y \<in> set (t_jobs (started (job_ID job) token w))" "job_ID y = job_ID job" for y
    proof -
      have "job_ID x = job_ID y" using x(2) that(2) by (simp add: holds_def)
      then show ?thesis using that(1) x ok by (metis distinct_map inj_onD jobs_ok_def)
    qed
    have none: "\<not> (job_ID k = job_ID job \<and> job_ClaimToken k = Some token)" if "k \<in> set (t_jobs (w_db w1))" for k
      using completed_none [OF com _ assms(6) held that] ok by (simp add: jobs_ok_def)
    have "w_db (snd (settle stopping job token attempts e w1)) = w_db w1" for e by (rule settle_none) (rule none)
    then have same: "w_db (process R stopping heartbeatErr \<lparr> cj_Job = job, cj_Reclaimed = b \<rparr> w) = w_db w1"
      unfolding proc by (simp split: option.split sum.split)
    moreover have "\<exists>k\<in>set (t_jobs (w_db w1)). job_ID k = job_ID job \<and> job_Status k = EvaluationJobSucceeded"
    proof -
      obtain now where "t_jobs (w_db w1) = upd_where (holds (job_ID job) token)
          (\<lambda>j. j\<lparr> job_Status := EvaluationJobSucceeded, job_ClaimToken := None, job_LeaseUntil := None,
                  job_LastError := [], job_UpdatedAt := now \<rparr>) (t_jobs (started (job_ID job) token w))"
        using com assms(6) unfolding completed_def by auto
      then have "x\<lparr> job_Status := EvaluationJobSucceeded, job_ClaimToken := None, job_LeaseUntil := None,
                  job_LastError := [], job_UpdatedAt := now \<rparr> \<in> set (t_jobs (w_db w1))"
        using x by (simp add: set_upd_where)
      then show ?thesis by (rule rev_bexI) (use x(2) in \<open>simp add: holds_def\<close>)
    qed
    ultimately show ?thesis using Inr by (simp add: Let_def)
  next
    case (Inl err)
    let ?e = "case heartbeatErr of None \<Rightarrow> err | Some e \<Rightarrow> e"
    have d: "w_db w1 = (if attempts = 0 then w_db w else started (job_ID job) token w)"
      and a: "attempts = 0 \<or> (\<exists>j\<in>set (t_jobs (w_db w)). holds (job_ID job) token j \<and> leased w j \<and> attempts = job_Attempts j + 1)"
      using out Inl assms(6) by simp_all
    obtain k where k: "k \<in> set (t_jobs (w_db w1))" "holds (job_ID job) token k"
        "job_Attempts k = (if attempts = 0 then job_Attempts j else attempts)"
        "attempts = 0 \<or> attempts = job_Attempts j + 1" "jobs_ok (w_db w1)"
      using started_row [OF assms(3-5) d a] by blast
    have n: "job_Attempts j + 1 = (if attempts = 0 then job_Attempts job + 1 else attempts)" "job_Attempts k \<le> job_Attempts j + 1"
      using k(3,4) assms(7) by auto
    let ?w = "snd (settle stopping job token attempts ?e w1)"
    have p: "process R stopping heartbeatErr \<lparr> cj_Job = job, cj_Reclaimed = b \<rparr> w = ?w"
      unfolding proc using Inl by (simp split: option.split)
    have s: "w_db ?w = (w_db w1)\<lparr> t_jobs := t_jobs (w_db ?w) \<rparr>"
      "\<exists>k\<in>set (t_jobs (w_db ?w)). settled stopping (job_ID job) token (w_dbnow w1) (job_Attempts j + 1) ?e k"
      using settle_row [OF k(5) assms(9) k(1,2) n, of stopping ?e] unfolding Let_def by blast+
    have "t_evaluations (w_db ?w) = t_evaluations (w_db w1)" "t_alerts (w_db ?w) = t_alerts (w_db w1)"
      using arg_cong [OF s(1), of t_evaluations] arg_cong [OF s(1), of t_alerts] by simp_all
    moreover have "t_evaluations (w_db w1) = t_evaluations (w_db w)" "t_alerts (w_db w1) = t_alerts (w_db w)"
      using d by (simp_all add: started_def)
    ultimately show ?thesis using s(2) unfolding Let_def p Inl by simp
  qed
qed


text \<open>A job held until 7000 by the worker with token 9, which lost its engine.\<close>

definition heldJob :: evaluationJob where
  "heldJob = \<lparr> job_ID = 1, job_RuleID = 3, job_RuleRevision = 4, job_ScheduledAt = 1990, job_Status = EvaluationJobRunning,
     job_Attempts = 0, job_AvailableAt = 1990, job_LeaseUntil = Some 7000, job_ClaimToken = Some 9, job_LastError = '''',
     job_CreatedAt = 1990, job_UpdatedAt = 1990 \<rparr>"

definition heldWorld :: world where
  "heldWorld = evalWorld\<lparr> w_db := (w_db evalWorld)\<lparr> t_jobs := [heldJob] \<rparr> \<rparr>"

lemma heldWorld_ok: "alert_world (heldWorld\<lparr> w_collector := Some [] \<rparr>)" "w_collector heldWorld = None"
  "jobs_ok (w_db heldWorld)" "heldJob \<in> set (t_jobs (w_db heldWorld))" "holds (job_ID heldJob) 9 heldJob"
  "job_ClaimToken heldJob = Some 9" "w_dbnow heldWorld = 2000" "\<And>n. w_fault heldWorld n = None"
  by (simp_all add: heldWorld_def heldJob_def evalWorld_def emptyWorld_def alert_world_def alerts_ok_def observed_def
      honest_def jobs_ok_def job_chk_def holds_def)

theorem process_settles_witness:
  "\<exists>k\<in>set (t_jobs (w_db (process (exampleRunner\<lparr> rn_engine := None \<rparr>) False None
       \<lparr> cj_Job = heldJob, cj_Reclaimed = False \<rparr> heldWorld))). job_Attempts k = 1 \<and> waits (2000 + 5 * second) k"
proof -
  let ?R = "exampleRunner\<lparr> rn_engine := None \<rparr>" and ?err = "new_error ''reconciliation runner requires engine and templates''"
  obtain q attempts w1 where run: "EvaluateScheduled ?R sqlStore heldJob heldWorld = ((q, attempts), w1)" by (metis prod.collapse)
  have "case EvaluateScheduled ?R sqlStore heldJob heldWorld of ((q, n), w) \<Rightarrow> q = Inl ?err \<and> w_dbnow w = 2000 \<and> w_fault w (w_stmts w) = None"
    by code_simp
  then have q: "q = Inl ?err" "w_dbnow w1 = 2000" "w_fault w1 (w_stmts w1) = None" using run by simp_all
  have err: "\<not> errors_Is ?err s" for s by (simp add: new_error_def errors_Is_def)
  have held: "job_Attempts heldJob = 0" "job_ID heldJob = 1" by (simp_all add: heldJob_def)
  from process_settles [OF heldWorld_ok(1-6) refl run q(3), of False None False] show ?thesis
    unfolding Let_def q held by (auto simp: settled_def err)
qed

section \<open>The heartbeat\<close>

text \<open>A claim whose lease still has its full duration to run.\<close>

definition claim_live :: "config \<Rightarrow> uuid \<Rightarrow> uuid \<Rightarrow> world \<Rightarrow> bool" where
  "claim_live c i token w \<longleftrightarrow> jobs_ok (w_db w) \<and> (\<forall>n. w_fault w n = None)
     \<and> (\<exists>k\<in>set (t_jobs (w_db w)). holds i token k
         \<and> (\<exists>t. job_LeaseUntil k = Some t \<and> w_dbnow w + interval_us (LeaseDuration c) \<le> t))"

text \<open>
  What may happen between two ticks: anything but a write to the claimed row and a fault, as long as
  the tick comes before the lease ends.
\<close>

definition timely :: "config \<Rightarrow> uuid \<Rightarrow> uuid \<Rightarrow> world \<Rightarrow> world \<Rightarrow> bool" where
  "timely c i token v v' \<longleftrightarrow> jobs_ok (w_db v') \<and> (\<forall>n. w_fault v' n = None)
     \<and> (\<forall>k\<in>set (t_jobs (w_db v)). holds i token k \<longrightarrow> k \<in> set (t_jobs (w_db v')))
     \<and> w_dbnow v' < w_dbnow v + interval_us (LeaseDuration c)"

lemma heartbeat_tick:
  assumes "claim_live c i token v" and "timely c i token v v'"
  shows "\<exists>w. HeartbeatEvaluationJob i token (LeaseDuration c) v' = (Inr (), w) \<and> claim_live c i token w"
proof -
  let ?d = "LeaseDuration c" and ?now = "w_dbnow v'"
  obtain k t where k: "k \<in> set (t_jobs (w_db v'))" "holds i token k" "job_LeaseUntil k = Some t" "?now < t"
    using assms unfolding claim_live_def timely_def by fastforce
  have ok: "jobs_ok (w_db v')" "w_fault v' (w_stmts v') = None" using assms(2) by (simp_all add: timely_def)
  obtain q w where run: "HeartbeatEvaluationJob i token ?d v' = (q, w)" by fastforce
  have f: "fenced v' (\<lambda>j. holds i token j \<and> leased v' j) (\<lambda>j. j\<lparr> job_LeaseUntil := Some (?now + interval_us ?d) \<rparr>) (q, w)"
    using transition_fences [OF ok, of i token] unfolding Let_def run [symmetric] by blast
  have live: "holds i token k \<and> leased v' k" using k by (simp add: leased_def)
  then obtain u where q: "q = Inr u" using f k(1) by (cases q) auto
  have "quietA (HeartbeatEvaluationJob i token ?d)"
    unfolding HeartbeatEvaluationJob_def claimedUpdate_def by (intro quietI)
  then have quiet: "quiet v' w" by (rule quietA_D) (rule run)
  let ?k = "k\<lparr> job_LeaseUntil := Some (?now + interval_us ?d), job_UpdatedAt := ?now \<rparr>"
  have "?k \<in> set (t_jobs (w_db w))" using fenced_row [OF f k(1) live] by simp
  moreover have "holds i token ?k" using k(2) by (simp add: holds_def)
  moreover have "jobs_ok (w_db w)"
  proof -
    let ?p = "\<lambda>j. holds i token j \<and> leased v' j"
      and ?g = "\<lambda>j. j\<lparr> job_LeaseUntil := Some (?now + interval_us ?d), job_UpdatedAt := ?now \<rparr>"
    have w: "t_jobs (w_db w) = upd_where ?p ?g (t_jobs (w_db v'))" using f q by simp
    have "map job_ID (upd_where ?p ?g (t_jobs (w_db v'))) = map job_ID (t_jobs (w_db v'))" by (rule map_upd_where) simp
    moreover have "map occurrence_of (upd_where ?p ?g (t_jobs (w_db v'))) = map occurrence_of (t_jobs (w_db v'))"
      by (rule map_upd_where) (simp add: occurrence_of_def)
    ultimately show ?thesis using ok(1) by (auto simp: jobs_ok_def w set_upd_where job_chk_def holds_def split: if_splits)
  qed
  ultimately have "claim_live c i token w"
    using quiet assms(2) unfolding claim_live_def quiet_def timely_def by (auto intro!: bexI [of _ ?k])
  then show ?thesis using run q by simp
qed

text \<open>
  C24. The heartbeat keeps the claim. As long as each tick comes before the lease ends, nothing else
  writes the claimed row and the database raises no fault, the heartbeat reports no error, and
  however many ticks it makes the row stays running under the token with a live lease, so that no
  other executor can claim the job.
\<close>

theorem heartbeat_keeps_claim:
  assumes "claim_live c i token w" and "0 < interval_us (LeaseDuration c)"
    and "\<And>others v. others \<in> set ticks \<Longrightarrow> claim_live c i token v \<Longrightarrow> timely c i token v (others v)"
  shows "\<exists>w'. heartbeat c i token ticks w = (None, w')
    \<and> (\<exists>k\<in>set (t_jobs (w_db w')). holds i token k \<and> leased w' k)
    \<and> (\<forall>k\<in>set (t_jobs (w_db w')). job_ID k = i \<longrightarrow> \<not> claimable (w_dbnow w') k)"
proof -
  have "\<exists>w'. heartbeat c i token ticks w = (None, w') \<and> claim_live c i token w'"
    using assms(1,3)
  proof (induction ticks arbitrary: w)
    case (Cons others ticks)
    obtain w1 where "HeartbeatEvaluationJob i token (LeaseDuration c) (others w) = (Inr (), w1)" "claim_live c i token w1"
      using heartbeat_tick [OF Cons.prems(1)] Cons.prems by (meson list.set_intros(1))
    with Cons.IH [of w1] Cons.prems(2) show ?case by simp
  qed simp
  then obtain w' where run: "heartbeat c i token ticks w = (None, w')" and live: "claim_live c i token w'" by blast
  obtain k t where k: "k \<in> set (t_jobs (w_db w'))" "holds i token k" "job_LeaseUntil k = Some t" "w_dbnow w' < t"
    using live assms(2) unfolding claim_live_def by force
  have "\<not> claimable (w_dbnow w') x" if "x \<in> set (t_jobs (w_db w'))" "job_ID x = i" for x
  proof -
    have "x = k" using unique_job [of "w_db w'" x k] live that k(1,2) by (simp add: claim_live_def holds_def)
    then show ?thesis using k by (simp add: claimable_def holds_def)
  qed
  moreover have "leased w' k" using k by (simp add: leased_def)
  ultimately show ?thesis using run k(1,2) by blast
qed

text \<open>A lease of 5000 renewed every 1000, three times.\<close>

theorem heartbeat_keeps_claim_witness:
  "\<exists>w'. heartbeat (zeroConfig\<lparr> LeaseDuration := 5000 \<rparr>) 1 9 (replicate 3 (\<lambda>w. w\<lparr> w_dbnow := w_dbnow w + 1000 \<rparr>)) heldWorld = (None, w')
     \<and> (\<forall>k\<in>set (t_jobs (w_db w')). job_ID k = 1 \<longrightarrow> \<not> claimable (w_dbnow w') k)"
proof -
  let ?c = "zeroConfig\<lparr> LeaseDuration := 5000 \<rparr>" and ?tick = "\<lambda>w :: world. w\<lparr> w_dbnow := w_dbnow w + 1000 \<rparr>"
  have lease: "interval_us (LeaseDuration ?c) = 5000" by (simp add: interval_us_def Microseconds_def)
  have live: "claim_live ?c 1 9 heldWorld"
    using heldWorld_ok(3,4,5,7,8) lease by (auto simp: claim_live_def heldJob_def intro!: bexI [of _ heldJob])
  have "timely ?c 1 9 v (others v)" if "others \<in> set (replicate 3 ?tick)" "claim_live ?c 1 9 v" for others v
    using that lease by (auto simp: timely_def claim_live_def)
  with heartbeat_keeps_claim [of ?c 1 9 heldWorld "replicate 3 ?tick", OF live] lease show ?thesis by auto
qed

end
