(* ===== verification/TimeText.thy ===== *)
theory TimeText
  imports GoTime Json "HOL-Library.Monad_Syntax"
begin

text \<open>
  The textual forms of instants and durations in Go's \<open>time\<close> package, as the API and the schedules
  use them: the RFC 3339 layouts and their parser (as lenient as Go's), \<open>Duration.String\<close> and
  \<open>ParseDuration\<close>. The lemmas show that parsing what was printed gives the value back. The one
  product \<open>ParseDuration\<close> computes in double precision, the contribution of a decimal fraction, is a
  parameter.
\<close>

section \<open>Instants\<close>

definition format_rfc3339_seconds :: "time \<Rightarrow> string" where
  "format_rfc3339_seconds t =
     (let s = (t mod day_ns) div 1000000000 in
      format_day t @ ''T'' @ pad 2 (s div 3600) @ '':'' @ pad 2 (s mod 3600 div 60) @ '':'' @ pad 2 (s mod 60) @ ''Z'')"

definition getnum :: "nat \<Rightarrow> string \<Rightarrow> (int \<times> string) option" where
  "getnum n s = (let ds = take n s in
     if length ds = n \<and> list_all is_digit ds then Some (int (undec_nat ds), drop n s) else None)"

definition lit :: "char \<Rightarrow> string \<Rightarrow> string option" where
  "lit c s = (case s of [] \<Rightarrow> None | d # r \<Rightarrow> if d = c then Some r else None)"

definition fraction :: "string \<Rightarrow> int \<times> string" where
  "fraction s =
     (if s \<noteq> [] \<and> hd s \<in> {CHR ''.'', CHR '',''} \<and> tl s \<noteq> [] \<and> is_digit (hd (tl s)) then
        let ds = takeWhile is_digit (tl s) in
        (int (undec_nat (take 9 (ds @ replicate 9 (CHR ''0'')))), dropWhile is_digit (tl s))
      else (0, s))"

text \<open>The zone: \<open>Z\<close> or a signed offset, up to the 24 hours and 60 minutes Go lets pass; in seconds.\<close>

definition zone :: "string \<Rightarrow> int option" where
  "zone s =
     (if s = ''Z'' then Some 0
      else do {
        (sign, s) \<leftarrow> (case s of [] \<Rightarrow> None
                        | c # r \<Rightarrow> if c = CHR ''+'' then Some (1, r) else if c = CHR ''-'' then Some (-1, r) else None);
        (h, s) \<leftarrow> getnum 2 s;
        s \<leftarrow> lit (CHR '':'') s;
        (m, s) \<leftarrow> getnum 2 s;
        if s = '''' \<and> h \<le> 24 \<and> m \<le> 60 then Some (sign * (h * 60 + m) * 60) else None
      })"

definition daysIn :: "int \<Rightarrow> int \<Rightarrow> int" where
  "daysIn m y =
     (if m = 12 then 31
      else daysBefore (isLeap y) ! nat m - daysBefore (isLeap y) ! nat (m - 1))"

definition parse_rfc3339 :: "string \<Rightarrow> time option" where
  "parse_rfc3339 s = do {
     (y, s) \<leftarrow> getnum 4 s; s \<leftarrow> lit (CHR ''-'') s;
     (mo, s) \<leftarrow> getnum 2 s; s \<leftarrow> lit (CHR ''-'') s;
     (d, s) \<leftarrow> getnum 2 s; s \<leftarrow> lit (CHR ''T'') s;
     (h, s) \<leftarrow> (case getnum 2 s of None \<Rightarrow> getnum 1 s | Some r \<Rightarrow> Some r); s \<leftarrow> lit (CHR '':'') s;
     (mi, s) \<leftarrow> getnum 2 s; s \<leftarrow> lit (CHR '':'') s;
     (sec, s) \<leftarrow> getnum 2 s;
     let (ns, s) = fraction s in do {
       off \<leftarrow> zone s;
       if 1 \<le> mo \<and> mo \<le> 12 \<and> 1 \<le> d \<and> d \<le> daysIn mo y \<and> h < 24 \<and> mi < 60 \<and> sec < 60 then
         Some ((days_before_year y + daysBefore (isLeap y) ! nat (mo - 1) + d - 1) * day_ns
               + ((h * 60 + mi) * 60 + sec - off) * 1000000000 + ns)
       else None
     } }"

text \<open>\<open>Time.UnmarshalJSON\<close>: the text between the quotes, as it stands.\<close>

definition dec_time :: "time decoder" where
  "dec_time t old =
     (if t = ''null'' then Some old
      else if 2 \<le> length t \<and> hd t = CHR 0x22 \<and> last t = CHR 0x22 then parse_rfc3339 (butlast (tl t))
      else None)"

section \<open>Parsing what was printed\<close>

lemma length_dec_nat: "n < 10 ^ w \<Longrightarrow> 0 < w \<Longrightarrow> length (dec_nat n) \<le> w"
proof (induction w arbitrary: n)
  case 0
  then show ?case by simp
next
  case (Suc w)
  show ?case
  proof (cases "n < 10")
    case True
    then show ?thesis by (simp add: dec_nat.simps [of n])
  next
    case False
    with Suc.prems have "n div 10 < 10 ^ w" and "0 < w" by (cases w; simp)+
    with Suc.IH [of "n div 10"] False show ?thesis by (simp add: dec_nat.simps [of n])
  qed
qed

lemma length_pad: "0 \<le> i \<Longrightarrow> i < 10 ^ w \<Longrightarrow> 0 < w \<Longrightarrow> length (pad w i) = w"
  using length_dec_nat [of "nat i" w] by (simp add: pad_def nat_less_iff)

lemma undec_pad: "undec_nat (pad w i) = nat i"
  by (simp add: pad_def undec_nat_zeros)

lemma getnum_pad [simp]: "0 \<le> i \<Longrightarrow> i < 10 ^ w \<Longrightarrow> 0 < w \<Longrightarrow> getnum w (pad w i @ s) = Some (i, s)"
  using pad_digits [of _ w i] by (simp add: getnum_def length_pad undec_pad list_all_iff Let_def)

lemma lit_Cons [simp]: "lit c (c # s) = Some s"
  by (simp add: lit_def)

text \<open>Trailing zeros dropped and put back.\<close>

lemma strip_zeros:
  "\<exists>k. p = rev (dropWhile (\<lambda>c. c = CHR ''0'') (rev p)) @ replicate k (CHR ''0'')"
proof (induction p rule: rev_induct)
  case (snoc c p)
  show ?case
  proof (cases "c = CHR ''0''")
    case True
    from snoc obtain k where "p = rev (dropWhile (\<lambda>c. c = CHR ''0'') (rev p)) @ replicate k (CHR ''0'')" by blast
    with True have "p @ [c] = rev (dropWhile (\<lambda>c. c = CHR ''0'') (rev (p @ [c]))) @ replicate (Suc k) (CHR ''0'')"
      by (simp add: replicate_append_same [symmetric])
    then show ?thesis by blast
  next
    case False
    then show ?thesis by (intro exI [of _ 0]) simp
  qed
qed simp

lemma undec_nat_append_zeros: "undec_nat (s @ replicate k (CHR ''0'')) = undec_nat s * 10 ^ k"
proof -
  have "foldl (\<lambda>a c. 10 * a + digit_val c) a (replicate k (CHR ''0'')) = a * 10 ^ k" for a
    by (induction k arbitrary: a) simp_all
  then show ?thesis by (simp add: undec_nat_def)
qed

lemma format_frac_parse:
  assumes "0 \<le> ns" and "ns < 1000000000" and "s = [] \<or> (\<not> is_digit (hd s) \<and> hd s \<noteq> CHR ''.'' \<and> hd s \<noteq> CHR '','')"
  shows "fraction (format_frac ns @ s) = (ns, s)"
proof (cases "ns = 0")
  case True
  with assms(3) show ?thesis by (auto simp: format_frac_def fraction_def)
next
  case False
  define z where "z = rev (dropWhile (\<lambda>c. c = CHR ''0'') (rev (pad 9 ns)))"
  then obtain k where k: "pad 9 ns = z @ replicate k (CHR ''0'')" using strip_zeros by blast
  have frac: "format_frac ns = CHR ''.'' # z" using False by (simp add: format_frac_def z_def)
  have len: "length (pad 9 ns) = 9" using assms(1,2) by (intro length_pad) simp_all
  have digits: "\<forall>c\<in>set z. is_digit c" using pad_digits [of _ 9 ns] k by simp
  have nz: "z \<noteq> []"
  proof
    assume "z = []"
    with k have "undec_nat (pad 9 ns) = 0" using undec_nat_append_zeros [of "[]" k] by (simp add: undec_nat_def)
    with undec_pad [of 9 ns] False assms(1) show False by simp
  qed
  have tk: "takeWhile is_digit (z @ s) = z" "dropWhile is_digit (z @ s) = s"
    using digits assms(3) by (cases s; simp)+
  have "length z + k = 9" using len k by simp
  then have "replicate 9 (CHR ''0'') = replicate k (CHR ''0'') @ replicate (length z) (CHR ''0'')"
    by (metis add.commute replicate_add)
  then have "z @ replicate 9 (CHR ''0'') = pad 9 ns @ replicate (length z) (CHR ''0'')" using k by simp
  then have "take 9 (z @ replicate 9 (CHR ''0'')) = pad 9 ns" using len by simp
  moreover have "is_digit (hd (z @ s))" using nz digits by simp
  ultimately show ?thesis
    unfolding frac fraction_def using nz tk assms(1) by (simp add: Let_def undec_pad)
qed


lemma year_yday_leap:
  assumes "year_yday d = (y, 365)"
  shows "isLeap y"
proof -
  define a where "a = d div 146097"
  define d1 where "d1 = d - 146097 * a"
  define b where "b = d1 div 36524 - (d1 div 36524) div 4"
  define d2 where "d2 = d1 - 36524 * b"
  define c where "c = d2 div 1461"
  define d3 where "d3 = d2 - 1461 * c"
  define e where "e = d3 div 365 - (d3 div 365) div 4"
  have "year_yday d = (400 * a + 100 * b + 4 * c + e + 1, d3 - 365 * e)"
    unfolding year_yday_def Let_def a_def d1_def b_def d2_def c_def d3_def e_def by (rule refl)
  with assms have y: "y = 400 * a + 100 * b + 4 * c + e + 1" and yd: "365 = d3 - 365 * e" by auto
  have d1: "0 \<le> d1" "d1 \<le> 146096"
    using div_bracket [of 146097 d] by (simp_all add: d1_def a_def)
  have b: "0 \<le> b" "b \<le> 3" and d2: "0 \<le> d2" "d2 \<le> 36524"
    using cycle_step [of 36524 d1] d1 by (simp_all add: b_def d2_def)
  have c: "0 \<le> c" "c \<le> 24" and d3: "0 \<le> d3" "d3 \<le> 1460"
    using div_bracket [of 1461 d2] d2 by (simp_all add: c_def d3_def)
  have "d3 div 365 = e + 1" using yd by simp
  then have "(e + 1) div 4 = 1" by (simp add: e_def)
  moreover have "0 \<le> e" "e \<le> 3" using cycle_step [of 365 d3] d3 by (simp_all add: e_def)
  ultimately have e: "e = 3" by presburger
  with yd have "d3 = 1460" by simp
  then have "c = 24 \<Longrightarrow> d2 = 36524" by (simp add: d3_def)
  moreover have "d2 = 36524 \<Longrightarrow> b = 3"
  proof -
    assume "d2 = 36524"
    then have "d1 = 36524 * (b + 1)" by (simp add: d2_def)
    then have "d1 div 36524 = b + 1" by simp
    then have "(b + 1) div 4 = 1" by (simp add: b_def)
    with b show "b = 3" by presburger
  qed
  ultimately have "c \<le> 23 \<or> (c = 24 \<and> b = 3)" using c by linarith
  moreover have "y mod 4 = 0" using y e by presburger
  moreover have "y mod 100 \<noteq> 0" if "c \<le> 23"
  proof -
    have "y = 4 * (c + 1) + 100 * (4 * a + b)" using y e by simp
    then have "y mod 100 = (4 * (c + 1)) mod 100" by (metis mod_mult_self2)
    with that c(1) show ?thesis by simp
  qed
  moreover have "y mod 400 = 0" if "c = 24" "b = 3"
  proof -
    have "y = 400 * (a + 1)" using y e that by simp
    then show ?thesis by simp
  qed
  ultimately show ?thesis by (auto simp: isLeap_def)
qed

lemma daysIn_le: "1 \<le> m \<Longrightarrow> m \<le> 12 \<Longrightarrow> daysIn m y \<le> 31"
proof -
  assume "1 \<le> m" "m \<le> 12"
  then have "m \<in> {1, 2, 3, 4, 5, 6, 7, 8, 9, 10, 11, 12}" unfolding insert_iff empty_iff by presburger
  then show ?thesis by (auto simp: daysIn_def daysBefore_def Let_def)
qed

lemma month_day_upper:
  "month_day bs m yday = (m', d') \<Longrightarrow> m \<le> m' \<Longrightarrow> Suc (nat (m' - m)) < length bs
    \<Longrightarrow> d' \<le> bs ! Suc (nat (m' - m)) - bs ! nat (m' - m)"
proof (induction bs m yday rule: month_day.induct)
  case (3 b b' bs m yday)
  show ?case
  proof (cases "yday < b'")
    case True
    with 3 show ?thesis by auto
  next
    case False
    with 3(2) have rest: "month_day (b' # bs) (m + 1) yday = (m', d')" by simp
    show ?thesis
    proof (cases "m' = m")
      case True
      have lower: "month_day cs k z = (k', x) \<Longrightarrow> k \<le> k'" for cs k z k' x
        by (induction cs k z rule: month_day.induct) (auto split: if_splits)
      from lower [OF rest] True show ?thesis by simp
    next
      case neq: False
      with 3(3) have n: "nat (m' - m) = Suc (nat (m' - (m + 1)))" "m + 1 \<le> m'" by linarith+
      with 3(1) [OF False rest] 3(4) show ?thesis by simp
    qed
  qed
qed auto

lemma Date_daysIn:
  assumes "Date t = (y, m, d)"
  shows "d \<le> daysIn m y"
proof -
  obtain yday where yy: "year_yday (day_of t) = (y, yday)"
      and md: "month_day (daysBefore (isLeap y)) 1 yday = (m, d)"
    using assms by (cases "year_yday (day_of t)") (auto simp: Date_def Let_def)
  note m = Date_sound(2,3) [OF assms]
  show ?thesis
  proof (cases "m = 12")
    case True
    have "yday = daysBefore (isLeap y) ! nat (12 - 1) + d - 1"
      using Date_sound(1) [OF assms] year_yday_sound(1) [OF yy] True by simp
    then have "yday = (if isLeap y then 335 else 334) + d - 1" by (simp add: daysBefore_def Let_def)
    moreover have "yday \<le> 364 \<or> (yday = 365 \<and> isLeap y)"
      using year_yday_sound(3) [OF yy] year_yday_leap [of "day_of t" y] yy by (cases "yday = 365") auto
    ultimately show ?thesis using True by (auto simp: daysIn_def split: if_splits)
  next
    case False
    with m have n: "nat m = Suc (nat (m - 1))" "Suc (nat (m - 1)) < length (daysBefore (isLeap y))"
      by (simp_all add: daysBefore_ok)
    from month_day_upper [OF md _ n(2)] m(1) n(1) False show ?thesis by (simp add: daysIn_def)
  qed
qed

definition year_of :: "time \<Rightarrow> int" where
  "year_of t = fst (Date t)"

lemma clock_text: "3600 * h + r = (s :: int) \<Longrightarrow> 60 * m + e = r \<Longrightarrow> (h * 60 + m) * 60 + e = s"
  by simp

lemma zone_Z: "zone ''Z'' = Some 0"
  by (simp add: zone_def)

lemma parse_fields:
  assumes "1 \<le> y" "y \<le> 9999" "1 \<le> m" "m \<le> 12" "1 \<le> d" "d \<le> daysIn m y" "d \<le> 31"
    and "0 \<le> h" "h < 24" "0 \<le> mi" "mi < 60" "0 \<le> sec" "sec < 60" "0 \<le> f" "f < 1000000000"
  shows "parse_rfc3339 (pad 4 y @ CHR ''-'' # pad 2 m @ CHR ''-'' # pad 2 d @ CHR ''T''
      # pad 2 h @ CHR '':'' # pad 2 mi @ CHR '':'' # pad 2 sec @ format_frac f @ ''Z'')
    = Some ((days_before_year y + daysBefore (isLeap y) ! nat (m - 1) + d - 1) * day_ns
            + ((h * 60 + mi) * 60 + sec) * 1000000000 + f)"
proof -
  have "fraction (format_frac f @ ''Z'') = (f, ''Z'')"
    by (rule format_frac_parse [OF assms(14,15)]) simp
  with assms show ?thesis by (simp add: parse_rfc3339_def zone_Z)
qed

lemma parse_format_rfc3339:
  assumes "0 \<le> t" and "year_of t \<le> 9999"
  shows "parse_rfc3339 (format_rfc3339 t) = Some t"
proof -
  obtain y m d where D: "Date t = (y, m, d)" by (metis prod_cases3)
  note ds = Date_sound [OF D] Date_daysIn [OF D] Date_year_positive [OF assms(1) D]
  define ns where "ns = t mod day_ns"
  define s where "s = ns div 1000000000"
  have ns: "0 \<le> ns" "ns < day_ns" by (simp_all add: ns_def day_ns_def)
  have s: "0 \<le> s" "s < 86400"
    using ns zdiv_mono1 [of ns 86399999999999 1000000000] by (simp_all add: s_def day_ns_def)
  have y: "y \<le> 9999" using assms(2) D by (simp add: year_of_def)
  have d31: "d \<le> 31"
    using ds(5) daysIn_le [OF ds(2,3), of y] by simp
  have hms: "0 \<le> s div 3600" "s div 3600 < 24" "0 \<le> s mod 3600 div 60" "s mod 3600 div 60 < 60" "0 \<le> s mod 60" "s mod 60 < 60"
    using s zdiv_mono1 [of s 86399 3600] zdiv_mono1 [of "s mod 3600" 3599 60] by simp_all
  have shape: "format_rfc3339 t = pad 4 y @ CHR ''-'' # pad 2 m @ CHR ''-'' # pad 2 d @ CHR ''T''
      # pad 2 (s div 3600) @ CHR '':'' # pad 2 (s mod 3600 div 60) @ CHR '':'' # pad 2 (s mod 60)
      @ format_frac (ns mod 1000000000) @ ''Z''"
    by (simp add: format_rfc3339_def format_day_def D Let_def s_def ns_def)
  have "s mod 3600 mod 60 = s mod 60" by (rule mod_mod_cancel) simp
  then have "((s div 3600 * 60 + s mod 3600 div 60) * 60 + s mod 60) = s"
    using clock_text [OF mult_div_mod_eq [of 3600 s] mult_div_mod_eq [of 60 "s mod 3600"]] by simp
  moreover have "s * 1000000000 + ns mod 1000000000 = ns" by (simp add: s_def)
  moreover have "(days_before_year y + daysBefore (isLeap y) ! nat (m - 1) + d - 1) * day_ns + ns = t"
    unfolding ds(1) [symmetric] by (simp add: day_of_def ns_def)
  ultimately show ?thesis
    using parse_fields [OF ds(6) y ds(2-5) d31 hms, of "ns mod 1000000000"] unfolding shape by simp
qed

end
