(* ===== verification/SdkResolvers.thy ===== *)
theory SdkResolvers
  imports TemplateBase TimeText
begin

text \<open>
  The resolvers backed by the Formance SDK, \<open>internal/engine/sdk_resolvers.go\<close>. The SDK client is
  a parameter: a record of its four calls, each answering a request with an error, with an empty
  response (\<open>None\<close>) or with the payload the resolvers read. A number inside a query keeps its
  text, where Go keeps a \<open>float64\<close>. The lemmas show that the pagination neither loses nor
  truncates accounts, and when it returns.
\<close>

section \<open>The client\<close>

type_synonym queryMap = "(string \<times> json) list"

record v2Volume =
  vol_Input :: "int option"
  vol_Output :: "int option"
  vol_Balance :: "int option"

record v2Account =
  va_Address :: string
  va_Metadata :: "(string \<times> string) list"
  va_Volumes :: "(string \<times> v2Volume) list"

record accountsRequest =
  ar_Ledger :: string
  ar_RequestBody :: "queryMap option"
  ar_Pit :: "time option"
  ar_Expand :: "string option"
  ar_Cursor :: "string option"

record accountsCursor =
  cur_Data :: "v2Account list"
  cur_HasMore :: bool
  cur_Next :: "string option"

record poolBalance =
  pb_Asset :: string
  pb_Amount :: "int option"

record sdkClient =
  V2GetBalancesAggregated :: "string \<Rightarrow> queryMap \<Rightarrow> time \<Rightarrow> gerror + balances option"
  V2ListAccounts :: "accountsRequest \<Rightarrow> gerror + accountsCursor option"
  V3GetPoolBalances :: "string \<Rightarrow> time \<Rightarrow> gerror + poolBalance list option"
  V3GetPoolBalancesLatest :: "string \<Rightarrow> gerror + poolBalance list option"

section \<open>Queries\<close>

text \<open>
  \<open>Unmarshal\<close> into a string succeeds on a string literal, and on \<open>null\<close>, which leaves the empty
  string.
\<close>

definition unmarshalQuery :: "rawJSON \<Rightarrow> gerror + queryMap" where
  "unmarshalQuery raw =
     (if raw = '''' then Inr []
      else if TrimSpace raw = '''' then Inr []
      else
        let raw = (case Unmarshal dec_string raw '''' of Inr asString \<Rightarrow> asString | Inl _ \<Rightarrow> raw) in
        case parse_doc raw of
          Some (JObj ms) \<Rightarrow> Inr ms
        | Some JNull \<Rightarrow> Inr []
        | Some _ \<Rightarrow> Inl (wrap_error (''expected JSON object, got '' @ Quote raw)
                       (new_error ''json: cannot unmarshal''))
        | None \<Rightarrow> Inl (wrap_error (''expected JSON object, got '' @ Quote raw)
                     (new_error ''invalid JSON'')))"

section \<open>The ledger\<close>

definition SDK_AggregateBalance :: "sdkClient \<Rightarrow> string \<Rightarrow> rawJSON \<Rightarrow> time \<Rightarrow> gerror + balances" where
  "SDK_AggregateBalance client ledger query pit =
     (case unmarshalQuery query of
        Inl err \<Rightarrow> Inl (wrap_error ''ledgerSet query'' err)
      | Inr queryMap \<Rightarrow>
          (case V2GetBalancesAggregated client ledger queryMap pit of
             Inl err \<Rightarrow> Inl (wrap_error (''aggregate balances on '' @ Quote ledger) err)
           | Inr None \<Rightarrow> Inl (new_error ''aggregate balances: empty response'')
           | Inr (Some data) \<Rightarrow> Inr data))"

definition volumeBalance :: "v2Volume \<Rightarrow> int" where
  "volumeBalance v =
     (case vol_Balance v of
        Some b \<Rightarrow> b
      | None \<Rightarrow> (case vol_Input v of None \<Rightarrow> 0 | Some i \<Rightarrow> i) - (case vol_Output v of None \<Rightarrow> 0 | Some i \<Rightarrow> i))"

definition toAccount :: "string \<Rightarrow> v2Account \<Rightarrow> account" where
  "toAccount ledger a =
     \<lparr> acct_Address = va_Address a, acct_Ledger = ledger, acct_Metadata = va_Metadata a,
       acct_Balances = map (\<lambda>(asset, vol). (asset, Some (volumeBalance vol))) (va_Volumes a) \<rparr>"

text \<open>The first page carries the filter, the others the cursor and nothing else.\<close>

definition accountsPage :: "string \<Rightarrow> queryMap \<Rightarrow> time \<Rightarrow> string option \<Rightarrow> accountsRequest" where
  "accountsPage ledger queryMap pit cursor =
     (case cursor of
        None \<Rightarrow> \<lparr> ar_Ledger = ledger, ar_RequestBody = Some queryMap, ar_Pit = Some pit,
                  ar_Expand = Some ''volumes'', ar_Cursor = None \<rparr>
      | Some c \<Rightarrow> \<lparr> ar_Ledger = ledger, ar_RequestBody = None, ar_Pit = None, ar_Expand = None,
                    ar_Cursor = Some c \<rparr>)"

definition overBudget :: "int \<Rightarrow> string \<Rightarrow> gerror" where
  "overBudget limit ledger = new_error (''listAccounts: matched more than '' @ dec limit
     @ '' accounts on '' @ Quote ledger @ '' (accounts budget)'')"

fun addAccounts :: "string \<Rightarrow> int \<Rightarrow> v2Account list \<Rightarrow> account list \<Rightarrow> gerror + account list" where
  "addAccounts ledger limit [] out = Inr out"
| "addAccounts ledger limit (a # data) out =
     (let out = out @ [toAccount ledger a] in
      if limit < int (length out) then Inl (overBudget limit ledger)
      else addAccounts ledger limit data out)"

text \<open>The loop over the pages. Whether it ends depends on the server: \<open>None\<close> is a call that does not return.\<close>

partial_function (option) listPages ::
    "sdkClient \<Rightarrow> string \<Rightarrow> queryMap \<Rightarrow> time \<Rightarrow> int \<Rightarrow> string option \<Rightarrow> account list
     \<Rightarrow> (gerror + account list) option" where
  "listPages client ledger queryMap pit limit cursor out =
     (case V2ListAccounts client (accountsPage ledger queryMap pit cursor) of
        Inl err \<Rightarrow> Some (Inl (wrap_error (''list accounts on '' @ Quote ledger) err))
      | Inr resp \<Rightarrow>
          (case resp of
             None \<Rightarrow> Some (Inl (new_error ''list accounts: empty response''))
           | Some cur \<Rightarrow>
               (case addAccounts ledger limit (cur_Data cur) out of
                  Inl err \<Rightarrow> Some (Inl err)
                | Inr out \<Rightarrow>
                    (if \<not> cur_HasMore cur \<or> cur_Next cur = None then Some (Inr out)
                     else listPages client ledger queryMap pit limit (cur_Next cur) out))))"

declare listPages.simps [code]

definition SDK_ListAccounts ::
  "sdkClient \<Rightarrow> string \<Rightarrow> rawJSON \<Rightarrow> time \<Rightarrow> int \<Rightarrow> (gerror + account list) option" where
  "SDK_ListAccounts client ledger query pit limit =
     (case unmarshalQuery query of
        Inl err \<Rightarrow> Some (Inl (wrap_error ''listAccounts query'' err))
      | Inr queryMap \<Rightarrow> listPages client ledger queryMap pit limit None [])"

section \<open>The payments pool\<close>

fun poolMap :: "poolBalance list \<Rightarrow> balances \<Rightarrow> balances" where
  "poolMap [] out = out"
| "poolMap (b # bs) out =
     (case pb_Amount b of None \<Rightarrow> poolMap bs out | Some n \<Rightarrow> poolMap bs (map_put (pb_Asset b) (Some n) out))"

definition SDK_PoolBalance :: "sdkClient \<Rightarrow> string \<Rightarrow> time option \<Rightarrow> gerror + balances" where
  "SDK_PoolBalance client poolID pit =
     (case (case pit of
              None \<Rightarrow> (case V3GetPoolBalancesLatest client poolID of
                         Inl err \<Rightarrow> Inl (wrap_error (''pool balances latest '' @ Quote poolID) err)
                       | Inr resp \<Rightarrow> Inr resp)
            | Some t \<Rightarrow> (case V3GetPoolBalances client poolID t of
                           Inl err \<Rightarrow> Inl (wrap_error (''pool balances at '' @ format_rfc3339_seconds t @ '' '' @ Quote poolID) err)
                         | Inr resp \<Rightarrow> Inr resp)) of
        Inl err \<Rightarrow> Inl err
      | Inr None \<Rightarrow> Inl (new_error ''pool balances: empty response'')
      | Inr (Some data) \<Rightarrow> Inr (poolMap data []))"

section \<open>Facts\<close>

lemma addAccounts_eq: "addAccounts ledger limit data out =
    (if data = [] \<or> int (length out + length data) \<le> limit then Inr (out @ map (toAccount ledger) data)
     else Inl (overBudget limit ledger))"
  by (induction data arbitrary: out) (auto simp: Let_def)

text \<open>
  What it means that the server serves a listing: the pages it answers with when the cursors are
  followed from the first request on, the last one announcing no other.
\<close>

fun serves :: "sdkClient \<Rightarrow> string \<Rightarrow> queryMap \<Rightarrow> time \<Rightarrow> string option \<Rightarrow> accountsCursor list \<Rightarrow> bool" where
  "serves client ledger q pit cursor [] \<longleftrightarrow> False"
| "serves client ledger q pit cursor (p # ps) \<longleftrightarrow>
     V2ListAccounts client (accountsPage ledger q pit cursor) = Inr (Some p)
     \<and> (if cur_HasMore p \<and> cur_Next p \<noteq> None then serves client ledger q pit (cur_Next p) ps else ps = [])"

definition listed :: "accountsCursor list \<Rightarrow> v2Account list" where
  "listed pages = concat (map cur_Data pages)"

lemma listPages_served:
  assumes "serves client ledger q pit cursor pages" and "out = [] \<or> int (length out) \<le> limit"
  shows "listPages client ledger q pit limit cursor out = Some
     (if out @ map (toAccount ledger) (listed pages) = [] \<or> int (length out + length (listed pages)) \<le> limit
      then Inr (out @ map (toAccount ledger) (listed pages)) else Inl (overBudget limit ledger))"
  using assms
proof (induction pages arbitrary: cursor out)
  case Nil
  then show ?case by simp
next
  case (Cons p ps)
  from Cons.prems have p: "V2ListAccounts client (accountsPage ledger q pit cursor) = Inr (Some p)" by simp
  show ?case
  proof (cases "cur_Data p = [] \<or> int (length out + length (cur_Data p)) \<le> limit")
    case False
    with p show ?thesis
      by (subst listPages.simps) (auto simp: addAccounts_eq listed_def)
  next
    case fits: True
    let ?out = "out @ map (toAccount ledger) (cur_Data p)"
    have add: "addAccounts ledger limit (cur_Data p) out = Inr ?out"
      using fits by (simp add: addAccounts_eq)
    show ?thesis
    proof (cases "cur_HasMore p \<and> cur_Next p \<noteq> None")
      case False
      with Cons.prems have "ps = []" by (simp split: if_splits)
      with False p add fits Cons.prems(2) show ?thesis
        by (subst listPages.simps) (auto simp: listed_def)
    next
      case True
      with Cons.prems have more: "serves client ledger q pit (cur_Next p) ps" by simp
      have out: "?out = [] \<or> int (length ?out) \<le> limit"
        using fits Cons.prems(2) by auto
      have step: "listPages client ledger q pit limit cursor out
          = listPages client ledger q pit limit (cur_Next p) ?out"
        using p add True by (subst listPages.simps) auto
      show ?thesis
        unfolding step Cons.IH [OF more out] by (simp add: listed_def add.assoc)
    qed
  qed
qed

lemma listPages_returns:
  assumes "\<And>req cur. V2ListAccounts client req = Inr (Some cur) \<Longrightarrow> cur_HasMore cur \<Longrightarrow> cur_Data cur \<noteq> []"
  shows "\<exists>r. listPages client ledger q pit limit cursor out = Some r"
proof (induction "nat (limit - int (length out))" arbitrary: cursor out rule: less_induct)
  case less
  show ?case
  proof (cases "V2ListAccounts client (accountsPage ledger q pit cursor)")
    case (Inl err)
    then show ?thesis by (subst listPages.simps) simp
  next
    case (Inr resp)
    show ?thesis
    proof (cases resp)
      case None
      with Inr show ?thesis by (subst listPages.simps) simp
    next
      case (Some cur)
      note answer = Inr [unfolded Some]
      show ?thesis
      proof (cases "\<not> cur_HasMore cur \<or> cur_Next cur = None \<or> limit < int (length out + length (cur_Data cur))")
        case True
        with answer assms [OF answer] show ?thesis by (subst listPages.simps) (auto simp: addAccounts_eq)
      next
        case False
        let ?out = "out @ map (toAccount ledger) (cur_Data cur)"
        have step: "listPages client ledger q pit limit cursor out
            = listPages client ledger q pit limit (cur_Next cur) ?out"
          using answer False by (subst listPages.simps) (auto simp: addAccounts_eq)
        have "nat (limit - int (length ?out)) < nat (limit - int (length out))"
          using False assms [OF answer] by (cases "cur_Data cur") auto
        from less [OF this] show ?thesis unfolding step .
      qed
    qed
  qed
qed

lemma listPages_spins:
  assumes "\<And>req. V2ListAccounts client req = Inr (Some \<lparr> cur_Data = [], cur_HasMore = True, cur_Next = Some c \<rparr>)"
  shows "listPages client ledger q pit limit cursor out = None"
proof (rule ccontr)
  assume "listPages client ledger q pit limit cursor out \<noteq> None"
  then obtain r where r: "listPages client ledger q pit limit cursor out = Some r" by blast
  let ?P = "\<lambda>cl (ledger :: string) (q :: queryMap) (pit :: time) (limit :: int) (cursor :: string option)
      (out :: account list) (r :: gerror + account list). cl \<noteq> client"
  have "?P client ledger q pit limit cursor out r"
  proof (rule listPages.raw_induct [where P = ?P, OF _ r])
    fix f cl ledger q pit limit cursor out r
    assume IH: "\<And>cl ledger q pit limit cursor out r. f cl ledger q pit limit cursor out = Some r \<Longrightarrow> cl \<noteq> client"
      and step: "(case V2ListAccounts cl (accountsPage ledger q pit cursor) of
            Inl err \<Rightarrow> Some (Inl (wrap_error (''list accounts on '' @ Quote ledger) err))
          | Inr resp \<Rightarrow>
              (case resp of
                 None \<Rightarrow> Some (Inl (new_error ''list accounts: empty response''))
               | Some cur \<Rightarrow>
                   (case addAccounts ledger limit (cur_Data cur) out of
                      Inl err \<Rightarrow> Some (Inl err)
                    | Inr out \<Rightarrow>
                        (if \<not> cur_HasMore cur \<or> cur_Next cur = None then Some (Inr out)
                         else f cl ledger q pit limit (cur_Next cur) out)))) = Some r"
    show "cl \<noteq> client"
    proof
      assume "cl = client"
      with step assms have "f cl ledger q pit limit (Some c) out = Some r" by simp
      from IH [OF this] \<open>cl = client\<close> show False by simp
    qed
  qed
  then show False by simp
qed


section \<open>Properties\<close>

text \<open>
  C30. The account listing of the SDK resolver is complete or an error, never a part: when the ledger
  API serves the pages of a listing, each reached by the cursor of the one before, the resolver
  returns all their accounts in order, each with its balances derived from its volumes, as long as
  there are at most \<open>limit\<close>, and the accounts-budget error as soon as there are more; a query that is
  no JSON object reaches no server.
\<close>

theorem ListAccounts_complete:
  assumes "\<And>q. unmarshalQuery query = Inr q \<Longrightarrow> serves client ledger q pit None pages"
  shows "SDK_ListAccounts client ledger query pit limit = Some
     (case unmarshalQuery query of
        Inl err \<Rightarrow> Inl (wrap_error ''listAccounts query'' err)
      | Inr q \<Rightarrow>
          if listed pages = [] \<or> int (length (listed pages)) \<le> limit
          then Inr (map (toAccount ledger) (listed pages)) else Inl (overBudget limit ledger))"
  using listPages_served [OF assms, of _ "[]" limit]
  by (simp add: SDK_ListAccounts_def split: sum.split)

definition pagedClient :: sdkClient where
  "pagedClient = \<lparr>
     V2GetBalancesAggregated = \<lambda>_ _ _. Inr None,
     V2ListAccounts = \<lambda>req.
       (case ar_Cursor req of
          None \<Rightarrow> Inr (Some \<lparr> cur_Data = [\<lparr> va_Address = ''bank:1'', va_Metadata = [],
                     va_Volumes = [(''EUR'', \<lparr> vol_Input = Some 7, vol_Output = Some 2, vol_Balance = None \<rparr>)] \<rparr>],
                   cur_HasMore = True, cur_Next = Some ''page2'' \<rparr>)
        | Some c \<Rightarrow> Inr (Some \<lparr> cur_Data = [\<lparr> va_Address = ''bank:2'', va_Metadata = [],
                     va_Volumes = [(''EUR'', \<lparr> vol_Input = None, vol_Output = None, vol_Balance = Some 3 \<rparr>)] \<rparr>],
                   cur_HasMore = False, cur_Next = None \<rparr>)),
     V3GetPoolBalances = \<lambda>_ _. Inr None, V3GetPoolBalancesLatest = \<lambda>_. Inr None \<rparr>"

definition pageOf :: "string option \<Rightarrow> accountsCursor" where
  "pageOf c = (case V2ListAccounts pagedClient (accountsPage ''main'' [] 0 c) of
     Inr (Some p) \<Rightarrow> p | _ \<Rightarrow> \<lparr> cur_Data = [], cur_HasMore = False, cur_Next = None \<rparr>)"

theorem ListAccounts_complete_witness:
  "map_option (map_sum id (map acct_Balances)) (SDK_ListAccounts pagedClient ''main'' ''{}'' 0 10)
     = Some (Inr [[(''EUR'', Some 5)], [(''EUR'', Some 3)]])
   \<and> SDK_ListAccounts pagedClient ''main'' ''{}'' 0 1 = Some (Inl (overBudget 1 ''main''))
   \<and> SDK_ListAccounts pagedClient ''main'' ''[]'' 0 10 = Some (Inl (wrap_error ''listAccounts query''
        (wrap_error (''expected JSON object, got '' @ Quote ''[]'') (new_error ''json: cannot unmarshal''))))"
proof -
  have q: "unmarshalQuery ''{}'' = Inr []" by code_simp
  have bad: "unmarshalQuery ''[]'' = Inl (wrap_error (''expected JSON object, got '' @ Quote ''[]'')
      (new_error ''json: cannot unmarshal''))" by code_simp
  have s: "serves pagedClient ''main'' [] 0 None [pageOf None, pageOf (Some ''page2'')]"
    by (simp add: pageOf_def pagedClient_def accountsPage_def)
  have l: "listed [pageOf None, pageOf (Some ''page2'')]
      = cur_Data (pageOf None) @ cur_Data (pageOf (Some ''page2''))" by (simp add: listed_def)
  show ?thesis
    using ListAccounts_complete [of "''{}''" pagedClient "''main''" 0 "[pageOf None, pageOf (Some ''page2'')]" 10]
      ListAccounts_complete [of "''{}''" pagedClient "''main''" 0 "[pageOf None, pageOf (Some ''page2'')]" 1]
      ListAccounts_complete [of "''[]''" pagedClient "''main''" 0 "[]" 10] s q bad l
    by (simp add: pageOf_def pagedClient_def accountsPage_def toAccount_def volumeBalance_def)
qed

text \<open>
  A listing returns, whatever the ledger API answers, as long as every page that announces
  another one carries at least one account: the accounts budget then bounds the number of requests.
  Nothing else bounds it: against a server that keeps answering an empty page with a next cursor the
  call never returns.
\<close>

theorem ListAccounts_returns:
  shows "((\<forall>req cur. V2ListAccounts client req = Inr (Some cur) \<longrightarrow> cur_HasMore cur \<longrightarrow> cur_Data cur \<noteq> [])
      \<longrightarrow> (\<exists>r. SDK_ListAccounts client ledger query pit limit = Some r))
    \<and> (\<forall>c q. (\<forall>req. V2ListAccounts client req = Inr (Some \<lparr> cur_Data = [], cur_HasMore = True, cur_Next = Some c \<rparr>))
        \<longrightarrow> unmarshalQuery query = Inr q \<longrightarrow> SDK_ListAccounts client ledger query pit limit = None)"
  using listPages_returns [of client ledger _ pit limit None "[]"] listPages_spins [of client _ ledger _ pit limit None "[]"]
  by (auto simp: SDK_ListAccounts_def split: sum.split)

theorem ListAccounts_returns_witness:
  "(\<exists>r. SDK_ListAccounts pagedClient ''main'' ''{}'' 0 10 = Some r)
   \<and> SDK_ListAccounts (pagedClient\<lparr> V2ListAccounts := \<lambda>_.
        Inr (Some \<lparr> cur_Data = [], cur_HasMore = True, cur_Next = Some ''x'' \<rparr>) \<rparr>) ''main'' ''{}'' 0 10 = None"
proof
  show "\<exists>r. SDK_ListAccounts pagedClient ''main'' ''{}'' 0 10 = Some r"
    by (rule ListAccounts_returns [THEN conjunct1, rule_format]) (auto simp: pagedClient_def split: option.splits)
  have q: "unmarshalQuery ''{}'' = Inr []" by code_simp
  show "SDK_ListAccounts (pagedClient\<lparr> V2ListAccounts := \<lambda>_.
        Inr (Some \<lparr> cur_Data = [], cur_HasMore = True, cur_Next = Some ''x'' \<rparr>) \<rparr>) ''main'' ''{}'' 0 10 = None"
    by (rule ListAccounts_returns [THEN conjunct2, rule_format, OF _ q]) simp
qed

end
