(* ===== verification/AlertEvents.thy ===== *)
theory AlertEvents
  imports AlertLifecycle "HOL-Library.Sublist"
begin

text \<open>
  What an alert transition becomes on the message bus, \<open>internal/events/alert.go\<close>: the public event
  name of a logged event, the message envelope and the publisher. The bus is a parameter: it answers
  each publish attempt as it likes, an error is only logged, and what it delivers may lose, repeat and
  reorder what it was handed. The lemmas join it to the alert store: each notified transition is one
  publish attempt, named after the change of status it made.
\<close>

definition EventApp :: string where "EventApp = ''reconciliation''"
definition EventVersion :: string where "EventVersion = ''v1''"
definition Topic :: string where "Topic = ''reconciliation''"

abbreviation "EventTypeAlertOpened \<equiv> ''OPENED_ALERT''"
abbreviation "EventTypeAlertUpdated \<equiv> ''UPDATED_ALERT''"
abbreviation "EventTypeAlertAcknowledged \<equiv> ''ACKNOWLEDGED_ALERT''"
abbreviation "EventTypeAlertResolved \<equiv> ''RESOLVED_ALERT''"
abbreviation "EventTypeAlertAccepted \<equiv> ''ACCEPTED_ALERT''"
abbreviation "EventTypeAlertReopened \<equiv> ''REOPENED_ALERT''"
abbreviation "EventTypeAlertSnoozed \<equiv> ''SNOOZED_ALERT''"
abbreviation "EventTypeAlertUnsnoozed \<equiv> ''UNSNOOZED_ALERT''"

definition EventTypeFor :: "alertEvent \<Rightarrow> string" where
  "EventTypeFor e =
     (case ev_Type e of
        AlertEventFail \<Rightarrow>
          (if ev_PrevStatus e = None then EventTypeAlertOpened
           else if IsReopen e then EventTypeAlertReopened
           else EventTypeAlertUpdated)
      | AlertEventAck \<Rightarrow> EventTypeAlertAcknowledged
      | AlertEventPass \<Rightarrow> EventTypeAlertResolved
      | AlertEventResolve \<Rightarrow> EventTypeAlertResolved
      | AlertEventAccept \<Rightarrow> EventTypeAlertAccepted
      | AlertEventSnooze \<Rightarrow> EventTypeAlertSnoozed
      | AlertEventUnsnooze \<Rightarrow> EventTypeAlertUnsnoozed
      | AlertEventOther _ \<Rightarrow> '''')"

record eventMessage =
  msg_IdempotencyKey :: uuid
  msg_Date :: time
  msg_App :: string
  msg_Version :: string
  msg_Type :: string
  msg_Payload :: "alert \<times> alertEvent"

definition NewAlertEventMessage :: "string \<Rightarrow> alert \<Rightarrow> alertEvent \<Rightarrow> eventMessage" where
  "NewAlertEventMessage eventType alert event =
     \<lparr> msg_IdempotencyKey = ev_ID event, msg_Date = ev_At event, msg_App = EventApp,
       msg_Version = EventVersion, msg_Type = eventType, msg_Payload = (alert, event) \<rparr>"

text \<open>
  The bus: what its \<open>Publish\<close> was handed, each with its topic and the transport identifier, the error
  it answers to each attempt, if any, and the events whose error was logged.
\<close>

record bus =
  b_handed :: "(string \<times> uuid \<times> eventMessage) list"
  b_answers :: "nat \<Rightarrow> gerror option"
  b_logged :: "uuid list"

definition PublishAlertEvent :: "bool \<Rightarrow> alert \<Rightarrow> alertEvent \<Rightarrow> bus \<Rightarrow> bus" where
  "PublishAlertEvent configured alert event b =
     (if \<not> configured then b
      else
        let eventType = EventTypeFor event in
        if eventType = '''' then b\<lparr> b_logged := b_logged b @ [ev_ID event] \<rparr>
        else
          let m = NewAlertEventMessage eventType alert event; answer = b_answers b (length (b_handed b));
              b = b\<lparr> b_handed := b_handed b @ [(Topic, ev_ID event, m)] \<rparr> in
          if answer \<noteq> None then b\<lparr> b_logged := b_logged b @ [ev_ID event] \<rparr> else b)"

text \<open>
  What the brokers may deliver: any of the messages they were handed, each any number of times and in
  any order. An attempt may be lost, whatever its answer, and retries may replay it.
\<close>

definition delivery :: "bus \<Rightarrow> (string \<times> uuid \<times> eventMessage) list \<Rightarrow> bool" where
  "delivery b ms \<longleftrightarrow> set ms \<subseteq> set (b_handed b)"

text \<open>Publish attempts, in their order.\<close>

definition publishAll :: "(alert \<times> alertEvent) list \<Rightarrow> bus \<Rightarrow> bus" where
  "publishAll pending b = fold (\<lambda>(alert, event). PublishAlertEvent True alert event) pending b"

section \<open>Facts\<close>

definition messageOf :: "alert \<times> alertEvent \<Rightarrow> string \<times> uuid \<times> eventMessage" where
  "messageOf p = (case p of (a, e) \<Rightarrow> (Topic, ev_ID e, NewAlertEventMessage (EventTypeFor e) a e))"

lemma publishAll_handed:
  "\<forall>(a, e)\<in>set pending. EventTypeFor e \<noteq> '''' \<Longrightarrow> b_handed (publishAll pending b) = b_handed b @ map messageOf pending"
proof (induction pending arbitrary: b)
  case (Cons p pending)
  obtain a e where p: "p = (a, e)" by (cases p)
  have "b_handed (PublishAlertEvent True a e b) = b_handed b @ [messageOf p]"
    using Cons.prems by (simp add: PublishAlertEvent_def Let_def p messageOf_def)
  moreover have "publishAll (p # pending) b = publishAll pending (PublishAlertEvent True a e b)" by (simp add: publishAll_def p)
  ultimately show ?case using Cons.IH Cons.prems by simp
qed (simp add: publishAll_def)

lemma subseq_distinct: "subseq xs ys \<Longrightarrow> distinct ys \<Longrightarrow> distinct xs"
  by (auto simp: subseq_conv_nths distinct_nthsI)

lemma subseq_set: "subseq xs ys \<Longrightarrow> set xs \<subseteq> set ys"
  by (metis set_nths_subset subseq_conv_nths)

lemma distinct_mapI: "distinct (map f xs) \<Longrightarrow> distinct xs"
  by (simp add: distinct_map)

lemma chained_lifecycle: "chained s es \<Longrightarrow> e \<in> set es \<Longrightarrow> lifecycle (ev_PrevStatus e) (ev_Type e) (ev_NewStatus e)"
  by (induction es arbitrary: s) auto

lemma logged_lifecycle:
  assumes "alerts_ok d" and "e \<in> set (t_events d)"
  shows "lifecycle (ev_PrevStatus e) (ev_Type e) (ev_NewStatus e)"
proof -
  from assms obtain a where a: "a \<in> set (t_alerts d)" "alert_ID a = ev_AlertID e" by (auto simp: alerts_ok_def)
  with assms have "chained None (log_of d a)" by (auto simp: alerts_ok_def log_ok_def)
  moreover have "e \<in> set (log_of d a)" using assms(2) a by (simp add: log_of_def)
  ultimately show ?thesis by (rule chained_lifecycle)
qed

text \<open>The name of a logged event, spelled out, says which change of status the transition made.\<close>

definition names_change :: "alertEvent \<Rightarrow> bool" where
  "names_change e \<longleftrightarrow> (let n = EventTypeFor e; old = ev_PrevStatus e; new = ev_NewStatus e in
     (n = ''OPENED_ALERT'' \<longleftrightarrow> old = None)
     \<and> (n = ''REOPENED_ALERT'' \<longleftrightarrow> old = Some AlertResolved \<and> new = AlertOpen \<and> ev_Type e = AlertEventFail)
     \<and> (n = ''UPDATED_ALERT'' \<longleftrightarrow> old \<notin> {None, Some AlertResolved} \<and> ev_Type e = AlertEventFail)
     \<and> (n = ''ACKNOWLEDGED_ALERT'' \<longleftrightarrow> new = AlertAcknowledged \<and> old \<noteq> Some AlertAcknowledged)
     \<and> (n = ''ACCEPTED_ALERT'' \<longleftrightarrow> new = AlertResolved \<and> old \<noteq> Some AlertResolved \<and> ev_Type e = AlertEventAccept)
     \<and> (n = ''RESOLVED_ALERT'' \<longleftrightarrow> new = AlertResolved \<and> old \<noteq> Some AlertResolved \<and> ev_Type e \<noteq> AlertEventAccept)
     \<and> (n = ''SNOOZED_ALERT'' \<longleftrightarrow> ev_Type e = AlertEventSnooze)
     \<and> (n = ''UNSNOOZED_ALERT'' \<longleftrightarrow> ev_Type e = AlertEventUnsnooze)
     \<and> n \<noteq> '''')"

lemma lifecycle_names: "lifecycle (ev_PrevStatus e) (ev_Type e) (ev_NewStatus e) \<Longrightarrow> names_change e"
  by (auto simp: lifecycle_def names_change_def Let_def EventTypeFor_def IsReopen_def split: option.splits alertEventType.splits)

section \<open>Properties\<close>

text \<open>
  C33. Every notified transition is at most one publish attempt, named after the change it made. After
  any sequence of alert operations, a process that gets to publish the emitted events, or only some of
  them because it died between the commit and the attempt, has handed the bus the messages of logged
  events that notify, in the order of the log, each once, whatever the bus answered; one that was not
  interrupted has handed it all of them. And whatever the brokers deliver of them, be it with losses,
  replays or out of order, every delivered message is on the topic, carries a logged event that
  notifies, with the event's id as idempotency key and transport identifier and its date, and has the
  public name of the change that event logged; and two delivered messages with the same key are the
  same message, so a consumer that drops repeated keys sees each transition at most once.
\<close>

theorem bus_carries_log:
  assumes "alerts_ok (w_db w)" and "observed w" and "t_events (w_db w) = []" and "outbox w = []"
    and "w' = runAlertOps ops w" and "subseq attempted (outbox w')" and "b_handed b = []"
  shows "let b' = publishAll attempted b; log = filter ev_Notify (t_events (w_db w'));
             events = map (\<lambda>(topic, i, m). snd (msg_Payload m)) (b_handed b') in
    subseq events log \<and> distinct events \<and> (attempted = outbox w' \<longrightarrow> events = log)
    \<and> (\<forall>ms. delivery b' ms \<longrightarrow>
         (\<forall>(topic, i, m)\<in>set ms. snd (msg_Payload m) \<in> set log \<and> topic = ''reconciliation'' \<and> msg_App m = ''reconciliation''
            \<and> i = msg_IdempotencyKey m \<and> msg_IdempotencyKey m = ev_ID (snd (msg_Payload m))
            \<and> msg_Date m = ev_At (snd (msg_Payload m))
            \<and> msg_Type m = EventTypeFor (snd (msg_Payload m)) \<and> names_change (snd (msg_Payload m)))
         \<and> (\<forall>x\<in>set ms. \<forall>y\<in>set ms. msg_IdempotencyKey (snd (snd x)) = msg_IdempotencyKey (snd (snd y)) \<longrightarrow> x = y))"
proof -
  have ok: "alerts_ok (w_db w')" and out: "map snd (outbox w') = filter ev_Notify (t_events (w_db w'))"
    using runAlertOps_facts [OF assms(1,2), of ops] assms(3-5) by auto
  let ?log = "filter ev_Notify (t_events (w_db w'))" and ?b = "publishAll attempted b"
  have sub: "subseq (map snd attempted) ?log" using subseq_map [OF assms(6), of snd] out by simp
  have names: "names_change e" if "e \<in> set ?log" for e
    using that logged_lifecycle [OF ok] lifecycle_names by auto
  have logged: "snd p \<in> set ?log" if "p \<in> set attempted" for p
    using that subseq_set [OF sub] by auto
  have "EventTypeFor (snd p) \<noteq> ''''" if "p \<in> set attempted" for p
    using names [OF logged [OF that]] by (simp add: names_change_def Let_def)
  then have "\<forall>(a, e)\<in>set attempted. EventTypeFor e \<noteq> ''''" by fastforce
  from publishAll_handed [OF this, of b] have handed: "b_handed ?b = map messageOf attempted" using assms(7) by simp
  have evs: "map (\<lambda>(topic, i, m). snd (msg_Payload m)) (b_handed ?b) = map snd attempted"
    "map (\<lambda>x. msg_IdempotencyKey (snd (snd x))) (b_handed ?b) = map ev_ID (map snd attempted)"
    unfolding handed by (auto simp: messageOf_def NewAlertEventMessage_def split: prod.splits)
  have "distinct (map ev_ID ?log)" using ok by (simp add: alerts_ok_def distinct_map_filter)
  then have dist: "distinct (map ev_ID (map snd attempted))" using subseq_map [OF sub, of ev_ID] subseq_distinct by blast
  then have "inj_on (\<lambda>x. msg_IdempotencyKey (snd (snd x))) (set (b_handed ?b))"
    unfolding evs(2) [symmetric] by (simp add: distinct_map)
  then have same: "x = y" if "x \<in> set (b_handed ?b)" "y \<in> set (b_handed ?b)"
      "msg_IdempotencyKey (snd (snd x)) = msg_IdempotencyKey (snd (snd y))" for x y using that by (blast dest: inj_onD)
  have each: "case q of (topic, i, m) \<Rightarrow> snd (msg_Payload m) \<in> set ?log \<and> topic = ''reconciliation'' \<and> msg_App m = ''reconciliation''
         \<and> i = msg_IdempotencyKey m \<and> msg_IdempotencyKey m = ev_ID (snd (msg_Payload m))
         \<and> msg_Date m = ev_At (snd (msg_Payload m))
         \<and> msg_Type m = EventTypeFor (snd (msg_Payload m)) \<and> names_change (snd (msg_Payload m))"
    if q: "q \<in> set (b_handed ?b)" for q
  proof -
    from q obtain p where p: "p \<in> set attempted" "q = messageOf p" unfolding handed by auto
    show ?thesis
      unfolding p(2) using logged [OF p(1)] names [OF logged [OF p(1)]]
      by (cases p) (simp add: messageOf_def NewAlertEventMessage_def Topic_def EventApp_def)
  qed
  have "distinct (map snd attempted)" using dist by (rule distinct_mapI)
  with sub out each same show ?thesis
    unfolding Let_def delivery_def evs(1) by (intro conjI allI impI ballI) blast+
qed

definition emptyBus :: bus where
  "emptyBus = \<lparr> b_handed = [], b_answers = (\<lambda>n. if n = 0 then Some (new_error ''broker away'') else None), b_logged = [] \<rparr>"

text \<open>The bus fails the first of seven attempts; the brokers replay the last one.\<close>

theorem bus_carries_log_witness:
  "let b' = publishAll (outbox (runAlertOps exampleOps alertWorld)) emptyBus; m = last (b_handed b') in
     length (b_handed b') = 7 \<and> delivery b' [m, m] \<and> names_change (snd (msg_Payload (snd (snd m))))"
proof -
  let ?b = "publishAll (outbox (runAlertOps exampleOps alertWorld)) emptyBus"
  have e: "b_handed emptyBus = []" by (simp add: emptyBus_def)
  note run = bus_carries_log [OF example_start(1,2,3,5) refl subseq_order.order_refl e, of exampleOps, unfolded Let_def]
  have "length (filter ev_Notify (t_events (w_db (runAlertOps exampleOps alertWorld)))) = length (filter id (map ev_Notify (t_events (w_db (runAlertOps exampleOps alertWorld)))))"
    by (simp add: filter_map comp_def)
  also have "\<dots> = 7" using example_run by simp
  finally have seven: "length (b_handed ?b) = 7"
    using run [THEN conjunct2, THEN conjunct2, THEN conjunct1, THEN mp, OF refl, THEN arg_cong, of length] by simp
  then have "last (b_handed ?b) \<in> set (b_handed ?b)" by (cases "b_handed ?b") auto
  then have d: "delivery ?b [last (b_handed ?b), last (b_handed ?b)]" by (simp add: delivery_def)
  from run [THEN conjunct2, THEN conjunct2, THEN conjunct2, THEN spec, THEN mp, OF d]
  have "names_change (snd (msg_Payload (snd (snd (last (b_handed ?b))))))" by (auto split: prod.splits)
  with seven d show ?thesis by (simp add: Let_def)
qed

end
