(* ===== verification/DurationText.thy ===== *)
theory DurationText
  imports TimeText
begin

text \<open>
  Durations in Go's textual form, \<open>Duration.String\<close> and \<open>ParseDuration\<close> of package \<open>time\<close>: the wire
  form of a schedule's safety margin and of the margin of an evaluation request. The one product
  \<open>ParseDuration\<close> computes in double precision, the share of a decimal fraction, is the parameter
  \<open>fmul\<close>; what the round trip relies on is that it is exact where doubles are, for a fraction whose
  scale divides the unit.
\<close>

section \<open>Printing\<close>

definition frac_digits :: "nat \<Rightarrow> int \<Rightarrow> string" where
  "frac_digits prec x =
     (if x = 0 then '''' else ''.'' @ rev (dropWhile (\<lambda>c. c = CHR ''0'') (rev (pad prec x))))"

definition micro :: string where
  "micro = [CHR 0xC2, CHR 0xB5, CHR ''s'']"

definition format_duration :: "int \<Rightarrow> string" where
  "format_duration u =
     (if u < second then
        (if u < 1000 then dec u @ ''ns''
         else if u < 1000000 then dec (u div 1000) @ frac_digits 3 (u mod 1000) @ micro
         else dec (u div 1000000) @ frac_digits 6 (u mod 1000000) @ ''ms'')
      else
        let s = u div 1000000000; m = s div 60; h = m div 60 in
        (if 0 < m then (if 0 < h then dec h @ ''h'' else '''') @ dec (m mod 60) @ ''m'' else '''')
        @ dec (s mod 60) @ frac_digits 9 (u mod 1000000000) @ ''s'')"

definition Duration_String :: "duration \<Rightarrow> string" where
  "Duration_String d =
     (if d = 0 then ''0s'' else if d < 0 then ''-'' @ format_duration (- d) else format_duration d)"

section \<open>Parsing\<close>

type_synonym frac_mul = "nat \<Rightarrow> nat \<Rightarrow> nat \<Rightarrow> nat"

fun leadingInt :: "nat \<Rightarrow> string \<Rightarrow> (nat \<times> string) option" where
  "leadingInt x [] = Some (x, [])"
| "leadingInt x (c # s) =
     (if \<not> is_digit c then Some (x, c # s)
      else if 2 ^ 63 div 10 < x then None
      else if 2 ^ 63 < x * 10 + digit_val c then None
      else leadingInt (x * 10 + digit_val c) s)"

text \<open>A fraction stops gaining precision where a \<open>leadingInt\<close> overflows.\<close>

fun leadingFraction :: "nat \<Rightarrow> nat \<Rightarrow> bool \<Rightarrow> string \<Rightarrow> nat \<times> nat \<times> string" where
  "leadingFraction x scale overflow [] = (x, scale, [])"
| "leadingFraction x scale overflow (c # s) =
     (if \<not> is_digit c then (x, scale, c # s)
      else if overflow \<or> (2 ^ 63 - 1) div 10 < x \<or> 2 ^ 63 < x * 10 + digit_val c
        then leadingFraction x scale True s
      else leadingFraction (x * 10 + digit_val c) (scale * 10) False s)"

definition unitMap :: "string \<Rightarrow> nat option" where
  "unitMap u =
     (if u = ''ns'' then Some 1
      else if u \<in> {''us'', micro, [CHR 0xCE, CHR 0xBC, CHR ''s'']} then Some 1000
      else if u = ''ms'' then Some 1000000
      else if u = ''s'' then Some 1000000000
      else if u = ''m'' then Some (60 * 1000000000)
      else if u = ''h'' then Some (3600 * 1000000000)
      else None)"

definition unit_char :: "char \<Rightarrow> bool" where
  "unit_char c \<longleftrightarrow> c \<noteq> CHR ''.'' \<and> \<not> is_digit c"

definition invalidDuration :: "string \<Rightarrow> gerror" where
  "invalidDuration orig = new_error (''time: invalid duration '' @ orig)"

text \<open>One component of a duration, a number with its unit, and what follows it.\<close>

definition durationStep :: "frac_mul \<Rightarrow> string \<Rightarrow> string \<Rightarrow> gerror + nat \<times> string" where
  "durationStep fmul orig s =
     (if \<not> (hd s = CHR ''.'' \<or> is_digit (hd s)) then Inl (invalidDuration orig)
      else case leadingInt 0 s of
        None \<Rightarrow> Inl (invalidDuration orig)
      | Some (v, s1) \<Rightarrow>
          let pre = (length s \<noteq> length s1);
              (f, scale, s2, post) =
                (if s1 \<noteq> '''' \<and> hd s1 = CHR ''.'' then
                   let (f, scale, s2) = leadingFraction 0 1 False (tl s1)
                   in (f, scale, s2, length (tl s1) \<noteq> length s2)
                 else (0, 1, s1, False)) in
          if \<not> pre \<and> \<not> post then Inl (invalidDuration orig)
          else
            let u = takeWhile unit_char s2; s3 = dropWhile unit_char s2 in
            if u = '''' then Inl (new_error (''time: missing unit in duration '' @ orig))
            else case unitMap u of
              None \<Rightarrow> Inl (new_error (''time: unknown unit '' @ u @ '' in duration '' @ orig))
            | Some unit \<Rightarrow>
                if 2 ^ 63 div unit < v then Inl (invalidDuration orig)
                else
                  let w = (if 0 < f then v * unit + fmul f unit scale else v * unit) in
                  if 2 ^ 63 < w then Inl (invalidDuration orig) else Inr (w, s3))"

lemma leadingInt_rest: "leadingInt x s = Some (v, r) \<Longrightarrow> length r \<le> length s"
  by (induction x s rule: leadingInt.induct) (auto split: if_splits)

lemma leadingFraction_rest: "leadingFraction x scale ov s = (f, sc, r) \<Longrightarrow> length r \<le> length s"
  by (induction x scale ov s rule: leadingFraction.induct) (auto split: if_splits)

lemma durationStep_rest:
  assumes "durationStep fmul orig s = Inr (w, r)"
  shows "length r < length s"
proof -
  have drop: "takeWhile unit_char t \<noteq> '''' \<Longrightarrow> length (dropWhile unit_char t) < length t" for t
    by (cases t) (auto simp: le_imp_less_Suc length_dropWhile_le split: if_splits)
  from assms obtain v s1 where "leadingInt 0 s = Some (v, s1)"
    by (auto simp: durationStep_def split: if_splits option.splits)
  note le = leadingInt_rest [OF this]
  have "\<exists>s2. length s2 \<le> length s \<and> takeWhile unit_char s2 \<noteq> '''' \<and> r = dropWhile unit_char s2"
  proof (cases "s1 \<noteq> '''' \<and> hd s1 = CHR ''.''")
    case True
    obtain f sc s2 where fr: "leadingFraction 0 1 False (tl s1) = (f, sc, s2)" by (metis prod_cases3)
    have "length s2 \<le> length s" using leadingFraction_rest [OF fr] le by simp
    with True fr assms \<open>leadingInt 0 s = Some (v, s1)\<close> show ?thesis
      by (auto simp: durationStep_def Let_def split: if_splits option.splits)
  next
    case False
    with le assms \<open>leadingInt 0 s = Some (v, s1)\<close> show ?thesis
      by (auto simp: durationStep_def Let_def split: if_splits option.splits)
  qed
  with drop show ?thesis by (metis less_le_trans)
qed

text \<open>The sum of the components, in 64 bits.\<close>

function durationLoop :: "frac_mul \<Rightarrow> string \<Rightarrow> nat \<Rightarrow> string \<Rightarrow> gerror + nat" where
  "durationLoop fmul orig d s =
     (if s = '''' then Inr d
      else case durationStep fmul orig s of
        Inl err \<Rightarrow> Inl err
      | Inr (v, r) \<Rightarrow>
          let d = (d + v) mod 2 ^ 64 in
          if 2 ^ 63 < d then Inl (invalidDuration orig) else durationLoop fmul orig d r)"
  by pat_completeness auto
termination
  by (relation "measure (\<lambda>(fmul, orig, d, s). length s)") (auto dest: durationStep_rest)

declare durationLoop.simps [simp del]

definition ParseDuration :: "frac_mul \<Rightarrow> string \<Rightarrow> gerror + duration" where
  "ParseDuration fmul orig =
     (let (neg, s) = (if orig \<noteq> '''' \<and> hd orig \<in> {CHR ''-'', CHR ''+''} then (hd orig = CHR ''-'', tl orig)
                      else (False, orig)) in
      if s = ''0'' then Inr 0
      else if s = '''' then Inl (invalidDuration orig)
      else case durationLoop fmul orig 0 s of
        Inl err \<Rightarrow> Inl err
      | Inr d \<Rightarrow>
          if neg then Inr (- int d)
          else if 2 ^ 63 - 1 < d then Inl (invalidDuration orig)
          else Inr (int d))"


section \<open>Parsing what was printed\<close>

text \<open>Where the product is exact: a fraction below one unit whose scale divides the unit.\<close>

definition exact_mul :: "frac_mul \<Rightarrow> bool" where
  "exact_mul fmul \<longleftrightarrow> (\<forall>f unit scale. f < scale \<longrightarrow> scale dvd unit \<longrightarrow> fmul f unit scale = f * (unit div scale))"

abbreviation no_digit :: "string \<Rightarrow> bool" where
  "no_digit r \<equiv> r = '''' \<or> \<not> is_digit (hd r)"

abbreviation num_from :: "nat \<Rightarrow> string \<Rightarrow> nat" where
  "num_from x ds \<equiv> foldl (\<lambda>a c. 10 * a + digit_val c) x ds"

lemma num_from_ge: "x \<le> num_from x ds"
proof (induction ds arbitrary: x)
  case (Cons c ds)
  have "x \<le> 10 * x + digit_val c" by simp
  also have "\<dots> \<le> num_from (10 * x + digit_val c) ds" by (rule Cons.IH)
  finally show ?case by simp
qed simp

lemma leadingInt_digits:
  assumes "\<forall>c\<in>set ds. is_digit c" and "no_digit r" and "num_from x ds \<le> 2 ^ 63"
  shows "leadingInt x (ds @ r) = Some (num_from x ds, r)"
  using assms
proof (induction ds arbitrary: x)
  case Nil
  then show ?case by (cases r) auto
next
  case (Cons c ds)
  have "10 * x + digit_val c \<le> 2 ^ 63"
    using num_from_ge [of "10 * x + digit_val c" ds] Cons.prems(3) by simp
  with Cons show ?case by (simp add: mult.commute)
qed

lemma leadingInt_dec: "no_digit r \<Longrightarrow> n \<le> 2 ^ 63 \<Longrightarrow> leadingInt 0 (dec_nat n @ r) = Some (n, r)"
  using leadingInt_digits [of "dec_nat n" r 0] dec_nat_digits undec_dec_nat [of n] by (simp add: undec_nat_def)

lemma num_from_less: "\<forall>c\<in>set ds. is_digit c \<Longrightarrow> num_from x ds < (x + 1) * 10 ^ length ds"
proof (induction ds arbitrary: x)
  case (Cons c ds)
  have "digit_val c \<le> 9" using Cons.prems by (cases c) auto
  have "num_from x (c # ds) < (10 * x + digit_val c + 1) * 10 ^ length ds"
    using Cons.IH [of "10 * x + digit_val c"] Cons.prems by simp
  also have "\<dots> \<le> ((x + 1) * 10) * 10 ^ length ds"
    using \<open>digit_val c \<le> 9\<close> by (intro mult_right_mono) auto
  finally show ?case by (simp add: algebra_simps)
qed simp

lemma leadingFraction_digits:
  assumes "\<forall>c\<in>set ds. is_digit c" and "no_digit r" and "num_from x ds < 10 ^ 9"
  shows "leadingFraction x sc False (ds @ r) = (num_from x ds, sc * 10 ^ length ds, r)"
  using assms
proof (induction ds arbitrary: x sc)
  case Nil
  then show ?case by (cases r) auto
next
  case (Cons c ds)
  have "10 * x + digit_val c < 10 ^ 9"
    using num_from_ge [of "10 * x + digit_val c" ds] Cons.prems(3) by simp
  then have "\<not> 2 ^ 63 < x * 10 + digit_val c" "\<not> (2 ^ 63 - 1) div 10 < x" by simp_all
  with Cons show ?case by (simp add: mult.commute)
qed

lemma durationStep_component:
  assumes "exact_mul fmul" and "unitMap u = Some unit" and "\<forall>c\<in>set u. unit_char c" and "u \<noteq> ''''"
    and "r = '''' \<or> is_digit (hd r)"
    and "0 \<le> x" and "x = 0 \<or> (x < 10 ^ p \<and> unit = 10 ^ p \<and> 0 < p \<and> p \<le> 9)"
    and "v * unit + nat x \<le> 2 ^ 63"
  shows "durationStep fmul orig (dec_nat v @ frac_digits p x @ u @ r) = Inr (v * unit + nat x, r)"
proof -
  have unit: "0 < unit" using assms(2) by (auto simp: unitMap_def split: if_splits)
  have v: "v \<le> 2 ^ 63 div unit"
  proof -
    have "v * unit \<le> 2 ^ 63" using assms(8) by simp
    then show ?thesis using unit by (simp add: less_eq_div_iff_mult_less_eq)
  qed
  have v63: "v \<le> 2 ^ 63" using v by (meson div_le_dividend le_trans)
  have u: "takeWhile unit_char (u @ r) = u" "dropWhile unit_char (u @ r) = r"
    using assms(3,5) by (cases r; auto simp: unit_char_def takeWhile_append2 dropWhile_append2)+
  obtain c u' where uc: "u = c # u'" "unit_char c" using assms(3,4) by (cases u) auto
  then have c: "\<not> is_digit c" "c \<noteq> CHR ''.''" by (auto simp: unit_char_def)
  have hd: "is_digit (hd (dec_nat v @ t))" for t
    using dec_nat_digits [of "hd (dec_nat v)" v] by simp
  have len: "0 < length (dec_nat v)" by simp
  show ?thesis
  proof (cases "x = 0")
    case True
    have "leadingInt 0 (dec_nat v @ u @ r) = Some (v, u @ r)"
      using v63 c uc by (intro leadingInt_dec) auto
    with True hd [of "u @ r"] u c uc assms(2,4) v assms(8) show ?thesis
      by (simp add: durationStep_def frac_digits_def)
  next
    case False
    with assms(6,7) have x: "0 < x" "x < 10 ^ p" "unit = 10 ^ p" "0 < p" "p \<le> 9" by auto
    define z where "z = rev (dropWhile (\<lambda>c. c = CHR ''0'') (rev (pad p x)))"
    then obtain k where k: "pad p x = z @ replicate k (CHR ''0'')" using strip_zeros by blast
    have fr: "frac_digits p x = CHR ''.'' # z" using x by (simp add: frac_digits_def z_def)
    have digits: "\<forall>c\<in>set z. is_digit c" using pad_digits [of _ p x] k by simp
    have len: "length z + k = p" using length_pad [OF assms(6) x(2,4)] k by simp
    have val: "nat x = undec_nat z * 10 ^ k"
      using undec_pad [of p x] k undec_nat_append_zeros by simp
    have "nat x < 10 ^ p" using x(1,2) by (simp add: nat_less_iff)
    moreover have "undec_nat z \<le> nat x" using val by simp
    moreover have "(10 :: nat) ^ p \<le> 10 ^ 9" using x(5) by (simp only: power_increasing)
    ultimately have small: "num_from 0 z < 10 ^ 9" unfolding undec_nat_def by linarith
    have int: "leadingInt 0 (dec_nat v @ CHR ''.'' # z @ u @ r) = Some (v, CHR ''.'' # z @ u @ r)"
      using v63 by (intro leadingInt_dec) auto
    have frac: "leadingFraction 0 1 False (z @ u @ r) = (undec_nat z, 10 ^ length z, u @ r)"
      using leadingFraction_digits [OF digits _ small, of "u @ r" 1] c uc by (simp add: undec_nat_def)
    have scale: "unit = 10 ^ length z * 10 ^ k" using x(3) len by (simp flip: power_add)
    have "undec_nat z < 10 ^ length z" using num_from_less [OF digits, of 0] by (simp add: undec_nat_def)
    then have mul: "fmul (undec_nat z) unit (10 ^ length z) = nat x"
      using assms(1) val scale unfolding exact_mul_def by (metis dvd_triv_left nonzero_mult_div_cancel_left power_not_zero zero_neq_numeral)
    have pos: "0 < undec_nat z" using val x(1) by (cases "undec_nat z") auto
    show ?thesis
      using hd [of "CHR ''.'' # z @ u @ r"] int frac u assms(2,4,8) v mul pos
      by (simp add: durationStep_def fr Let_def)
  qed
qed


lemma durationLoop_component:
  assumes "exact_mul fmul" and "unitMap u = Some unit" and "\<forall>c\<in>set u. unit_char c" and "u \<noteq> ''''"
    and "r = '''' \<or> is_digit (hd r)"
    and "0 \<le> i" and "0 \<le> x" and "x = 0 \<or> (x < 10 ^ p \<and> unit = 10 ^ p \<and> 0 < p \<and> p \<le> 9)"
    and "int d + i * int unit + x \<le> 2 ^ 63"
  shows "durationLoop fmul orig d (dec i @ frac_digits p x @ u @ r)
    = durationLoop fmul orig (nat (int d + i * int unit + x)) r"
proof -
  have i: "dec i = dec_nat (nat i)" using assms(6) by (simp add: dec_def)
  have sum: "int (nat i * unit + nat x) = i * int unit + x" using assms(6,7) by simp
  have step: "durationStep fmul orig (dec i @ frac_digits p x @ u @ r) = Inr (nat i * unit + nat x, r)"
    unfolding i
  proof (rule durationStep_component [OF assms(1-5,7,8)])
    have "int (nat i * unit + nat x) \<le> 2 ^ 63" using sum assms(9) by simp
    then show "nat i * unit + nat x \<le> 2 ^ 63" by (metis of_nat_le_iff of_nat_numeral of_nat_power)
  qed
  have d: "d + (nat i * unit + nat x) = nat (int d + i * int unit + x)"
    using sum assms(6,7) by (simp add: nat_add_distrib nat_mult_distrib)
  have "nat (int d + i * int unit + x) \<le> 2 ^ 63" using assms(9) by (simp add: nat_le_iff)
  then show ?thesis
    unfolding durationLoop.simps [of fmul orig d] step using d by (simp add: i)
qed

lemma unit_chars: "\<forall>c\<in>set u. unit_char c"
  if "u \<in> {''ns'', micro, ''ms'', ''s'', ''m'', ''h''}"
  using that by (auto simp: unit_char_def micro_def)

lemma units: "unitMap ''ns'' = Some 1" "unitMap micro = Some 1000" "unitMap ''ms'' = Some 1000000"
  "unitMap ''s'' = Some 1000000000" "unitMap ''m'' = Some 60000000000" "unitMap ''h'' = Some 3600000000000"
  by (simp_all add: unitMap_def micro_def)

lemma durationLoop_end: "durationLoop fmul orig d '''' = Inr d"
  by (simp add: durationLoop.simps)

lemma no_frac [simp]: "frac_digits p 0 = ''''"
  by (simp add: frac_digits_def)

lemma dec_digit: "0 \<le> i \<Longrightarrow> is_digit (hd (dec i @ t))"
  using dec_nat_digits [of "hd (dec_nat (nat i))" "nat i"] by (simp add: dec_def)

lemma durationLoop_seconds:
  assumes "exact_mul fmul" and "0 \<le> u" and "0 \<le> s" and "int d + s * 1000000000 + u mod 1000000000 \<le> 2 ^ 63"
  shows "durationLoop fmul orig d (dec s @ frac_digits 9 (u mod 1000000000) @ ''s'')
    = Inr (nat (int d + s * 1000000000 + u mod 1000000000))"
  using durationLoop_component [OF assms(1) units(4) unit_chars, of "''''" s "u mod 1000000000" 9 d] assms(3,4)
  by (simp add: durationLoop_end)

lemma durationLoop_minutes:
  assumes "exact_mul fmul" and "0 \<le> m" and "0 \<le> s" and "int d + m * 60000000000 \<le> 2 ^ 63"
  shows "durationLoop fmul orig d (dec m @ ''m'' @ dec s @ t)
    = durationLoop fmul orig (nat (int d + m * 60000000000)) (dec s @ t)"
  using durationLoop_component [OF assms(1) units(5) unit_chars, of "dec s @ t" m 0 9 d orig] assms(2-4)
    dec_digit [OF assms(3)] by simp

lemma durationLoop_hours:
  assumes "exact_mul fmul" and "0 \<le> h" and "0 \<le> m" and "int d + h * 3600000000000 \<le> 2 ^ 63"
  shows "durationLoop fmul orig d (dec h @ ''h'' @ dec m @ t)
    = durationLoop fmul orig (nat (int d + h * 3600000000000)) (dec m @ t)"
  using durationLoop_component [OF assms(1) units(6) unit_chars, of "dec m @ t" h 0 9 d orig] assms(2-4)
    dec_digit [OF assms(3)] by simp

lemma durationLoop_format:
  assumes "exact_mul fmul" and "0 < u" and "u \<le> 2 ^ 63"
  shows "durationLoop fmul orig 0 (format_duration u) = Inr (nat u)"
proof (cases "u < second")
  case True
  consider "u < 1000" | "1000 \<le> u" "u < 1000000" | "1000000 \<le> u" "u < second" using True by linarith
  then show ?thesis
  proof cases
    case 1
    then show ?thesis
      using durationLoop_component [OF assms(1) units(1) unit_chars, of "''''" u 0 9 0 orig] assms(2)
      by (simp add: format_duration_def durationLoop_end)
  next
    case 2
    then show ?thesis
      using durationLoop_component [OF assms(1) units(2) unit_chars, of "''''" "u div 1000" "u mod 1000" 3 0 orig] assms(2)
      by (simp add: format_duration_def durationLoop_end micro_def)
  next
    case 3
    then show ?thesis
      using durationLoop_component [OF assms(1) units(3) unit_chars, of "''''" "u div 1000000" "u mod 1000000" 6 0 orig] assms(2)
      by (simp add: format_duration_def durationLoop_end)
  qed
next
  case False
  define s where "s = u div 1000000000"
  define m where "m = s div 60"
  define h where "h = m div 60"
  have u: "u = s * 1000000000 + u mod 1000000000" by (simp add: s_def)
  have s: "s = m * 60 + s mod 60" by (simp add: m_def)
  have m: "m = h * 60 + m mod 60" by (simp add: h_def)
  have pos: "0 \<le> s" "0 \<le> m" "0 \<le> h" using assms(2) by (simp_all add: s_def m_def h_def)
  have mods: "0 \<le> u mod 1000000000" "0 \<le> s mod 60" "0 \<le> m mod 60" by simp_all
  have fmt: "format_duration u =
      (if 0 < m then (if 0 < h then dec h @ ''h'' else '''') @ dec (m mod 60) @ ''m'' else '''')
        @ dec (s mod 60) @ frac_digits 9 (u mod 1000000000) @ ''s''"
    using False by (simp add: format_duration_def Let_def s_def m_def h_def)
  have sum: "h * 3600000000000 + m mod 60 * 60000000000 + s mod 60 * 1000000000 + u mod 1000000000 = u"
    using u s m by linarith
  then have le: "h * 3600000000000 \<le> 2 ^ 63" "h * 3600000000000 + m mod 60 * 60000000000 \<le> 2 ^ 63"
    using assms(3) pos mods by linarith+
  let ?S = "dec (s mod 60) @ frac_digits 9 (u mod 1000000000) @ ''s''"
  have secs: "durationLoop fmul orig (nat (h * 3600000000000 + m mod 60 * 60000000000)) ?S = Inr (nat u)"
    using durationLoop_seconds [OF assms(1) _ mods(2), of u "nat (h * 3600000000000 + m mod 60 * 60000000000)" orig]
    using assms(2,3) pos(3) mods(3) sum by simp
  have mins: "durationLoop fmul orig (nat (h * 3600000000000)) (dec (m mod 60) @ ''m'' @ ?S) = Inr (nat u)"
    using durationLoop_minutes [OF assms(1) mods(3,2), of "nat (h * 3600000000000)" orig
        "frac_digits 9 (u mod 1000000000) @ ''s''"] le(2) secs pos(3) by simp
  consider "m = 0" | "0 < m" "h = 0" | "0 < m" "0 < h" using pos by linarith
  then show ?thesis
  proof cases
    case 1
    then have "h = 0" by (simp add: h_def)
    with 1 secs show ?thesis by (simp add: fmt)
  next
    case 2
    with mins show ?thesis by (simp add: fmt)
  next
    case 3
    have "durationLoop fmul orig 0 (dec h @ ''h'' @ dec (m mod 60) @ ''m'' @ ?S) = Inr (nat u)"
      using durationLoop_hours [OF assms(1) pos(3) mods(3), of 0 orig "''m'' @ ?S"] le(1) mins by simp
    with 3 show ?thesis by (simp add: fmt)
  qed
qed

lemma format_duration_head:
  assumes "0 < u"
  shows "is_digit (hd (format_duration u))" "1 < length (format_duration u)"
proof -
  have dec: "is_digit (hd (dec i @ t))" if "0 \<le> i" for i t by (rule dec_digit [OF that])
  have len: "0 < length (dec i)" for i by (simp add: dec_def)
  have *: "is_digit (hd (dec i @ t)) \<and> 1 < length (dec i @ t)" if "0 \<le> i" "t \<noteq> ''''" for i t
    using dec [OF that(1)] len [of i] that(2) by (cases t) auto
  have "is_digit (hd (format_duration u)) \<and> 1 < length (format_duration u)"
    unfolding format_duration_def Let_def using assms
    by (auto simp only: append_assoc if_True if_False append_Nil split: if_splits intro!: * conjI;
        simp add: micro_def pos_imp_zdiv_nonneg_iff)
  then show "is_digit (hd (format_duration u))" "1 < length (format_duration u)" by simp_all
qed


lemma ParseDuration_String:
  assumes "exact_mul fmul" and "IsInt64 d"
  shows "ParseDuration fmul (Duration_String d) = Inr d"
proof (cases "d = 0")
  case True
  have "durationLoop fmul orig 0 ''0s'' = Inr 0" for orig
    using durationLoop_component [OF assms(1) units(4) unit_chars, of "''''" 0 0 9 0 orig]
    by (simp add: durationLoop_end dec_def dec_nat.simps [of 0] digit_char_def)
  with True show ?thesis by (simp add: Duration_String_def ParseDuration_def)
next
  case False
  define u where "u = (if d < 0 then - d else d)"
  have u: "0 < u" "u \<le> 2 ^ 63" "d \<ge> 0 \<Longrightarrow> u < 2 ^ 63"
    using assms(2) False by (auto simp: u_def IsInt64_def)
  note h = format_duration_head [OF u(1)]
  have ne: "format_duration u \<noteq> ''''" "format_duration u \<noteq> ''0''" using h(2) by auto
  have sign: "hd (format_duration u) \<notin> {CHR ''-'', CHR ''+''}" using h(1) by auto
  note run = durationLoop_format [OF assms(1) u(1,2)]
  show ?thesis
  proof (cases "d < 0")
    case True
    then have "Duration_String d = CHR ''-'' # format_duration u" using False by (simp add: Duration_String_def u_def)
    with ne run u(1) True show ?thesis by (simp add: ParseDuration_def u_def)
  next
    case pos: False
    then have "Duration_String d = format_duration u" using False by (simp add: Duration_String_def u_def)
    with ne sign run u(1,3) pos show ?thesis by (auto simp: ParseDuration_def u_def nat_le_iff)
  qed
qed

end
