(* ===== verification/JsonText.thy ===== *)
theory JsonText
  imports Json
begin

text \<open>
  JSON texts printed by the program and read back: an encoded string parses to the string, and an
  encoded struct of strings to its members. The round trips of the model's types rest on these.
\<close>

lemma is_control_code: "is_control c \<longleftrightarrow> code c < 32"
proof (cases c)
  case (Char b0 b1 b2 b3 b4 b5 b6 b7)
  then show ?thesis by (cases b0; cases b1; cases b2; cases b3; cases b4; cases b5; cases b6; cases b7; simp)
qed

lemma hex_digit: "k < 16 \<Longrightarrow> hex_val (hex_digit k) = Some k"
  by (auto simp: hex_val_def hex_digit_def Let_def)

lemma hex_zero: "hex_val (CHR ''0'') = Some 0"
  by (simp add: hex_val_def)

lemma char_of_code: "code c = n \<Longrightarrow> c = char_of n"
  by (metis char_of_char)

lemma parse_escaped:
  "parse_chars (Suc n) (escape_char c @ t) = map_option (\<lambda>(u, q). (c # u, q)) (parse_chars n t)"
proof -
  have quote: "code c = 34 \<longleftrightarrow> c = CHR 0x22" and slash: "code c = 92 \<longleftrightarrow> c = CHR 0x5C"
    using of_char_eq_iff [where ?'a = nat, of c "CHR 0x22"] of_char_eq_iff [where ?'a = nat, of c "CHR 0x5C"]
    by simp_all
  consider "code c \<in> {34, 92}" | "code c \<in> {8, 12, 10, 13, 9}"
    | "code c \<notin> {34, 92, 8, 12, 10, 13, 9}" "code c < 32 \<or> code c \<in> {60, 62, 38}"
    | "code c \<notin> {34, 92, 8, 12, 10, 13, 9}" "\<not> (code c < 32 \<or> code c \<in> {60, 62, 38})"
    by blast
  then show ?thesis
  proof cases
    case 1
    then have "escape_char c = [CHR 0x5C, c]" "simple_escape c = Some c" "c \<noteq> CHR ''u''"
      using quote slash by (auto simp: escape_char_def simple_escape_def Let_def)
    then show ?thesis by simp
  next
    case 2
    have ctl: ?thesis if "code c = n" "escape_char c = [CHR 0x5C, d]" "simple_escape d = Some (char_of n)" "d \<noteq> CHR ''u''" for n d
      using that char_of_code [OF that(1)] by simp
    note defs = escape_char_def simple_escape_def Let_def
    from 2 consider "code c = 8" | "code c = 12" | "code c = 10" | "code c = 13" | "code c = 9" by blast
    then show ?thesis
    proof cases
      case 1
      then show ?thesis by (rule ctl [where d = "CHR ''b''"]) (simp_all add: defs 1)
    next
      case 2
      then show ?thesis by (rule ctl [where d = "CHR ''f''"]) (simp_all add: defs 2)
    next
      case 3
      then show ?thesis by (rule ctl [where d = "CHR ''n''"]) (simp_all add: defs 3)
    next
      case 4
      then show ?thesis by (rule ctl [where d = "CHR ''r''"]) (simp_all add: defs 4)
    next
      case 5
      then show ?thesis by (rule ctl [where d = "CHR ''t''"]) (simp_all add: defs 5)
    qed
  next
    case 3
    then have small: "code c < 128" by auto
    then have "code c div 16 < 16" by (simp add: div_less_iff_less_mult)
    moreover have "(0 * 16 + 0) * 16 + code c div 16 = code c div 16" by simp
    moreover have "code c div 16 * 16 + code c mod 16 = code c" by simp
    ultimately have "unicode_escape (CHR ''0'' # CHR ''0'' # hex_digit (code c div 16) # hex_digit (code c mod 16) # t)
        = Some ([c], t)"
      using small by (simp add: unicode_escape_def hex_zero hex_digit utf8_def)
    with 3 show ?thesis by (auto simp: escape_char_def Let_def)
  next
    case 4
    then have "escape_char c = [c]" by (simp add: escape_char_def Let_def)
    with 4 quote slash show ?thesis by (auto simp: is_control_code)
  qed
qed

lemma parse_chars_quoted:
  "length s < n \<Longrightarrow> parse_chars n (concat (map escape_char s) @ CHR 0x22 # r) = Some (s, r)"
proof (induction s arbitrary: n)
  case Nil
  then show ?case by (cases n) simp_all
next
  case (Cons c s)
  then obtain m where n: "n = Suc m" by (cases n) auto
  with Cons show ?case using parse_escaped [of m c "concat (map escape_char s) @ CHR 0x22 # r"] by simp
qed

lemma length_escaped: "length s \<le> length (concat (map escape_char s))"
proof (induction s)
  case (Cons c s)
  have "1 \<le> length (escape_char c)" by (simp add: escape_char_def Let_def)
  with Cons show ?case by simp
qed simp

lemma parse_string_quoted [simp]: "parse_string (quoted s @ r) = Some (s, r)"
proof -
  have "length s < length (quoted s @ r)" using length_escaped [of s] by (simp add: quoted_def)
  from parse_chars_quoted [OF this, of r] show ?thesis by (simp add: parse_string_def quoted_def)
qed

lemma quoted_Cons: "quoted s = CHR 0x22 # concat (map escape_char s) @ [CHR 0x22]"
  by (simp add: quoted_def)

lemma ws_quoted [simp]: "ws (quoted s @ r) = quoted s @ r" "ws (quoted s) = quoted s"
  by (simp_all add: ws_def quoted_Cons is_ws_def)

lemma parse_value_quoted: "parse_value (Suc n) (quoted s @ r) = Some (JStr s, r)"
  using parse_string_quoted [of s r] by (simp add: quoted_Cons)

lemma parse_doc_quoted [simp]: "parse_doc (quoted s) = Some (JStr s)"
  using parse_value_quoted [of _ s "''''"] by (simp add: parse_doc_def fuel_for_def ws_def [of "''''"])

lemma dec_string_quoted [simp]: "dec_string (quoted s) old = Some s"
  by (simp add: dec_string_def)

lemma is_null_quoted [simp]: "\<not> is_null (quoted s)"
  by (simp add: is_null_def)

text \<open>Structs whose members are strings.\<close>

abbreviation string_fields :: "(string \<times> string) list \<Rightarrow> (string \<times> string) list" where
  "string_fields fs \<equiv> map (\<lambda>(k, v). (k, quoted v)) fs"

definition members_text :: "(string \<times> string) list \<Rightarrow> string" where
  "members_text fs = join '','' (map (\<lambda>(k, t). quoted k @ '':'' @ t) (string_fields fs))"

lemma members_text_simps:
  "members_text [(k, v)] = quoted k @ '':'' @ quoted v"
  "members_text ((k, v) # f # fs) = quoted k @ '':'' @ quoted v @ '','' @ members_text (f # fs)"
  by (simp_all add: members_text_def split: prod.split)

lemma members_text_head: "fs \<noteq> [] \<Longrightarrow> \<exists>k r. members_text fs = quoted k @ r"
proof -
  assume "fs \<noteq> []"
  then obtain k v gs where "fs = (k, v) # gs" by (cases fs) auto
  then have "\<exists>r. members_text fs = quoted k @ r" by (cases gs) (simp_all add: members_text_simps)
  then show ?thesis by blast
qed

lemma ws_members [simp]: "fs \<noteq> [] \<Longrightarrow> ws (members_text fs @ r) = members_text fs @ r"
  using members_text_head [of fs] by auto

lemma parse_members_fields:
  "fs \<noteq> [] \<Longrightarrow> length fs \<le> n \<Longrightarrow> parse_members (Suc n) (members_text fs @ CHR ''}'' # r)
     = Some (map (\<lambda>(k, v). (k, quoted v, JStr v)) fs, r)"
proof (induction fs arbitrary: n)
  case (Cons f fs)
  obtain k v where f: "f = (k, v)" by (cases f)
  from Cons.prems obtain m where n: "n = Suc m" by (cases n) auto
  show ?case
  proof (cases fs)
    case Nil
    have "parse_value n (quoted v @ CHR ''}'' # r) = Some (JStr v, CHR ''}'' # r)"
      unfolding n by (rule parse_value_quoted)
    with Nil f show ?thesis by (simp add: members_text_simps ws_def [of "CHR '':'' # _"] ws_def [of "CHR ''}'' # _"] is_ws_def)
  next
    case (Cons f' fs')
    have v: "parse_value n (quoted v @ CHR '','' # members_text fs @ CHR ''}'' # r)
        = Some (JStr v, CHR '','' # members_text fs @ CHR ''}'' # r)"
      unfolding n by (rule parse_value_quoted)
    have rest: "parse_members n (members_text fs @ CHR ''}'' # r)
        = Some (map (\<lambda>(k, v). (k, quoted v, JStr v)) fs, r)"
      unfolding n by (rule Cons.IH) (use Cons.prems n \<open>fs = f' # fs'\<close> in simp_all)
    have "ws (members_text fs @ CHR ''}'' # r) = members_text fs @ CHR ''}'' # r"
      using Cons by (intro ws_members) simp
    with v rest f Cons show ?thesis
      by (simp add: members_text_simps ws_def [of "CHR '':'' # _"] ws_def [of "CHR '','' # _"] is_ws_def)
  qed
qed simp


lemma length_members: "length fs \<le> length (members_text fs)"
proof (induction fs)
  case (Cons f fs)
  obtain k v where f: "f = (k, v)" by (cases f)
  then show ?case
    using Cons by (cases fs) (auto simp: members_text_simps)
qed simp

definition object_text :: "(string \<times> string) list \<Rightarrow> string" where
  "object_text fs = CHR ''{'' # members_text fs @ ''}''"

lemma encode_strings: "encode_fields (string_fields fs) = object_text fs"
  by (simp add: encode_fields_def members_text_def object_text_def)

lemma members_not_brace: "fs \<noteq> [] \<Longrightarrow> hd (members_text fs @ r) = CHR 0x22"
  using members_text_head [of fs] by (auto simp: quoted_Cons)

lemma parse_object:
  assumes "fs \<noteq> []" and "length fs \<le> n"
  shows "parse_value (Suc (Suc n)) (object_text fs @ r)
    = Some (JObj (fold (\<lambda>(k, t, v) m. map_put k v m) (map (\<lambda>(k, v). (k, quoted v, JStr v)) fs) []), r)"
  using ws_members [OF assms(1), of "CHR ''}'' # r"] members_not_brace [OF assms(1), of "CHR ''}'' # r"]
    parse_members_fields [OF assms, of r]
  by (simp add: object_text_def)

lemma fuel_enough: "length fs \<le> 2 * length (object_text fs)"
  using length_members [of fs] by (simp add: object_text_def)

lemma parse_doc_object:
  assumes "fs \<noteq> []"
  shows "\<exists>m. parse_doc (object_text fs) = Some (JObj m)"
proof -
  have w: "ws (object_text fs) = object_text fs" "ws '''' = ''''" by (simp_all add: object_text_def ws_def is_ws_def)
  obtain m where "parse_value (Suc (Suc (2 * length (object_text fs)))) (object_text fs @ '''') = Some (JObj m, '''')"
    using parse_object [OF assms fuel_enough, of "''''"] by blast
  then have "parse_value (fuel_for (object_text fs)) (object_text fs) = Some (JObj m, '''')"
    by (simp only: fuel_for_def append_Nil2 numeral_2_eq_2 add_Suc_right add_0_right)
  with w show ?thesis by (simp add: parse_doc_def)
qed

lemma object_members_object:
  assumes "fs \<noteq> []"
  shows "object_members (object_text fs) = Some (string_fields fs)"
proof -
  have w: "ws (object_text fs) = object_text fs" by (simp add: object_text_def ws_def is_ws_def)
  obtain k where k: "fuel_for (object_text fs) = Suc k" "length fs \<le> k"
    using fuel_enough [of fs] by (auto simp: fuel_for_def)
  show ?thesis
    using w ws_members [OF assms, of "''}''"] members_not_brace [OF assms, of "''}''"]
      parse_members_fields [OF assms k(2), of "''''"] k(1)
    by (auto simp: object_members_def object_text_def)
qed

text \<open>A struct is decoded from its encoded string members one after the other.\<close>

lemma dec_struct_strings:
  assumes "fs \<noteq> []"
  shows "dec_struct setf (object_text fs) old = fold_opt (\<lambda>(k, t) a. setf k t a) (string_fields fs) old"
    and "Unmarshal (dec_struct setf) (object_text fs) old =
      (case fold_opt (\<lambda>(k, t) a. setf k t a) (string_fields fs) old of
         None \<Rightarrow> Inl (new_error ''json: cannot unmarshal'') | Some a \<Rightarrow> Inr a)"
  using parse_doc_object [OF assms] object_members_object [OF assms]
  by (auto simp: dec_struct_def is_null_def Unmarshal_def split: option.split)

end
