(* ===== verification/ScheduleText.thy ===== *)
theory ScheduleText
  imports Models DurationText JsonText
begin

text \<open>
  The JSON form of a schedule, the custom encoding of \<open>internal/models/rule.go\<close>: what the API sends
  and receives and what the \<open>jsonb\<close> column of a rule holds. The safety margin travels as a Go
  duration string and is present when it was provided or is not zero.
\<close>

record scheduleWire =
  sw_Kind :: scheduleKind
  sw_Expr :: string
  sw_TZ :: string
  sw_SafetyMargin :: "string option"

definition zeroWire :: scheduleWire where
  "zeroWire = \<lparr> sw_Kind = '''', sw_Expr = '''', sw_TZ = '''', sw_SafetyMargin = None \<rparr>"

definition zeroSchedule :: schedule where
  "zeroSchedule = \<lparr> Kind = '''', Expr = '''', TZ = '''', SafetyMargin = 0, SafetyMarginWasProvided = False \<rparr>"

definition scheduleWire_set :: "string \<Rightarrow> string \<Rightarrow> scheduleWire \<Rightarrow> scheduleWire option" where
  "scheduleWire_set k t w =
     (if field ''kind'' k then map_option (\<lambda>v. w\<lparr> sw_Kind := v \<rparr>) (dec_string t (sw_Kind w))
      else if field ''expr'' k then map_option (\<lambda>v. w\<lparr> sw_Expr := v \<rparr>) (dec_string t (sw_Expr w))
      else if field ''tz'' k then map_option (\<lambda>v. w\<lparr> sw_TZ := v \<rparr>) (dec_string t (sw_TZ w))
      else if field ''safetyMargin'' k then
        map_option (\<lambda>v. w\<lparr> sw_SafetyMargin := v \<rparr>) (dec_ptr '''' dec_string t (sw_SafetyMargin w))
      else Some w)"

definition omitempty :: "string \<Rightarrow> string \<Rightarrow> (string \<times> string) list" where
  "omitempty k v = (if v = '''' then [] else [(k, v)])"

definition Schedule_fields :: "schedule \<Rightarrow> (string \<times> string) list" where
  "Schedule_fields s =
     [(''kind'', Kind s)] @ omitempty ''expr'' (Expr s) @ omitempty ''tz'' (TZ s)
     @ (if SafetyMarginWasProvided s \<or> SafetyMargin s \<noteq> 0
        then [(''safetyMargin'', Duration_String (SafetyMargin s))] else [])"

definition Schedule_MarshalJSON :: "schedule \<Rightarrow> string" where
  "Schedule_MarshalJSON s = encode_fields (map (\<lambda>(k, v). (k, quoted v)) (Schedule_fields s))"

definition Schedule_UnmarshalJSON :: "frac_mul \<Rightarrow> string \<Rightarrow> schedule \<Rightarrow> gerror + schedule" where
  "Schedule_UnmarshalJSON fmul data s =
     (case Unmarshal (dec_struct scheduleWire_set) data zeroWire of
        Inl err \<Rightarrow> Inl err
      | Inr w \<Rightarrow>
          let s = s\<lparr> Kind := sw_Kind w, Expr := sw_Expr w, TZ := sw_TZ w \<rparr> in
          case sw_SafetyMargin w of
            None \<Rightarrow> Inr (s\<lparr> SafetyMargin := 0, SafetyMarginWasProvided := False \<rparr>)
          | Some margin \<Rightarrow>
              (case ParseDuration fmul margin of
                 Inl err \<Rightarrow> Inl (wrap_error ''schedule.safetyMargin'' err)
               | Inr d \<Rightarrow> Inr (s\<lparr> SafetyMargin := d, SafetyMarginWasProvided := True \<rparr>)))"

text \<open>As a member of another value; the text of its error is not kept.\<close>

definition dec_schedule :: "frac_mul \<Rightarrow> schedule decoder" where
  "dec_schedule fmul t s = (case Schedule_UnmarshalJSON fmul t s of Inl _ \<Rightarrow> None | Inr s' \<Rightarrow> Some s')"

section \<open>Properties\<close>

lemma schedule_members:
  "fold_opt (\<lambda>(k, t) a. scheduleWire_set k t a) (map (\<lambda>(k, v). (k, quoted v)) (Schedule_fields s)) zeroWire
    = Some \<lparr> sw_Kind = Kind s, sw_Expr = Expr s, sw_TZ = TZ s,
        sw_SafetyMargin = (if SafetyMarginWasProvided s \<or> SafetyMargin s \<noteq> 0
                           then Some (Duration_String (SafetyMargin s)) else None) \<rparr>"
  by (simp add: Schedule_fields_def omitempty_def scheduleWire_set_def zeroWire_def field_def to_lower_def dec_ptr_def)

text \<open>
  C34. A schedule survives its JSON form: what is decoded from the encoding of a schedule is that
  schedule, kind, expression, zone and safety margin to the nanosecond, with a margin that was not
  zero counting as provided. So a rule read back from the database, or sent back by a client, keeps
  the schedule it was created with.
\<close>

theorem Schedule_JSON_roundtrip:
  assumes "exact_mul fmul" and "IsInt64 (SafetyMargin s)"
  shows "Schedule_UnmarshalJSON fmul (Schedule_MarshalJSON s) old
    = Inr (s\<lparr> SafetyMarginWasProvided := SafetyMarginWasProvided s \<or> SafetyMargin s \<noteq> 0 \<rparr>)"
proof -
  have ne: "Schedule_fields s \<noteq> []" by (simp add: Schedule_fields_def)
  show ?thesis
    unfolding Schedule_MarshalJSON_def encode_strings Schedule_UnmarshalJSON_def
      dec_struct_strings(2) [OF ne] schedule_members
    using ParseDuration_String [OF assms] by (cases s; cases old) (auto simp: Let_def)
qed

definition exampleSchedule :: schedule where
  "exampleSchedule = \<lparr> Kind = ScheduleCron, Expr = ''0 6 * * 1-5'', TZ = ''Europe/Paris'',
     SafetyMargin = 90 * second, SafetyMarginWasProvided = False \<rparr>"

theorem Schedule_JSON_roundtrip_witness:
  "Schedule_UnmarshalJSON (\<lambda>f unit scale. f * (unit div scale)) (Schedule_MarshalJSON exampleSchedule) zeroSchedule
     = Inr (exampleSchedule\<lparr> SafetyMarginWasProvided := True \<rparr>)
   \<and> Duration_String (SafetyMargin exampleSchedule) = ''1m30s''"
proof -
  have "Duration_String (90 * second) = ''1m30s''" by code_simp
  with Schedule_JSON_roundtrip [of "\<lambda>f unit scale. f * (unit div scale)" exampleSchedule zeroSchedule]
  show ?thesis by (simp add: exact_mul_def exampleSchedule_def IsInt64_def)
qed

end
