(* ===== verification/Policies.thy ===== *)
theory Policies
  imports JobLifecycle SdkResolvers
begin

text \<open>
  The legacy policies and reconciliations: the store, \<open>internal/storage/{policy,reconciliations}.go\<close>,
  and the service, \<open>internal/api/service/{policy,reconciliation,utils}.go\<close>. The SDK client, the UUID
  package and which of the two balance reads of a reconciliation ends first are parameters. The
  lemmas say what a reconciliation concludes from the balances it read, and what creating a policy
  checks.
\<close>

section \<open>The store\<close>

definition SCreatePolicy :: "policy \<Rightarrow> unit act" where
  "SCreatePolicy p = wrapA ''failed to create policy'' (execute (\<lambda>w. let d = w_db w in
     if exists_row (\<lambda>x. policy_ID x = policy_ID p) (t_policies d) then Inl uniqueViolation
     else Inr (d\<lparr> t_policies := t_policies d @ [p\<lparr> policy_LedgerQuery := jsonb w (policy_LedgerQuery p) \<rparr>] \<rparr>, ())))"

text \<open>\<open>DELETE\<close>, which cascades to the reconciliations of the policy.\<close>

definition SDeletePolicy :: "uuid \<Rightarrow> unit act" where
  "SDeletePolicy i = wrapA ''failed to delete policy'' (execute (\<lambda>w. let d = w_db w in
     Inr (d\<lparr> t_policies := filter (\<lambda>p. policy_ID p \<noteq> i) (t_policies d),
             t_reconciliations := (if exists_row (\<lambda>p. policy_ID p = i) (t_policies d)
               then filter (\<lambda>r. reco_PolicyID r \<noteq> i) (t_reconciliations d) else t_reconciliations d) \<rparr>, ())))"

definition SGetPolicy :: "uuid \<Rightarrow> policy act" where
  "SGetPolicy i = wrapA ''failed to get policy'' (selectOne t_policies (\<lambda>p. policy_ID p = i))"

definition SCreateReconciliation :: "reconciliation \<Rightarrow> unit act" where
  "SCreateReconciliation r = wrapA ''failed to create reconciliation'' (execute (\<lambda>w. let d = w_db w in
     if exists_row (\<lambda>x. reco_ID x = reco_ID r) (t_reconciliations d) then Inl uniqueViolation
     else if \<not> exists_row (\<lambda>p. policy_ID p = reco_PolicyID r) (t_policies d)
       then Inl (constraintViolation ''reconciliation_policy_fk'')
     else Inr (d\<lparr> t_reconciliations := t_reconciliations d @ [r] \<rparr>, ())))"

definition SGetReconciliation :: "uuid \<Rightarrow> reconciliation act" where
  "SGetReconciliation i = wrapA ''failed to get reconciliation'' (selectOne t_reconciliations (\<lambda>r. reco_ID r = i))"

section \<open>The service\<close>

text \<open>The UUID package, and the two SDK calls of the legacy path with their status codes.\<close>

record uuidLib =
  uuid_Parse :: "string \<Rightarrow> gerror + uuid"
  uuid_String :: "uuid \<Rightarrow> string"

record sdkFormance =
  lc_GetBalancesAggregated :: "string \<Rightarrow> queryMap \<Rightarrow> time \<Rightarrow> gerror + int \<times> balances option"
  lc_GetPoolBalances :: "string \<Rightarrow> time \<Rightarrow> gerror + int \<times> poolBalance list option"

text \<open>\<open>newStorageError\<close> is \<open>plainWrap\<close>; \<open>errors.Wrap(ErrInvalidID, \<dots>)\<close> puts the parser's text first.\<close>

definition parseID :: "uuidLib \<Rightarrow> string \<Rightarrow> uuid act" where
  "parseID U s =
     (case uuid_Parse U s of
        Inl err \<Rightarrow> failA (wrap_error (msg err) (sent ErrInvalidID))
      | Inr i \<Rightarrow> returnA i)"

record createPolicyRequest =
  cpr_Name :: string
  cpr_LedgerName :: string
  cpr_LedgerQuery :: "queryMap option"
  cpr_PaymentsPoolID :: string

definition CreatePolicyRequest_Validate :: "createPolicyRequest \<Rightarrow> gerror option" where
  "CreatePolicyRequest_Validate r =
     (if cpr_Name r = '''' then Some (new_error ''missing name'')
      else if cpr_LedgerName r = '''' then Some (new_error ''missing ledgerName'')
      else if cpr_PaymentsPoolID r = '''' then Some (new_error ''missing paymentsPoolId'')
      else None)"

text \<open>A query map as the \<open>jsonb\<close> column holds it, a nil map being null, and read back.\<close>

definition queryJSON :: "queryMap option \<Rightarrow> rawJSON" where
  "queryJSON q = (case q of None \<Rightarrow> ''null'' | Some ms \<Rightarrow> marshal (JObj ms))"

definition queryOf :: "rawJSON \<Rightarrow> queryMap" where
  "queryOf raw = (case parse_doc raw of Some (JObj ms) \<Rightarrow> ms | _ \<Rightarrow> [])"

definition svc_CreatePolicy :: "uuidLib \<Rightarrow> createPolicyRequest \<Rightarrow> policy act" where
  "svc_CreatePolicy U req =
     bindA (parseID U (cpr_PaymentsPoolID req)) (\<lambda>paymentPoolID.
     bindA (tickA newUUID) (\<lambda>i.
     bindA (tickA goNow) (\<lambda>now.
     let policy = \<lparr> policy_ID = i, policy_CreatedAt = now, policy_Name = cpr_Name req,
                    policy_LedgerName = cpr_LedgerName req,
                    policy_LedgerQuery = queryJSON (cpr_LedgerQuery req),
                    policy_PaymentsPoolID = paymentPoolID \<rparr> in
     bindA (plainWrap ''creating policy'' (SCreatePolicy policy)) (\<lambda>_. returnA policy))))"

definition svc_DeletePolicy :: "uuidLib \<Rightarrow> string \<Rightarrow> unit act" where
  "svc_DeletePolicy U i = bindA (parseID U i) (\<lambda>pID. plainWrap ''deleting policy'' (SDeletePolicy pID))"

definition svc_GetPolicy :: "uuidLib \<Rightarrow> string \<Rightarrow> policy act" where
  "svc_GetPolicy U i = bindA (parseID U i) (\<lambda>pID. plainWrap ''getting policy'' (SGetPolicy pID))"

definition svc_GetReconciliation :: "uuidLib \<Rightarrow> string \<Rightarrow> reconciliation act" where
  "svc_GetReconciliation U i = bindA (parseID U i) (\<lambda>rID. plainWrap ''getting reconciliation'' (SGetReconciliation rID))"

section \<open>Balances\<close>

definition getAccountsAggregatedBalance ::
  "sdkFormance \<Rightarrow> string \<Rightarrow> queryMap \<Rightarrow> time \<Rightarrow> gerror + balances" where
  "getAccountsAggregatedBalance client ledgerName query at =
     (case lc_GetBalancesAggregated client ledgerName query at of
        Inl err \<Rightarrow> Inl (wrap_error ''failed to get aggregated balances'' err)
      | Inr (statusCode, resp) \<Rightarrow>
          if statusCode \<noteq> 200 then Inl (new_error ''failed to get aggregated balances'')
          else case resp of
            None \<Rightarrow> Inl (new_error ''no aggregated balance'')
          | Some data \<Rightarrow> Inr (fold (\<lambda>(asset, b). map_put asset b) data []))"

definition getPaymentPoolBalance :: "sdkFormance \<Rightarrow> string \<Rightarrow> time \<Rightarrow> gerror + balances" where
  "getPaymentPoolBalance client paymentPoolID at =
     (case lc_GetPoolBalances client paymentPoolID at of
        Inl err \<Rightarrow> Inl (wrap_error ''failed to get pool balances'' err)
      | Inr (statusCode, resp) \<Rightarrow>
          if statusCode \<noteq> 200 then Inl (new_error ''failed to get pool balances'')
          else case resp of
            None \<Rightarrow> Inl (new_error ''no pool balance'')
          | Some data \<Rightarrow> Inr (poolMap data []))"

text \<open>Both maps get a zero for every asset only the other one has.\<close>

definition addZeros :: "string list \<Rightarrow> balances \<Rightarrow> balances" where
  "addZeros assets m =
     fold (\<lambda>asset m. if asset \<in> set (keys_of m) then m else map_put asset (Some 0) m) assets m"

definition harmonizeBalances :: "balances \<Rightarrow> balances \<Rightarrow> balances \<times> balances" where
  "harmonizeBalances ledgerBalances paymentsBalances =
     (let allAssets = remdups (keys_of ledgerBalances @ keys_of paymentsBalances) in
      (addZeros allAssets ledgerBalances, addZeros allAssets paymentsBalances))"

text \<open>The drift stored for an asset, if any, and the error, if any.\<close>

definition computeDrift :: "string \<Rightarrow> int option \<Rightarrow> int option \<Rightarrow> int option \<times> string option" where
  "computeDrift asset ledgerBalance paymentBalance =
     (case (ledgerBalance, paymentBalance) of
        (None, None) \<Rightarrow> (None, None)
      | (None, Some p) \<Rightarrow> (Some \<bar>p\<bar>, Some (''missing asset '' @ asset @ '' in ledgerBalances''))
      | (Some l, None) \<Rightarrow> (Some \<bar>l\<bar>, Some (''missing asset '' @ asset @ '' in paymentBalances''))
      | (Some l, Some p) \<Rightarrow>
          let drift = p + l in
          (Some \<bar>drift\<bar>, if drift \<noteq> 0 then Some (''balance drift for asset '' @ asset) else None))"

definition applyDrift :: "balances \<Rightarrow> string \<times> int option \<Rightarrow> reconciliation \<Rightarrow> reconciliation" where
  "applyDrift paymentsBalances entry res =
     (case entry of (asset, ledgerBalance) \<Rightarrow>
      let (drift, err) = computeDrift asset ledgerBalance
             (case map_of paymentsBalances asset of None \<Rightarrow> None | Some b \<Rightarrow> b);
          res = (case drift of None \<Rightarrow> res
                 | Some d \<Rightarrow> res\<lparr> reco_DriftBalances := map_put asset (Some d) (reco_DriftBalances res) \<rparr>) in
      case err of
        None \<Rightarrow> res
      | Some e \<Rightarrow> res\<lparr> reco_Status := ReconciliationNotOK,
                     reco_Error := (if reco_Error res = '''' then e else reco_Error res @ ''; '' @ e) \<rparr>)"

section \<open>A reconciliation\<close>

record reconciliationRequest =
  rr_ReconciledAtLedger :: time
  rr_ReconciledAtPayments :: time

definition ReconciliationRequest_Validate :: "time \<Rightarrow> time \<Rightarrow> reconciliationRequest \<Rightarrow> gerror option" where
  "ReconciliationRequest_Validate now1 now2 r =
     (if IsZero (rr_ReconciledAtLedger r) then Some (new_error ''missing reconciledAtLedger'')
      else if After (rr_ReconciledAtLedger r) now1 then Some (new_error ''reconciledAtLedger must be in the past'')
      else if IsZero (rr_ReconciledAtPayments r) then Some (new_error ''missing reconciledAtPayments'')
      else if After (rr_ReconciledAtPayments r) now2 then Some (new_error ''ReconciledAtPayments must be in the past'')
      else None)"

text \<open>
  The two reads run side by side and the first failure is reported: \<open>paymentsFirst\<close> says which one
  that is when both fail.
\<close>

definition readBoth :: "bool \<Rightarrow> gerror + balances \<Rightarrow> gerror + balances \<Rightarrow> gerror + balances \<times> balances" where
  "readBoth paymentsFirst ledger payments =
     (case (ledger, payments) of
        (Inr l, Inr p) \<Rightarrow> Inr (l, p)
      | (Inl e, Inr p) \<Rightarrow> Inl e
      | (Inr l, Inl e) \<Rightarrow> Inl e
      | (Inl e, Inl e') \<Rightarrow> Inl (if paymentsFirst then e' else e))"

definition svc_Reconciliation ::
  "uuidLib \<Rightarrow> sdkFormance \<Rightarrow> bool \<Rightarrow> string \<Rightarrow> reconciliationRequest \<Rightarrow> reconciliation act" where
  "svc_Reconciliation U client paymentsFirst policyID req =
     bindA (parseID U policyID) (\<lambda>i.
     bindA (plainWrap ''failed to get policy'' (SGetPolicy i)) (\<lambda>policy.
     bindA (ofSum (readBoth paymentsFirst
              (getAccountsAggregatedBalance client (policy_LedgerName policy) (queryOf (policy_LedgerQuery policy))
                 (rr_ReconciledAtLedger req))
              (getPaymentPoolBalance client (uuid_String U (policy_PaymentsPoolID policy))
                 (rr_ReconciledAtPayments req)))) (\<lambda>(ledgerBalances, paymentsBalances).
     let (ledgerBalances, paymentsBalances) = harmonizeBalances ledgerBalances paymentsBalances in
     bindA (tickA newUUID) (\<lambda>rID.
     bindA (tickA goNow) (\<lambda>now.
     let res = \<lparr> reco_ID = rID, reco_PolicyID = policy_ID policy, reco_CreatedAt = now,
                 reco_ReconciledAtLedger = rr_ReconciledAtLedger req,
                 reco_ReconciledAtPayments = rr_ReconciledAtPayments req,
                 reco_Status = ReconciliationOK, reco_LedgerBalances = ledgerBalances,
                 reco_PaymentsBalances = paymentsBalances, reco_DriftBalances = [], reco_Error = '''' \<rparr>;
         res = fold (applyDrift paymentsBalances) ledgerBalances res in
     bindA (plainWrap ''failed to create reconciliation'' (SCreateReconciliation res)) (\<lambda>_. returnA res))))))"


section \<open>Facts\<close>

lemma distinct_keys_map_put: "distinct (keys_of m) \<Longrightarrow> distinct (keys_of (map_put k v m))"
proof -
  assume m: "distinct (keys_of m)"
  have "keys_of (map (\<lambda>(k', v'). (k', if k' = k then v else v')) m) = keys_of m"
    unfolding keys_of_def by (induction m) auto
  moreover have "distinct (keys_of (m @ [(k, v)]))" if "k \<notin> fst ` set m"
    using m that by (simp add: keys_of_def)
  ultimately show ?thesis using m by (simp add: map_put_def)
qed

lemma distinct_keys_fold: "distinct (keys_of m) \<Longrightarrow> distinct (keys_of (fold (\<lambda>(k, v). map_put k v) kvs m))"
  by (induction kvs arbitrary: m) (auto simp: distinct_keys_map_put)

lemma map_of_addZeros: "map_of (addZeros as m) a =
    (case map_of m a of Some v \<Rightarrow> Some v | None \<Rightarrow> if a \<in> set as then Some (Some 0) else None)"
proof (induction as arbitrary: m)
  case Nil
  then show ?case by (simp add: addZeros_def split: option.split)
next
  case (Cons x as)
  have known: "x \<in> set (keys_of m) \<longleftrightarrow> map_of m x \<noteq> None"
    using map_of_in_keys [of m x] by auto
  show ?case
  proof (cases "x \<in> set (keys_of m)")
    case True
    then have "addZeros (x # as) m = addZeros as m" by (simp add: addZeros_def)
    with Cons.IH [of m] True known show ?thesis by (cases "map_of m a") auto
  next
    case False
    then have "addZeros (x # as) m = addZeros as (map_put x (Some 0) m)" by (simp add: addZeros_def)
    with Cons.IH [of "map_put x (Some 0) m"] False known show ?thesis
      by (cases "a = x"; cases "map_of m a") simp_all
  qed
qed

lemma distinct_addZeros: "distinct (keys_of m) \<Longrightarrow> distinct (keys_of (addZeros as m))"
  by (induction as arbitrary: m) (auto simp: addZeros_def distinct_keys_map_put)

lemma poolMap_amounts: "\<forall>(k, v)\<in>set m. v \<noteq> None \<Longrightarrow> \<forall>(k, v)\<in>set (poolMap bs m). v \<noteq> None"
proof (induction bs arbitrary: m)
  case (Cons b bs)
  show ?case
  proof (cases "pb_Amount b")
    case (Some n)
    have "\<forall>(k, v)\<in>set (map_put (pb_Asset b) (Some n) m). v \<noteq> None"
      using Cons.prems by (auto simp: map_put_def split: if_splits)
    from Cons.IH [OF this] Some show ?thesis by simp
  qed (use Cons in simp)
qed simp

text \<open>Which assets fail, and what the fold over the assets leaves in the result.\<close>

definition driftAt :: "balances \<Rightarrow> string \<Rightarrow> int option \<Rightarrow> int option \<times> string option" where
  "driftAt P a l = computeDrift a l (case map_of P a of None \<Rightarrow> None | Some b \<Rightarrow> b)"

lemma computeDrift_error: "snd (computeDrift a l p) \<noteq> Some ''''"
  by (auto simp: computeDrift_def Let_def split: option.split)

lemma applyDrift_simps:
  "reco_Status (applyDrift P (a, l) res) = (if snd (driftAt P a l) = None then reco_Status res else ReconciliationNotOK)"
  "reco_Error (applyDrift P (a, l) res) = '''' \<longleftrightarrow> reco_Error res = '''' \<and> snd (driftAt P a l) = None"
  "map_of (reco_DriftBalances (applyDrift P (a, l) res)) x =
     (if x = a \<and> fst (driftAt P a l) \<noteq> None then Some (fst (driftAt P a l)) else map_of (reco_DriftBalances res) x)"
  "reco_PolicyID (applyDrift P (a, l) res) = reco_PolicyID res"
  using computeDrift_error [of a l "case map_of P a of None \<Rightarrow> None | Some b \<Rightarrow> b"]
  by (auto simp: applyDrift_def driftAt_def Let_def split: prod.split option.split)

lemma fold_applyDrift:
  assumes "distinct (keys_of xs)"
  shows "reco_Status (fold (applyDrift P) xs res) =
       (if \<forall>(a, l)\<in>set xs. snd (driftAt P a l) = None then reco_Status res else ReconciliationNotOK)
     \<and> (reco_Error (fold (applyDrift P) xs res) = '''' \<longleftrightarrow>
          reco_Error res = '''' \<and> (\<forall>(a, l)\<in>set xs. snd (driftAt P a l) = None))
     \<and> (\<forall>x. map_of (reco_DriftBalances (fold (applyDrift P) xs res)) x =
          (case map_of xs x of
             None \<Rightarrow> map_of (reco_DriftBalances res) x
           | Some l \<Rightarrow> if fst (driftAt P x l) \<noteq> None then Some (fst (driftAt P x l)) else map_of (reco_DriftBalances res) x))
     \<and> reco_PolicyID (fold (applyDrift P) xs res) = reco_PolicyID res"
  using assms
proof (induction xs arbitrary: res)
  case (Cons x xs)
  obtain a l where x: "x = (a, l)" by (cases x)
  with Cons.prems have fresh: "map_of xs a = None" "distinct (keys_of xs)"
    by (auto simp: keys_of_def map_of_eq_None_iff)
  show ?case
    using Cons.IH [OF fresh(2), of "applyDrift P x res"] fresh(1)
    by (auto simp: x applyDrift_simps split: option.splits)
qed simp

lemma driftAt_harmonized:
  assumes "\<forall>(k, v)\<in>set P. v \<noteq> None" and "a \<in> set assets" and "map_of L' a = Some l"
    and "L' = addZeros assets L"
  shows "driftAt (addZeros assets P) a l =
    (Some \<bar>balanceOf L a + balanceOf P a\<bar>, snd (driftAt (addZeros assets P) a l))"
    and "snd (driftAt (addZeros assets P) a l) = None \<longleftrightarrow> map_of L a \<noteq> Some None \<and> balanceOf L a + balanceOf P a = 0"
proof -
  have p: "map_of (addZeros assets P) a = Some (Some (balanceOf P a))"
  proof (cases "map_of P a")
    case None
    with assms(2) show ?thesis by (simp add: map_of_addZeros balanceOf_def zeroIfNil_def)
  next
    case (Some v)
    with assms(1) map_of_SomeD [OF this] obtain n where "v = Some n" by auto
    with Some show ?thesis by (simp add: map_of_addZeros balanceOf_def zeroIfNil_def)
  qed
  have l: "l = (case map_of L a of None \<Rightarrow> Some 0 | Some v \<Rightarrow> v)"
    using assms(2,3) unfolding assms(4) map_of_addZeros by (auto split: option.splits)
  show "driftAt (addZeros assets P) a l =
    (Some \<bar>balanceOf L a + balanceOf P a\<bar>, snd (driftAt (addZeros assets P) a l))"
    and "snd (driftAt (addZeros assets P) a l) = None \<longleftrightarrow> map_of L a \<noteq> Some None \<and> balanceOf L a + balanceOf P a = 0"
    unfolding driftAt_def p l
    by (auto simp: computeDrift_def balanceOf_def zeroIfNil_def Let_def add.commute split: option.split)
qed


lemma parseID_Inr: "parseID U s w = (Inr i, w') \<longleftrightarrow> uuid_Parse U s = Inr i \<and> w' = w"
  by (auto simp: parseID_def split: sum.split)

lemma tickA_Inr: "tickA f w = (Inr a, w') \<longleftrightarrow> f w = (a, w')"
  by (auto simp: tickA_def split: prod.split)

lemma read_balances:
  assumes "readBoth pf (getAccountsAggregatedBalance c n q t) (getPaymentPoolBalance c i t') = Inr (L, P)"
  shows "getAccountsAggregatedBalance c n q t = Inr L \<and> getPaymentPoolBalance c i t' = Inr P
    \<and> distinct (keys_of L) \<and> (\<forall>(k, v)\<in>set P. v \<noteq> None)"
proof -
  have LP: "getAccountsAggregatedBalance c n q t = Inr L" "getPaymentPoolBalance c i t' = Inr P"
    using assms by (auto simp: readBoth_def split: sum.splits)
  obtain data where "L = fold (\<lambda>(k, v). map_put k v) data []"
    using LP(1) by (auto simp: getAccountsAggregatedBalance_def split: sum.splits prod.splits if_splits option.splits)
  then have "distinct (keys_of L)" using distinct_keys_fold [of "[]" data] by (simp add: keys_of_def)
  moreover obtain bs where "P = poolMap bs []"
    using LP(2) by (auto simp: getPaymentPoolBalance_def split: sum.splits prod.splits if_splits option.splits)
  then have "\<forall>(k, v)\<in>set P. v \<noteq> None" using poolMap_amounts [of "[]" bs] by simp
  ultimately show ?thesis using LP by blast
qed

lemma harmonized_outcome:
  assumes "distinct (keys_of L)" and "\<forall>(k, v)\<in>set P. v \<noteq> None" and "harmonizeBalances L P = (L', P')"
    and "reco_Status res = ReconciliationOK" and "reco_DriftBalances res = []" and "reco_Error res = ''''"
  shows "let r = fold (applyDrift P') L' res; assets = set (keys_of L) \<union> set (keys_of P) in
    (reco_Status r = ReconciliationOK \<longleftrightarrow> (\<forall>a\<in>assets. map_of L a \<noteq> Some None \<and> balanceOf L a + balanceOf P a = 0))
    \<and> (reco_Error r = '''' \<longleftrightarrow> reco_Status r = ReconciliationOK)
    \<and> (\<forall>a. map_of (reco_DriftBalances r) a =
          (if a \<in> assets then Some (Some \<bar>balanceOf L a + balanceOf P a\<bar>) else None))
    \<and> reco_PolicyID r = reco_PolicyID res"
proof -
  let ?as = "remdups (keys_of L @ keys_of P)" and ?assets = "set (keys_of L) \<union> set (keys_of P)"
  have L': "L' = addZeros ?as L" and P': "P' = addZeros ?as P"
    using assms(3) by (simp_all add: harmonizeBalances_def Let_def)
  have d: "distinct (keys_of L')" unfolding L' by (rule distinct_addZeros [OF assms(1)])
  have dom: "map_of L' a \<noteq> None \<longleftrightarrow> a \<in> ?assets" for a
    using map_of_in_keys [of L a] unfolding L' map_of_addZeros by (auto split: option.split)
  have mem: "(a, l) \<in> set L' \<longleftrightarrow> map_of L' a = Some l" for a l
    using d by (auto simp: keys_of_def dest: map_of_SomeD)
  have at: "fst (driftAt P' a l) = Some \<bar>balanceOf L a + balanceOf P a\<bar>
      \<and> (snd (driftAt P' a l) = None \<longleftrightarrow> map_of L a \<noteq> Some None \<and> balanceOf L a + balanceOf P a = 0)"
    if l: "map_of L' a = Some l" for a l
  proof -
    have a: "a \<in> set ?as" using dom [of a] l by simp
    from driftAt_harmonized [OF assms(2) a l L'] show ?thesis unfolding P' by (metis fst_conv)
  qed
  have all: "(\<forall>(a, l)\<in>set L'. snd (driftAt P' a l) = None)
      \<longleftrightarrow> (\<forall>a\<in>?assets. map_of L a \<noteq> Some None \<and> balanceOf L a + balanceOf P a = 0)"
  proof
    assume h: "\<forall>(a, l)\<in>set L'. snd (driftAt P' a l) = None"
    show "\<forall>a\<in>?assets. map_of L a \<noteq> Some None \<and> balanceOf L a + balanceOf P a = 0"
    proof
      fix a
      assume "a \<in> ?assets"
      then obtain l where l: "map_of L' a = Some l" using dom [of a] by auto
      with h mem have "snd (driftAt P' a l) = None" by auto
      with at [OF l] show "map_of L a \<noteq> Some None \<and> balanceOf L a + balanceOf P a = 0" by blast
    qed
  next
    assume h: "\<forall>a\<in>?assets. map_of L a \<noteq> Some None \<and> balanceOf L a + balanceOf P a = 0"
    have "snd (driftAt P' a l) = None" if "(a, l) \<in> set L'" for a l
      using at [of a l] mem [of a l] that h dom [of a] by auto
    then show "\<forall>(a, l)\<in>set L'. snd (driftAt P' a l) = None" by blast
  qed
  have drift: "map_of (reco_DriftBalances (fold (applyDrift P') L' res)) a
      = (if a \<in> ?assets then Some (Some \<bar>balanceOf L a + balanceOf P a\<bar>) else None)" for a
    using fold_applyDrift [OF d, of P' res] at [of a] dom [of a] assms(5) by (cases "map_of L' a") auto
  show ?thesis
    unfolding Let_def all [symmetric]
    using fold_applyDrift [OF d, of P' res] drift assms(4,6) by auto
qed

section \<open>Properties\<close>

text \<open>
  C31. The verdict of a legacy reconciliation. When one succeeds it read the ledger side and the pool
  side of the stored policy, and its status is OK exactly when for every asset on either side the two
  balances, a missing one counting as zero, add up to zero and the ledger reported an amount; the
  stored drift of each of these assets is the absolute value of that sum, no other asset has one, and
  the error text is empty exactly when the status is OK. The result is the one row added.
\<close>

theorem reconciliation_verdict:
  assumes "svc_Reconciliation U client paymentsFirst policyID req w = (Inr res, w')"
  shows "\<exists>policy L P. policy \<in> set (t_policies (w_db w)) \<and> uuid_Parse U policyID = Inr (policy_ID policy)
    \<and> getAccountsAggregatedBalance client (policy_LedgerName policy) (queryOf (policy_LedgerQuery policy))
        (rr_ReconciledAtLedger req) = Inr L
    \<and> getPaymentPoolBalance client (uuid_String U (policy_PaymentsPoolID policy)) (rr_ReconciledAtPayments req) = Inr P
    \<and> (let assets = set (keys_of L) \<union> set (keys_of P) in
        (reco_Status res = ReconciliationOK \<longleftrightarrow>
           (\<forall>a\<in>assets. map_of L a \<noteq> Some None \<and> balanceOf L a + balanceOf P a = 0))
        \<and> (reco_Error res = '''' \<longleftrightarrow> reco_Status res = ReconciliationOK)
        \<and> (\<forall>a. map_of (reco_DriftBalances res) a =
             (if a \<in> assets then Some (Some \<bar>balanceOf L a + balanceOf P a\<bar>) else None)))
    \<and> t_reconciliations (w_db w') = t_reconciliations (w_db w) @ [res] \<and> reco_PolicyID res = policy_ID policy"
proof -
  obtain i policy L P w1 where i: "uuid_Parse U policyID = Inr i"
    and get: "SGetPolicy i w = (Inr policy, w1)"
    and reads: "readBoth paymentsFirst
        (getAccountsAggregatedBalance client (policy_LedgerName policy) (queryOf (policy_LedgerQuery policy)) (rr_ReconciledAtLedger req))
        (getPaymentPoolBalance client (uuid_String U (policy_PaymentsPoolID policy)) (rr_ReconciledAtPayments req)) = Inr (L, P)"
    and rest: "(let (ledgerBalances, paymentsBalances) = harmonizeBalances L P in
     bindA (tickA newUUID) (\<lambda>rID.
     bindA (tickA goNow) (\<lambda>now.
     let res = \<lparr> reco_ID = rID, reco_PolicyID = policy_ID policy, reco_CreatedAt = now,
                 reco_ReconciledAtLedger = rr_ReconciledAtLedger req,
                 reco_ReconciledAtPayments = rr_ReconciledAtPayments req,
                 reco_Status = ReconciliationOK, reco_LedgerBalances = ledgerBalances,
                 reco_PaymentsBalances = paymentsBalances, reco_DriftBalances = [], reco_Error = '''' \<rparr>;
         res = fold (applyDrift paymentsBalances) ledgerBalances res in
     bindA (plainWrap ''failed to create reconciliation'' (SCreateReconciliation res)) (\<lambda>_. returnA res)))) w1 = (Inr res, w')"
    using assms by (auto simp: svc_Reconciliation_def bindA_Inr parseID_Inr)
  have policy: "policy \<in> set (t_policies (w_db w))" "policy_ID policy = i" "w_db w1 = w_db w"
    using get by (auto simp: SGetPolicy_def wrapA_Inr dest!: selectOne_Inr find_SomeD)
  obtain L' P' where h: "harmonizeBalances L P = (L', P')" by fastforce
  note LP = read_balances [OF reads]
  from rest obtain rID now w2 w3 where
    res: "res = fold (applyDrift P') L' \<lparr> reco_ID = rID, reco_PolicyID = policy_ID policy, reco_CreatedAt = now,
                 reco_ReconciledAtLedger = rr_ReconciledAtLedger req,
                 reco_ReconciledAtPayments = rr_ReconciledAtPayments req,
                 reco_Status = ReconciliationOK, reco_LedgerBalances = L',
                 reco_PaymentsBalances = P', reco_DriftBalances = [], reco_Error = '''' \<rparr>"
    and ins: "SCreateReconciliation res w3 = (Inr (), w')" and w3: "w_db w3 = w_db w1"
    by (auto simp: h bindA_Inr tickA_Inr newUUID_def goNow_def Let_def)
  have "t_reconciliations (w_db w') = t_reconciliations (w_db w3) @ [res]"
    using ins by (auto simp: SCreateReconciliation_def wrapA_Inr Let_def split: if_splits dest!: execute_Inr)
  then show ?thesis
    using harmonized_outcome [of L P, OF _ _ h, where res = "\<lparr> reco_ID = rID, reco_PolicyID = policy_ID policy, reco_CreatedAt = now,
                 reco_ReconciledAtLedger = rr_ReconciledAtLedger req,
                 reco_ReconciledAtPayments = rr_ReconciledAtPayments req,
                 reco_Status = ReconciliationOK, reco_LedgerBalances = L',
                 reco_PaymentsBalances = P', reco_DriftBalances = [], reco_Error = '''' \<rparr>", folded res]
      LP policy i w3 by (intro exI [of _ policy] exI [of _ L] exI [of _ P]) (simp add: Let_def)
qed


definition examplePolicy :: policy where
  "examplePolicy = \<lparr> policy_ID = 7, policy_CreatedAt = 1, policy_Name = ''bank'', policy_LedgerName = ''main'',
     policy_LedgerQuery = ''{}'', policy_PaymentsPoolID = 8 \<rparr>"

definition policyWorld :: world where
  "policyWorld = emptyWorld\<lparr> w_db := (w_db emptyWorld)\<lparr> t_policies := [examplePolicy] \<rparr> \<rparr>"

definition exampleUUIDs :: uuidLib where
  "exampleUUIDs = \<lparr> uuid_Parse = \<lambda>s. if s = ''seven'' then Inr 7 else if s = ''eight'' then Inr 8
       else Inl (new_error ''invalid UUID''), uuid_String = \<lambda>i. if i = 8 then ''eight'' else ''seven'' \<rparr>"

definition exampleFormance :: sdkFormance where
  "exampleFormance = \<lparr> lc_GetBalancesAggregated = \<lambda>_ _ _. Inr (200, Some [(''EUR'', Some 10)]),
     lc_GetPoolBalances = \<lambda>_ _. Inr (200, Some [\<lparr> pb_Asset = ''EUR'', pb_Amount = Some (- 10) \<rparr>,
        \<lparr> pb_Asset = ''USD'', pb_Amount = Some 3 \<rparr>, \<lparr> pb_Asset = ''GBP'', pb_Amount = None \<rparr>]) \<rparr>"

definition exampleReconciliation :: reconciliationRequest where
  "exampleReconciliation = \<lparr> rr_ReconciledAtLedger = 5, rr_ReconciledAtPayments = 6 \<rparr>"

theorem reconciliation_verdict_witness:
  "\<exists>res w'. svc_Reconciliation exampleUUIDs exampleFormance False ''seven'' exampleReconciliation policyWorld = (Inr res, w')
     \<and> reco_Status res = ReconciliationNotOK \<and> reco_Error res \<noteq> ''''
     \<and> map_of (reco_DriftBalances res) ''EUR'' = Some (Some 0) \<and> map_of (reco_DriftBalances res) ''USD'' = Some (Some 3)
     \<and> map_of (reco_DriftBalances res) ''GBP'' = None"
proof -
  have "case fst (svc_Reconciliation exampleUUIDs exampleFormance False ''seven'' exampleReconciliation policyWorld) of
      Inl _ \<Rightarrow> False | Inr _ \<Rightarrow> True" by code_simp
  then obtain res w' where run: "svc_Reconciliation exampleUUIDs exampleFormance False ''seven'' exampleReconciliation policyWorld
      = (Inr res, w')" by (auto split: sum.splits) (metis prod.collapse)
  have L: "getAccountsAggregatedBalance exampleFormance n q t = Inr [(''EUR'', Some 10)]" for n q t
    by (simp add: getAccountsAggregatedBalance_def exampleFormance_def map_put_def)
  have P: "getPaymentPoolBalance exampleFormance i t = Inr [(''EUR'', Some (- 10)), (''USD'', Some 3)]" for i t
    by (simp add: getPaymentPoolBalance_def exampleFormance_def map_put_def)
  from reconciliation_verdict [OF run, unfolded L P] run show ?thesis
    by (cases "reco_Status res") (auto simp: Let_def keys_of_def balanceOf_def zeroIfNil_def)
qed

text \<open>
  C32. Creating a policy. It fails, changing nothing, when the pool identifier does not parse, with an
  invalid-id error, and when the database refuses; otherwise the policy is stored exactly as it was
  sent. Nothing else is checked: the request's own validation is never consulted, so a request it
  rejects, with an empty name or ledger, is stored all the same.
\<close>

theorem CreatePolicy_stores_as_sent:
  assumes "svc_CreatePolicy U req w = (q, w')"
  shows "(case q of
       Inl err \<Rightarrow> w_db w' = w_db w
         \<and> ((\<exists>e. uuid_Parse U (cpr_PaymentsPoolID req) = Inl e) \<longrightarrow> errors_Is err ErrInvalidID)
     | Inr p \<Rightarrow> uuid_Parse U (cpr_PaymentsPoolID req) = Inr (policy_PaymentsPoolID p)
         \<and> policy_Name p = cpr_Name req \<and> policy_LedgerName p = cpr_LedgerName req
         \<and> policy_LedgerQuery p = queryJSON (cpr_LedgerQuery req)
         \<and> t_policies (w_db w') = t_policies (w_db w) @ [p\<lparr> policy_LedgerQuery := jsonb w (policy_LedgerQuery p) \<rparr>])
     \<and> ((\<exists>i. uuid_Parse U (cpr_PaymentsPoolID req) = Inr i) \<and> w_fault w (w_stmts w) = None
         \<and> (\<forall>p\<in>set (t_policies (w_db w)). policy_ID p \<noteq> w_uuid w (w_uuids w)) \<longrightarrow> (\<exists>p. q = Inr p))"
proof (cases "uuid_Parse U (cpr_PaymentsPoolID req)")
  case (Inl e)
  then have "q = Inl (wrap_error (msg e) (sent ErrInvalidID)) \<and> w' = w"
    using assms by (simp add: svc_CreatePolicy_def parseID_def bindA_def failA_def)
  with Inl show ?thesis by simp
next
  case (Inr i)
  show ?thesis
  proof (cases q)
    case (Inl err)
    with assms Inr show ?thesis
      by (auto simp: svc_CreatePolicy_def parseID_def bindA_def returnA_def tickA_def newUUID_def goNow_def Let_def
          plainWrap_def SCreatePolicy_def wrapA_def execute_def exists_row_iff split: option.splits if_splits sum.splits prod.splits)
  next
    case right: (Inr p)
    with assms Inr show ?thesis
      by (auto simp: svc_CreatePolicy_def parseID_def bindA_def returnA_def tickA_def newUUID_def goNow_def Let_def
          plainWrap_def SCreatePolicy_def wrapA_def execute_def jsonb_def split: option.splits if_splits sum.splits prod.splits)
  qed
qed

definition namelessPolicy :: createPolicyRequest where
  "namelessPolicy = \<lparr> cpr_Name = '''', cpr_LedgerName = '''', cpr_LedgerQuery = None, cpr_PaymentsPoolID = ''eight'' \<rparr>"

theorem CreatePolicy_stores_as_sent_witness:
  "CreatePolicyRequest_Validate namelessPolicy \<noteq> None
   \<and> (\<exists>p w'. svc_CreatePolicy exampleUUIDs namelessPolicy policyWorld = (Inr p, w') \<and> policy_Name p = '''')"
proof -
  obtain q w' where run: "svc_CreatePolicy exampleUUIDs namelessPolicy policyWorld = (q, w')" by fastforce
  from CreatePolicy_stores_as_sent [OF run] obtain p where "q = Inr p"
    by (auto simp: exampleUUIDs_def namelessPolicy_def policyWorld_def emptyWorld_def examplePolicy_def)
  with CreatePolicy_stores_as_sent [OF run] run show ?thesis
    by (simp add: CreatePolicyRequest_Validate_def namelessPolicy_def)
qed

end
