(* ===== verification/RuleService.thy ===== *)
theory RuleService
  imports Registry JobLifecycle ScheduleText
begin

text \<open>
  The rule operations of the service layer, \<open>internal/api/service/rule.go\<close>: the request of a creation
  with its JSON form, its validation and its deprecated key, the creation and the patch of a rule.
  Validation, explanation and compilation go through the template registry and the kernel; a patch is
  validated before the transaction that writes it, and fenced with the revision it was validated
  for. The lemmas say what a checked template is; \<open>RuleClients\<close> runs the operations of several clients.
\<close>

record ruleService =
  sv_templates :: "registry option"
  sv_engine :: "engine option"
  sv_parse :: cron_parser

record createRuleRequest =
  crr_Name :: string
  crr_TemplateKind :: templateKind
  crr_TemplateSpec :: rawJSON
  crr_Schedule :: "schedule option"
  crr_Severity :: severity
  crr_PeriodType :: periodType
  crr_Cadence :: periodType
  crr_PeriodTypeWasProvided :: bool
  crr_Notifications :: "string list"
  crr_Labels :: "(string \<times> string) list"
  crr_Enabled :: "bool option"

definition zeroCreateRule :: createRuleRequest where
  "zeroCreateRule = \<lparr> crr_Name = '''', crr_TemplateKind = '''', crr_TemplateSpec = '''', crr_Schedule = None,
     crr_Severity = '''', crr_PeriodType = '''', crr_Cadence = '''', crr_PeriodTypeWasProvided = False,
     crr_Notifications = [], crr_Labels = [], crr_Enabled = None \<rparr>"

section \<open>The request\<close>

definition createRule_set :: "frac_mul \<Rightarrow> string \<Rightarrow> string \<Rightarrow> createRuleRequest \<Rightarrow> createRuleRequest option" where
  "createRule_set fmul k t r =
     (if field ''name'' k then map_option (\<lambda>v. r\<lparr> crr_Name := v \<rparr>) (dec_string t (crr_Name r))
      else if field ''templateKind'' k then map_option (\<lambda>v. r\<lparr> crr_TemplateKind := v \<rparr>) (dec_string t (crr_TemplateKind r))
      else if field ''templateSpec'' k then map_option (\<lambda>v. r\<lparr> crr_TemplateSpec := v \<rparr>) (dec_raw t (crr_TemplateSpec r))
      else if field ''schedule'' k then
        map_option (\<lambda>v. r\<lparr> crr_Schedule := v \<rparr>) (dec_ptr zeroSchedule (dec_schedule fmul) t (crr_Schedule r))
      else if field ''severity'' k then map_option (\<lambda>v. r\<lparr> crr_Severity := v \<rparr>) (dec_string t (crr_Severity r))
      else if field ''periodType'' k then map_option (\<lambda>v. r\<lparr> crr_PeriodType := v \<rparr>) (dec_string t (crr_PeriodType r))
      else if field ''cadence'' k then map_option (\<lambda>v. r\<lparr> crr_Cadence := v \<rparr>) (dec_string t (crr_Cadence r))
      else if field ''notifications'' k then
        map_option (\<lambda>v. r\<lparr> crr_Notifications := v \<rparr>) (dec_list '''' dec_string t (crr_Notifications r))
      else if field ''labels'' k then map_option (\<lambda>v. r\<lparr> crr_Labels := v \<rparr>) (dec_map '''' dec_string t (crr_Labels r))
      else if field ''enabled'' k then map_option (\<lambda>v. r\<lparr> crr_Enabled := v \<rparr>) (dec_ptr False dec_bool t (crr_Enabled r))
      else Some r)"

text \<open>The probe that tells an explicit period type from an absent or null one.\<close>

definition periodType_probe :: "string \<Rightarrow> string \<Rightarrow> string option \<Rightarrow> string option option" where
  "periodType_probe k t p = (if field ''periodType'' k then dec_ptr '''' dec_string t p else Some p)"

definition CreateRuleRequest_UnmarshalJSON :: "frac_mul \<Rightarrow> string \<Rightarrow> createRuleRequest \<Rightarrow> gerror + createRuleRequest" where
  "CreateRuleRequest_UnmarshalJSON fmul data r =
     (case Unmarshal (dec_struct (createRule_set fmul)) data zeroCreateRule of
        Inl err \<Rightarrow> Inl err
      | Inr decoded \<Rightarrow>
          (case Unmarshal (dec_struct periodType_probe) data None of
             Inl err \<Rightarrow> Inl err
           | Inr probe \<Rightarrow> Inr (decoded\<lparr> crr_PeriodTypeWasProvided := probe \<noteq> None \<rparr>)))"

definition resolvePeriodType :: "createRuleRequest \<Rightarrow> gerror + createRuleRequest" where
  "resolvePeriodType r =
     (if crr_Cadence r = '''' then Inr (r\<lparr> crr_Cadence := '''' \<rparr>)
      else if crr_PeriodType r \<noteq> '''' \<and> crr_PeriodType r \<noteq> crr_Cadence r then
        Inl (new_error (''cadence and periodType disagree ('' @ Quote (crr_Cadence r) @ '' vs ''
          @ Quote (crr_PeriodType r) @ ''); cadence is deprecated, send periodType alone''))
      else Inr (r\<lparr> crr_PeriodType := crr_Cadence r, crr_Cadence := '''', crr_PeriodTypeWasProvided := True \<rparr>))"

definition validateSchedule :: "cron_parser \<Rightarrow> schedule option \<Rightarrow> gerror option" where
  "validateSchedule parse so =
     (case so of
        None \<Rightarrow> None
      | Some s \<Rightarrow>
          if SafetyMargin s < 0 then Some (new_error ''schedule.safetyMargin must be non-negative'')
          else if \<not> ScheduleKind_Valid (Kind s) then
            Some (new_error (''schedule.kind must be one of on_demand, cron (got '' @ Quote (Kind s) @ '')''))
          else if Kind s = ScheduleCron then
            (if Expr s = '''' then Some (new_error ''schedule.expr is required for a cron schedule'')
             else
               let tz = (if TZ s = '''' then ''UTC'' else TZ s) in
               case parse (''CRON_TZ='' @ tz @ '' '' @ Expr s) of
                 Inl err \<Rightarrow> Some (new_error (''schedule.expr is not a valid cron expression: '' @ msg err))
               | Inr _ \<Rightarrow> None)
          else None)"

definition periodTypeError :: "periodType \<Rightarrow> gerror" where
  "periodTypeError p = new_error (''periodType must be one of continuous, daily, weekly, monthly (got '' @ Quote p @ '')'')"

definition severityText :: "severity \<Rightarrow> string" where
  "severityText s = ''severity must be one of info, low, medium, high, critical (got '' @ Quote s @ '')''"

text \<open>\<open>Validate\<close> folds the deprecated key into the request: the request it leaves, or an error.\<close>

definition CreateRuleRequest_Validate :: "cron_parser \<Rightarrow> createRuleRequest \<Rightarrow> gerror + createRuleRequest" where
  "CreateRuleRequest_Validate parse r =
     (if crr_Name r = '''' then Inl (new_error ''name is required'')
      else if crr_TemplateKind r = '''' then Inl (new_error ''templateKind is required'')
      else if crr_TemplateSpec r = '''' then Inl (new_error ''templateSpec is required'')
      else if crr_PeriodTypeWasProvided r \<and> \<not> PeriodType_Valid (crr_PeriodType r)
        then Inl (periodTypeError (crr_PeriodType r))
      else case resolvePeriodType r of
        Inl err \<Rightarrow> Inl err
      | Inr r \<Rightarrow>
          if crr_PeriodType r \<noteq> '''' \<and> \<not> PeriodType_Valid (crr_PeriodType r)
            then Inl (periodTypeError (crr_PeriodType r))
          else if crr_Severity r \<noteq> '''' \<and> \<not> Severity_Valid (crr_Severity r)
            then Inl (new_error (severityText (crr_Severity r)))
          else case validateSchedule parse (crr_Schedule r) of
            Some err \<Rightarrow> Inl err
          | None \<Rightarrow> Inr r)"

section \<open>Creation and patch\<close>

text \<open>The template of a spec: registered, accepting the spec, with an explanation the kernel compiles.\<close>

definition checkTemplate ::
  "string \<Rightarrow> registry \<Rightarrow> engine option \<Rightarrow> templateKind \<Rightarrow> rawJSON \<Rightarrow> gerror + string" where
  "checkTemplate ctx reg eng kind spec =
     (case Registry_Get reg kind of
        Inl err \<Rightarrow> Inl err
      | Inr ev \<Rightarrow>
          (case tm_Validate ev spec of
             Some err \<Rightarrow> Inl err
           | None \<Rightarrow>
               (case tm_Explain ev spec of
                  Inl err \<Rightarrow> Inl (wrap_error ''template Explain'' err)
                | Inr explanation \<Rightarrow>
                    (case eng of
                       None \<Rightarrow> Inr explanation
                     | Some g \<Rightarrow>
                         (case Compile g explanation of
                            Inl err \<Rightarrow> Inl (wrap_error ctx err)
                          | Inr _ \<Rightarrow> Inr explanation)))))"

definition ruleOf :: "createRuleRequest \<Rightarrow> uuid \<Rightarrow> string \<Rightarrow> rule" where
  "ruleOf req i explanation =
     \<lparr> rule_ID = i, rule_Name = crr_Name req, rule_TemplateKind = crr_TemplateKind req,
       rule_TemplateSpec = crr_TemplateSpec req, rule_ExplanationCEL = explanation,
       rule_Enabled = (case crr_Enabled req of None \<Rightarrow> True | Some b \<Rightarrow> b),
       rule_Severity = (if crr_Severity req = '''' then SeverityMedium else crr_Severity req),
       rule_PeriodType = (if crr_PeriodType req = '''' then PeriodTypeContinuous else crr_PeriodType req),
       rule_Schedule = crr_Schedule req, rule_Notifications = crr_Notifications req,
       rule_Labels = crr_Labels req, rule_Revision = 0, rule_NextRunAt = None, rule_CreatedAt = 0, rule_UpdatedAt = 0 \<rparr>"

definition svc_CreateRule :: "ruleService \<Rightarrow> createRuleRequest option \<Rightarrow> rule act" where
  "svc_CreateRule S reqo =
     (case reqo of
        None \<Rightarrow> failA (errorf ErrInvalidSpec ''request is nil'')
      | Some req \<Rightarrow>
          (case sv_templates S of
             None \<Rightarrow> failA (new_error ''service: templates registry not configured'')
           | Some reg \<Rightarrow>
               (case CreateRuleRequest_Validate (sv_parse S) req of
                  Inl err \<Rightarrow> failA (errorf ErrInvalidSpec (msg err))
                | Inr req \<Rightarrow>
                    bindA (ofSum (checkTemplate ''template explanation_cel did not parse'' reg (sv_engine S)
                             (crr_TemplateKind req) (crr_TemplateSpec req))) (\<lambda>explanation.
                    bindA (tickA newUUID) (\<lambda>i.
                    CreateRule (sv_parse S) (ruleOf req i explanation))))))"

text \<open>
  A patch in its two halves, as other clients may run between them: \<open>preparePatch\<close> validates it and,
  when it changes the template surface, fences it with the revision it read; \<open>commitPatch\<close> writes it.
\<close>

definition preparePatch :: "ruleService \<Rightarrow> uuid \<Rightarrow> rulePatch \<Rightarrow> rulePatch act" where
  "preparePatch S i patch =
     (if (case rp_Severity patch of None \<Rightarrow> False | Some v \<Rightarrow> \<not> Severity_Valid v)
        then failA (errorf ErrValidation (severityText (the (rp_Severity patch))))
      else case (case rp_Schedule patch of None \<Rightarrow> None | Some s \<Rightarrow> validateSchedule (sv_parse S) (Some s)) of
        Some err \<Rightarrow> failA (errorf ErrValidation (msg err))
      | None \<Rightarrow>
          if rp_TemplateKind patch \<noteq> None \<or> rp_TemplateSpec patch \<noteq> None then
            (case sv_templates S of
               None \<Rightarrow> failA (new_error ''service: templates registry not configured'')
             | Some reg \<Rightarrow>
                 bindA (GetRule i) (\<lambda>rule.
                 bindA (ofSum (checkTemplate ''explanation_cel did not parse'' reg (sv_engine S)
                          (or_old (rp_TemplateKind patch) (rule_TemplateKind rule))
                          (or_old (rp_TemplateSpec patch) (rule_TemplateSpec rule)))) (\<lambda>explanation.
                 returnA (patch\<lparr> rp_ExplanationCEL := Some explanation,
                                 rp_ExpectedRevision := Some (rule_Revision rule) \<rparr>))))
          else returnA patch)"

definition commitPatch :: "ruleService \<Rightarrow> uuid \<Rightarrow> rulePatch \<Rightarrow> unit act" where
  "commitPatch S i patch =
     catchA (PatchRule (sv_parse S) i patch) (\<lambda>r.
       case r of
         Inr _ \<Rightarrow> returnA ()
       | Inl err \<Rightarrow>
           if errors_Is err ErrRuleRevisionConflict
           then failA (errorf ErrRuleChanged ''rule changed while validating the patch'')
           else failA err)"

definition svc_PatchRule :: "ruleService \<Rightarrow> uuid \<Rightarrow> rulePatch \<Rightarrow> unit act" where
  "svc_PatchRule S i patch = bindA (preparePatch S i patch) (commitPatch S i)"

definition svc_GetRule :: "uuid \<Rightarrow> rule act" where "svc_GetRule i = GetRule i"

definition svc_DeleteRule :: "uuid \<Rightarrow> unit act" where "svc_DeleteRule i = DeleteRule i"

section \<open>Checked rules\<close>

text \<open>
  A kind and a spec as the service accepts them, with their explanation: the kind is registered, its
  template accepts and explains the spec, and the kernel, if any, compiles the explanation.
\<close>

definition accepted :: "ruleService \<Rightarrow> templateKind \<Rightarrow> rawJSON \<Rightarrow> string \<Rightarrow> bool" where
  "accepted S kind raw explanation \<longleftrightarrow>
     (case sv_templates S of
        None \<Rightarrow> False
      | Some reg \<Rightarrow>
          (case Registry_Get reg kind of
             Inl err \<Rightarrow> False
           | Inr T \<Rightarrow> tm_Validate T raw = None \<and> tm_Explain T raw = Inr explanation
               \<and> (case sv_engine S of None \<Rightarrow> True | Some g \<Rightarrow> \<not> isl (Compile g explanation))))"

lemma checkTemplate_accepted:
  "sv_templates S = Some reg \<Longrightarrow>
   checkTemplate ctx reg (sv_engine S) kind spec = Inr explanation \<longleftrightarrow> accepted S kind spec explanation"
  by (auto simp: checkTemplate_def accepted_def split: sum.split option.split)

text \<open>
  A rule as the service stores it: its template surface was accepted as a whole, for the text the
  table holds or the text it was stored from, its explanation is the one of that spec, its schedule
  is one the planner can compute, and its enumerations are valid. \<open>norm\<close> is what \<open>jsonb\<close> makes of a text.
\<close>

definition vetted :: "ruleService \<Rightarrow> (rawJSON \<Rightarrow> rawJSON) \<Rightarrow> rule \<Rightarrow> bool" where
  "vetted S norm r \<longleftrightarrow>
     (\<exists>raw. rule_TemplateSpec r \<in> {raw, norm raw} \<and> accepted S (rule_TemplateKind r) raw (rule_ExplanationCEL r))
     \<and> validateSchedule (sv_parse S) (rule_Schedule r) = None \<and> rule_chk r"

lemma validateSchedule_Next:
  "validateSchedule parse so = None \<Longrightarrow> \<exists>t. Schedule_Next parse so now = Inr t"
  by (auto simp: validateSchedule_def Schedule_Next_def Let_def split: option.splits if_splits sum.splits)

lemma validateSchedule_margin:
  "validateSchedule parse (Some s) = None \<Longrightarrow> 0 \<le> SafetyMargin s \<and> ScheduleKind_Valid (Kind s)"
  by (auto simp: validateSchedule_def split: if_splits)

text \<open>What a validated request asks for.\<close>

lemma Validate_Inr:
  assumes "CreateRuleRequest_Validate parse req = Inr r"
  shows "validateSchedule parse (crr_Schedule r) = None \<and> (crr_Severity r = '''' \<or> Severity_Valid (crr_Severity r))
    \<and> (crr_PeriodType r = '''' \<or> PeriodType_Valid (crr_PeriodType r)) \<and> crr_TemplateSpec r \<noteq> ''''
    \<and> crr_TemplateKind r = crr_TemplateKind req \<and> crr_TemplateSpec r = crr_TemplateSpec req"
  using assms
  by (auto simp: CreateRuleRequest_Validate_def resolvePeriodType_def split: if_splits sum.splits option.splits)

lemma ruleOf_chk:
  "CreateRuleRequest_Validate parse req = Inr r \<Longrightarrow> rule_chk (ruleOf r i e)"
  by (drule Validate_Inr) (auto simp: rule_chk_def ruleOf_def Severity_Valid_def PeriodType_Valid_def)

end
