(* ===== verification/Frames.thy ===== *)
theory Frames
  imports AlertContract JobQueue
begin

text \<open>
  Frame conditions of more than statements: what the operations leave alone, whatever their outcome,
  for the process around the statements (the clock, the buffered events) and for the alert operations.
  The theories about interleaved operations interpret the locales on their relations.
\<close>

section \<open>The process\<close>

locale process_frame = frame +
  assumes tick: "R w (w\<lparr> w_ticks := w_ticks w + n \<rparr>)"
    and collector: "R w (w\<lparr> w_collector := c \<rparr>)"
    and published: "R w (w\<lparr> w_published := p \<rparr>)"
begin

lemma clock: "within R (tickA goNow)"
  using tick [of _ 1] by (auto simp: within_def tickA_def)

lemma recorded: "R w (recordAlertEvent a event w)"
  using collector published refl by (auto simp: recordAlertEvent_def split: option.split)

lemma publishes: "within R (publish ao event)"
  using recorded refl by (auto simp: within_def publish_def tickA_def split: option.split)

lemma flush: "R w (flushAlertEvents w)"
proof -
  have "R w (w\<lparr> w_collector := None \<rparr>\<lparr> w_published := p \<rparr>)" for p by (rule trans [OF collector published])
  then show ?thesis using collector by (simp add: flushAlertEvents_def Let_def)
qed

lemma unit_of_work:
  assumes "within R f" shows "within R (RunInTx f)"
proof (rule withinI)
  fix w q w' assume run: "RunInTx f w = (q, w')"
  note t = withinD [OF tx [OF assms]]
  show "R w w'"
  proof (cases "w_collector w")
    case None
    obtain q1 w1 where i: "inTx f (w\<lparr> w_collector := Some [] \<rparr>) = (q1, w1)" by fastforce
    have "R w w1" by (rule trans [OF collector t [OF i]])
    then show ?thesis using run None i collector flush
      by (cases q1) (auto simp: RunInTx_def intro: trans)
  next
    case (Some pending)
    then show ?thesis using t run by (simp add: RunInTx_def)
  qed
qed

lemmas works = intros clock publishes unit_of_work

end

section \<open>Alerts\<close>

locale alert_frames = process_frame +
  assumes insert_alert: "within R (insertAlert a)"
    and update_alert: "within R (updateAlert i f current)"
    and insert_event: "within R (insertEvent ev)"
begin

lemma append: "within R (appendAlertEvent i type prev new evaluation payload at notify)"
  unfolding appendAlertEvent_def by (intro works insert_event)

lemma opens: "within R (OpenOrUpdateAlert inp)"
proof -
  have "within R (openTx inp)" for inp
    unfolding openTx_def openFresh_def failAgain_def Let_def
    by (intro works catch within_split append insert_alert update_alert)
  then have "within R (openAttempts n inp)" for n inp
    by (induction n) (auto simp: openOrUpdateAlertOnce_def split: sum.split intro!: works catch)
  then show ?thesis unfolding OpenOrUpdateAlert_def by (intro works)
qed

lemma resolves: "within R (AutoResolveAlert r fp p evaluation at)"
  unfolding AutoResolveAlert_def autoResolveTx_def Let_def
  by (intro works catch within_split append update_alert)

lemma lists: "within R (ListActiveAlertFingerprints r p)"
  unfolding ListActiveAlertFingerprints_def by (intro works)

lemma manuals:
  "within R (AckAlert i a)" "within R (ResolveAlertManual i res)" "within R (AcceptAlert i res)"
  "within R (SnoozeAlert i until author note)" "within R (UnsnoozeAlert i author)"
  unfolding AckAlert_def ResolveAlertManual_def AcceptAlert_def SnoozeAlert_def UnsnoozeAlert_def applyResolution_def
    manual_def ackTx_def resolveTx_def snoozeTx_def unsnoozeTx_def Let_def
  by (intro works within_split append update_alert)+

lemma drives: "within R (driveAlerts sqlStore rule evaluation outcomes p ended)"
proof -
  have outcome: "within R (driveOutcome sqlStore rule evaluation p ended oc)" for oc
    unfolding driveOutcome_def sqlStore_simps by (intro works opens resolves)
  have "within R (driveOutcomes sqlStore rule evaluation p ended ocs)" for ocs
    by (induction ocs) (auto intro!: works outcome)
  moreover have "within R (sweep sqlStore rule evaluation p ended seen fps)" for seen fps
    by (induction fps) (auto intro!: works resolves)
  ultimately show ?thesis
    unfolding driveAlerts_def sqlStore_simps by (intro works lists)
qed

lemma alerts: "within R (alertRun sqlStore rule p ended answer evaluation)"
  unfolding alertRun_def openEngineErrorAlert_def sqlStore_simps
  by (intro works within_split drives opens resolves)

end

section \<open>Identifiers\<close>

text \<open>Identifiers are only issued, and \<open>jsonb\<close> stays what it is.\<close>

definition onward :: "world \<Rightarrow> world \<Rightarrow> bool" where
  "onward w w' \<longleftrightarrow> w_uuid w' = w_uuid w \<and> w_uuids w \<le> w_uuids w' \<and> w_jsonb w' = w_jsonb w"

interpretation onward: frame onward
  by unfold_locales (auto simp: onward_def)

lemma onward_execute: "within onward (execute change)"
  by (rule onward.change) (simp add: onward_def)

definition issued :: "world \<Rightarrow> uuid \<Rightarrow> bool" where
  "issued w i \<longleftrightarrow> (\<exists>n<w_uuids w. i = w_uuid w n)"

lemma issued_onward: "onward w w' \<Longrightarrow> issued w i \<Longrightarrow> issued w' i"
  by (auto simp: onward_def issued_def intro: less_le_trans)

end
