(* ===== verification/RuleClients.thy ===== *)
theory RuleClients
  imports RuleService Frames
begin

text \<open>
  Several clients of the rule operations at once: creations, deletions, planning passes and patches,
  whose validation and write are separate steps, in any interleaving. Whatever they do, every rule in
  the table has been checked as a whole, which is what the fence on the revision is for.
\<close>

section \<open>What the operations leave alone\<close>

text \<open>The rules stay what they are but for the cursors of their schedules.\<close>

definition sameRules :: "world \<Rightarrow> world \<Rightarrow> bool" where
  "sameRules w w' \<longleftrightarrow> map cursorless (t_rules (w_db w')) = map cursorless (t_rules (w_db w))"

interpretation sameRules: frame sameRules
  by unfold_locales (auto simp: sameRules_def)

lemma onward_patch: "within onward (\<lambda>w. wrapA m (updateRules p (f w)) w)"
  unfolding updateRules_def
  by (rule withinI) (blast dest: withinD [OF onward.wrap(1) [OF onward_execute]])

lemma onward_rules:
  "within onward (CreateRule parse r)" "within onward (PatchRule parse i p)" "within onward (DeleteRule i)"
  unfolding CreateRule_def PatchRule_def patchRule_def DeleteRule_def insertRule_def existsRow_def supersede_def
    updateJobs_def Let_def
  by (intro onward.intros onward_execute onward_patch)+

lemma updateJobs_rules: "within sameRules (updateJobs p f)"
  unfolding updateJobs_def
  by (rule sameRules.change) (auto simp: sameRules_def Let_def split: if_splits)

lemma setCursor_sameRules: "within sameRules (setCursor m i t)"
  unfolding setCursor_def updateRules_def
  by (intro sameRules.intros sameRules.change)
    (auto simp: sameRules_def Let_def cursorless_def intro!: map_upd_where split: if_splits)

lemma insertOccurrences_within:
  "within sameRules (insertOccurrences r now ats res)" "within onward (insertOccurrences r now ats res)"
proof (induction ats arbitrary: res)
  have "within sameRules (insertJob j)" for j
    unfolding insertJob_def by (rule sameRules.change) (auto simp: sameRules_def Let_def split: if_splits)
  then show "within sameRules (insertOccurrences r now (at # ats) res)"
    if "\<And>res. within sameRules (insertOccurrences r now ats res)" for at ats res
    unfolding insertOccurrences.simps by (intro sameRules.intros that)
  show "within onward (insertOccurrences r now (at # ats) res)"
    if "\<And>res. within onward (insertOccurrences r now ats res)" for at ats res
    unfolding insertOccurrences.simps insertJob_def by (intro onward.intros onward_execute that)
qed (simp_all add: sameRules.basic onward.basic)

lemma PlanScheduledJobs_within:
  "within sameRules (PlanScheduledJobs parse window n batch)" "within onward (PlanScheduledJobs parse window n batch)"
proof -
  have "within onward (setCursor m i t)" for m i t
    unfolding setCursor_def updateRules_def by (intro onward.intros onward_execute)
  then show "within onward (PlanScheduledJobs parse window n batch)"
    by (rule onward.planning [OF _ insertOccurrences_within(2)])
  show "within sameRules (PlanScheduledJobs parse window n batch)"
    by (rule sameRules.planning [OF setCursor_sameRules insertOccurrences_within(1)])
qed

section \<open>The clients\<close>

text \<open>
  The state: the world, and the patches that are validated and not yet written. A step is one whole
  operation, or one half of a patch; what else runs in the service writes no rule. A patch of the API
  comes without an explanation and without an expected revision.
\<close>

type_synonym ruleSystem = "world \<times> (uuid \<times> rulePatch) list"

inductive clients :: "ruleService \<Rightarrow> ruleSystem \<Rightarrow> ruleSystem \<Rightarrow> bool" for S where
  create: "svc_CreateRule S req w = (q, w') \<Longrightarrow> clients S (w, ps) (w', ps)"
| prepare: "rp_ExplanationCEL p = None \<Longrightarrow> rp_ExpectedRevision p = None \<Longrightarrow>
    preparePatch S i p w = (Inr p', w') \<Longrightarrow> clients S (w, ps) (w', (i, p') # ps)"
| refuse: "preparePatch S i p w = (Inl err, w') \<Longrightarrow> clients S (w, ps) (w', ps)"
| commit: "(i, p) \<in> set ps \<Longrightarrow> commitPatch S i p w = (q, w') \<Longrightarrow> clients S (w, ps) (w', remove1 (i, p) ps)"
| delete: "svc_DeleteRule i w = (q, w') \<Longrightarrow> clients S (w, ps) (w', ps)"
| plan: "PlanScheduledJobs (sv_parse S) window n batch w = (q, w') \<Longrightarrow> clients S (w, ps) (w', ps)"
| elsewhere: "onward w w' \<Longrightarrow> t_rules (w_db w') = t_rules (w_db w) \<Longrightarrow> clients S (w, ps) (w', ps)"

definition rules_ok :: "ruleService \<Rightarrow> world \<Rightarrow> bool" where
  "rules_ok S w \<longleftrightarrow> inj (w_uuid w) \<and> distinct (map rule_ID (t_rules (w_db w)))
     \<and> (\<forall>r\<in>set (t_rules (w_db w)). issued w (rule_ID r) \<and> vetted S (jsonb w) r)"

text \<open>
  A validated patch is good for a rule at the revision it was validated for, and no rule of its
  identifier is older.
\<close>

definition patch_ok :: "ruleService \<Rightarrow> world \<Rightarrow> uuid \<Rightarrow> rulePatch \<Rightarrow> bool" where
  "patch_ok S w i p \<longleftrightarrow>
     (\<forall>s. rp_Schedule p = Some s \<longrightarrow> validateSchedule (sv_parse S) (Some s) = None)
     \<and> (\<forall>s. rp_Severity p = Some s \<longrightarrow> Severity_Valid s)
     \<and> (rp_TemplateKind p = None \<and> rp_TemplateSpec p = None \<and> rp_ExplanationCEL p = None
        \<or> (\<exists>v e. rp_ExpectedRevision p = Some v \<and> rp_ExplanationCEL p = Some e \<and> issued w i
            \<and> (\<forall>r\<in>set (t_rules (w_db w)). rule_ID r = i \<longrightarrow> v \<le> rule_Revision r \<and>
                (rule_Revision r = v \<longrightarrow> accepted S (or_old (rp_TemplateKind p) (rule_TemplateKind r))
                   (or_old (rp_TemplateSpec p) (rule_TemplateSpec r)) e))))"

definition system_ok :: "ruleService \<Rightarrow> ruleSystem \<Rightarrow> bool" where
  "system_ok S s \<longleftrightarrow> rules_ok S (fst s) \<and> (\<forall>(i, p)\<in>set (snd s). patch_ok S (fst s) i p)"

text \<open>Where the rules of a step come from: a rule of the table, the same or a later revision of it, or a new one.\<close>

definition successor :: "world \<Rightarrow> rule \<Rightarrow> bool" where
  "successor w r' \<longleftrightarrow> \<not> issued w (rule_ID r') \<or>
     (\<exists>r\<in>set (t_rules (w_db w)). rule_ID r' = rule_ID r \<and> (rule_Revision r < rule_Revision r'
        \<or> rule_Revision r = rule_Revision r' \<and> rule_TemplateKind r' = rule_TemplateKind r
            \<and> rule_TemplateSpec r' = rule_TemplateSpec r))"

lemma patch_ok_step:
  assumes "patch_ok S w i p" and "onward w w'" and "\<forall>r'\<in>set (t_rules (w_db w')). successor w r'"
  shows "patch_ok S w' i p"
proof (cases "rp_ExplanationCEL p")
  case None
  then show ?thesis using assms(1) by (simp add: patch_ok_def)
next
  case (Some e)
  then obtain v where v: "rp_ExpectedRevision p = Some v" and i: "issued w i"
    and old: "\<And>r. r \<in> set (t_rules (w_db w)) \<Longrightarrow> rule_ID r = i \<Longrightarrow> v \<le> rule_Revision r \<and>
        (rule_Revision r = v \<longrightarrow> accepted S (or_old (rp_TemplateKind p) (rule_TemplateKind r))
           (or_old (rp_TemplateSpec p) (rule_TemplateSpec r)) e)"
    using assms(1) by (auto simp: patch_ok_def)
  have "v \<le> rule_Revision r' \<and> (rule_Revision r' = v \<longrightarrow> accepted S (or_old (rp_TemplateKind p) (rule_TemplateKind r'))
           (or_old (rp_TemplateSpec p) (rule_TemplateSpec r')) e)"
    if r': "r' \<in> set (t_rules (w_db w'))" "rule_ID r' = i" for r'
  proof -
    have "successor w r'" using assms(3) r'(1) by blast
    then obtain r where r: "r \<in> set (t_rules (w_db w))" "rule_ID r = i" and
      c: "rule_Revision r < rule_Revision r' \<or> rule_Revision r = rule_Revision r'
        \<and> rule_TemplateKind r' = rule_TemplateKind r \<and> rule_TemplateSpec r' = rule_TemplateSpec r"
      using i r'(2) unfolding successor_def by metis
    show ?thesis using old [OF r] c by auto
  qed
  then show ?thesis using assms(1) v Some issued_onward [OF assms(2) i] by (auto simp: patch_ok_def)
qed

section \<open>Every step keeps the rules checked\<close>

lemma jsonb_onward: "onward w w' \<Longrightarrow> jsonb w' = jsonb w"
  by (simp add: onward_def jsonb_def fun_eq_iff)

lemma cursorless_eq: "cursorless r = cursorless r' \<Longrightarrow> rule_ID r' = rule_ID r \<and> rule_Revision r' = rule_Revision r
    \<and> rule_TemplateKind r' = rule_TemplateKind r \<and> rule_TemplateSpec r' = rule_TemplateSpec r
    \<and> rule_ExplanationCEL r' = rule_ExplanationCEL r \<and> rule_Schedule r' = rule_Schedule r
    \<and> rule_Severity r' = rule_Severity r \<and> rule_PeriodType r' = rule_PeriodType r"
  by (cases r; cases r') (simp add: cursorless_def)

lemma vetted_cursorless: "cursorless r = cursorless r' \<Longrightarrow> vetted S norm r = vetted S norm r'"
  by (drule cursorless_eq) (simp add: vetted_def rule_chk_def)

text \<open>A step that adds nothing to the rules but checked successors keeps the system.\<close>

lemma system_step:
  assumes ok: "system_ok S (w, ps)" and on: "onward w w'"
    and distinct: "distinct (map rule_ID (t_rules (w_db w')))"
    and rules: "\<And>r'. r' \<in> set (t_rules (w_db w')) \<Longrightarrow> successor w r' \<and> issued w' (rule_ID r') \<and> vetted S (jsonb w) r'"
    and ps: "set ps' \<subseteq> set ps"
  shows "system_ok S (w', ps')"
proof -
  have "rules_ok S w'"
    using ok distinct rules on jsonb_onward [OF on] by (auto simp: system_ok_def rules_ok_def onward_def)
  moreover have "patch_ok S w' i p" if "(i, p) \<in> set ps'" for i p
  proof (rule patch_ok_step [OF _ on])
    show "patch_ok S w i p" using ok ps that by (auto simp: system_ok_def)
    show "\<forall>r'\<in>set (t_rules (w_db w')). successor w r'" using rules by blast
  qed
  ultimately show ?thesis by (auto simp: system_ok_def)
qed

lemma old_successor: "rules_ok S w \<Longrightarrow> onward w w' \<Longrightarrow> r \<in> set (t_rules (w_db w)) \<Longrightarrow>
    successor w r \<and> issued w' (rule_ID r) \<and> vetted S (jsonb w) r"
  unfolding successor_def rules_ok_def by (auto intro: issued_onward)

lemma system_subset:
  assumes "system_ok S (w, ps)" and "onward w w'" and "distinct (map rule_ID (t_rules (w_db w')))"
    and "set (t_rules (w_db w')) \<subseteq> set (t_rules (w_db w))" and "set ps' \<subseteq> set ps"
  shows "system_ok S (w', ps')"
  by (rule system_step [OF assms(1-3) _ assms(5)], rule old_successor)
    (use assms in \<open>auto simp: system_ok_def\<close>)

lemma system_same:
  assumes "system_ok S (w, ps)" and "onward w w'" and "t_rules (w_db w') = t_rules (w_db w)" and "set ps' \<subseteq> set ps"
  shows "system_ok S (w', ps')"
  by (rule system_subset [OF assms(1,2) _ _ assms(4)])
    (use assms in \<open>auto simp: system_ok_def rules_ok_def\<close>)

lemma system_sameRules:
  assumes ok: "system_ok S (w, ps)" and on: "onward w w'" and same: "sameRules w w'"
  shows "system_ok S (w', ps)"
proof (rule system_step [OF ok on])
  have ids: "map rule_ID (t_rules (w_db w')) = map rule_ID (t_rules (w_db w))"
    using same unfolding sameRules_def by (rule cursorless_ids)
  then show "distinct (map rule_ID (t_rules (w_db w')))" using ok by (simp add: system_ok_def rules_ok_def)
  fix r' assume "r' \<in> set (t_rules (w_db w'))"
  then have "cursorless r' \<in> cursorless ` set (t_rules (w_db w))"
    using same by (metis image_eqI list.set_map sameRules_def)
  then obtain r where r: "r \<in> set (t_rules (w_db w))" "cursorless r = cursorless r'" by auto
  then have eq: "rule_ID r' = rule_ID r" "rule_Revision r' = rule_Revision r"
    "rule_TemplateKind r' = rule_TemplateKind r" "rule_TemplateSpec r' = rule_TemplateSpec r"
    using cursorless_eq [OF r(2)] by simp_all
  have "rules_ok S w" using ok by (simp add: system_ok_def)
  from old_successor [OF this on r(1)]
  show "successor w r' \<and> issued w' (rule_ID r') \<and> vetted S (jsonb w) r'"
    using r eq vetted_cursorless [OF r(2)] unfolding successor_def by metis
qed simp

subsection \<open>Creation\<close>

lemma insertRule_cases:
  assumes "insertRule x w = (q, w')"
  shows "t_rules (w_db w') = t_rules (w_db w) \<or>
    (\<exists>row. t_rules (w_db w') = t_rules (w_db w) @ [row] \<and> rule_ID x \<notin> rule_ID ` set (t_rules (w_db w))
       \<and> row = x\<lparr> rule_TemplateSpec := jsonb w (rule_TemplateSpec x), rule_CreatedAt := w_dbnow w,
                  rule_UpdatedAt := w_dbnow w \<rparr>)"
proof (cases q)
  case (Inl err)
  then show ?thesis using assms unfolding insertRule_def by (auto dest!: execute_Inl)
next
  case (Inr row)
  then show ?thesis using assms unfolding insertRule_def
    by (auto simp: Let_def exists_row_iff jsonb_def dest!: execute_Inr split: if_splits)
qed

text \<open>What identifies and checks a rule; the creation adds a cursor, times and the first revision.\<close>

definition sameSurface :: "rule \<Rightarrow> rule \<Rightarrow> bool" where
  "sameSurface r x \<longleftrightarrow> rule_ID r = rule_ID x \<and> rule_TemplateKind r = rule_TemplateKind x
     \<and> rule_ExplanationCEL r = rule_ExplanationCEL x \<and> rule_Schedule r = rule_Schedule x
     \<and> rule_Severity r = rule_Severity x \<and> rule_PeriodType r = rule_PeriodType x"

lemma CreateRule_cases:
  assumes "CreateRule parse x w = (q, w')" and "rule_PeriodType x \<noteq> ''''"
  shows "t_rules (w_db w') = t_rules (w_db w) \<or>
    (\<exists>row. t_rules (w_db w') = t_rules (w_db w) @ [row] \<and> rule_ID x \<notin> rule_ID ` set (t_rules (w_db w))
       \<and> sameSurface row x \<and> rule_TemplateSpec row = jsonb w (rule_TemplateSpec x))"
proof -
  define x1 where "x1 = (if rule_Revision x = 0 then x\<lparr> rule_Revision := 1 \<rparr> else x)"
  define sched where "sched = (if rule_Enabled x1 \<and> scheduled_kind (rule_Schedule x1) then
               bindA (wrapA ''read database time for rule schedule'' selectNow) (\<lambda>now.
               bindA (ofSum (Schedule_Next parse (rule_Schedule x1) now)) (\<lambda>next.
               returnA (if IsZero next then x1 else x1\<lparr> rule_NextRunAt := Some next \<rparr>)))
             else returnA x1)"
  have eq: "CreateRule parse x = bindA sched (\<lambda>rule. wrapA ''failed to create rule'' (insertRule rule))"
    unfolding CreateRule_def Let_def sched_def x1_def by (simp only: assms(2) if_False)
  have reads: "readsA sched" unfolding sched_def by (intro readsI)
  have on: "within onward sched" unfolding sched_def by (intro onward.intros)
  have row: "sameSurface y x \<and> rule_TemplateSpec y = rule_TemplateSpec x" if "sched w = (Inr y, w1)" for y w1
    using that by (auto simp: sched_def act_dest x1_def sameSurface_def split: if_splits)
  obtain s w1 where s: "sched w = (s, w1)" by fastforce
  have db: "w_db w1 = w_db w" using reads s by (auto simp: readsA_def)
  show ?thesis
  proof (cases s)
    case (Inl err)
    then show ?thesis using assms(1) s db unfolding eq bindA_def by simp
  next
    case (Inr y)
    then obtain q2 where "insertRule y w1 = (q2, w')"
      using assms(1) s unfolding eq bindA_def wrapA_def by (auto split: prod.splits sum.splits)
    from insertRule_cases [OF this] show ?thesis
      using row [OF s [unfolded Inr]] db jsonb_onward [OF withinD [OF on s]]
      by (auto simp: sameSurface_def intro!: exI)
  qed
qed

lemma ruleOf_fields: "rule_ID (ruleOf req i e) = i" "rule_TemplateSpec (ruleOf req i e) = crr_TemplateSpec req"
  by (simp_all add: ruleOf_def)

lemma create_step:
  assumes ok: "system_ok S (w, ps)" and run: "svc_CreateRule S reqo w = (q, w')"
  shows "system_ok S (w', ps)"
proof -
  have same: "system_ok S (w', ps)" if "onward w w'" "t_rules (w_db w') = t_rules (w_db w)"
    by (rule system_same [OF ok that]) simp
  have keep: "system_ok S (w, ps)" by (rule ok)
  show ?thesis
  proof (cases "\<exists>req0 reg req e. reqo = Some req0 \<and> sv_templates S = Some reg
      \<and> CreateRuleRequest_Validate (sv_parse S) req0 = Inr req
      \<and> checkTemplate ''template explanation_cel did not parse'' reg (sv_engine S) (crr_TemplateKind req) (crr_TemplateSpec req) = Inr e")
    case False
    then have "w' = w"
      using run by (auto simp: svc_CreateRule_def bindA_def ofSum_def failA_def split: option.splits sum.splits)
    then show ?thesis using keep by simp
  next
    case True
    then obtain req0 reg req e where req: "reqo = Some req0" "sv_templates S = Some reg"
      "CreateRuleRequest_Validate (sv_parse S) req0 = Inr req"
      "checkTemplate ''template explanation_cel did not parse'' reg (sv_engine S) (crr_TemplateKind req) (crr_TemplateSpec req) = Inr e"
      by blast
    define i w1 where "i = w_uuid w (w_uuids w)" and "w1 = w\<lparr> w_uuids := w_uuids w + 1 \<rparr>"
    have create: "CreateRule (sv_parse S) (ruleOf req i e) w1 = (q, w')"
      using run req by (simp add: svc_CreateRule_def bindA_def ofSum_def returnA_def tickA_def i_def w1_def)
    have on1: "onward w w1" by (simp add: onward_def w1_def)
    have on: "onward w w'"
      by (rule onward.trans [OF on1 withinD [OF onward_rules(1) create]])
    have j: "jsonb w1 = jsonb w" by (rule jsonb_onward [OF on1])
    have db: "w_db w1 = w_db w" by (simp add: w1_def)
    have chk: "rule_chk (ruleOf req i e)" by (rule ruleOf_chk [OF req(3)])
    then have "rule_PeriodType (ruleOf req i e) \<noteq> ''''" by (auto simp: rule_chk_def PeriodType_Valid_def)
    from CreateRule_cases [OF create this] show ?thesis
    proof
      assume "t_rules (w_db w') = t_rules (w_db w1)"
      then show ?thesis using same [OF on] by (simp add: w1_def)
    next
      assume "\<exists>row. t_rules (w_db w') = t_rules (w_db w1) @ [row] \<and> rule_ID (ruleOf req i e) \<notin> rule_ID ` set (t_rules (w_db w1))
         \<and> sameSurface row (ruleOf req i e) \<and> rule_TemplateSpec row = jsonb w1 (rule_TemplateSpec (ruleOf req i e))"
      then obtain row where row: "t_rules (w_db w') = t_rules (w_db w) @ [row]" "i \<notin> rule_ID ` set (t_rules (w_db w))"
        "sameSurface row (ruleOf req i e)" "rule_TemplateSpec row = jsonb w (crr_TemplateSpec req)"
        unfolding db j ruleOf_fields by blast
      have id: "rule_ID row = i" using row(3) by (simp add: sameSurface_def ruleOf_def)
      have rok: "rules_ok S w" using ok by (simp add: system_ok_def)
      have fresh: "\<not> issued w i"
        using rok by (auto simp: rules_ok_def issued_def i_def dest: injD)
      have new: "issued w' i"
        using on withinD [OF onward_rules(1) create] by (auto simp: issued_def i_def w1_def onward_def intro!: exI [of _ "w_uuids w"])
      have acc: "accepted S (crr_TemplateKind req) (crr_TemplateSpec req) e"
        using req(2,4) checkTemplate_accepted by blast
      have "vetted S (jsonb w) row"
        unfolding vetted_def
      proof (intro conjI exI [of _ "crr_TemplateSpec req"])
        show "rule_TemplateSpec row \<in> {crr_TemplateSpec req, jsonb w (crr_TemplateSpec req)}" using row(4) by simp
        show "accepted S (rule_TemplateKind row) (crr_TemplateSpec req) (rule_ExplanationCEL row)"
          using acc row(3) by (simp add: sameSurface_def ruleOf_def)
        show "validateSchedule (sv_parse S) (rule_Schedule row) = None"
          using Validate_Inr [OF req(3)] row(3) by (simp add: sameSurface_def ruleOf_def)
        show "rule_chk row" using chk row(3) by (simp add: sameSurface_def rule_chk_def)
      qed
      then show ?thesis
        using row fresh new id rok
        by (intro system_step [OF ok on])
          (auto simp: successor_def rules_ok_def dest: old_successor [OF rok on])
    qed
  qed
qed

subsection \<open>Patches\<close>

lemma preparePatch_frame: "within onward (preparePatch S i p)" "readsA (preparePatch S i p)"
  unfolding preparePatch_def GetRule_def
  by (intro onward.intros within_split, intro readsI)
    (auto split: option.split intro!: readsI)

lemma prepare_ok:
  assumes ok: "rules_ok S w" and run: "preparePatch S i p w = (Inr p', w')"
    and api: "rp_ExplanationCEL p = None" "rp_ExpectedRevision p = None"
  shows "patch_ok S w i p'"
proof -
  have fields: "\<forall>s. rp_Schedule p = Some s \<longrightarrow> validateSchedule (sv_parse S) (Some s) = None"
    "\<forall>s. rp_Severity p = Some s \<longrightarrow> Severity_Valid s"
    using run by (auto simp: preparePatch_def split: if_splits option.splits)
  show ?thesis
  proof (cases "rp_TemplateKind p = None \<and> rp_TemplateSpec p = None")
    case True
    then have "p' = p" using run by (auto simp: preparePatch_def split: if_splits option.splits)
    then show ?thesis using True api fields by (simp add: patch_ok_def)
  next
    case False
    then obtain reg rule e w1 where reg: "sv_templates S = Some reg" and get: "GetRule i w = (Inr rule, w1)"
      and chk: "checkTemplate ''explanation_cel did not parse'' reg (sv_engine S)
          (or_old (rp_TemplateKind p) (rule_TemplateKind rule)) (or_old (rp_TemplateSpec p) (rule_TemplateSpec rule)) = Inr e"
      and p': "p' = p\<lparr> rp_ExplanationCEL := Some e, rp_ExpectedRevision := Some (rule_Revision rule) \<rparr>"
      using run by (auto simp: preparePatch_def act_dest split: if_splits option.splits)
    have find: "List.find (\<lambda>r. rule_ID r = i) (t_rules (w_db w)) = Some rule"
      using get by (auto simp: GetRule_def dest!: selectOne_Inr)
    then have rule: "rule \<in> set (t_rules (w_db w))" "rule_ID rule = i"
      by (auto simp: find_Some_iff)
    have only: "r = rule" if "r \<in> set (t_rules (w_db w))" "rule_ID r = i" for r
      using that rule ok unfolding rules_ok_def by (metis distinct_map inj_onD)
    have "issued w i" using ok rule by (auto simp: rules_ok_def)
    moreover have "accepted S (or_old (rp_TemplateKind p) (rule_TemplateKind rule))
        (or_old (rp_TemplateSpec p) (rule_TemplateSpec rule)) e"
      using checkTemplate_accepted [OF reg] chk by blast
    ultimately show ?thesis using fields only by (auto simp: patch_ok_def p')
  qed
qed

lemma prepare_step:
  assumes ok: "system_ok S (w, ps)" and run: "preparePatch S i p w = (q, w')"
    and good: "\<And>p'. q = Inr p' \<Longrightarrow> rp_ExplanationCEL p = None \<and> rp_ExpectedRevision p = None"
  shows "system_ok S (w', (case q of Inl _ \<Rightarrow> ps | Inr p' \<Rightarrow> (i, p') # ps))"
proof -
  have on: "onward w w'" by (rule withinD [OF preparePatch_frame(1) run])
  have db: "w_db w' = w_db w" using preparePatch_frame(2) run by (auto simp: readsA_def)
  have same: "system_ok S (w', ps)" by (rule system_same [OF ok on]) (simp_all add: db)
  show ?thesis
  proof (cases q)
    case (Inl err)
    then show ?thesis using same by simp
  next
    case (Inr p')
    have rok: "rules_ok S w" using ok by (simp add: system_ok_def)
    have "patch_ok S w i p'"
      by (rule prepare_ok [OF rok run [unfolded Inr]]) (use good [OF Inr] in simp_all)
    then have "patch_ok S w' i p'"
      by (rule patch_ok_step [OF _ on]) (use old_successor [OF rok on] db in auto)
    then show ?thesis using same Inr by (simp add: system_ok_def)
  qed
qed

text \<open>What a committed patch makes of a rule it is good for.\<close>

lemma patched_vetted:
  assumes ok: "patch_ok S w i p" and r: "r \<in> set (t_rules (w_db w))" "rule_ID r = i" "vetted S (jsonb w) r"
    and rev: "rp_ExpectedRevision p = None \<or> rp_ExpectedRevision p = Some (rule_Revision r)"
  shows "vetted S (jsonb w) ((patch_fields (jsonb w) p r)\<lparr> rule_Revision := n, rule_NextRunAt := c, rule_UpdatedAt := t \<rparr>)"
    (is "vetted S _ ?r")
proof -
  let ?surface = "\<exists>raw. rule_TemplateSpec ?r \<in> {raw, jsonb w raw} \<and> accepted S (rule_TemplateKind ?r) raw (rule_ExplanationCEL ?r)"
  have surface: ?surface
  proof (cases "rp_TemplateKind p = None \<and> rp_TemplateSpec p = None \<and> rp_ExplanationCEL p = None")
    case True
    then show ?thesis using r(3) by (simp add: vetted_def patch_fields_def or_old_def)
  next
    case False
    then obtain v e where "rp_ExpectedRevision p = Some v" "rp_ExplanationCEL p = Some e"
      "rule_Revision r = v \<longrightarrow> accepted S (or_old (rp_TemplateKind p) (rule_TemplateKind r))
           (or_old (rp_TemplateSpec p) (rule_TemplateSpec r)) e"
      using ok r(1,2) by (auto simp: patch_ok_def)
    then show ?thesis using rev
      by (intro exI [of _ "or_old (rp_TemplateSpec p) (rule_TemplateSpec r)"])
        (auto simp: patch_fields_def or_old_def split: option.split)
  qed
  have "validateSchedule (sv_parse S) (rule_Schedule ?r) = None"
    using ok r(3) by (auto simp: patch_ok_def vetted_def patch_fields_def split: option.split)
  moreover have "rule_chk ?r"
    using ok r(3) by (auto simp: patch_ok_def vetted_def rule_chk_def patch_fields_def or_old_def split: option.split)
  ultimately show ?thesis using surface unfolding vetted_def by blast
qed

lemma PatchRule_cases:
  assumes run: "PatchRule parse i p w = (q, w')"
  obtains (same) "t_rules (w_db w') = t_rules (w_db w)"
  | (patched) current nxt where "q = Inr ()" "List.find (\<lambda>r. rule_ID r = i) (t_rules (w_db w)) = Some current"
    "rp_ExpectedRevision p = None \<or> rp_ExpectedRevision p = Some (rule_Revision current)"
    "t_rules (w_db w') = upd_where (\<lambda>r. rule_ID r = i)
       (\<lambda>r. (patch_fields (jsonb w) p r)\<lparr> rule_Revision := rule_Revision r + 1, rule_NextRunAt := nxt,
              rule_UpdatedAt := w_dbnow w \<rparr>) (t_rules (w_db w))"
proof (cases q)
  case (Inl err)
  then show ?thesis using run inTx_Inl same unfolding PatchRule_def by metis
next
  case (Inr u)
  then obtain w2 where w2: "patchRule parse i p w = (Inr (), w2)" "w_db w' = w_db w2"
    using inTx_Inr [of _ w u w'] run unfolding PatchRule_def by fastforce
  show ?thesis
  proof (cases "patch_touches p")
    case False
    then have "w_db w2 = w_db w"
      using w2(1) by (auto simp: patchRule_def act_dest existsRow_def dest!: selectMany_Inr split: if_splits)
    then show ?thesis using same w2(2) by simp
  next
    case True
    obtain current :: rule and w1 norm nxt js w3 where
      find: "List.find (\<lambda>r. rule_ID r = i) (t_rules (w_db w)) = Some current"
        "rp_ExpectedRevision p = None \<or> rp_ExpectedRevision p = Some (rule_Revision current)"
      and up: "w_db w1 = (w_db w)\<lparr> t_rules := upd_where (\<lambda>r. rule_ID r = i)
         (\<lambda>r. (patch_fields norm p r)\<lparr> rule_Revision := rule_Revision r + 1, rule_NextRunAt := nxt,
                rule_UpdatedAt := w_dbnow w \<rparr>) (t_rules (w_db w)) \<rparr>"
      and sup: "supersede i (rule_Revision current) w1 = (Inr js, w3)" and db: "w_db w2 = w_db w3" and norm: "norm = jsonb w"
      by (rule patchRule_Inr [OF w2(1) True]) (rule that, assumption+)
    have "t_rules (w_db w3) = t_rules (w_db w1)"
      using sup unfolding supersede_def updateJobs_def by (auto simp: Let_def dest!: execute_Inr split: if_splits)
    then show ?thesis using patched [OF _ find] Inr up db w2(2) norm by simp
  qed
qed

lemma commitPatch_run:
  assumes "commitPatch S i p w = (q, w')" shows "\<exists>q0. PatchRule (sv_parse S) i p w = (q0, w')"
proof -
  obtain r w1 where r: "PatchRule (sv_parse S) i p w = (r, w1)" by fastforce
  then have "w1 = w'" using assms by (cases r) (auto simp: commitPatch_def catchA_def split: if_splits)
  then show ?thesis using r by blast
qed

lemma commit_step:
  assumes ok: "system_ok S (w, ps)" and p: "(i, p) \<in> set ps" and run: "commitPatch S i p w = (q, w')"
  shows "system_ok S (w', remove1 (i, p) ps)"
proof -
  obtain q0 where patch: "PatchRule (sv_parse S) i p w = (q0, w')" using commitPatch_run [OF run] by blast
  have on: "onward w w'" by (rule withinD [OF onward_rules(2) patch])
  have sub: "set (remove1 (i, p) ps) \<subseteq> set ps" by (rule set_remove1_subset)
  have rok: "rules_ok S w" and pok: "patch_ok S w i p" using ok p by (auto simp: system_ok_def)
  from patch show ?thesis
  proof (cases rule: PatchRule_cases)
    case same
    then show ?thesis by (rule system_same [OF ok on _ sub])
  next
    case (patched current nxt)
    define g where "g = (\<lambda>r. (patch_fields (jsonb w) p r)\<lparr> rule_Revision := rule_Revision r + 1, rule_NextRunAt := nxt,
              rule_UpdatedAt := w_dbnow w \<rparr>)"
    have rules: "t_rules (w_db w') = upd_where (\<lambda>r. rule_ID r = i) g (t_rules (w_db w))"
      using patched(4) by (simp add: g_def)
    have id: "rule_ID (g r) = rule_ID r" "rule_Revision (g r) = rule_Revision r + 1" for r by (simp_all add: g_def)
    have current: "current \<in> set (t_rules (w_db w))" "rule_ID current = i"
      using patched(2) by (auto simp: find_Some_iff)
    have only: "r = current" if "r \<in> set (t_rules (w_db w))" "rule_ID r = i" for r
      using that current rok unfolding rules_ok_def by (metis distinct_map inj_onD)
    show ?thesis
    proof (rule system_step [OF ok on _ _ sub])
      have "map rule_ID (upd_where (\<lambda>r. rule_ID r = i) g (t_rules (w_db w))) = map rule_ID (t_rules (w_db w))"
        by (rule map_upd_where) (rule id(1))
      then show "distinct (map rule_ID (t_rules (w_db w')))" using rok rules by (simp add: rules_ok_def)
      fix r' assume r': "r' \<in> set (t_rules (w_db w'))"
      show "successor w r' \<and> issued w' (rule_ID r') \<and> vetted S (jsonb w) r'"
      proof (cases "r' \<in> set (t_rules (w_db w))")
        case True
        then show ?thesis by (rule old_successor [OF rok on])
      next
        case False
        then obtain r where r: "r \<in> set (t_rules (w_db w))" "rule_ID r = i" "r' = g r"
          using r' unfolding rules set_upd_where by blast
        have "vetted S (jsonb w) r" using rok r(1) by (simp add: rules_ok_def)
        from patched_vetted [OF pok r(1,2) this] have "vetted S (jsonb w) r'"
          using patched(3) only [OF r(1,2)] r(3) by (simp add: g_def)
        moreover have "issued w' (rule_ID r')" using old_successor [OF rok on r(1)] r(3) id by simp
        moreover have "successor w r'" unfolding successor_def using r id by (intro disjI2 bexI [of _ r]) simp_all
        ultimately show ?thesis by simp
      qed
    qed
  qed
qed

section \<open>The invariant\<close>

lemma delete_rules:
  assumes "svc_DeleteRule i w = (q, w')"
  shows "\<exists>keep. t_rules (w_db w') = filter keep (t_rules (w_db w))"
proof -
  have drop: "t_rules d' = filter (\<lambda>r. rule_ID r \<noteq> i) (t_rules d)" if "cascadeRule i d = Inr d'" for d d'
    using that by (auto simp: cascadeRule_def Let_def split: if_splits)
  have "t_rules (w_db w1) = t_rules (w_db w) \<or> t_rules (w_db w1) = filter (\<lambda>r. rule_ID r \<noteq> i) (t_rules (w_db w))"
    if "execute (\<lambda>w. let d = w_db w; n = length (filter (\<lambda>r. rule_ID r = i) (t_rules d)) in
         if n = 0 then Inr (d, n)
         else (case cascadeRule i d of Inl err \<Rightarrow> Inl err | Inr d' \<Rightarrow> Inr (d', n))) w = (q1, w1)" for q1 w1
    using that drop
    by (cases q1) (auto simp: Let_def dest!: execute_Inl execute_Inr split: if_splits sum.splits)
  then have "t_rules (w_db w') = t_rules (w_db w) \<or> t_rules (w_db w') = filter (\<lambda>r. rule_ID r \<noteq> i) (t_rules (w_db w))"
    using assms unfolding svc_DeleteRule_def DeleteRule_def bindA_def wrapA_def
    by (auto split: prod.splits sum.splits if_splits)
  moreover have "filter (\<lambda>_. True) (t_rules (w_db w)) = t_rules (w_db w)" by simp
  ultimately show ?thesis by metis
qed

lemma clients_ok: "clients S s s' \<Longrightarrow> system_ok S s \<Longrightarrow> system_ok S s'"
proof (induction rule: clients.induct)
  case (create req w q w' ps)
  show ?case by (rule create_step [OF create.prems create.hyps])
next
  case (prepare p i w p' w' ps)
  show ?case using prepare_step [OF prepare.prems prepare.hyps(3)] prepare.hyps(1,2) by simp
next
  case (refuse i p w err w' ps)
  show ?case using prepare_step [OF refuse.prems refuse.hyps] by simp
next
  case (commit i p ps w q w')
  show ?case by (rule commit_step [OF commit.prems commit.hyps])
next
  case (delete i w q w' ps)
  obtain keep where keep: "t_rules (w_db w') = filter keep (t_rules (w_db w))"
    using delete_rules [OF delete.hyps] by blast
  have "onward w w'" using withinD [OF onward_rules(3)] delete.hyps by (simp add: svc_DeleteRule_def)
  then show ?case
    by (rule system_subset [OF delete.prems])
      (use keep delete.prems in \<open>auto simp: system_ok_def rules_ok_def distinct_map intro: inj_on_subset\<close>)
next
  case (plan window n batch w q w' ps)
  show ?case
    by (rule system_sameRules [OF plan.prems withinD [OF PlanScheduledJobs_within(2) plan.hyps]
          withinD [OF PlanScheduledJobs_within(1) plan.hyps]])
next
  case (elsewhere w w' ps)
  show ?case by (rule system_same [OF elsewhere.prems elsewhere.hyps]) simp
qed

text \<open>
  C10. Whatever clients do to the rules at the same time, creating them, deleting them, planning and
  patching them, where the validation of a patch and its write are separate steps, every rule in the
  table was checked as a whole: its kind is registered and its template accepts its spec, its
  explanation is the one of that spec and compiles, its enumerations are valid, and its schedule is
  one whose next occurrence the planner can compute at any time. In particular a patch validated
  for one template surface is never written onto another.
\<close>

theorem stored_rules_are_checked:
  assumes "inj (w_uuid w0)" and "t_rules (w_db w0) = []"
    and "(clients S)\<^sup>*\<^sup>* (w0, []) (w, ps)" and "r \<in> set (t_rules (w_db w))"
  shows "vetted S (jsonb w) r \<and> (\<forall>now. \<exists>t. Schedule_Next (sv_parse S) (rule_Schedule r) now = Inr t)"
proof -
  have "system_ok S (w0, [])" using assms(1,2) by (simp add: system_ok_def rules_ok_def)
  moreover have "system_ok S s'" if "(clients S)\<^sup>*\<^sup>* s s'" "system_ok S s" for s s'
    using that by (induction rule: rtranclp_induct) (auto intro: clients_ok)
  ultimately have "system_ok S (w, ps)" using assms(3) by blast
  then have "vetted S (jsonb w) r" using assms(4) by (simp add: system_ok_def rules_ok_def)
  then show ?thesis using validateSchedule_Next by (simp add: vetted_def)
qed

text \<open>
  C36. A patch of a rule's template surface that was validated for a revision the rule no longer has is
  refused as \<open>ErrRuleChanged\<close>, whatever happened in between, and changes nothing.
\<close>

theorem stale_patch_refused:
  assumes prepared: "preparePatch S i p w = (Inr p', w1)"
    and surface: "rp_TemplateKind p \<noteq> None \<or> rp_TemplateSpec p \<noteq> None"
    and was: "List.find (\<lambda>r. rule_ID r = i) (t_rules (w_db w)) = Some r"
    and now: "List.find (\<lambda>r. rule_ID r = i) (t_rules (w_db w2)) = Some r2"
    and moved: "rule_Revision r2 \<noteq> rule_Revision r" and fault: "w_fault w2 (w_stmts w2) = None"
  shows "\<exists>err w3. commitPatch S i p' w2 = (Inl err, w3) \<and> errors_Is err ErrRuleChanged \<and> w_db w3 = w_db w2"
proof -
  obtain e where p': "p' = p\<lparr> rp_ExplanationCEL := Some e, rp_ExpectedRevision := Some (rule_Revision r) \<rparr>"
    using prepared surface was
    by (auto simp: preparePatch_def GetRule_def act_dest dest!: selectOne_Inr split: if_splits option.splits)
  have touches: "patch_touches p'" by (simp add: patch_touches_def p')
  have load: "selectOne t_rules (\<lambda>r. rule_ID r = i) w2 = (Inr r2, w2\<lparr> w_stmts := w_stmts w2 + 1 \<rparr>)"
    using now fault by (simp add: selectOne_def)
  have "patchRule (sv_parse S) i p' w2 = (Inl (sent ErrRuleRevisionConflict), w2\<lparr> w_stmts := w_stmts w2 + 1 \<rparr>)"
    using touches load moved
    by (simp add: patchRule_def bindA_def wrapA_def failA_def) (simp add: p' failA_def)
  then have "PatchRule (sv_parse S) i p' w2 = (Inl (sent ErrRuleRevisionConflict),
      w2\<lparr> w_stmts := w_stmts w2 + 1 \<rparr>\<lparr> w_db := w_db w2 \<rparr>)"
    by (simp add: PatchRule_def inTx_def)
  then show ?thesis by (simp add: commitPatch_def catchA_def failA_def)
qed

section \<open>Examples\<close>

definition exampleService :: ruleService where
  "exampleService = \<lparr> sv_templates = Some (projr DefaultRegistry), sv_engine = Some toy_engine, sv_parse = everyTen \<rparr>"

definition exampleRequest :: createRuleRequest where
  "exampleRequest = zeroCreateRule\<lparr> crr_Name := ''r'', crr_TemplateKind := TemplateSourceParity,
     crr_TemplateSpec := parity_example_raw \<rparr>"

definition createdWorld :: world where
  "createdWorld = snd (svc_CreateRule exampleService (Some exampleRequest) emptyWorld)"

text \<open>A patch of the kind is validated, another client's renaming is validated and written, then the first is written.\<close>

definition renaming :: rulePatch where
  "renaming = renameRule\<lparr> rp_ExpectedRevision := None \<rparr>"

definition surfacePatch :: rulePatch where
  "surfacePatch = renaming\<lparr> rp_Name := None, rp_TemplateKind := Some TemplateSourceParity \<rparr>"

definition prepared :: "(gerror + rulePatch) \<times> world" where
  "prepared = preparePatch exampleService 100 surfacePatch createdWorld"

definition renamedWorld :: world where
  "renamedWorld = snd (commitPatch exampleService 100 renaming (snd prepared))"

definition one_rule :: "int \<Rightarrow> world \<Rightarrow> bool" where
  "one_rule revision w \<longleftrightarrow> map (\<lambda>r. (rule_ID r, rule_Revision r)) (t_rules (w_db w)) = [(100, revision)]
     \<and> w_fault w (w_stmts w) = None"

definition check_prepared :: "(gerror + rulePatch) \<times> world \<Rightarrow> bool" where
  "check_prepared p \<longleftrightarrow> \<not> isl (fst p) \<and> one_rule 2 (snd (commitPatch exampleService 100 renaming (snd p)))"

definition check_created :: "world \<Rightarrow> bool" where
  "check_created w \<longleftrightarrow> one_rule 1 w \<and> check_prepared (preparePatch exampleService 100 surfacePatch w)"

lemma example_clients_run: "check_created createdWorld"
  by code_simp

lemma example_clients:
  "one_rule 1 createdWorld" "one_rule 2 renamedWorld" "\<exists>p w. prepared = (Inr p, w)"
proof -
  have "one_rule 1 createdWorld \<and> \<not> isl (fst prepared) \<and> one_rule 2 renamedWorld"
    using example_clients_run unfolding check_created_def check_prepared_def prepared_def renamedWorld_def by blast
  then show "one_rule 1 createdWorld" "one_rule 2 renamedWorld" "\<exists>p w. prepared = (Inr p, w)"
    by (simp_all add: isl_def) (metis prod.collapse sum.exhaust)
qed

lemma renaming_prepared: "preparePatch exampleService 100 renaming w = (Inr renaming, w)"
  by (simp add: preparePatch_def renaming_def renameRule_def returnA_def)

theorem stored_rules_are_checked_witness:
  "\<exists>ps r. (clients exampleService)\<^sup>*\<^sup>* (emptyWorld, []) (renamedWorld, ps) \<and> r \<in> set (t_rules (w_db renamedWorld))
     \<and> rule_Revision r = 2 \<and> vetted exampleService (jsonb renamedWorld) r"
proof -
  obtain p' w1 where p': "prepared = (Inr p', w1)" using example_clients(3) by blast
  let ?S = exampleService
  obtain q where "svc_CreateRule ?S (Some exampleRequest) emptyWorld = (q, createdWorld)"
    unfolding createdWorld_def by (metis prod.collapse)
  then have 1: "clients ?S (emptyWorld, []) (createdWorld, [])" by (rule clients.create)
  have 2: "clients ?S (createdWorld, []) (w1, [(100, p')])"
    by (rule clients.prepare [OF _ _ p' [unfolded prepared_def]]) (simp_all add: surfacePatch_def renaming_def renameRule_def)
  have "clients ?S (w1, [(100, p')]) (w1, [(100, renaming), (100, p')])"
    by (rule clients.prepare [OF _ _ renaming_prepared]) (simp_all add: renaming_def renameRule_def)
  moreover obtain q where "commitPatch ?S 100 renaming w1 = (q, renamedWorld)"
    unfolding renamedWorld_def p' by (metis prod.collapse snd_conv)
  then have "clients ?S (w1, [(100, renaming), (100, p')]) (renamedWorld, remove1 (100, renaming) [(100, renaming), (100, p')])"
    by (rule clients.commit [rotated]) simp
  ultimately obtain ps where "(clients ?S)\<^sup>*\<^sup>* (emptyWorld, []) (renamedWorld, ps)"
    using 1 2 by (meson converse_rtranclp_into_rtranclp rtranclp.rtrancl_refl)
  moreover obtain r where "r \<in> set (t_rules (w_db renamedWorld))" "rule_Revision r = 2"
    using example_clients(2) by (auto simp: one_rule_def)
  ultimately show ?thesis
    using stored_rules_are_checked [of emptyWorld ?S renamedWorld ps r] by (auto simp: emptyWorld_def inj_def)
qed

theorem stale_patch_refused_witness:
  "\<exists>err. fst (commitPatch exampleService 100 (projr (fst prepared)) renamedWorld) = Inl err \<and> errors_Is err ErrRuleChanged"
proof -
  obtain p' w1 where p': "prepared = (Inr p', w1)" using example_clients(3) by blast
  obtain r r2 where "t_rules (w_db createdWorld) = [r]" "t_rules (w_db renamedWorld) = [r2]"
    and "rule_ID r = 100" "rule_ID r2 = 100" "rule_Revision r = 1" "rule_Revision r2 = 2"
    using example_clients(1,2) by (auto simp: one_rule_def)
  then have "\<exists>err w3. commitPatch exampleService 100 p' renamedWorld = (Inl err, w3) \<and> errors_Is err ErrRuleChanged
      \<and> w_db w3 = w_db renamedWorld"
    by (intro stale_patch_refused [OF p' [unfolded prepared_def], where r = r and ?r2.0 = r2])
      (use example_clients(2) in \<open>simp_all add: surfacePatch_def renaming_def one_rule_def\<close>)
  then obtain err w3 where "commitPatch exampleService 100 p' renamedWorld = (Inl err, w3)" "errors_Is err ErrRuleChanged"
    by blast
  moreover have "projr (fst prepared) = p'" unfolding p' by simp
  ultimately show ?thesis by (intro exI [of _ err]) simp
qed

end
