(* ===== verification/Queries.thy ===== *)
theory Queries
  imports RuleStore AlertStore Json
begin

text \<open>
  The paginated lists of the store: the query contexts that turn the filters of a request into SQL
  conditions, and the select queries built around them, in
  \<open>internal/storage/{rule,evaluation,alert,policy,reconciliations,utils}.go\<close>. The query language and
  the offset pagination of \<open>go-libs\<close>, and its table of comparison operators, are parameters; the quotation marks in the texts of the errors are left out. The
  lemma shows what a filter can put into the text of a query.
\<close>

section \<open>Filters\<close>

text \<open>
  A condition with its arguments; a context gives the condition of one comparison \<open>key op value\<close>, and
  a query builder assembles those of its comparisons. \<open>ops\<close> is \<open>DefaultComparisonOperatorsMapping\<close>.
\<close>

type_synonym clause = "string \<times> json list"
type_synonym queryContext = "string \<Rightarrow> string \<Rightarrow> json \<Rightarrow> gerror + clause"
type_synonym queryBuilder = "queryContext \<Rightarrow> gerror + clause"
type_synonym operators = "string \<Rightarrow> string option"

definition invalidQuery :: "string \<Rightarrow> gerror + 'a" where
  "invalidQuery m = Inl (wrap_error m (sent ErrInvalidQuery))"

definition matchOnly :: "string \<Rightarrow> string \<Rightarrow> clause \<Rightarrow> gerror + clause" where
  "matchOnly m operator c = (if operator \<noteq> ''$match'' then invalidQuery m else Inr c)"

definition compareWith :: "operators \<Rightarrow> string \<Rightarrow> string \<Rightarrow> string \<Rightarrow> json \<Rightarrow> gerror + clause" where
  "compareWith ops key col operator v =
     (case ops operator of
        None \<Rightarrow> invalidQuery (''operator '' @ operator @ '' is not supported for '' @ key)
      | Some sqlOperator \<Rightarrow> Inr (col @ '' '' @ sqlOperator @ '' ?'', [v]))"

definition ruleContext :: "operators \<Rightarrow> queryContext" where
  "ruleContext ops key operator v =
     (if key \<in> {''id'', ''name''} then
        matchOnly ''id and name columns can only be used with $match'' operator (key @ '' = ?'', [v])
      else if key = ''templateKind'' then
        matchOnly ''templateKind can only be used with $match'' operator (''template_kind = ?'', [v])
      else if key = ''enabled'' then
        matchOnly ''enabled can only be used with $match'' operator (''enabled = ?'', [v])
      else if key \<in> {''createdAt'', ''updatedAt''} then
        compareWith ops key (if key = ''updatedAt'' then ''updated_at'' else ''created_at'') operator v
      else invalidQuery (''unknown key '' @ key @ '' when building rule query''))"

definition evaluationContext :: "operators \<Rightarrow> queryContext" where
  "evaluationContext ops key operator v =
     (if key \<in> {''id'', ''result''} then
        matchOnly ''id / result can only be used with $match'' operator (key @ '' = ?'', [v])
      else if key = ''ruleID'' then
        matchOnly ''ruleID can only be used with $match'' operator (''rule_id = ?'', [v])
      else if key \<in> {''createdAt'', ''startedAt'', ''endedAt''} then
        compareWith ops key (if key = ''createdAt'' then ''created_at''
                             else if key = ''startedAt'' then ''started_at'' else ''ended_at'') operator v
      else invalidQuery (''unknown key '' @ key @ '' when building evaluation query''))"

definition alertContext :: "operators \<Rightarrow> queryContext" where
  "alertContext ops key operator v =
     (if key \<in> {''id'', ''status'', ''severity'', ''fingerprint''} then
        matchOnly (key @ '' can only be used with $match'') operator (key @ '' = ?'', [v])
      else if key = ''ruleID'' then
        matchOnly ''ruleID can only be used with $match'' operator (''rule_id = ?'', [v])
      else if key = ''periodID'' then
        matchOnly ''periodID can only be used with $match'' operator (''period_id = ?'', [v])
      else if key \<in> {''firstSeenAt'', ''lastSeenAt''} then
        compareWith ops key (if key = ''firstSeenAt'' then ''first_seen_at'' else ''last_seen_at'') operator v
      else invalidQuery (''unknown key '' @ key @ '' when building alert query''))"

text \<open>The legacy contexts also insist on string values.\<close>

definition stringOnly :: "string \<Rightarrow> json \<Rightarrow> gerror + clause \<Rightarrow> gerror + clause" where
  "stringOnly m v c =
     (case c of
        Inl err \<Rightarrow> Inl err
      | Inr cl \<Rightarrow> (case v of JStr _ \<Rightarrow> Inr cl | _ \<Rightarrow> invalidQuery m))"

definition policyContext :: "operators \<Rightarrow> queryContext" where
  "policyContext ops key operator v =
     (if key \<in> {''id'', ''name''} then
        matchOnly ''id and name columns can only be used with $match'' operator (key @ '' = ?'', [v])
      else if key = ''createdAt'' then compareWith ops key ''created_at'' operator v
      else if key = ''ledgerQuery'' then
        stringOnly ''ledgerQuery column can only be used with string'' v
          (matchOnly ''ledgerQuery column can only be used with $match'' operator (''ledger_query = ?'', [v]))
      else if key = ''ledgerName'' then
        stringOnly ''ledgerName column can only be used with string'' v
          (matchOnly ''ledgerName column can only be used with $match'' operator (''ledger_name = ?'', [v]))
      else if key = ''paymentsPoolID'' then
        stringOnly ''paymentsPoolID column can only be used with string'' v
          (matchOnly ''paymentsPoolID column can only be used with $match'' operator (''payments_pool_id = ?'', [v]))
      else invalidQuery (''unknown key '' @ key @ '' when building query''))"

definition reconciliationContext :: "operators \<Rightarrow> queryContext" where
  "reconciliationContext ops key operator v =
     (if key \<in> {''id'', ''status''} then
        matchOnly ''id and status columns can only be used with $match'' operator (key @ '' = ?'', [v])
      else if key = ''policyID'' then
        stringOnly ''policyID column can only be used with string'' v
          (matchOnly ''policyID column can only be used with $match'' operator (''policy_id = ?'', [v]))
      else if key = ''createdAt'' then compareWith ops key ''created_at'' operator v
      else invalidQuery (''unknown key '' @ key @ '' when building query''))"

section \<open>Select queries\<close>

record selectQuery =
  sq_Order :: "string list"
  sq_Where :: "clause list"

definition buildListQuery :: "string list \<Rightarrow> clause option \<Rightarrow> selectQuery" where
  "buildListQuery order cond =
     \<lparr> sq_Order = order, sq_Where = (case cond of None \<Rightarrow> [] | Some c \<Rightarrow> if fst c \<noteq> '''' then [c] else []) \<rparr>"

record rulesFilters =
  EnabledOnly :: bool
  ScheduleKind :: scheduleKind

definition buildRuleListQuery :: "clause option \<Rightarrow> rulesFilters \<Rightarrow> selectQuery" where
  "buildRuleListQuery cond filters =
     (let q = buildListQuery [''created_at DESC''] cond;
          q = (if EnabledOnly filters then q\<lparr> sq_Where := sq_Where q @ [(''enabled = ?'', [JBool True])] \<rparr> else q) in
      if ScheduleKind filters \<noteq> '''' then
        q\<lparr> sq_Where := sq_Where q @ [(''schedule->>'' @ [CHR 0x27] @ ''kind'' @ [CHR 0x27] @ '' = ?'', [JStr (ScheduleKind filters)])] \<rparr>
      else q)"

text \<open>
  What a list asks for: its page size, its filter and, for rules, the fixed filters; the pagination
  of \<open>go-libs\<close> runs the select query for it and returns a page.
\<close>

datatype pageOrder = OrderAsc | OrderDesc

record paginatedOptions =
  po_QueryBuilder :: "queryBuilder option"
  po_PageSize :: nat
  po_Filters :: rulesFilters

record pageQuery =
  pq_PageSize :: nat
  pq_Order :: pageOrder
  pq_Options :: paginatedOptions

definition noFilters :: rulesFilters where
  "noFilters = \<lparr> EnabledOnly = False, ScheduleKind = '''' \<rparr>"

definition NewPaginatedQueryOptions :: "nat \<Rightarrow> rulesFilters \<Rightarrow> paginatedOptions" where
  "NewPaginatedQueryOptions defaultSize filters =
     \<lparr> po_QueryBuilder = None, po_PageSize = defaultSize, po_Filters = filters \<rparr>"

definition NewGetQuery :: "paginatedOptions \<Rightarrow> pageQuery" where
  "NewGetQuery opts = \<lparr> pq_PageSize = po_PageSize opts, pq_Order = OrderAsc, pq_Options = opts \<rparr>"

type_synonym 'r paginator = "selectQuery \<Rightarrow> pageQuery \<Rightarrow> 'r list act"

definition whereOf :: "queryContext \<Rightarrow> pageQuery \<Rightarrow> gerror + clause option" where
  "whereOf ctx q =
     (case po_QueryBuilder (pq_Options q) of
        None \<Rightarrow> Inr None
      | Some build \<Rightarrow> (case build ctx of Inl err \<Rightarrow> Inl err | Inr c \<Rightarrow> Inr (Some c)))"

definition ListRules :: "operators \<Rightarrow> rule paginator \<Rightarrow> pageQuery \<Rightarrow> rule list act" where
  "ListRules ops paginate q =
     bindA (ofSum (whereOf (ruleContext ops) q)) (\<lambda>cond.
     paginate (buildRuleListQuery cond (po_Filters (pq_Options q))) q)"

definition ListEvaluations :: "operators \<Rightarrow> evaluation paginator \<Rightarrow> pageQuery \<Rightarrow> evaluation list act" where
  "ListEvaluations ops paginate q =
     bindA (ofSum (whereOf (evaluationContext ops) q)) (\<lambda>cond.
     paginate (buildListQuery [''created_at DESC''] cond) q)"

definition ListAlerts :: "operators \<Rightarrow> alert paginator \<Rightarrow> pageQuery \<Rightarrow> alert list act" where
  "ListAlerts ops paginate q =
     bindA (ofSum (whereOf (alertContext ops) q)) (\<lambda>cond.
     paginate (buildListQuery [''last_seen_at DESC'', ''id DESC''] cond) q)"

definition ListPolicies :: "operators \<Rightarrow> policy paginator \<Rightarrow> pageQuery \<Rightarrow> policy list act" where
  "ListPolicies ops paginate q =
     bindA (ofSum (whereOf (policyContext ops) q)) (\<lambda>cond.
     paginate (buildListQuery [''created_at DESC''] cond) q)"

definition ListReconciliations :: "operators \<Rightarrow> reconciliation paginator \<Rightarrow> pageQuery \<Rightarrow> reconciliation list act" where
  "ListReconciliations ops paginate q =
     bindA (ofSum (whereOf (reconciliationContext ops) q)) (\<lambda>cond.
     paginate (buildListQuery [''created_at DESC''] cond) q)"

text \<open>The argument of the condition is the alert's id, which the model keeps outside JSON.\<close>

definition ListAlertEvents :: "(uuid \<Rightarrow> json) \<Rightarrow> alertEvent paginator \<Rightarrow> uuid \<Rightarrow> pageQuery \<Rightarrow> alertEvent list act" where
  "ListAlertEvents arg paginate alertID q =
     bindA (wrapA ''check alert before listing events'' (existsRow t_alerts (\<lambda>a. alert_ID a = alertID))) (\<lambda>found.
     if \<not> found then failA (e_wrap ''list alert events'' (sent ErrNotFound))
     else paginate \<lparr> sq_Order = [''at DESC'', ''id DESC''], sq_Where = [(''alert_id = ?'', [arg alertID])] \<rparr> q)"

section \<open>Properties\<close>

text \<open>The columns a filter of a list may name.\<close>

definition rule_columns :: "string list" where
  "rule_columns = [''id'', ''name'', ''template_kind'', ''enabled'', ''created_at'', ''updated_at'']"
definition evaluation_columns :: "string list" where
  "evaluation_columns = [''id'', ''result'', ''rule_id'', ''created_at'', ''started_at'', ''ended_at'']"
definition alert_columns :: "string list" where
  "alert_columns = [''id'', ''status'', ''severity'', ''fingerprint'', ''rule_id'', ''period_id'', ''first_seen_at'', ''last_seen_at'']"
definition policy_columns :: "string list" where
  "policy_columns = [''id'', ''name'', ''created_at'', ''ledger_query'', ''ledger_name'', ''payments_pool_id'']"
definition reconciliation_columns :: "string list" where
  "reconciliation_columns = [''id'', ''status'', ''policy_id'', ''created_at'']"

text \<open>
  A context is safe for some columns when every condition it makes is one of them, an equality or an
  operator of the table, and a placeholder, with the value as its only argument; all else is refused
  as an invalid query.
\<close>

definition safe_context :: "operators \<Rightarrow> string list \<Rightarrow> queryContext \<Rightarrow> bool" where
  "safe_context ops columns ctx \<longleftrightarrow>
     (\<forall>key operator v.
        (case ctx key operator v of
           Inl err \<Rightarrow> errors_Is err ErrInvalidQuery
         | Inr (sql, args) \<Rightarrow> args = [v] \<and>
             (\<exists>col\<in>set columns. (operator = ''$match'' \<and> sql = col @ '' = ?'')
                \<or> (\<exists>op. ops operator = Some op \<and> sql = col @ '' '' @ op @ '' ?''))))"

lemma invalidQuery_Is [simp]: "invalidQuery m = Inl err \<Longrightarrow> errors_Is err ErrInvalidQuery"
  "invalidQuery m \<noteq> Inr c"
  by (auto simp: invalidQuery_def)

definition safe_clause :: "operators \<Rightarrow> string list \<Rightarrow> string \<Rightarrow> json \<Rightarrow> gerror + clause \<Rightarrow> bool" where
  "safe_clause ops columns operator v r =
     (case r of
        Inl err \<Rightarrow> errors_Is err ErrInvalidQuery
      | Inr (sql, args) \<Rightarrow> args = [v] \<and>
          (\<exists>col\<in>set columns. (operator = ''$match'' \<and> sql = col @ '' = ?'')
             \<or> (\<exists>op. ops operator = Some op \<and> sql = col @ '' '' @ op @ '' ?'')))"

lemma safe_pieces:
  "safe_clause ops columns operator v (invalidQuery m)"
  "col \<in> set columns \<Longrightarrow> safe_clause ops columns operator v (matchOnly m operator (col @ '' = ?'', [v]))"
  "col \<in> set columns \<Longrightarrow> safe_clause ops columns operator v (compareWith ops key col operator v)"
  "safe_clause ops columns operator v r \<Longrightarrow> safe_clause ops columns operator v (stringOnly m v r)"
  by (auto simp: safe_clause_def invalidQuery_def matchOnly_def compareWith_def stringOnly_def
      split: option.split sum.split json.split)

lemma safe_contextI: "(\<And>key operator v. safe_clause ops columns operator v (ctx key operator v)) \<Longrightarrow> safe_context ops columns ctx"
  by (simp add: safe_context_def safe_clause_def)


text \<open>
  C35. No list filter writes into its query. For each of the five filtered lists, every comparison of
  a filter becomes a condition on a column of the table, with an equality for \<open>$match\<close> or an operator of the
  comparison table and a placeholder, and its value becomes the argument of that placeholder; every
  other key, operator or, in the legacy lists, value is refused as an invalid query.
\<close>

theorem filters_are_parameterised:
  "safe_context ops rule_columns (ruleContext ops) \<and> safe_context ops evaluation_columns (evaluationContext ops)
   \<and> safe_context ops alert_columns (alertContext ops) \<and> safe_context ops policy_columns (policyContext ops)
   \<and> safe_context ops reconciliation_columns (reconciliationContext ops)"
proof (intro conjI)
  note pieces = safe_clause_def invalidQuery_def matchOnly_def compareWith_def stringOnly_def
  show "safe_context ops rule_columns (ruleContext ops)"
    by (rule safe_contextI) (auto simp: pieces ruleContext_def rule_columns_def split: option.split)
  show "safe_context ops evaluation_columns (evaluationContext ops)"
    by (rule safe_contextI) (auto simp: pieces evaluationContext_def evaluation_columns_def split: option.split)
  show "safe_context ops alert_columns (alertContext ops)"
    by (rule safe_contextI) (auto simp: pieces alertContext_def alert_columns_def split: option.split)
  show "safe_context ops policy_columns (policyContext ops)"
    by (rule safe_contextI) (auto simp: pieces policyContext_def policy_columns_def split: option.split json.split)
  show "safe_context ops reconciliation_columns (reconciliationContext ops)"
    by (rule safe_contextI) (auto simp: pieces reconciliationContext_def reconciliation_columns_def split: option.split json.split)
qed

end
