(* ===== verification/AlertService.thy ===== *)
theory AlertService
  imports AlertStore Runner Queries
begin

text \<open>
  The alert and evaluation operations of the service layer, \<open>internal/api/service/{alert,evaluation}.go\<close>:
  what an operator must say to acknowledge, resolve, accept, snooze or unsnooze an alert, and the
  calls that only pass through to the store or the runner. A nil request is \<open>None\<close>.
\<close>

record ackAlertRequest =
  ackq_By :: string
  ackq_Note :: string

record resolveAlertRequest =
  resq_By :: string
  resq_Note :: string
  resq_TransactionRefs :: "string list"

record acceptAlertRequest =
  accq_By :: string
  accq_Note :: string

record snoozeAlertRequest =
  snoq_By :: string
  snoq_Until :: time
  snoq_Note :: string

record unsnoozeAlertRequest =
  unsq_By :: string

text \<open>The refusal of a field: \<open>validation error: ack: 'by' is required\<close>.\<close>

definition refused :: "string \<Rightarrow> string \<Rightarrow> string \<Rightarrow> 'a act" where
  "refused operation name why =
     failA (errorf ErrValidation (operation @ '': '' @ [CHR 0x27] @ name @ [CHR 0x27] @ why))"

definition svc_AckAlert :: "uuid \<Rightarrow> ackAlertRequest option \<Rightarrow> alert act" where
  "svc_AckAlert i reqo =
     (case reqo of
        None \<Rightarrow> refused ''ack'' ''by'' '' is required''
      | Some req \<Rightarrow>
          if ackq_By req = '''' then refused ''ack'' ''by'' '' is required''
          else bindA (tickA goNow) (\<lambda>now.
               AckAlert i \<lparr> Ack_By = ackq_By req, Ack_At = now, Ack_Note = ackq_Note req \<rparr>))"

definition svc_ResolveAlert :: "uuid \<Rightarrow> resolveAlertRequest option \<Rightarrow> alert act" where
  "svc_ResolveAlert i reqo =
     (case reqo of
        None \<Rightarrow> refused ''resolve'' ''by'' '' is required''
      | Some req \<Rightarrow>
          if resq_By req = '''' then refused ''resolve'' ''by'' '' is required''
          else bindA (tickA goNow) (\<lambda>now.
               ResolveAlertManual i \<lparr> Res_Kind = ResolutionFixedByBooking, Res_By = resq_By req, Res_At = now,
                 Res_Note = resq_Note req, Res_TransactionRefs = resq_TransactionRefs req, Res_EvidenceSnapshot = '''' \<rparr>))"

definition svc_AcceptAlert :: "uuid \<Rightarrow> acceptAlertRequest option \<Rightarrow> alert act" where
  "svc_AcceptAlert i reqo =
     (case reqo of
        None \<Rightarrow> refused ''accept'' ''by'' '' is required''
      | Some req \<Rightarrow>
          if accq_By req = '''' then refused ''accept'' ''by'' '' is required''
          else if accq_Note req = '''' then
            refused ''accept'' ''note'' '' is required for business acceptance''
          else bindA (tickA goNow) (\<lambda>now.
               AcceptAlert i \<lparr> Res_Kind = ResolutionAcceptedByBusiness, Res_By = accq_By req, Res_At = now,
                 Res_Note = accq_Note req, Res_TransactionRefs = [], Res_EvidenceSnapshot = '''' \<rparr>))"

definition svc_SnoozeAlert :: "uuid \<Rightarrow> snoozeAlertRequest option \<Rightarrow> alert act" where
  "svc_SnoozeAlert i reqo =
     (case reqo of
        None \<Rightarrow> refused ''snooze'' ''by'' '' is required''
      | Some req \<Rightarrow>
          if snoq_By req = '''' then refused ''snooze'' ''by'' '' is required''
          else if IsZero (snoq_Until req) then
            refused ''snooze'' ''until'' '' is required''
          else bindA (tickA goNow) (\<lambda>now.
               if \<not> After (snoq_Until req) now then
                 refused ''snooze'' ''until'' '' must be in the future''
               else SnoozeAlert i (snoq_Until req) (snoq_By req) (snoq_Note req)))"

definition svc_UnsnoozeAlert :: "uuid \<Rightarrow> unsnoozeAlertRequest option \<Rightarrow> alert act" where
  "svc_UnsnoozeAlert i reqo =
     (case reqo of
        None \<Rightarrow> refused ''unsnooze'' ''by'' '' is required''
      | Some req \<Rightarrow>
          if unsq_By req = '''' then refused ''unsnooze'' ''by'' '' is required''
          else UnsnoozeAlert i (unsq_By req))"

definition svc_GetAlert :: "uuid \<Rightarrow> alert act" where "svc_GetAlert i = GetAlert i"

definition svc_EvaluateRule :: "runner \<Rightarrow> uuid \<Rightarrow> evaluateRequest \<Rightarrow> evaluation act" where
  "svc_EvaluateRule R ruleID req = Evaluate_rule R sqlStore ruleID req"

definition svc_GetEvaluation :: "uuid \<Rightarrow> evaluation act" where "svc_GetEvaluation i = GetEvaluation i"

end
