(* ===== verification/Http.thy ===== *)
theory Http
  imports AlertService RuleService Policies TimeText
begin

text \<open>
  The HTTP API, \<open>internal/api/*.go\<close>: the routes, the decoding and the checks of each request, the
  service call, the mapping of its errors to responses, and the documents returned. A response is
  the call of the \<open>go-libs\<close> response writer the handler ends with. The router, the authentication
  and audit middleware, the query language, the cursors and the SQL pagination are parameters or
  left out; \<open>json.Decoder\<close> and \<open>strconv.ParseUint\<close> are modelled.
\<close>

section \<open>Requests and responses\<close>

text \<open>The path parameter of the route, the body, and the query parameters, absent ones being empty.\<close>

record request =
  hr_Param :: string
  hr_Body :: string
  hr_Query :: "string \<Rightarrow> string"

abbreviation CodeInvalidID :: string where "CodeInvalidID \<equiv> ''INVALID_ID''"
abbreviation CodeMissingOrInvalidBody :: string where "CodeMissingOrInvalidBody \<equiv> ''MISSING_OR_INVALID_BODY''"
abbreviation CodeValidation :: string where "CodeValidation \<equiv> ''VALIDATION''"
abbreviation CodeRuleBusy :: string where "CodeRuleBusy \<equiv> ''RULE_BUSY''"
abbreviation CodeRuleChanged :: string where "CodeRuleChanged \<equiv> ''RULE_CHANGED''"

record ruleResponse =
  rur_ID :: string
  rur_Name :: string
  rur_TemplateKind :: string
  rur_TemplateSpec :: rawJSON
  rur_ExplanationCEL :: string
  rur_Enabled :: bool
  rur_Severity :: string
  rur_PeriodType :: string
  rur_Cadence :: string
  rur_Schedule :: "schedule option"
  rur_Notifications :: "string list"
  rur_Labels :: "(string \<times> string) list"
  rur_CreatedAt :: time
  rur_UpdatedAt :: time

record alertResponse =
  alr_ID :: string
  alr_RuleID :: string
  alr_Fingerprint :: string
  alr_PeriodID :: string
  alr_Status :: alertStatus
  alr_Severity :: string
  alr_FirstSeenAt :: time
  alr_LastSeenAt :: time
  alr_OccurrenceCount :: int
  alr_LastEvaluationID :: string
  alr_Evidence :: rawJSON
  alr_Ack :: "ack option"
  alr_Resolution :: "resolution option"
  alr_Snooze :: "snooze option"
  alr_Labels :: "(string \<times> string) list"
  alr_CreatedAt :: time
  alr_UpdatedAt :: time

record alertEventResponse =
  aer_ID :: string
  aer_AlertID :: string
  aer_EvaluationID :: "string option"
  aer_Type :: alertEventType
  aer_PrevStatus :: "alertStatus option"
  aer_NewStatus :: alertStatus
  aer_Payload :: rawJSON
  aer_At :: time
  aer_IsReopen :: bool
  aer_Notify :: bool

record evaluationResponse =
  evr_ID :: string
  evr_RuleID :: string
  evr_StartedAt :: time
  evr_EndedAt :: time
  evr_PitPerSource :: "(string \<times> time) list"
  evr_Result :: evaluationResult
  evr_Evidence :: rawJSON
  evr_Error :: string
  evr_CostUnits :: int
  evr_CreatedAt :: time

record policyResponse =
  por_ID :: string
  por_Name :: string
  por_CreatedAt :: time
  por_LedgerName :: string
  por_LedgerQuery :: rawJSON
  por_PaymentsPoolID :: string

record reconciliationResponse =
  rer_ID :: string
  rer_PolicyID :: string
  rer_CreatedAt :: time
  rer_ReconciledAtLedger :: time
  rer_ReconciledAtPayments :: time
  rer_Status :: reconciliationStatus
  rer_PaymentsBalances :: balances
  rer_LedgerBalances :: balances
  rer_DriftBalances :: balances
  rer_Error :: string

datatype document =
    RuleDoc ruleResponse | RulesPage "ruleResponse list"
  | EvaluationDoc evaluationResponse | EvaluationsPage "evaluation list"
  | AlertDoc alertResponse | AlertsPage "alert list" | AlertEventsPage "alertEventResponse list"
  | PolicyDoc policyResponse | PoliciesPage "policy list"
  | ReconciliationDoc reconciliationResponse | ReconciliationsPage "reconciliation list"

datatype response =
    Ok document | Created document | NoContent | RenderCursor document
  | BadRequest string gerror | NotFound gerror | WriteErrorResponse nat string gerror
  | InternalServerError gerror

definition handleServiceErrors :: "gerror \<Rightarrow> response" where
  "handleServiceErrors err =
     (if errors_Is err ErrRuleBusy then WriteErrorResponse 409 CodeRuleBusy err
      else if errors_Is err ErrRuleChanged then WriteErrorResponse 409 CodeRuleChanged err
      else if errors_Is err ErrValidation then BadRequest CodeValidation err
      else if errors_Is err ErrInvalidID then BadRequest CodeInvalidID err
      else if errors_Is err ErrInvalidQuery then BadRequest CodeValidation err
      else if errors_Is err ErrNotFound then NotFound err
      else if errors_Is err ErrInvalidSpec then BadRequest CodeValidation err
      else if errors_Is err ErrUnknownTemplate then BadRequest CodeValidation err
      else if errors_Is err ErrCompile then BadRequest CodeValidation err
      else InternalServerError err)"

text \<open>
  What the handlers are given: the service's parts, the libraries they call, and the pagination of
  each table.
\<close>

record backend =
  be_service :: ruleService
  be_runner :: runner
  be_sdk :: sdkFormance
  be_uuid :: uuidLib
  be_paymentsFirst :: bool
  be_fmul :: frac_mul
  be_operators :: operators
  be_uuidArg :: "uuid \<Rightarrow> json"
  be_ParseJSON :: "string \<Rightarrow> gerror + queryBuilder option"
  be_UnmarshalCursor :: "string \<Rightarrow> gerror + pageQuery"
  be_DefaultPageSize :: nat
  be_rules :: "rule paginator"
  be_evaluations :: "evaluation paginator"
  be_alerts :: "alert paginator"
  be_alertEvents :: "alertEvent paginator"
  be_policies :: "policy paginator"
  be_reconciliations :: "reconciliation paginator"

type_synonym handler = "request \<Rightarrow> world \<Rightarrow> response \<times> world"

text \<open>The end of a handler: the service call, and a response for its result or its error.\<close>

definition respond :: "('a \<Rightarrow> response) \<Rightarrow> 'a act \<Rightarrow> world \<Rightarrow> response \<times> world" where
  "respond k f w =
     (case f w of (Inl err, w') \<Rightarrow> (handleServiceErrors err, w') | (Inr a, w') \<Rightarrow> (k a, w'))"

definition withID :: "backend \<Rightarrow> (uuid \<Rightarrow> handler) \<Rightarrow> handler" where
  "withID B k r w =
     (case uuid_Parse (be_uuid B) (hr_Param r) of
        Inl err \<Rightarrow> (BadRequest CodeInvalidID err, w)
      | Inr i \<Rightarrow> k i r w)"

text \<open>
  \<open>json.NewDecoder(r.Body).Decode\<close>: the first value of the body, whatever follows it; a body with no
  value at all is \<open>io.EOF\<close>.
\<close>

datatype 'a decoded = Decoded 'a | DecodedEOF | DecodeError gerror

definition Decode :: "'a decoder \<Rightarrow> string \<Rightarrow> 'a \<Rightarrow> 'a decoded" where
  "Decode d body zero =
     (if ws body = [] then DecodedEOF
      else case parse_value (fuel_for body) (ws body) of
        None \<Rightarrow> DecodeError (new_error ''invalid JSON'')
      | Some (v, rest) \<Rightarrow>
          (case d (take (length (ws body) - length rest) (ws body)) zero of
             None \<Rightarrow> DecodeError (new_error ''json: cannot unmarshal'')
           | Some a \<Rightarrow> Decoded a))"

definition withBody :: "'a decoder \<Rightarrow> 'a \<Rightarrow> ('a \<Rightarrow> handler) \<Rightarrow> handler" where
  "withBody d zero k r w =
     (case Decode d (hr_Body r) zero of
        Decoded a \<Rightarrow> k a r w
      | DecodedEOF \<Rightarrow> (BadRequest CodeMissingOrInvalidBody (new_error ''EOF''), w)
      | DecodeError err \<Rightarrow> (BadRequest CodeMissingOrInvalidBody err, w))"

section \<open>Documents\<close>

definition renderRule :: "backend \<Rightarrow> rule \<Rightarrow> ruleResponse" where
  "renderRule B r =
     \<lparr> rur_ID = uuid_String (be_uuid B) (rule_ID r), rur_Name = rule_Name r, rur_TemplateKind = rule_TemplateKind r,
       rur_TemplateSpec = rule_TemplateSpec r, rur_ExplanationCEL = rule_ExplanationCEL r,
       rur_Enabled = rule_Enabled r, rur_Severity = rule_Severity r, rur_PeriodType = rule_PeriodType r,
       rur_Cadence = rule_PeriodType r, rur_Schedule = rule_Schedule r, rur_Notifications = rule_Notifications r,
       rur_Labels = rule_Labels r, rur_CreatedAt = rule_CreatedAt r, rur_UpdatedAt = rule_UpdatedAt r \<rparr>"

definition renderAlert :: "backend \<Rightarrow> alert \<Rightarrow> alertResponse" where
  "renderAlert B a =
     \<lparr> alr_ID = uuid_String (be_uuid B) (alert_ID a), alr_RuleID = uuid_String (be_uuid B) (alert_RuleID a),
       alr_Fingerprint = alert_Fingerprint a, alr_PeriodID = alert_PeriodID a, alr_Status = alert_Status a,
       alr_Severity = alert_Severity a, alr_FirstSeenAt = alert_FirstSeenAt a, alr_LastSeenAt = alert_LastSeenAt a,
       alr_OccurrenceCount = alert_OccurrenceCount a,
       alr_LastEvaluationID = uuid_String (be_uuid B) (alert_LastEvaluationID a),
       alr_Evidence = alert_Evidence a, alr_Ack = alert_Ack a, alr_Resolution = alert_Resolution a,
       alr_Snooze = alert_Snooze a, alr_Labels = alert_Labels a, alr_CreatedAt = alert_CreatedAt a,
       alr_UpdatedAt = alert_UpdatedAt a \<rparr>"

definition renderAlertEvent :: "backend \<Rightarrow> alertEvent \<Rightarrow> alertEventResponse" where
  "renderAlertEvent B e =
     \<lparr> aer_ID = uuid_String (be_uuid B) (ev_ID e), aer_AlertID = uuid_String (be_uuid B) (ev_AlertID e),
       aer_EvaluationID = map_option (uuid_String (be_uuid B)) (ev_EvaluationID e), aer_Type = ev_Type e,
       aer_PrevStatus = ev_PrevStatus e, aer_NewStatus = ev_NewStatus e, aer_Payload = ev_Payload e,
       aer_At = ev_At e, aer_IsReopen = IsReopen e, aer_Notify = ev_Notify e \<rparr>"

definition renderEvaluation :: "backend \<Rightarrow> evaluation \<Rightarrow> evaluationResponse" where
  "renderEvaluation B ev =
     \<lparr> evr_ID = uuid_String (be_uuid B) (eval_ID ev), evr_RuleID = uuid_String (be_uuid B) (eval_RuleID ev),
       evr_StartedAt = eval_StartedAt ev, evr_EndedAt = eval_EndedAt ev, evr_PitPerSource = eval_PitPerSource ev,
       evr_Result = eval_Result ev, evr_Evidence = eval_Evidence ev, evr_Error = eval_Error ev,
       evr_CostUnits = eval_CostUnits ev, evr_CreatedAt = eval_CreatedAt ev \<rparr>"

definition policyDocument :: "backend \<Rightarrow> policy \<Rightarrow> policyResponse" where
  "policyDocument B p =
     \<lparr> por_ID = uuid_String (be_uuid B) (policy_ID p), por_Name = policy_Name p, por_CreatedAt = policy_CreatedAt p,
       por_LedgerName = policy_LedgerName p, por_LedgerQuery = policy_LedgerQuery p,
       por_PaymentsPoolID = uuid_String (be_uuid B) (policy_PaymentsPoolID p) \<rparr>"

definition reconciliationDocument :: "backend \<Rightarrow> string \<Rightarrow> reconciliation \<Rightarrow> reconciliationResponse" where
  "reconciliationDocument B policyID res =
     \<lparr> rer_ID = uuid_String (be_uuid B) (reco_ID res), rer_PolicyID = policyID, rer_CreatedAt = reco_CreatedAt res,
       rer_ReconciledAtLedger = reco_ReconciledAtLedger res, rer_ReconciledAtPayments = reco_ReconciledAtPayments res,
       rer_Status = reco_Status res, rer_PaymentsBalances = reco_PaymentsBalances res,
       rer_LedgerBalances = reco_LedgerBalances res, rer_DriftBalances = reco_DriftBalances res,
       rer_Error = reco_Error res \<rparr>"

section \<open>Bodies\<close>

definition dec_createRule :: "frac_mul \<Rightarrow> createRuleRequest decoder" where
  "dec_createRule fmul t old =
     (case CreateRuleRequest_UnmarshalJSON fmul t old of Inl _ \<Rightarrow> None | Inr r \<Rightarrow> Some r)"

definition noPatch :: rulePatch where
  "noPatch = \<lparr> rp_Name = None, rp_TemplateKind = None, rp_TemplateSpec = None, rp_ExplanationCEL = None,
     rp_Enabled = None, rp_Severity = None, rp_Schedule = None, rp_Notifications = None, rp_Labels = None,
     rp_ExpectedRevision = None \<rparr>"

text \<open>
  The members of \<open>patchRuleRequest\<close>, stored in the fields of the \<open>RulePatch\<close> the handler copies them to;
  the explanation and the expected revision are not among them.
\<close>

definition patchRule_set :: "frac_mul \<Rightarrow> string \<Rightarrow> string \<Rightarrow> rulePatch \<Rightarrow> rulePatch option" where
  "patchRule_set fmul k t p =
     (if field ''name'' k then map_option (\<lambda>v. p\<lparr> rp_Name := v \<rparr>) (dec_ptr '''' dec_string t (rp_Name p))
      else if field ''templateKind'' k then
        map_option (\<lambda>v. p\<lparr> rp_TemplateKind := v \<rparr>) (dec_ptr '''' dec_string t (rp_TemplateKind p))
      else if field ''templateSpec'' k then Some (p\<lparr> rp_TemplateSpec := Some t \<rparr>)
      else if field ''enabled'' k then map_option (\<lambda>v. p\<lparr> rp_Enabled := v \<rparr>) (dec_ptr False dec_bool t (rp_Enabled p))
      else if field ''severity'' k then map_option (\<lambda>v. p\<lparr> rp_Severity := v \<rparr>) (dec_ptr '''' dec_string t (rp_Severity p))
      else if field ''schedule'' k then
        map_option (\<lambda>v. p\<lparr> rp_Schedule := v \<rparr>) (dec_ptr zeroSchedule (dec_schedule fmul) t (rp_Schedule p))
      else if field ''notifications'' k then
        map_option (\<lambda>v. p\<lparr> rp_Notifications := v \<rparr>) (dec_ptr [] (dec_list '''' dec_string) t (rp_Notifications p))
      else if field ''labels'' k then
        map_option (\<lambda>v. p\<lparr> rp_Labels := v \<rparr>) (dec_ptr [] (dec_map '''' dec_string) t (rp_Labels p))
      else Some p)"

definition ack_set :: "string \<Rightarrow> string \<Rightarrow> ackAlertRequest \<Rightarrow> ackAlertRequest option" where
  "ack_set k t q =
     (if field ''by'' k then map_option (\<lambda>v. q\<lparr> ackq_By := v \<rparr>) (dec_string t (ackq_By q))
      else if field ''note'' k then map_option (\<lambda>v. q\<lparr> ackq_Note := v \<rparr>) (dec_string t (ackq_Note q))
      else Some q)"

definition resolve_set :: "string \<Rightarrow> string \<Rightarrow> resolveAlertRequest \<Rightarrow> resolveAlertRequest option" where
  "resolve_set k t q =
     (if field ''by'' k then map_option (\<lambda>v. q\<lparr> resq_By := v \<rparr>) (dec_string t (resq_By q))
      else if field ''note'' k then map_option (\<lambda>v. q\<lparr> resq_Note := v \<rparr>) (dec_string t (resq_Note q))
      else if field ''transactionRefs'' k then
        map_option (\<lambda>v. q\<lparr> resq_TransactionRefs := v \<rparr>) (dec_list '''' dec_string t (resq_TransactionRefs q))
      else Some q)"

definition accept_set :: "string \<Rightarrow> string \<Rightarrow> acceptAlertRequest \<Rightarrow> acceptAlertRequest option" where
  "accept_set k t q =
     (if field ''by'' k then map_option (\<lambda>v. q\<lparr> accq_By := v \<rparr>) (dec_string t (accq_By q))
      else if field ''note'' k then map_option (\<lambda>v. q\<lparr> accq_Note := v \<rparr>) (dec_string t (accq_Note q))
      else Some q)"

definition snooze_set :: "string \<Rightarrow> string \<Rightarrow> snoozeAlertRequest \<Rightarrow> snoozeAlertRequest option" where
  "snooze_set k t q =
     (if field ''by'' k then map_option (\<lambda>v. q\<lparr> snoq_By := v \<rparr>) (dec_string t (snoq_By q))
      else if field ''until'' k then map_option (\<lambda>v. q\<lparr> snoq_Until := v \<rparr>) (dec_time t (snoq_Until q))
      else if field ''note'' k then map_option (\<lambda>v. q\<lparr> snoq_Note := v \<rparr>) (dec_string t (snoq_Note q))
      else Some q)"

definition unsnooze_set :: "string \<Rightarrow> string \<Rightarrow> unsnoozeAlertRequest \<Rightarrow> unsnoozeAlertRequest option" where
  "unsnooze_set k t q =
     (if field ''by'' k then map_option (\<lambda>v. q\<lparr> unsq_By := v \<rparr>) (dec_string t (unsq_By q)) else Some q)"

text \<open>A map of any values, nil for null; each value is decoded afresh.\<close>

definition dec_any :: "json decoder" where
  "dec_any t old = parse_doc t"

definition dec_query :: "queryMap option decoder" where
  "dec_query t old =
     (if is_null t then Some None
      else map_option Some (dec_map JNull dec_any t (case old of None \<Rightarrow> [] | Some m \<Rightarrow> m)))"

definition createPolicy_set :: "string \<Rightarrow> string \<Rightarrow> createPolicyRequest \<Rightarrow> createPolicyRequest option" where
  "createPolicy_set k t q =
     (if field ''name'' k then map_option (\<lambda>v. q\<lparr> cpr_Name := v \<rparr>) (dec_string t (cpr_Name q))
      else if field ''ledgerName'' k then map_option (\<lambda>v. q\<lparr> cpr_LedgerName := v \<rparr>) (dec_string t (cpr_LedgerName q))
      else if field ''ledgerQuery'' k then map_option (\<lambda>v. q\<lparr> cpr_LedgerQuery := v \<rparr>) (dec_query t (cpr_LedgerQuery q))
      else if field ''paymentsPoolID'' k then
        map_option (\<lambda>v. q\<lparr> cpr_PaymentsPoolID := v \<rparr>) (dec_string t (cpr_PaymentsPoolID q))
      else Some q)"

definition reconciliation_set :: "string \<Rightarrow> string \<Rightarrow> reconciliationRequest \<Rightarrow> reconciliationRequest option" where
  "reconciliation_set k t q =
     (if field ''reconciledAtLedger'' k then
        map_option (\<lambda>v. q\<lparr> rr_ReconciledAtLedger := v \<rparr>) (dec_time t (rr_ReconciledAtLedger q))
      else if field ''reconciledAtPayments'' k then
        map_option (\<lambda>v. q\<lparr> rr_ReconciledAtPayments := v \<rparr>) (dec_time t (rr_ReconciledAtPayments q))
      else Some q)"

record evaluateRuleRequest =
  erq_At :: "time option"
  erq_SafetyMargin :: string
  erq_SourcePITs :: "(string \<times> time) list"

definition evaluate_set :: "string \<Rightarrow> string \<Rightarrow> evaluateRuleRequest \<Rightarrow> evaluateRuleRequest option" where
  "evaluate_set k t q =
     (if field ''at'' k then map_option (\<lambda>v. q\<lparr> erq_At := v \<rparr>) (dec_ptr 0 dec_time t (erq_At q))
      else if field ''safetyMargin'' k then
        map_option (\<lambda>v. q\<lparr> erq_SafetyMargin := v \<rparr>) (dec_string t (erq_SafetyMargin q))
      else if field ''sourcePITs'' k then
        map_option (\<lambda>v. q\<lparr> erq_SourcePITs := v \<rparr>) (dec_map 0 dec_time t (erq_SourcePITs q))
      else Some q)"

section \<open>Lists\<close>

definition MaxPageSize :: nat where "MaxPageSize = 100"

definition invalidPageSize :: gerror where
  "invalidPageSize = new_error (''invalid '' @ [CHR 0x27] @ ''pageSize'' @ [CHR 0x27] @ '' query param'')"

text \<open>\<open>strconv.ParseUint(s, 10, 32)\<close>.\<close>

definition ParseUint32 :: "string \<Rightarrow> nat option" where
  "ParseUint32 s = (if s \<noteq> '''' \<and> list_all is_digit s \<and> undec_nat s < 2 ^ 32 then Some (undec_nat s) else None)"

definition getPageSize :: "nat \<Rightarrow> request \<Rightarrow> gerror + nat" where
  "getPageSize defaultSize r =
     (let pageSizeParam = hr_Query r ''pageSize'' in
      if pageSizeParam = '''' then Inr defaultSize
      else case ParseUint32 pageSizeParam of
        None \<Rightarrow> Inl invalidPageSize
      | Some pageSize \<Rightarrow>
          if pageSize = 0 then Inl invalidPageSize
          else if MaxPageSize < pageSize then Inr MaxPageSize
          else Inr pageSize)"

definition validateCursorPageSize :: "nat \<Rightarrow> gerror option" where
  "validateCursorPageSize pageSize =
     (if pageSize = 0 \<or> MaxPageSize < pageSize then Some invalidPageSize else None)"

definition maxQueryBuilderBodySize :: nat where "maxQueryBuilderBodySize = 1048576"

definition getQueryBuilder :: "backend \<Rightarrow> request \<Rightarrow> gerror + queryBuilder option" where
  "getQueryBuilder B r =
     (if maxQueryBuilderBodySize < length (hr_Body r) then Inl (new_error ''http: request body too large'')
      else if hr_Body r \<noteq> '''' then be_ParseJSON B (hr_Body r)
      else be_ParseJSON B (hr_Query r ''query''))"

text \<open>
  \<open>getPaginatedQueryOptions...\<close>: the builder, then the page size; a list of events has no filter. The
  code writes this out for every list.
\<close>

definition getPaginatedQueryOptions :: "backend \<Rightarrow> bool \<Rightarrow> request \<Rightarrow> gerror + paginatedOptions" where
  "getPaginatedQueryOptions B filtered r =
     (case (if filtered then getQueryBuilder B r else Inr None) of
        Inl err \<Rightarrow> Inl err
      | Inr qb \<Rightarrow>
          (case getPageSize (be_DefaultPageSize B) r of
             Inl err \<Rightarrow> Inl err
           | Inr pageSize \<Rightarrow> Inr ((NewPaginatedQueryOptions (be_DefaultPageSize B) noFilters)
                                   \<lparr> po_QueryBuilder := qb, po_PageSize := pageSize \<rparr>)))"

definition getPaginatedQueryOptionsRules :: "backend \<Rightarrow> request \<Rightarrow> gerror + paginatedOptions" where
  "getPaginatedQueryOptionsRules B = getPaginatedQueryOptions B True"

definition getPaginatedQueryOptionsEvaluations :: "backend \<Rightarrow> request \<Rightarrow> gerror + paginatedOptions" where
  "getPaginatedQueryOptionsEvaluations B = getPaginatedQueryOptions B True"

definition getPaginatedQueryOptionsAlerts :: "backend \<Rightarrow> request \<Rightarrow> gerror + paginatedOptions" where
  "getPaginatedQueryOptionsAlerts B = getPaginatedQueryOptions B True"

definition getPaginatedQueryOptionsAlertEvents :: "backend \<Rightarrow> request \<Rightarrow> gerror + paginatedOptions" where
  "getPaginatedQueryOptionsAlertEvents B = getPaginatedQueryOptions B False"

definition getPaginatedQueryOptionsPolicies :: "backend \<Rightarrow> request \<Rightarrow> gerror + paginatedOptions" where
  "getPaginatedQueryOptionsPolicies B = getPaginatedQueryOptions B True"

definition getPaginatedQueryOptionsReconciliations :: "backend \<Rightarrow> request \<Rightarrow> gerror + paginatedOptions" where
  "getPaginatedQueryOptionsReconciliations B = getPaginatedQueryOptions B True"

definition invalidCursor :: gerror where
  "invalidCursor = new_error (''invalid '' @ [CHR 0x27] @ ''cursor'' @ [CHR 0x27] @ '' query param'')"

definition listQuery :: "backend \<Rightarrow> (request \<Rightarrow> gerror + paginatedOptions) \<Rightarrow> request \<Rightarrow> gerror + pageQuery" where
  "listQuery B options r =
     (if hr_Query r ''cursor'' \<noteq> '''' then
        (case be_UnmarshalCursor B (hr_Query r ''cursor'') of
           Inl err \<Rightarrow> Inl invalidCursor
         | Inr q \<Rightarrow>
             (case validateCursorPageSize (pq_PageSize q) of
                Some err \<Rightarrow> Inl (wrap_error (msg invalidCursor) err)
              | None \<Rightarrow> Inr q))
      else
        (case options r of Inl err \<Rightarrow> Inl err | Inr opts \<Rightarrow> Inr (NewGetQuery opts)))"

definition listHandler :: "backend \<Rightarrow> (request \<Rightarrow> gerror + paginatedOptions) \<Rightarrow> ('r list \<Rightarrow> document) \<Rightarrow> (pageQuery \<Rightarrow> 'r list act) \<Rightarrow> handler" where
  "listHandler B options doc list r w =
     (case listQuery B options r of
        Inl err \<Rightarrow> (BadRequest CodeValidation err, w)
      | Inr q \<Rightarrow> respond (\<lambda>rows. RenderCursor (doc rows)) (list q) w)"

definition listRulesHandler :: "backend \<Rightarrow> handler" where
  "listRulesHandler B = listHandler B (getPaginatedQueryOptionsRules B) (\<lambda>rules. RulesPage (map (renderRule B) rules))
     (ListRules (be_operators B) (be_rules B))"

definition listEvaluationsHandler :: "backend \<Rightarrow> handler" where
  "listEvaluationsHandler B = listHandler B (getPaginatedQueryOptionsEvaluations B) EvaluationsPage (ListEvaluations (be_operators B) (be_evaluations B))"

definition listAlertsHandler :: "backend \<Rightarrow> handler" where
  "listAlertsHandler B = listHandler B (getPaginatedQueryOptionsAlerts B) AlertsPage (ListAlerts (be_operators B) (be_alerts B))"

definition listAlertEventsHandler :: "backend \<Rightarrow> handler" where
  "listAlertEventsHandler B = withID B (\<lambda>i. listHandler B (getPaginatedQueryOptionsAlertEvents B) (\<lambda>es. AlertEventsPage (map (renderAlertEvent B) es))
     (ListAlertEvents (be_uuidArg B) (be_alertEvents B) i))"

definition listPoliciesHandler :: "backend \<Rightarrow> handler" where
  "listPoliciesHandler B = listHandler B (getPaginatedQueryOptionsPolicies B) PoliciesPage (ListPolicies (be_operators B) (be_policies B))"

definition listReconciliationsHandler :: "backend \<Rightarrow> handler" where
  "listReconciliationsHandler B =
     listHandler B (getPaginatedQueryOptionsReconciliations B) ReconciliationsPage (ListReconciliations (be_operators B) (be_reconciliations B))"

section \<open>Rules\<close>

definition createRuleHandler :: "backend \<Rightarrow> handler" where
  "createRuleHandler B =
     withBody (dec_createRule (be_fmul B)) zeroCreateRule (\<lambda>req r.
       respond (\<lambda>rule. Created (RuleDoc (renderRule B rule))) (svc_CreateRule (be_service B) (Some req)))"

definition getRuleHandler :: "backend \<Rightarrow> handler" where
  "getRuleHandler B = withID B (\<lambda>i r. respond (\<lambda>rule. Ok (RuleDoc (renderRule B rule))) (svc_GetRule i))"

definition deleteRuleHandler :: "backend \<Rightarrow> handler" where
  "deleteRuleHandler B = withID B (\<lambda>i r. respond (\<lambda>_. NoContent) (svc_DeleteRule i))"

definition patchRuleHandler :: "backend \<Rightarrow> handler" where
  "patchRuleHandler B = withID B (\<lambda>i. withBody (dec_struct (patchRule_set (be_fmul B))) noPatch (\<lambda>patch r.
     respond (\<lambda>rule. Ok (RuleDoc (renderRule B rule)))
       (bindA (svc_PatchRule (be_service B) i patch) (\<lambda>_. svc_GetRule i))))"

definition defaultEvaluateSafetyMargin :: duration where
  "defaultEvaluateSafetyMargin = 30 * second"

text \<open>
  The checks of an evaluation request at the instant \<open>now\<close>, and the request of the runner: Go visits
  the overrides in any order, so which of several future ones is named is not determined.
\<close>

definition evaluateRequestOf :: "frac_mul \<Rightarrow> time \<Rightarrow> evaluateRuleRequest \<Rightarrow> gerror + evaluateRequest" where
  "evaluateRequestOf fmul now req =
     (if (case erq_At req of None \<Rightarrow> False | Some at \<Rightarrow> After at now) then Inl (new_error ''at must be in the past'')
      else case filter (\<lambda>(key, pit). After pit now) (erq_SourcePITs req) of
        (key, pit) # _ \<Rightarrow> Inl (new_error (''sourcePITs['' @ key @ ''] must be in the past''))
      | [] \<Rightarrow>
          if erq_SourcePITs req \<noteq> [] \<and> erq_At req = None
          then Inl (new_error ''at is required when sourcePITs are provided'')
          else
            let svcReq = \<lparr> rq_PIT = (case erq_At req of None \<Rightarrow> 0 | Some at \<Rightarrow> at),
                           rq_SafetyMargin = defaultEvaluateSafetyMargin, rq_SourcePITs = erq_SourcePITs req \<rparr> in
            if erq_SafetyMargin req \<noteq> '''' then
              (case ParseDuration fmul (erq_SafetyMargin req) of
                 Inl err \<Rightarrow> Inl (new_error (''invalid safetyMargin: '' @ msg err))
               | Inr d \<Rightarrow>
                   if d < 0 then Inl (new_error ''safetyMargin must be >= 0'')
                   else Inr (svcReq\<lparr> rq_SafetyMargin := d \<rparr>))
            else Inr svcReq)"

definition noEvaluateParams :: evaluateRuleRequest where
  "noEvaluateParams = \<lparr> erq_At = None, erq_SafetyMargin = '''', erq_SourcePITs = [] \<rparr>"

definition evaluateRuleHandler :: "backend \<Rightarrow> handler" where
  "evaluateRuleHandler B = withID B (\<lambda>i r w.
     (case (case Decode (dec_struct evaluate_set) (hr_Body r) noEvaluateParams of
              Decoded req \<Rightarrow> Inr req | DecodedEOF \<Rightarrow> Inr noEvaluateParams | DecodeError err \<Rightarrow> Inl err) of
        Inl err \<Rightarrow> (BadRequest CodeMissingOrInvalidBody err, w)
      | Inr req \<Rightarrow>
          (case goNow w of (now, w) \<Rightarrow>
           case evaluateRequestOf (be_fmul B) now req of
             Inl err \<Rightarrow> (BadRequest CodeValidation err, w)
           | Inr svcReq \<Rightarrow>
               respond (\<lambda>ev. Ok (EvaluationDoc (renderEvaluation B ev))) (svc_EvaluateRule (be_runner B) i svcReq) w)))"

section \<open>Evaluations, alerts, policies, reconciliations\<close>

definition getEvaluationHandler :: "backend \<Rightarrow> handler" where
  "getEvaluationHandler B =
     withID B (\<lambda>i r. respond (\<lambda>ev. Ok (EvaluationDoc (renderEvaluation B ev))) (svc_GetEvaluation i))"

definition alertDocument :: "backend \<Rightarrow> alert \<Rightarrow> response" where
  "alertDocument B a = Ok (AlertDoc (renderAlert B a))"

definition getAlertHandler :: "backend \<Rightarrow> handler" where
  "getAlertHandler B = withID B (\<lambda>i r. respond (alertDocument B) (svc_GetAlert i))"

definition ackAlertHandler :: "backend \<Rightarrow> handler" where
  "ackAlertHandler B = withID B (\<lambda>i. withBody (dec_struct ack_set) \<lparr> ackq_By = '''', ackq_Note = '''' \<rparr> (\<lambda>req r.
     respond (alertDocument B) (svc_AckAlert i (Some req))))"

definition resolveAlertHandler :: "backend \<Rightarrow> handler" where
  "resolveAlertHandler B = withID B (\<lambda>i.
     withBody (dec_struct resolve_set) \<lparr> resq_By = '''', resq_Note = '''', resq_TransactionRefs = [] \<rparr> (\<lambda>req r.
       respond (alertDocument B) (svc_ResolveAlert i (Some req))))"

definition acceptAlertHandler :: "backend \<Rightarrow> handler" where
  "acceptAlertHandler B = withID B (\<lambda>i. withBody (dec_struct accept_set) \<lparr> accq_By = '''', accq_Note = '''' \<rparr> (\<lambda>req r.
     respond (alertDocument B) (svc_AcceptAlert i (Some req))))"

definition snoozeAlertHandler :: "backend \<Rightarrow> handler" where
  "snoozeAlertHandler B = withID B (\<lambda>i.
     withBody (dec_struct snooze_set) \<lparr> snoq_By = '''', snoq_Until = 0, snoq_Note = '''' \<rparr> (\<lambda>req r.
       respond (alertDocument B) (svc_SnoozeAlert i (Some req))))"

definition unsnoozeAlertHandler :: "backend \<Rightarrow> handler" where
  "unsnoozeAlertHandler B = withID B (\<lambda>i. withBody (dec_struct unsnooze_set) \<lparr> unsq_By = '''' \<rparr> (\<lambda>req r.
     respond (alertDocument B) (svc_UnsnoozeAlert i (Some req))))"

definition createPolicyHandler :: "backend \<Rightarrow> handler" where
  "createPolicyHandler B = withBody (dec_struct createPolicy_set)
     \<lparr> cpr_Name = '''', cpr_LedgerName = '''', cpr_LedgerQuery = None, cpr_PaymentsPoolID = '''' \<rparr> (\<lambda>req r.
       respond (\<lambda>p. Created (PolicyDoc (policyDocument B p))) (svc_CreatePolicy (be_uuid B) req))"

definition deletePolicyHandler :: "backend \<Rightarrow> handler" where
  "deletePolicyHandler B r = respond (\<lambda>_. NoContent) (svc_DeletePolicy (be_uuid B) (hr_Param r))"

definition getPolicyHandler :: "backend \<Rightarrow> handler" where
  "getPolicyHandler B r = respond (\<lambda>p. Ok (PolicyDoc (policyDocument B p))) (svc_GetPolicy (be_uuid B) (hr_Param r))"

definition reconciliationHandler :: "backend \<Rightarrow> handler" where
  "reconciliationHandler B = withBody (dec_struct reconciliation_set)
     \<lparr> rr_ReconciledAtLedger = 0, rr_ReconciledAtPayments = 0 \<rparr> (\<lambda>req r w.
       (case goNow w of (now1, w) \<Rightarrow>
        case goNow w of (now2, w) \<Rightarrow>
        case ReconciliationRequest_Validate now1 now2 req of
          Some err \<Rightarrow> (BadRequest CodeValidation err, w)
        | None \<Rightarrow>
            if hr_Param r = '''' then (BadRequest CodeValidation (new_error ''missing policyID''), w)
            else respond (\<lambda>res. Ok (ReconciliationDoc (reconciliationDocument B (hr_Param r) res)))
                   (svc_Reconciliation (be_uuid B) (be_sdk B) (be_paymentsFirst B) (hr_Param r) req) w))"

definition getReconciliationHandler :: "backend \<Rightarrow> handler" where
  "getReconciliationHandler B r =
     respond (\<lambda>res. Ok (ReconciliationDoc (reconciliationDocument B (uuid_String (be_uuid B) (reco_PolicyID res)) res)))
       (svc_GetReconciliation (be_uuid B) (hr_Param r))"

section \<open>Routes\<close>

text \<open>
  The routes behind the authentication, with their handlers. The health check and the service
  information are handlers of \<open>go-libs\<close>.
\<close>

datatype endpoint =
    EpGetReconciliation | EpListReconciliations
  | EpCreatePolicy | EpListPolicies | EpDeletePolicy | EpGetPolicy | EpReconciliation
  | EpCreateRule | EpListRules | EpGetRule | EpPatchRule | EpDeleteRule | EpEvaluateRule
  | EpListEvaluations | EpGetEvaluation
  | EpListAlerts | EpGetAlert | EpListAlertEvents | EpAckAlert | EpResolveAlert | EpAcceptAlert | EpSnoozeAlert | EpUnsnoozeAlert

definition routes :: "((string \<times> string) \<times> endpoint) list" where
  "routes =
     [((''GET'', ''/reconciliations/{reconciliationID}''), EpGetReconciliation),
      ((''GET'', ''/reconciliations''), EpListReconciliations),
      ((''POST'', ''/policies''), EpCreatePolicy),
      ((''GET'', ''/policies''), EpListPolicies),
      ((''DELETE'', ''/policies/{policyID}''), EpDeletePolicy),
      ((''GET'', ''/policies/{policyID}''), EpGetPolicy),
      ((''POST'', ''/policies/{policyID}/reconciliation''), EpReconciliation),
      ((''POST'', ''/rules''), EpCreateRule),
      ((''GET'', ''/rules''), EpListRules),
      ((''GET'', ''/rules/{ruleID}''), EpGetRule),
      ((''PATCH'', ''/rules/{ruleID}''), EpPatchRule),
      ((''DELETE'', ''/rules/{ruleID}''), EpDeleteRule),
      ((''POST'', ''/rules/{ruleID}/evaluate''), EpEvaluateRule),
      ((''GET'', ''/evaluations''), EpListEvaluations),
      ((''GET'', ''/evaluations/{evaluationID}''), EpGetEvaluation),
      ((''GET'', ''/alerts''), EpListAlerts),
      ((''GET'', ''/alerts/{alertID}''), EpGetAlert),
      ((''GET'', ''/alerts/{alertID}/events''), EpListAlertEvents),
      ((''POST'', ''/alerts/{alertID}/ack''), EpAckAlert),
      ((''POST'', ''/alerts/{alertID}/resolve''), EpResolveAlert),
      ((''POST'', ''/alerts/{alertID}/accept''), EpAcceptAlert),
      ((''POST'', ''/alerts/{alertID}/snooze''), EpSnoozeAlert),
      ((''POST'', ''/alerts/{alertID}/unsnooze''), EpUnsnoozeAlert)]"

fun serve :: "backend \<Rightarrow> endpoint \<Rightarrow> handler" where
  "serve B EpGetReconciliation = getReconciliationHandler B"
| "serve B EpListReconciliations = listReconciliationsHandler B"
| "serve B EpCreatePolicy = createPolicyHandler B"
| "serve B EpListPolicies = listPoliciesHandler B"
| "serve B EpDeletePolicy = deletePolicyHandler B"
| "serve B EpGetPolicy = getPolicyHandler B"
| "serve B EpReconciliation = reconciliationHandler B"
| "serve B EpCreateRule = createRuleHandler B"
| "serve B EpListRules = listRulesHandler B"
| "serve B EpGetRule = getRuleHandler B"
| "serve B EpPatchRule = patchRuleHandler B"
| "serve B EpDeleteRule = deleteRuleHandler B"
| "serve B EpEvaluateRule = evaluateRuleHandler B"
| "serve B EpListEvaluations = listEvaluationsHandler B"
| "serve B EpGetEvaluation = getEvaluationHandler B"
| "serve B EpListAlerts = listAlertsHandler B"
| "serve B EpGetAlert = getAlertHandler B"
| "serve B EpListAlertEvents = listAlertEventsHandler B"
| "serve B EpAckAlert = ackAlertHandler B"
| "serve B EpResolveAlert = resolveAlertHandler B"
| "serve B EpAcceptAlert = acceptAlertHandler B"
| "serve B EpSnoozeAlert = snoozeAlertHandler B"
| "serve B EpUnsnoozeAlert = unsnoozeAlertHandler B"

text \<open>Every endpoint has exactly one route.\<close>

lemma routes_complete: "distinct (map fst routes)" "distinct (map snd routes)" "e \<in> snd ` set routes"
  by (simp_all add: routes_def) (cases e; simp)

end
