(* ===== verification/HttpContract.thy ===== *)
theory HttpContract
  imports Http EvaluationRun
begin

text \<open>
  What a client of the HTTP API can rely on: a response that is an error changed no table, every
  page a list reads has between one and a hundred rows, and a manual evaluation reads the past.
\<close>

section \<open>Actions that fail without a change\<close>

named_theorems atomicI

lemma atomicD: "atomic f \<Longrightarrow> f w = (Inl err, w') \<Longrightarrow> w_db w' = w_db w"
  by (auto simp: atomic_def)

lemma readsD: "readsA f \<Longrightarrow> f w = (q, w') \<Longrightarrow> w_db w' = w_db w"
  by (auto simp: readsA_def)

lemma readsA_ticks [readsI]: "readsA (tickA goNow)" "readsA (tickA (evaluateTemplate R eng T rule inp))"
  by (auto simp: readsA_def tickA_def evaluateTemplate_def)

lemma readsA_split [readsI]:
  "(\<And>a b. readsA (f a b)) \<Longrightarrow> readsA (case ab of (a, b) \<Rightarrow> f a b)"
  "readsA f0 \<Longrightarrow> (\<And>x. readsA (g x)) \<Longrightarrow> readsA (case o1 of None \<Rightarrow> f0 | Some x \<Rightarrow> g x)"
  "(\<And>x. readsA (h x)) \<Longrightarrow> (\<And>y. readsA (k y)) \<Longrightarrow> readsA (case s of Inl x \<Rightarrow> h x | Inr y \<Rightarrow> k y)"
  by (auto split: prod.split option.split sum.split)

lemma atomic_reads: "readsA f \<Longrightarrow> atomic f"
  by (auto simp: atomic_def readsA_def)

lemma atomic_basic [atomicI]: "atomic (returnA a)" "atomic (failA err)" "atomic (ofSum s)"
  by (auto intro: atomic_reads readsI)

lemma atomic_bind:
  assumes "readsA f" and "\<And>a. atomic (k a)"
  shows "atomic (bindA f k)"
  unfolding atomic_def
proof (intro allI impI)
  fix w err w' assume "bindA f k w = (Inl err, w')"
  then consider "f w = (Inl err, w')" | a w1 where "f w = (Inr a, w1)" "k a w1 = (Inl err, w')"
    by (auto simp: bindA_Inl)
  then show "w_db w' = w_db w" using readsD [OF assms(1)] atomicD [OF assms(2)] by cases metis+
qed

text \<open>A continuation that does not fail.\<close>

definition total :: "'a act \<Rightarrow> bool" where
  "total f \<longleftrightarrow> (\<forall>w. \<exists>a w'. f w = (Inr a, w'))"

lemma total_basic: "total (returnA a)" "total (tickA g)"
  by (auto simp: total_def returnA_def tickA_def split: prod.split)

lemma total_bind: "total f \<Longrightarrow> (\<And>a. total (k a)) \<Longrightarrow> total (bindA f k)"
  unfolding total_def bindA_def by (metis (no_types, lifting) case_prod_conv sum.case(2))

lemma atomic_then:
  assumes "atomic f" and "\<And>a. total (k a)"
  shows "atomic (bindA f k)"
  unfolding atomic_def
proof (intro allI impI)
  fix w err w' assume "bindA f k w = (Inl err, w')"
  then consider "f w = (Inl err, w')" | a w1 where "k a w1 = (Inl err, w')"
    by (auto simp: bindA_Inl)
  then show "w_db w' = w_db w"
  proof cases
    case 2
    then show ?thesis using assms(2) [unfolded total_def, rule_format, of a w1] by auto
  qed (use assms(1) atomicD in blast)
qed

lemma atomic_wrap [atomicI]: "atomic f \<Longrightarrow> atomic (wrapA m f)" "atomic f \<Longrightarrow> atomic (plainWrap m f)"
  unfolding atomic_def by (auto simp: wrapA_Inl plainWrap_Inl)

lemma atomic_execute [atomicI]: "atomic (execute change)"
  by (auto simp: atomic_def dest: execute_Inl)

lemma atomic_tx [atomicI]: "atomic (inTx f)" "atomic (RunInTx f)"
  by (rule inTx_atomic) (auto simp: atomic_def RunInTx_def dest!: inTx_Inl split: if_splits prod.splits sum.splits)

lemma atomic_split [atomicI]:
  "atomic f \<Longrightarrow> atomic g \<Longrightarrow> atomic (if b then f else g)"
  "(\<And>a b. atomic (h a b)) \<Longrightarrow> atomic (case ab of (a, b) \<Rightarrow> h a b)"
  "atomic f0 \<Longrightarrow> (\<And>x. atomic (j x)) \<Longrightarrow> atomic (case o1 of None \<Rightarrow> f0 | Some x \<Rightarrow> j x)"
  "(\<And>x. atomic (l x)) \<Longrightarrow> (\<And>y. atomic (k y)) \<Longrightarrow> atomic (case s of Inl x \<Rightarrow> l x | Inr y \<Rightarrow> k y)"
  by (auto split: prod.split option.split sum.split)

section \<open>The operations of the service\<close>

lemma getters_read: "readsA (svc_GetRule i)" "readsA (svc_GetEvaluation i)" "readsA (svc_GetAlert i)"
  "readsA (svc_GetPolicy U s)" "readsA (svc_GetReconciliation U s)"
  unfolding svc_GetRule_def GetRule_def svc_GetEvaluation_def GetEvaluation_def svc_GetAlert_def GetAlert_def
    svc_GetPolicy_def SGetPolicy_def svc_GetReconciliation_def SGetReconciliation_def parseID_def
  by (intro readsI)+

lemma CreateRule_atomic: "atomic (svc_CreateRule S reqo)"
proof -
  have "atomic (CreateRule parse r)" for parse r
    unfolding CreateRule_def Let_def insertRule_def by (intro atomic_bind readsI atomicI)
  then show ?thesis unfolding svc_CreateRule_def
    by (intro atomicI atomic_bind readsI)
qed

lemma DeleteRule_atomic: "atomic (svc_DeleteRule i)"
  unfolding atomic_def svc_DeleteRule_def DeleteRule_def
  by (auto simp: bindA_Inl wrapA_Inl Let_def dest!: execute_Inl execute_Inr split: if_splits sum.splits)

lemma PatchRule_atomic: "atomic (svc_PatchRule S i p)"
proof -
  have "atomic (commitPatch S i p)" for p
    unfolding atomic_def
  proof (intro allI impI)
    fix w err w' assume run: "commitPatch S i p w = (Inl err, w')"
    obtain r w1 where r: "PatchRule (sv_parse S) i p w = (r, w1)" by fastforce
    then have "w1 = w' \<and> isl r" using run by (cases r) (auto simp: commitPatch_def catchA_def split: if_splits)
    then show "w_db w' = w_db w" using r inTx_Inl unfolding PatchRule_def by (cases r) auto
  qed
  moreover have "readsA (preparePatch S i p)"
    unfolding preparePatch_def GetRule_def by (intro readsI)
  ultimately show ?thesis unfolding svc_PatchRule_def by (intro atomic_bind)
qed

lemma manual_atomic: "atomic (manual f)"
  unfolding manual_def publish_def by (rule atomic_then [OF atomic_tx(1)]) (auto intro: total_bind total_basic)

lemma alerts_atomic: "atomic (svc_AckAlert i q1)" "atomic (svc_ResolveAlert i q2)" "atomic (svc_AcceptAlert i q3)"
  "atomic (svc_SnoozeAlert i q4)" "atomic (svc_UnsnoozeAlert i q5)"
  unfolding svc_AckAlert_def svc_ResolveAlert_def svc_AcceptAlert_def svc_SnoozeAlert_def svc_UnsnoozeAlert_def
    refused_def AckAlert_def ResolveAlertManual_def AcceptAlert_def applyResolution_def SnoozeAlert_def UnsnoozeAlert_def
  by (intro atomic_bind manual_atomic readsI atomicI)+

lemma policies_atomic: "atomic (svc_CreatePolicy U q)" "atomic (svc_DeletePolicy U s)"
    "atomic (svc_Reconciliation U c first s rq)"
  unfolding svc_CreatePolicy_def svc_DeletePolicy_def svc_Reconciliation_def SCreatePolicy_def SDeletePolicy_def
    SGetPolicy_def SCreateReconciliation_def parseID_def Let_def
  by (intro atomic_then atomic_bind readsI atomicI total_basic)+

lemma EvaluateRule_atomic: "atomic (svc_EvaluateRule R i q)"
proof -
  have "atomic (run R eng sqlStore rule T req completion)" for eng rule T req completion
    unfolding run_def by (intro atomic_bind readsI atomicI)
  then have body: "atomic (manualBody R sqlStore i q)"
    unfolding manualBody_def by (intro atomic_bind loadRule_reads atomicI)
  have lock: "w_db w' = w_db w"
    if "TryWithRuleLock i (manualBody R sqlStore i q) w = (r, w')" "r = Inr None \<or> isl r" for w r w'
    using that by (auto simp: TryWithRuleLock_def dest!: atomicD [OF body] split: option.splits prod.splits sum.splits if_splits)
  show ?thesis
    unfolding atomic_def svc_EvaluateRule_def Evaluate_rule_def
    by (auto simp: bindA_Inl dest!: lock split: if_splits option.splits)
qed

section \<open>Errors change nothing\<close>

fun is_error :: "response \<Rightarrow> bool" where
  "is_error (Ok d) = False"
| "is_error (Created d) = False"
| "is_error NoContent = False"
| "is_error (RenderCursor d) = False"
| "is_error (BadRequest c err) = True"
| "is_error (NotFound err) = True"
| "is_error (WriteErrorResponse n c err) = True"
| "is_error (InternalServerError err) = True"

text \<open>A handler whose errors leave the tables alone.\<close>

definition safeH :: "(world \<Rightarrow> response \<times> world) \<Rightarrow> bool" where
  "safeH h \<longleftrightarrow> (\<forall>w resp w'. h w = (resp, w') \<longrightarrow> is_error resp \<longrightarrow> w_db w' = w_db w)"

lemma safe_respond: "atomic f \<Longrightarrow> (\<And>a. \<not> is_error (k a)) \<Longrightarrow> safeH (respond k f)"
  unfolding safeH_def respond_def by (auto dest: atomicD split: prod.splits sum.splits)

lemma safe_withID: "(\<And>i. safeH (k i r)) \<Longrightarrow> safeH (withID B k r)"
  unfolding safeH_def withID_def by (auto split: sum.splits)

lemma safe_withBody: "(\<And>a. safeH (k a r)) \<Longrightarrow> safeH (withBody d zero k r)"
  unfolding safeH_def withBody_def by (auto split: decoded.splits)

lemma safe_list: "(\<And>q. readsA (list q)) \<Longrightarrow> safeH (listHandler B filtered doc list r)"
  unfolding listHandler_def
  by (cases "listQuery B filtered r") (auto simp: safeH_def respond_def dest: readsD split: prod.splits sum.splits)

text \<open>The pagination only reads.\<close>

definition pages_read :: "backend \<Rightarrow> bool" where
  "pages_read B \<longleftrightarrow> (\<forall>sq q. readsA (be_rules B sq q) \<and> readsA (be_evaluations B sq q) \<and> readsA (be_alerts B sq q)
     \<and> readsA (be_alertEvents B sq q) \<and> readsA (be_policies B sq q) \<and> readsA (be_reconciliations B sq q))"

lemma lists_read:
  assumes "pages_read B"
  shows "readsA (ListRules ops (be_rules B) q)" "readsA (ListEvaluations ops (be_evaluations B) q)"
    "readsA (ListAlerts ops (be_alerts B) q)" "readsA (ListAlertEvents arg (be_alertEvents B) i q)"
    "readsA (ListPolicies ops (be_policies B) q)" "readsA (ListReconciliations ops (be_reconciliations B) q)"
  unfolding ListRules_def ListEvaluations_def ListAlerts_def ListAlertEvents_def ListPolicies_def
    ListReconciliations_def existsRow_def
  using assms unfolding pages_read_def by (auto intro!: readsI)

lemma evaluate_safe: "safeH (evaluateRuleHandler B r)"
  unfolding evaluateRuleHandler_def
proof (rule safe_withID)
  fix i
  have "safeH (respond (\<lambda>ev. Ok (EvaluationDoc (renderEvaluation B ev))) (svc_EvaluateRule (be_runner B) i q))" for q
    by (rule safe_respond [OF EvaluateRule_atomic]) simp
  then show "safeH (\<lambda>w. (case (case Decode (dec_struct evaluate_set) (hr_Body r) noEvaluateParams of
              Decoded req \<Rightarrow> Inr req | DecodedEOF \<Rightarrow> Inr noEvaluateParams | DecodeError err \<Rightarrow> Inl err) of
        Inl err \<Rightarrow> (BadRequest CodeMissingOrInvalidBody err, w)
      | Inr req \<Rightarrow>
          (case goNow w of (now, w) \<Rightarrow>
           case evaluateRequestOf (be_fmul B) now req of
             Inl err \<Rightarrow> (BadRequest CodeValidation err, w)
           | Inr svcReq \<Rightarrow>
               respond (\<lambda>ev. Ok (EvaluationDoc (renderEvaluation B ev))) (svc_EvaluateRule (be_runner B) i svcReq) w)))"
    unfolding safeH_def by (auto split: decoded.splits sum.splits)
qed

lemma reconciliation_safe: "safeH (reconciliationHandler B r)"
  unfolding reconciliationHandler_def
proof (rule safe_withBody)
  fix q
  have "safeH (respond (\<lambda>res. Ok (ReconciliationDoc (reconciliationDocument B (hr_Param r) res)))
      (svc_Reconciliation (be_uuid B) (be_sdk B) (be_paymentsFirst B) (hr_Param r) q))"
    by (rule safe_respond [OF policies_atomic(3)]) simp
  then show "safeH (\<lambda>w. (case goNow w of (now1, w) \<Rightarrow>
        case goNow w of (now2, w) \<Rightarrow>
        case ReconciliationRequest_Validate now1 now2 q of
          Some err \<Rightarrow> (BadRequest CodeValidation err, w)
        | None \<Rightarrow>
            if hr_Param r = '''' then (BadRequest CodeValidation (new_error ''missing policyID''), w)
            else respond (\<lambda>res. Ok (ReconciliationDoc (reconciliationDocument B (hr_Param r) res)))
                   (svc_Reconciliation (be_uuid B) (be_sdk B) (be_paymentsFirst B) (hr_Param r) q) w))"
    unfolding safeH_def by (auto split: option.splits if_splits)
qed

lemma serve_safe:
  assumes "pages_read B" and "e \<noteq> EpPatchRule"
  shows "safeH (serve B e r)"
proof -
  note handlers = getReconciliationHandler_def listReconciliationsHandler_def createPolicyHandler_def
    listPoliciesHandler_def deletePolicyHandler_def getPolicyHandler_def createRuleHandler_def listRulesHandler_def
    getRuleHandler_def deleteRuleHandler_def listEvaluationsHandler_def getEvaluationHandler_def
    listAlertsHandler_def getAlertHandler_def listAlertEventsHandler_def ackAlertHandler_def
    resolveAlertHandler_def acceptAlertHandler_def snoozeAlertHandler_def unsnoozeAlertHandler_def
  note ops = CreateRule_atomic DeleteRule_atomic alerts_atomic policies_atomic atomic_reads getters_read
  show ?thesis
    using assms(2)
    by (cases e)
      (auto simp: handlers alertDocument_def evaluate_safe reconciliation_safe
        intro!: safe_withID safe_withBody safe_list safe_respond lists_read [OF assms(1)] intro: ops)
qed

text \<open>
  C37. A request of the API that is answered with an error changed no table, whatever endpoint it
  went to and whatever failed, with one exception: a \<open>PATCH\<close> of a rule is committed before the rule is
  read again for the response, so an error of that last read is reported although the patch holds.
\<close>

theorem errors_change_nothing:
  assumes "pages_read B" and "serve B e r w = (resp, w')" and "is_error resp"
  shows "w_db w' = w_db w
    \<or> (e = EpPatchRule \<and> (\<exists>i patch w1. svc_PatchRule (be_service B) i patch w = (Inr (), w1) \<and> w_db w' = w_db w1))"
proof (cases "e = EpPatchRule")
  case False
  then show ?thesis using serve_safe [OF assms(1)] assms(2,3) by (auto simp: safeH_def)
next
  case True
  have "w_db w' = w_db w \<or> (\<exists>w1. svc_PatchRule (be_service B) i patch w = (Inr (), w1) \<and> w_db w' = w_db w1)"
    if "respond (\<lambda>rule. Ok (RuleDoc (renderRule B rule)))
       (bindA (svc_PatchRule (be_service B) i patch) (\<lambda>_. svc_GetRule i)) w = (resp, w')" for i patch
    using that assms(3) atomicD [OF PatchRule_atomic] readsD [OF getters_read(1)]
    by (fastforce simp: respond_def bindA_Inl split: prod.splits sum.splits)
  then show ?thesis
    using assms(2) True
    by (fastforce simp: patchRuleHandler_def withID_def withBody_def split: sum.splits decoded.splits)
qed

section \<open>Pages\<close>

text \<open>Paginations that refuse pages outside the bounds of the API.\<close>

definition boundedPages :: "'r paginator \<Rightarrow> 'r paginator" where
  "boundedPages p sq q =
     (if 1 \<le> pq_PageSize q \<and> pq_PageSize q \<le> MaxPageSize then p sq q else failA (new_error ''unbounded page''))"

definition bounded :: "backend \<Rightarrow> backend" where
  "bounded B = B\<lparr> be_rules := boundedPages (be_rules B), be_evaluations := boundedPages (be_evaluations B),
     be_alerts := boundedPages (be_alerts B), be_alertEvents := boundedPages (be_alertEvents B),
     be_policies := boundedPages (be_policies B), be_reconciliations := boundedPages (be_reconciliations B) \<rparr>"

lemma bounded_fields [simp]:
  "be_service (bounded B) = be_service B" "be_runner (bounded B) = be_runner B" "be_sdk (bounded B) = be_sdk B"
  "be_uuid (bounded B) = be_uuid B" "be_paymentsFirst (bounded B) = be_paymentsFirst B" "be_fmul (bounded B) = be_fmul B"
  "be_operators (bounded B) = be_operators B" "be_uuidArg (bounded B) = be_uuidArg B"
  "be_ParseJSON (bounded B) = be_ParseJSON B" "be_UnmarshalCursor (bounded B) = be_UnmarshalCursor B"
  "be_DefaultPageSize (bounded B) = be_DefaultPageSize B"
  by (simp_all add: bounded_def)

lemma bounded_pages:
  "be_rules (bounded B) = boundedPages (be_rules B)" "be_evaluations (bounded B) = boundedPages (be_evaluations B)"
  "be_alerts (bounded B) = boundedPages (be_alerts B)" "be_alertEvents (bounded B) = boundedPages (be_alertEvents B)"
  "be_policies (bounded B) = boundedPages (be_policies B)"
  "be_reconciliations (bounded B) = boundedPages (be_reconciliations B)"
  by (simp_all add: bounded_def)

lemmas options_defs = getPaginatedQueryOptionsRules_def getPaginatedQueryOptionsEvaluations_def getPaginatedQueryOptionsAlerts_def
  getPaginatedQueryOptionsAlertEvents_def getPaginatedQueryOptionsPolicies_def getPaginatedQueryOptionsReconciliations_def

lemma bounded_same [simp]:
  "listQuery (bounded B) = listQuery B" "withID (bounded B) = withID B" "renderRule (bounded B) = renderRule B"
  "renderAlert (bounded B) = renderAlert B" "renderAlertEvent (bounded B) = renderAlertEvent B"
  "renderEvaluation (bounded B) = renderEvaluation B" "policyDocument (bounded B) = policyDocument B"
  "reconciliationDocument (bounded B) = reconciliationDocument B" "alertDocument (bounded B) = alertDocument B"
  "getPaginatedQueryOptionsRules (bounded B) = getPaginatedQueryOptionsRules B"
  "getPaginatedQueryOptionsEvaluations (bounded B) = getPaginatedQueryOptionsEvaluations B"
  "getPaginatedQueryOptionsAlerts (bounded B) = getPaginatedQueryOptionsAlerts B"
  "getPaginatedQueryOptionsAlertEvents (bounded B) = getPaginatedQueryOptionsAlertEvents B"
  "getPaginatedQueryOptionsPolicies (bounded B) = getPaginatedQueryOptionsPolicies B"
  "getPaginatedQueryOptionsReconciliations (bounded B) = getPaginatedQueryOptionsReconciliations B"
  unfolding fun_eq_iff options_defs listQuery_def getPaginatedQueryOptions_def getQueryBuilder_def withID_def renderRule_def
    renderAlert_def renderAlertEvent_def renderEvaluation_def policyDocument_def reconciliationDocument_def
    alertDocument_def bounded_fields
  by simp_all

lemma bounded_handlers:
  "getReconciliationHandler (bounded B) = getReconciliationHandler B" "createPolicyHandler (bounded B) = createPolicyHandler B"
  "deletePolicyHandler (bounded B) = deletePolicyHandler B" "getPolicyHandler (bounded B) = getPolicyHandler B"
  "reconciliationHandler (bounded B) = reconciliationHandler B" "createRuleHandler (bounded B) = createRuleHandler B"
  "getRuleHandler (bounded B) = getRuleHandler B" "deleteRuleHandler (bounded B) = deleteRuleHandler B"
  "patchRuleHandler (bounded B) = patchRuleHandler B" "evaluateRuleHandler (bounded B) = evaluateRuleHandler B"
  "getEvaluationHandler (bounded B) = getEvaluationHandler B" "getAlertHandler (bounded B) = getAlertHandler B"
  "ackAlertHandler (bounded B) = ackAlertHandler B" "resolveAlertHandler (bounded B) = resolveAlertHandler B"
  "acceptAlertHandler (bounded B) = acceptAlertHandler B" "snoozeAlertHandler (bounded B) = snoozeAlertHandler B"
  "unsnoozeAlertHandler (bounded B) = unsnoozeAlertHandler B"
  unfolding fun_eq_iff getReconciliationHandler_def createPolicyHandler_def deletePolicyHandler_def getPolicyHandler_def
    reconciliationHandler_def createRuleHandler_def getRuleHandler_def deleteRuleHandler_def patchRuleHandler_def
    evaluateRuleHandler_def getEvaluationHandler_def getAlertHandler_def ackAlertHandler_def resolveAlertHandler_def
    acceptAlertHandler_def snoozeAlertHandler_def unsnoozeAlertHandler_def bounded_fields bounded_same
  by simp_all

text \<open>The ways a list reads its options.\<close>

definition pageOptions :: "backend \<Rightarrow> (request \<Rightarrow> gerror + paginatedOptions) set" where
  "pageOptions B = {getPaginatedQueryOptionsRules B, getPaginatedQueryOptionsEvaluations B,
     getPaginatedQueryOptionsAlerts B, getPaginatedQueryOptionsAlertEvents B,
     getPaginatedQueryOptionsPolicies B, getPaginatedQueryOptionsReconciliations B}"

lemma listQuery_bounds:
  assumes "f \<in> pageOptions B" and "1 \<le> be_DefaultPageSize B" "be_DefaultPageSize B \<le> MaxPageSize" and "listQuery B f r = Inr q"
  shows "1 \<le> pq_PageSize q \<and> pq_PageSize q \<le> MaxPageSize"
  using assms
  by (auto simp: pageOptions_def options_defs listQuery_def validateCursorPageSize_def getPaginatedQueryOptions_def getPageSize_def NewGetQuery_def
      NewPaginatedQueryOptions_def MaxPageSize_def Let_def split: if_splits sum.splits option.splits)

lemma listHandler_cong:
  assumes "\<And>q. listQuery B f r = Inr q \<Longrightarrow> list q = list' q"
  shows "listHandler B f doc list r w = listHandler (bounded B) f doc list' r w"
  using assms by (auto simp: listHandler_def respond_def split: sum.split)

text \<open>
  C38. No list of the API reads an unbounded page: whatever page size a request asks for, and whatever
  cursor it forges, no handler ever calls the pagination with a page of no rows, which would lift the
  limit, or of more than a hundred; a server whose pagination refuses such pages answers every
  request in the same way.
\<close>

theorem pages_are_bounded:
  assumes "1 \<le> be_DefaultPageSize B" and "be_DefaultPageSize B \<le> MaxPageSize"
  shows "serve (bounded B) e r w = serve B e r w"
proof -
  have list: "listHandler (bounded B) f doc list r w = listHandler B f doc list' r w"
    if "f \<in> pageOptions B" "\<And>q. 1 \<le> pq_PageSize q \<and> pq_PageSize q \<le> MaxPageSize \<Longrightarrow> list' q = list q" for f doc list list'
    using listHandler_cong [of B f r list' list doc w] that listQuery_bounds [OF that(1) assms] by simp
  have rules: "ListRules ops (be_rules (bounded B)) q = ListRules ops (be_rules B) q"
      "ListEvaluations ops (be_evaluations (bounded B)) q = ListEvaluations ops (be_evaluations B) q"
      "ListAlerts ops (be_alerts (bounded B)) q = ListAlerts ops (be_alerts B) q"
      "ListAlertEvents arg (be_alertEvents (bounded B)) i q = ListAlertEvents arg (be_alertEvents B) i q"
      "ListPolicies ops (be_policies (bounded B)) q = ListPolicies ops (be_policies B) q"
      "ListReconciliations ops (be_reconciliations (bounded B)) q = ListReconciliations ops (be_reconciliations B) q"
    if "1 \<le> pq_PageSize q \<and> pq_PageSize q \<le> MaxPageSize" for ops arg i q
  proof -
    have pages: "boundedPages p sq q = p sq q" for p :: "'x paginator" and sq
      using that by (simp add: boundedPages_def)
    show "ListRules ops (be_rules (bounded B)) q = ListRules ops (be_rules B) q"
      "ListEvaluations ops (be_evaluations (bounded B)) q = ListEvaluations ops (be_evaluations B) q"
      "ListAlerts ops (be_alerts (bounded B)) q = ListAlerts ops (be_alerts B) q"
      "ListAlertEvents arg (be_alertEvents (bounded B)) i q = ListAlertEvents arg (be_alertEvents B) i q"
      "ListPolicies ops (be_policies (bounded B)) q = ListPolicies ops (be_policies B) q"
      "ListReconciliations ops (be_reconciliations (bounded B)) q = ListReconciliations ops (be_reconciliations B) q"
      unfolding ListRules_def ListEvaluations_def ListAlerts_def ListAlertEvents_def ListPolicies_def
        ListReconciliations_def bounded_pages pages by (rule refl)+
  qed
  note lists = listReconciliationsHandler_def listPoliciesHandler_def listRulesHandler_def listEvaluationsHandler_def
    listAlertsHandler_def listAlertEventsHandler_def
  show ?thesis
    by (cases e) (auto simp: bounded_handlers lists withID_def pageOptions_def intro!: list rules [symmetric] split: sum.split)
qed

section \<open>Manual evaluations\<close>

text \<open>
  What the runner is asked for: a margin that is not negative, and instants that are not after the
  instant of the request; with overrides the request names the global instant, too.
\<close>

definition past_request :: "frac_mul \<Rightarrow> evaluateRuleRequest \<Rightarrow> time \<Rightarrow> evaluateRequest \<Rightarrow> bool" where
  "past_request fmul body now req \<longleftrightarrow> rq_SourcePITs req = erq_SourcePITs body
     \<and> rq_PIT req = (case erq_At body of None \<Rightarrow> 0 | Some at \<Rightarrow> at)
     \<and> (\<forall>at\<in>set_option (erq_At body). at \<le> now) \<and> (\<forall>(key, pit)\<in>set (rq_SourcePITs req). pit \<le> now)
     \<and> (rq_SourcePITs req = [] \<or> erq_At body \<noteq> None)
     \<and> (if erq_SafetyMargin body = '''' then rq_SafetyMargin req = 30 * second
        else ParseDuration fmul (erq_SafetyMargin body) = Inr (rq_SafetyMargin req) \<and> 0 \<le> rq_SafetyMargin req)"

text \<open>
  The evaluation \<open>ev\<close> of the rule \<open>i\<close> is what its registered template answered for the request with
  \<open>pit\<close> as its instant, as far as the instants of the sources go.
\<close>

definition evaluated_at :: "runner \<Rightarrow> uuid \<Rightarrow> evaluateRequest \<Rightarrow> time \<Rightarrow> db \<Rightarrow> evaluation \<Rightarrow> bool" where
  "evaluated_at R i req pit d ev \<longleftrightarrow> (\<exists>eng templates rule T clock answer.
     rn_engine R = Some eng \<and> rn_templates R = Some templates \<and> rule \<in> set (t_rules d) \<and> rule_ID rule = i
     \<and> Registry_Get templates (rule_TemplateKind rule) = Inr T
     \<and> tm_Evaluate T (rn_ctx R) clock (rule_TemplateSpec rule) eng (rn_resolvers R)
         \<lparr> PIT = pit, PITExplicit = (\<not> IsZero (rq_PIT req)), SourcePITs = rq_SourcePITs req,
           in_SafetyMargin = rq_SafetyMargin req \<rparr> = answer
     \<and> eval_PitPerSource ev = (case fst answer of None \<Rightarrow> [] | Some res \<Rightarrow> er_PitPerSource res))"

lemma commitRun_pits:
  assumes "RunInTx (commitRun sqlStore rule completion p ended answer ev0) w = (Inr ev, w')"
  shows "eval_PitPerSource ev = eval_PitPerSource ev0"
proof -
  obtain w1 w2 where "commitRun sqlStore rule completion p ended answer ev0 w1 = (Inr ev, w2)"
    using assms by (auto simp: RunInTx_def inTx_def split: prod.splits sum.splits option.splits if_splits)
  then obtain w3 w4 where "CreateEvaluation ev0 w3 = (Inr ev, w4)" by (auto simp: commitRun_def act_dest)
  then show ?thesis using CreateEvaluation_Inr by (metis evaluation.select_convs(5) evaluation.surjective evaluation.update_convs(7,12))
qed

lemma manualBody_evaluated:
  assumes "manualBody R sqlStore i req w = (Inr ev, w')"
  shows "evaluated_at R i req (if IsZero (rq_PIT req) then w_clock w (w_ticks w) else rq_PIT req) (w_db w) ev"
proof -
  from assms obtain eng rule T w1 where load: "loadRule R sqlStore i None w = (Inr (eng, rule, T), w1)"
    and run: "run R eng sqlStore rule T req None w1 = (Inr ev, w')"
    by (auto simp: manualBody_def act_dest split: option.splits)
  have clock: "w_clock w1 = w_clock w" "w_ticks w1 = w_ticks w"
    using load by (auto simp: loadRule_def act_dest GetRule_def selectOne_def split: option.splits if_splits prod.splits)
  obtain templates where reg: "rn_templates R = Some templates" "Registry_Get templates (rule_TemplateKind rule) = Inr T"
    using load by (auto simp: loadRule_def act_dest split: option.splits if_splits)
  note l = loadRule_Inr [OF load]
  have rule: "rule \<in> set (t_rules (w_db w))" using l by (auto simp: find_Some_iff)
  from run obtain clk started ended j answer p w2 w3 where
    answer: "tm_Evaluate T (rn_ctx R) clk (rule_TemplateSpec rule) eng (rn_resolvers R)
         \<lparr> PIT = (if IsZero (rq_PIT req) then w_clock w1 (w_ticks w1) else rq_PIT req), PITExplicit = (\<not> IsZero (rq_PIT req)),
           SourcePITs = rq_SourcePITs req, in_SafetyMargin = rq_SafetyMargin req \<rparr> = answer"
    and commit: "RunInTx (commitRun sqlStore rule None p ended answer (newEvaluation rule j started ended None answer)) w2 = (Inr ev, w3)"
    by (auto simp: run_def act_dest tickA_def evaluateTemplate_def split: if_splits option.splits prod.splits)
  have "eval_PitPerSource ev = (case fst answer of None \<Rightarrow> [] | Some res \<Rightarrow> er_PitPerSource res)"
    using commitRun_pits [OF commit] by (simp add: newEvaluation_def Let_def split: prod.splits)
  then show ?thesis
    using l rule reg answer unfolding evaluated_at_def clock by blast
qed

lemma EvaluateRule_evaluated:
  assumes "svc_EvaluateRule R i req w = (Inr ev, w')"
  shows "evaluated_at R i req (if IsZero (rq_PIT req) then w_clock w (w_ticks w) else rq_PIT req) (w_db w) ev"
proof -
  from assms obtain w1 where lock: "TryWithRuleLock i (manualBody R sqlStore i req) w = (Inr (Some ev), w1)"
    by (auto simp: svc_EvaluateRule_def Evaluate_rule_def act_dest split: if_splits option.splits)
  then obtain w2 w3 where "manualBody R sqlStore i req w2 = (Inr ev, w3)"
      "w2 = w\<lparr> w_stmts := w_stmts w + 1 + 1 \<rparr>"
    by (auto simp: TryWithRuleLock_def split: option.splits if_splits prod.splits sum.splits)
  then show ?thesis using manualBody_evaluated by fastforce
qed

lemma no_future: "filter (\<lambda>(key, pit). After pit now) pits = [] \<longleftrightarrow> (\<forall>(key, pit)\<in>set pits. pit \<le> now)"
  by (induction pits) auto

lemma evaluateRequestOf_past: "evaluateRequestOf fmul now body = Inr req \<Longrightarrow> past_request fmul body now req"
  by (auto simp: evaluateRequestOf_def past_request_def defaultEvaluateSafetyMargin_def Let_def no_future
      split: if_splits option.splits list.splits sum.splits)

text \<open>The answer to a request for the rule \<open>i\<close> with the parameters \<open>body\<close>, accepted and run.\<close>

definition runs_past :: "backend \<Rightarrow> uuid \<Rightarrow> evaluateRuleRequest \<Rightarrow> world \<Rightarrow> response \<Rightarrow> world \<Rightarrow> bool" where
  "runs_past B i body w resp w' \<longleftrightarrow> (\<exists>req. past_request (be_fmul B) body (w_clock w (w_ticks w)) req
        \<and> (resp, w') = respond (\<lambda>ev. Ok (EvaluationDoc (renderEvaluation B ev)))
             (svc_EvaluateRule (be_runner B) i req) (w\<lparr> w_ticks := w_ticks w + 1 \<rparr>)
        \<and> (\<forall>ev w''. svc_EvaluateRule (be_runner B) i req (w\<lparr> w_ticks := w_ticks w + 1 \<rparr>) = (Inr ev, w'') \<longrightarrow>
             evaluated_at (be_runner B) i req
               (if IsZero (rq_PIT req) then w_clock w (w_ticks w + 1) else rq_PIT req) (w_db w) ev))"

text \<open>
  C39. A manual evaluation reads the past. Every request for one is either refused as a bad request
  without a change, or runs the rule for what the body gives: its global instant and its instants of
  single sources, none of which is after the instant of the request, and its safety margin, as the
  duration its text parses to, which is not negative, or thirty seconds when it gives none. Overrides
  of sources come with a global instant, and a missing body is one with no parameters. A run that
  succeeds evaluated the rule's registered template at that instant; without one (a global instant
  that is the zero time counts as none) at the instant the clock shows when the run starts, the reading
  that follows the one the request was checked against. The template takes the margin off a global
  instant before it reads.
\<close>

theorem evaluate_reads_the_past:
  assumes "evaluateRuleHandler B r w = (resp, w')"
  shows "(\<exists>code err. resp = BadRequest code err \<and> w_db w' = w_db w)
    \<or> (\<exists>i body. uuid_Parse (be_uuid B) (hr_Param r) = Inr i
        \<and> (Decode (dec_struct evaluate_set) (hr_Body r) noEvaluateParams = Decoded body
           \<or> (ws (hr_Body r) = '''' \<and> body = noEvaluateParams))
        \<and> runs_past B i body w resp w')"
proof -
  have run: "(\<exists>code err. resp = BadRequest code err \<and> w_db w' = w_db w)
    \<or> runs_past B i body w resp w'"
    if "(case goNow w of (now, w) \<Rightarrow>
           (case evaluateRequestOf (be_fmul B) now body of
              Inl err \<Rightarrow> (BadRequest CodeValidation err, w)
            | Inr svcReq \<Rightarrow>
                respond (\<lambda>ev. Ok (EvaluationDoc (renderEvaluation B ev))) (svc_EvaluateRule (be_runner B) i svcReq) w))
         = (resp, w')" for i body
  proof (cases "evaluateRequestOf (be_fmul B) (w_clock w (w_ticks w)) body")
    case (Inl err)
    then show ?thesis using that by auto
  next
    case (Inr req)
    have "evaluated_at (be_runner B) i req
               (if IsZero (rq_PIT req) then w_clock w (w_ticks w + 1) else rq_PIT req) (w_db w) ev"
      if "svc_EvaluateRule (be_runner B) i req (w\<lparr> w_ticks := w_ticks w + 1 \<rparr>) = (Inr ev, w'')" for ev w''
      using EvaluateRule_evaluated [OF that] by (cases "IsZero (rq_PIT req)") simp_all
    then show ?thesis using that evaluateRequestOf_past [OF Inr] Inr unfolding runs_past_def by (intro disjI2 exI [of _ req]) simp
  qed
  have eof: "Decode d body zero = DecodedEOF \<Longrightarrow> ws body = ''''" for d :: "evaluateRuleRequest decoder" and body zero
    by (auto simp: Decode_def split: if_splits option.splits prod.splits)
  show ?thesis
  proof (cases "uuid_Parse (be_uuid B) (hr_Param r)")
    case (Inl err)
    then show ?thesis using assms by (auto simp: evaluateRuleHandler_def withID_def)
  next
    case (Inr i)
    show ?thesis
    proof (cases "Decode (dec_struct evaluate_set) (hr_Body r) noEvaluateParams")
      case (Decoded body)
      then show ?thesis using run [where body = body and i = i] assms Inr by (auto simp: evaluateRuleHandler_def withID_def)
    next
      case DecodedEOF
      then show ?thesis using run [where body = noEvaluateParams and i = i] eof [OF DecodedEOF] assms Inr
        by (auto simp: evaluateRuleHandler_def withID_def)
    next
      case (DecodeError err)
      then show ?thesis using assms Inr by (auto simp: evaluateRuleHandler_def withID_def)
    qed
  qed
qed

section \<open>Examples\<close>

definition exampleBackend :: backend where
  "exampleBackend =
     \<lparr> be_service = \<lparr> sv_templates = None, sv_engine = None, sv_parse = everyTen \<rparr>,
       be_runner = \<lparr> rn_engine = None, rn_templates = None, rn_resolvers = \<lparr> Ledger = None, Payments = None \<rparr>,
         rn_ctx = \<lambda>_. None, rn_cancelled = None \<rparr>,
       be_sdk = \<lparr> lc_GetBalancesAggregated = \<lambda>_ _ _. Inl (new_error ''down''),
         lc_GetPoolBalances = \<lambda>_ _. Inl (new_error ''down'') \<rparr>,
       be_uuid = \<lparr> uuid_Parse = \<lambda>s. if s = ''3'' then Inr 3 else Inl (new_error ''invalid UUID''), uuid_String = \<lambda>i. if i = 100 then ''100'' else ''3'' \<rparr>,
       be_paymentsFirst = False, be_fmul = \<lambda>f unit scale. f * (unit div scale), be_operators = \<lambda>_. None, be_uuidArg = \<lambda>_. JNull,
       be_ParseJSON = \<lambda>_. Inr None, be_UnmarshalCursor = \<lambda>_. Inl (new_error ''bad cursor''), be_DefaultPageSize = 15,
       be_rules = \<lambda>sq q. returnA [cronRule\<lparr> rule_ID := pq_PageSize q \<rparr>], be_evaluations = \<lambda>_ _. returnA [],
       be_alerts = \<lambda>_ _. returnA [], be_alertEvents = \<lambda>_ _. returnA [], be_policies = \<lambda>_ _. returnA [],
       be_reconciliations = \<lambda>_ _. returnA [] \<rparr>"

definition exampleCall :: "string \<Rightarrow> string \<Rightarrow> request" where
  "exampleCall body pageSize = \<lparr> hr_Param = ''3'', hr_Body = body, hr_Query = (\<lambda>k. if k = ''pageSize'' then pageSize else '''') \<rparr>"

lemma example_refused:
  "(case fst (serve exampleBackend EpAckAlert (exampleCall ''{}'' '''') planWorld) of
      BadRequest c err \<Rightarrow> c = CodeValidation | _ \<Rightarrow> False)"
  by code_simp

theorem errors_change_nothing_witness:
  "\<exists>err w'. serve exampleBackend EpAckAlert (exampleCall ''{}'' '''') planWorld = (BadRequest CodeValidation err, w')
     \<and> w_db w' = w_db planWorld"
proof -
  obtain err w' where run: "serve exampleBackend EpAckAlert (exampleCall ''{}'' '''') planWorld = (BadRequest CodeValidation err, w')"
    using example_refused
    by (cases "serve exampleBackend EpAckAlert (exampleCall ''{}'' '''') planWorld") (auto split: response.splits)
  have "pages_read exampleBackend" by (simp add: pages_read_def exampleBackend_def readsI)
  from errors_change_nothing [OF this run] run show ?thesis by auto
qed

lemma example_page:
  "serve exampleBackend EpListRules (exampleCall '''' ''4000'') planWorld =
     (RenderCursor (RulesPage [renderRule exampleBackend (cronRule\<lparr> rule_ID := 100 \<rparr>)]), planWorld)"
proof -
  have "getPageSize 15 (exampleCall '''' ''4000'') = Inr 100"
    by (simp add: getPageSize_def exampleCall_def ParseUint32_def undec_nat_def MaxPageSize_def)
  then have "listQuery exampleBackend (getPaginatedQueryOptionsRules exampleBackend) (exampleCall '''' ''4000'') =
      Inr (NewGetQuery ((NewPaginatedQueryOptions 15 noFilters)\<lparr> po_QueryBuilder := None, po_PageSize := 100 \<rparr>))"
    by (simp add: listQuery_def options_defs getPaginatedQueryOptions_def getQueryBuilder_def exampleBackend_def exampleCall_def
        maxQueryBuilderBodySize_def)
  then show ?thesis
    by (simp add: listRulesHandler_def listHandler_def respond_def ListRules_def whereOf_def NewGetQuery_def bindA_def
        ofSum_def returnA_def exampleBackend_def)
qed

theorem pages_are_bounded_witness:
  "\<exists>rs. fst (serve (bounded exampleBackend) EpListRules (exampleCall '''' ''4000'') planWorld) = RenderCursor (RulesPage rs)
     \<and> map rur_ID rs = [''100'']"
  using pages_are_bounded [of exampleBackend EpListRules "exampleCall '''' ''4000''" planWorld] example_page
  by (auto simp: exampleBackend_def MaxPageSize_def renderRule_def)

text \<open>A request at instant 1000 for instant 500 with a margin of a second; the example has no engine.\<close>

definition evaluateBody :: string where
  "evaluateBody = concat [''{'', quoted ''at'', '':'', quoted ''0001-01-01T00:00:00.0000005Z'', '','', quoted ''safetyMargin'', '':'', quoted ''1s'', ''}'']"

definition exampleParams :: evaluateRuleRequest where
  "exampleParams = \<lparr> erq_At = Some 500, erq_SafetyMargin = ''1s'', erq_SourcePITs = [] \<rparr>"

definition exampleRequest :: evaluateRequest where
  "exampleRequest = \<lparr> rq_PIT = 500, rq_SafetyMargin = second, rq_SourcePITs = [] \<rparr>"

lemma example_margin: "ParseDuration (be_fmul exampleBackend) ''1s'' = Inr second"
proof -
  have "Duration_String second = ''1s''" by code_simp
  with ParseDuration_String [of "be_fmul exampleBackend" second] show ?thesis
    by (simp add: exampleBackend_def exact_mul_def IsInt64_def)
qed

lemma example_evaluation:
  "Decode (dec_struct evaluate_set) evaluateBody noEvaluateParams = Decoded exampleParams" "ws evaluateBody \<noteq> ''''"
  "w_clock planWorld (w_ticks planWorld) = 1000"
  "(case fst (respond (\<lambda>ev. Ok (EvaluationDoc (renderEvaluation exampleBackend ev)))
      (svc_EvaluateRule (be_runner exampleBackend) 3 exampleRequest) (planWorld\<lparr> w_ticks := w_ticks planWorld + 1 \<rparr>)) of
     InternalServerError err \<Rightarrow> True | _ \<Rightarrow> False)"
  by code_simp+

theorem evaluate_reads_the_past_witness:
  "\<exists>req. past_request (be_fmul exampleBackend) exampleParams (w_clock planWorld (w_ticks planWorld)) req
     \<and> rq_PIT req = 500 \<and> rq_SafetyMargin req = second"
proof -
  obtain resp w' where run: "evaluateRuleHandler exampleBackend (exampleCall evaluateBody '''') planWorld = (resp, w')" by fastforce
  have call: "hr_Body (exampleCall evaluateBody '''') = evaluateBody" "uuid_Parse (be_uuid exampleBackend) (hr_Param (exampleCall evaluateBody '''')) = Inr 3"
    by (simp_all add: exampleCall_def exampleBackend_def)
  have "evaluateRequestOf (be_fmul exampleBackend) 1000 exampleParams = Inr exampleRequest"
    using example_margin by (simp add: evaluateRequestOf_def exampleParams_def exampleRequest_def)
  then have "(resp, w') = respond (\<lambda>ev. Ok (EvaluationDoc (renderEvaluation exampleBackend ev)))
      (svc_EvaluateRule (be_runner exampleBackend) 3 exampleRequest) (planWorld\<lparr> w_ticks := w_ticks planWorld + 1 \<rparr>)"
    using run call example_evaluation(1,3) by (simp add: evaluateRuleHandler_def withID_def)
  then have "\<nexists>code err. resp = BadRequest code err" using example_evaluation(4) by (metis fst_conv response.simps)
  with evaluate_reads_the_past [OF run, unfolded call] example_evaluation(1,2) obtain req where
    req: "past_request (be_fmul exampleBackend) exampleParams (w_clock planWorld (w_ticks planWorld)) req"
    by (auto simp: runs_past_def)
  then show ?thesis using example_margin by (intro exI [of _ req]) (simp add: past_request_def exampleParams_def)
qed

end
