(* ===== verification/RuleLock.thy ===== *)
theory RuleLock
  imports Frames
begin

unbundle bit_operations_syntax

text \<open>
  The advisory lock of a rule, \<open>internal/storage/rule_lock.go\<close>: the key a rule is locked under, a
  CRC-32 of its identifier in a class of its own, the statements that take and give back the lock,
  and the two ways to run a body under it. A session holds the lock on its connection; two rules
  with the same key exclude each other too.
\<close>

section \<open>Keys\<close>

text \<open>\<open>hash/crc32\<close>, the IEEE polynomial in its reversed form, one bit at a time.\<close>

definition crc_bit :: "32 word \<Rightarrow> 32 word" where
  "crc_bit c = (if bit c 0 then drop_bit 1 c XOR 0xEDB88320 else drop_bit 1 c)"

definition crc_byte :: "32 word \<Rightarrow> 8 word \<Rightarrow> 32 word" where
  "crc_byte c b = (crc_bit ^^ 8) (c XOR ucast b)"

definition ChecksumIEEE :: "8 word list \<Rightarrow> 32 word" where
  "ChecksumIEEE bs = NOT (foldl crc_byte (NOT 0) bs)"

definition bytes_of :: "string \<Rightarrow> 8 word list" where
  "bytes_of s = map (\<lambda>c. word_of_nat (of_char c)) s"

text \<open>The sixteen bytes of an identifier, the first the most significant.\<close>

definition uuid_bytes :: "uuid \<Rightarrow> 8 word list" where
  "uuid_bytes i = map (\<lambda>k. word_of_nat (i div 256 ^ (15 - k))) [0..<16]"

text \<open>\<open>int32\<close> of a checksum: the same bits, read as a signed number.\<close>

type_synonym int32 = "32 word"

definition ruleEvalLockClass :: int32 where
  "ruleEvalLockClass = ChecksumIEEE (bytes_of ''reconciliation:rule_eval'')"

definition ruleAdvisoryLockKey :: "uuid \<Rightarrow> int32" where
  "ruleAdvisoryLockKey ruleID = ChecksumIEEE (uuid_bytes ruleID)"

text \<open>The check value the polynomial is published with, and the class of the locks.\<close>

lemma crc_byte_eq: "crc_byte c b =
    crc_bit (crc_bit (crc_bit (crc_bit (crc_bit (crc_bit (crc_bit (crc_bit (c XOR ucast b))))))))"
  by (simp add: crc_byte_def numeral_eq_Suc)

lemma ChecksumIEEE_check: "ChecksumIEEE (bytes_of ''123456789'') = 0xCBF43926"
  by (simp add: ChecksumIEEE_def bytes_of_def crc_byte_eq crc_bit_def)

lemma ruleEvalLockClass_value: "ruleEvalLockClass = 2686307827"
  by (simp add: ruleEvalLockClass_def ChecksumIEEE_def bytes_of_def crc_byte_eq crc_bit_def)

section \<open>Taking and giving back\<close>

text \<open>
  \<open>acquireLock\<close>: a connection, then \<open>pg_try_advisory_lock\<close>, whether it was granted. Whoever holds the
  lock, the other sessions find it taken for every rule of that key (\<open>hold\<close>) until it is given back
  (\<open>free\<close>), by \<open>pg_advisory_unlock\<close> (\<open>releaseLock\<close>, whose error is only logged and leaves the lock
  to the connection) or with the end of the session.
\<close>

definition hold :: "uuid \<Rightarrow> world \<Rightarrow> world" where
  "hold i w = w\<lparr> w_locked := (\<lambda>j. ruleAdvisoryLockKey j = ruleAdvisoryLockKey i \<or> w_locked w j) \<rparr>"

definition free :: "uuid \<Rightarrow> world \<Rightarrow> world" where
  "free i w = w\<lparr> w_locked := (\<lambda>j. ruleAdvisoryLockKey j \<noteq> ruleAdvisoryLockKey i \<and> w_locked w j) \<rparr>"

definition acquireLock :: "uuid \<Rightarrow> bool act" where
  "acquireLock i w =
     (case stmt w of
        (Some err, w) \<Rightarrow> (Inl (wrap_error ''rule lock: acquire connection'' err), w)
      | (None, w) \<Rightarrow>
     (case stmt w of
        (Some err, w) \<Rightarrow> (Inl (wrap_error ''rule lock: try advisory lock'' err), w)
      | (None, w) \<Rightarrow> (Inr (\<not> w_locked w i), w)))"

definition releaseLock :: "uuid \<Rightarrow> world \<Rightarrow> world" where
  "releaseLock i w = (case stmt w of (Some err, w) \<Rightarrow> w | (None, w) \<Rightarrow> free i w)"

text \<open>The body of \<open>TryWithRuleLock\<close> is run between the two; what others see of the lock is not its concern.\<close>

lemma TryWithRuleLock_split: "TryWithRuleLock i f =
    bindA (acquireLock i) (\<lambda>acquired. if \<not> acquired then returnA None
      else catchA f (\<lambda>r. catchA (tickA stmt) (\<lambda>_. case r of Inl err \<Rightarrow> failA err | Inr a \<Rightarrow> returnA (Some a))))"
  by (rule ext) (auto simp: TryWithRuleLock_def acquireLock_def bindA_def catchA_def returnA_def failA_def tickA_def
      split: option.splits sum.splits prod.splits)

text \<open>
  \<open>WithRuleLock\<close> waits: \<open>await\<close> gives the world in which PostgreSQL grants the lock, if it ever does,
  or the error with which the wait ends.
\<close>

definition WithRuleLock :: "(world \<Rightarrow> (unit act) option) \<Rightarrow> uuid \<Rightarrow> unit act \<Rightarrow> world \<Rightarrow> ((gerror + unit) \<times> world) option" where
  "WithRuleLock await i f w =
     (case stmt w of
        (Some err, w) \<Rightarrow> Some (Inl (wrap_error ''rule lock: acquire connection'' err), w)
      | (None, w) \<Rightarrow>
          (case await w of
             None \<Rightarrow> None
           | Some lock \<Rightarrow>
               (case lock w of
                  (Inl err, w) \<Rightarrow> Some (Inl (wrap_error ''rule lock: acquire advisory lock'' err), w)
                | (Inr _, w) \<Rightarrow> Some (case f w of (r, w) \<Rightarrow> (r, snd (stmt w))))))"

end
