(* ===== verification/System.thy ===== *)
theory System
  imports RuleLock EvaluationRun
begin

text \<open>
  The evaluations of the service as a system: any number of them, manual and scheduled, on any number
  of replicas, step by step between the operations of the planner, the workers and the API. A run
  takes the lock of its rule, counts its attempt, loads the rule, reads its sources, commits and gives
  the lock back, and anything may happen between two of these steps. Two invariants: a job that
  succeeded has exactly one evaluation of its occurrence, and the evaluations of a rule never overlap, so
  the one that commits last has read last.
\<close>

section \<open>The steps of a run (reconciliation/runner.go)\<close>

datatype trigger = Manual uuid evaluateRequest | Scheduled evaluationJob

fun triggerRule :: "trigger \<Rightarrow> uuid" where
  "triggerRule (Manual i req) = i"
| "triggerRule (Scheduled job) = job_RuleID job"

text \<open>
  What a run has done so far: it holds the lock, its attempt is counted, the rule is loaded, the clock
  was read, the sources were read and the evaluation is ready to be committed, it is committed.
\<close>

datatype phase =
    Locked
  | Counted
  | Loaded engine rule evaluator evaluateRequest "evaluationJob option"
  | Begun engine rule evaluator evaluateRequest "evaluationJob option" time time
  | Ready rule "evaluationJob option" string time templateAnswer evaluation
  | Done evaluation

fun advance :: "runner \<Rightarrow> trigger \<Rightarrow> phase \<Rightarrow> phase act" where
  "advance R (Manual i req) Locked =
     bindA (loadRule R sqlStore i None) (\<lambda>(eng, rule, T).
     case validateSourcePITs T rule (rq_SourcePITs req) of
       Some err \<Rightarrow> failA err
     | None \<Rightarrow> returnA (Loaded eng rule T req None))"
| "advance R (Scheduled job) Locked =
     bindA (StartEvaluationJob (job_ID job) (the (job_ClaimToken job))) (\<lambda>_. returnA Counted)"
| "advance R (Scheduled job) Counted =
     bindA (loadRule R sqlStore (job_RuleID job) (Some (job_RuleRevision job))) (\<lambda>(eng, rule, T).
     returnA (Loaded eng rule T
       \<lparr> rq_PIT = job_ScheduledAt job, rq_SafetyMargin = schedule_margin rule, rq_SourcePITs = [] \<rparr> (Some job)))"
| "advance R t (Loaded eng rule T req completion) =
     bindA (if IsZero (rq_PIT req) then tickA goNow else returnA (rq_PIT req)) (\<lambda>pit.
     bindA (tickA goNow) (\<lambda>began.
     returnA (Begun eng rule T req completion pit began)))"
| "advance R t (Begun eng rule T req completion pit began) =
     bindA (tickA (evaluateTemplate R eng T rule
        \<lparr> PIT = pit, PITExplicit = (\<not> IsZero (rq_PIT req)), SourcePITs = rq_SourcePITs req,
          in_SafetyMargin = rq_SafetyMargin req \<rparr>)) (\<lambda>answer.
     bindA (tickA goNow) (\<lambda>ended.
     case rn_cancelled R of
       Some err \<Rightarrow> failA err
     | None \<Rightarrow>
         bindA (tickA newUUID) (\<lambda>i.
         returnA (Ready rule completion (PeriodID (rule_PeriodType rule) (pit - rq_SafetyMargin req)) ended answer
           (newEvaluation rule i began ended completion answer)))))"
| "advance R t (Ready rule completion p ended answer evaluation) =
     bindA (RunInTx (commitRun sqlStore rule completion p ended answer evaluation)) (\<lambda>ev. returnA (Done ev))"
| "advance R t (Done ev) = returnA (Done ev)"
| "advance R (Manual i req) Counted = failA (sent ErrStaleClaim)"

text \<open>The steps of a run without anything between them, five of them at most.\<close>

fun drive :: "nat \<Rightarrow> runner \<Rightarrow> trigger \<Rightarrow> phase \<Rightarrow> evaluation act" where
  "drive 0 R t ph = failA (new_error ''not done'')"
| "drive (Suc n) R t ph = (case ph of Done ev \<Rightarrow> returnA ev | _ \<Rightarrow> bindA (advance R t ph) (drive n R t))"

lemma bindA_assoc: "bindA (bindA f g) h = bindA f (\<lambda>a. bindA (g a) h)"
  by (rule ext) (simp add: bindA_def split: prod.split sum.split)

lemma bindA_return [simp]: "bindA (returnA a) k = k a" "bindA f returnA = f" "bindA (failA err) k = failA err"
  by (rule ext, simp add: bindA_def returnA_def failA_def split: prod.split sum.split)+

lemma bindA_if: "bindA (if b then f else g) k = (if b then bindA f k else bindA g k)"
  by simp

lemma bindA_option: "bindA (case opt of None \<Rightarrow> f | Some x \<Rightarrow> g x) k = (case opt of None \<Rightarrow> bindA f k | Some x \<Rightarrow> bindA (g x) k)"
  by (simp split: option.split)

lemma bindA_prod: "bindA (case ab of (a, b) \<Rightarrow> f a b) k = (case ab of (a, b) \<Rightarrow> bindA (f a b) k)"
  by (simp split: prod.split)

lemmas bindA_simps = bindA_assoc bindA_option bindA_prod

lemma run_drive: "run R eng sqlStore rule T req completion = drive 4 R t (Loaded eng rule T req completion)"
proof -
  have "drive 2 R t (Ready rule completion p ended answer evaluation)
      = RunInTx (commitRun sqlStore rule completion p ended answer evaluation)" for p ended answer evaluation
    by (simp add: numeral_eq_Suc bindA_simps)
  then show ?thesis
    by (simp add: run_def numeral_eq_Suc bindA_simps cong: option.case_cong)
qed

text \<open>A trigger run on its own: the lock, the steps, the lock given back.\<close>

definition lockedRun :: "runner \<Rightarrow> trigger \<Rightarrow> evaluation act" where
  "lockedRun R t =
     bindA (acquireLock (triggerRule t)) (\<lambda>acquired.
     if \<not> acquired then failA (sent ErrRuleBusy)
     else catchA (drive 6 R t Locked) (\<lambda>r. catchA (tickA stmt) (\<lambda>_. ofSum r)))"

lemma manual_drive: "manualBody R sqlStore i req = drive 6 R (Manual i req) Locked"
proof -
  have "drive 5 R t (Loaded eng rule T req completion) = drive 4 R t (Loaded eng rule T req completion)"
    for t eng rule T completion by (simp add: numeral_eq_Suc bindA_simps cong: option.case_cong)
  then have "drive 6 R (Manual i req) Locked = bindA (advance R (Manual i req) Locked) (drive 4 R (Manual i req))"
    by (simp add: numeral_eq_Suc bindA_simps cong: option.case_cong)
  also have "\<dots> = manualBody R sqlStore i req"
    by (simp add: manualBody_def run_drive [where t = "Manual i req"] bindA_simps numeral_eq_Suc cong: option.case_cong)
  finally show ?thesis ..
qed

lemma scheduled_drive: "bindA (scheduledBody R sqlStore job) (\<lambda>(r, _). ofSum r) = drive 6 R (Scheduled job) Locked"
proof -
  have c: "bindA (catchA f (\<lambda>r. returnA (r, n))) (\<lambda>(r, _). ofSum r) = f" for f :: "evaluation act" and n :: int
    by (rule ext) (auto simp: bindA_def catchA_def returnA_def ofSum_def failA_def split: prod.split sum.split)
  have s: "bindA (catchA f (\<lambda>r. case r of Inl err \<Rightarrow> returnA (Inl err, 0) | Inr a \<Rightarrow> g a)) (\<lambda>(r, _). ofSum r)
      = bindA f (\<lambda>a. bindA (g a) (\<lambda>(r, _). ofSum r))" for f :: "int act" and g :: "int \<Rightarrow> ((gerror + evaluation) \<times> int) act"
    by (rule ext) (auto simp: bindA_def catchA_def returnA_def ofSum_def failA_def split: prod.split sum.split)
  show ?thesis
    unfolding scheduledBody_def s c
    by (simp add: run_drive [where t = "Scheduled job"] bindA_simps numeral_eq_Suc cong: option.case_cong)
qed

text \<open>
  The steps interleaved here are those of the code. Run without anything between them, the lock,
  the steps and the release of a trigger are \<open>Runner.Evaluate\<close> and \<open>Runner.EvaluateScheduled\<close>, on
  every outcome and from every state.
\<close>

lemma steps_are_the_run:
  "Evaluate_rule R sqlStore i req =
     (if rq_SourcePITs req \<noteq> [] \<and> IsZero (rq_PIT req)
      then failA (errorf ErrValidation ''at is required when sourcePITs are provided'')
      else lockedRun R (Manual i req))
   \<and> (\<lambda>w. case EvaluateScheduled R sqlStore job w of ((q, _), w') \<Rightarrow> (q, w')) =
     (if job_ClaimToken job = None then failA (sent ErrStaleClaim) else lockedRun R (Scheduled job))"
proof
  have locked: "bindA (TryWithRuleLock i f) (\<lambda>r. case r of None \<Rightarrow> failA (sent ErrRuleBusy) | Some a \<Rightarrow> k a)
      = bindA (acquireLock i) (\<lambda>acquired. if \<not> acquired then failA (sent ErrRuleBusy)
          else catchA f (\<lambda>r. catchA (tickA stmt) (\<lambda>_. case r of Inl err \<Rightarrow> failA err | Inr a \<Rightarrow> k a)))"
    for i and f :: "'x act" and k :: "'x \<Rightarrow> evaluation act"
    unfolding TryWithRuleLock_split bindA_assoc
    by (rule arg_cong [where f = "bindA (acquireLock i)"], rule ext, rule ext)
      (auto simp: bindA_def catchA_def returnA_def failA_def tickA_def split: sum.splits prod.splits)
  show "Evaluate_rule R sqlStore i req =
     (if rq_SourcePITs req \<noteq> [] \<and> IsZero (rq_PIT req)
      then failA (errorf ErrValidation ''at is required when sourcePITs are provided'')
      else lockedRun R (Manual i req))"
    unfolding Evaluate_rule_def lockedRun_def locked manual_drive ofSum_def triggerRule.simps by (rule refl)
  have "(\<lambda>w. case EvaluateScheduled R sqlStore job w of ((q, _), w') \<Rightarrow> (q, w')) =
     (if job_ClaimToken job = None then failA (sent ErrStaleClaim)
      else bindA (TryWithRuleLock (job_RuleID job) (scheduledBody R sqlStore job))
        (\<lambda>r. case r of None \<Rightarrow> failA (sent ErrRuleBusy) | Some a \<Rightarrow> (case a of (r, _) \<Rightarrow> ofSum r)))"
    by (rule ext) (auto simp: EvaluateScheduled_def bindA_def failA_def ofSum_def returnA_def
        split: prod.splits sum.splits option.splits)
  also have "\<dots> = (if job_ClaimToken job = None then failA (sent ErrStaleClaim) else lockedRun R (Scheduled job))"
  proof -
    have drop: "catchA f (\<lambda>r. catchA (tickA stmt) (\<lambda>_. case r of Inl err \<Rightarrow> failA err | Inr a \<Rightarrow> (case a of (r, _) \<Rightarrow> ofSum r)))
        = catchA (bindA f (\<lambda>(r, _). ofSum r)) (\<lambda>r. catchA (tickA stmt) (\<lambda>_. ofSum r))"
      for f :: "((gerror + evaluation) \<times> int) act"
      by (rule ext) (auto simp: bindA_def catchA_def ofSum_def failA_def returnA_def tickA_def split: prod.splits sum.splits)
    show ?thesis unfolding locked lockedRun_def drop scheduled_drive triggerRule.simps by (rule refl)
  qed
  finally show "(\<lambda>w. case EvaluateScheduled R sqlStore job w of ((q, _), w') \<Rightarrow> (q, w')) =
     (if job_ClaimToken job = None then failA (sent ErrStaleClaim) else lockedRun R (Scheduled job))" .
qed

section \<open>What runs beside\<close>

text \<open>Identifiers and the clock only go on, and nobody but the runs touches the locks.\<close>

definition steady :: "world \<Rightarrow> world \<Rightarrow> bool" where
  "steady w w' \<longleftrightarrow> onward w w' \<and> w_clock w' = w_clock w \<and> w_ticks w \<le> w_ticks w' \<and> w_locked w' = w_locked w"

interpretation steady: process_frame steady
  by unfold_locales (auto simp: steady_def onward_def)

lemma steady_execute: "within steady (execute change)"
  by (rule steady.change) (simp add: steady_def onward_def)

interpretation steady: alert_frames steady
  by unfold_locales (simp_all add: insertAlert_def updateAlert_def insertEvent_def steady_execute)

text \<open>The operations on alerts leave the rules, the evaluations and the jobs alone.\<close>

definition alertsOnly :: "world \<Rightarrow> world \<Rightarrow> bool" where
  "alertsOnly w w' \<longleftrightarrow> steady w w' \<and> rest_of (w_db w') = rest_of (w_db w)"

interpretation alertsOnly: process_frame alertsOnly
  by unfold_locales (auto simp: alertsOnly_def steady_def onward_def)

interpretation alertsOnly: alert_frames alertsOnly
proof
  show "within alertsOnly (insertAlert a)" for a
    unfolding insertAlert_def
    by (rule alertsOnly.change) (auto simp: alertsOnly_def steady_def onward_def rest_of_def Let_def split: if_splits)
  show "within alertsOnly (updateAlert i f current)" for i f current
    unfolding updateAlert_def
    by (rule alertsOnly.change) (auto simp: alertsOnly_def steady_def onward_def rest_of_def Let_def split: if_splits)
  show "within alertsOnly (insertEvent ev)" for ev
    unfolding insertEvent_def
    by (rule alertsOnly.change) (auto simp: alertsOnly_def steady_def onward_def rest_of_def Let_def split: if_splits)
qed

text \<open>
  The operations on rules and jobs leave the evaluations alone, and every row of the queue is a job
  that was there, not newly succeeded, or a new one under an identifier never issued before.
\<close>

definition sameJob :: "evaluationJob \<Rightarrow> evaluationJob \<Rightarrow> bool" where
  "sameJob j j' \<longleftrightarrow> job_ID j' = job_ID j \<and> occurrence_of j' = occurrence_of j
     \<and> (job_Status j' = EvaluationJobSucceeded \<longrightarrow> job_Status j = EvaluationJobSucceeded)"

definition newJob :: "world \<Rightarrow> world \<Rightarrow> evaluationJob \<Rightarrow> bool" where
  "newJob w w' j \<longleftrightarrow> \<not> issued w (job_ID j) \<and> issued w' (job_ID j) \<and> job_Status j \<noteq> EvaluationJobSucceeded"

definition keyed :: "db \<Rightarrow> bool" where
  "keyed d \<longleftrightarrow> distinct (map job_ID (t_jobs d)) \<and> distinct (map occurrence_of (t_jobs d))"

definition jobs_from :: "world \<Rightarrow> world \<Rightarrow> bool" where
  "jobs_from w w' \<longleftrightarrow> (\<forall>j'\<in>set (t_jobs (w_db w')). (\<exists>j\<in>set (t_jobs (w_db w)). sameJob j j') \<or> newJob w w' j')
     \<and> (keyed (w_db w) \<longrightarrow> keyed (w_db w'))"

definition queued :: "world \<Rightarrow> world \<Rightarrow> bool" where
  "queued w w' \<longleftrightarrow> steady w w' \<and> t_evaluations (w_db w') = t_evaluations (w_db w)
     \<and> (inj (w_uuid w) \<longrightarrow> jobs_from w w')"

lemma sameJob_refl [simp]: "sameJob j j"
  by (simp add: sameJob_def)

lemma jobs_from_same: "t_jobs (w_db w') = t_jobs (w_db w) \<Longrightarrow> jobs_from w w'"
  by (auto simp: jobs_from_def keyed_def intro: sameJob_refl)

lemma jobs_from_trans:
  assumes "jobs_from w1 w2" and "jobs_from w2 w3" and "onward w1 w2" and "onward w2 w3"
  shows "jobs_from w1 w3"
proof -
  have "(\<exists>j\<in>set (t_jobs (w_db w1)). sameJob j j3) \<or> newJob w1 w3 j3" if j3: "j3 \<in> set (t_jobs (w_db w3))" for j3
  proof -
    have iss: "issued w1 i \<Longrightarrow> issued w2 i" "issued w2 i \<Longrightarrow> issued w3 i" for i
      using issued_onward assms(3,4) by blast+
    consider j2 where "j2 \<in> set (t_jobs (w_db w2))" "sameJob j2 j3" | "newJob w2 w3 j3"
      using assms(2) j3 unfolding jobs_from_def by blast
    then show ?thesis
    proof cases
      case 1
      then consider j1 where "j1 \<in> set (t_jobs (w_db w1))" "sameJob j1 j2" | "newJob w1 w2 j2"
        using assms(1) unfolding jobs_from_def by blast
      then show ?thesis
      proof cases
        case 1
        then show ?thesis using \<open>sameJob j2 j3\<close> unfolding sameJob_def by metis
      next
        case 2
        then show ?thesis using \<open>sameJob j2 j3\<close> iss unfolding sameJob_def newJob_def by metis
      qed
    next
      case 2
      then show ?thesis using iss unfolding newJob_def by blast
    qed
  qed
  then show ?thesis using assms(1,2) unfolding jobs_from_def by blast
qed

interpretation queued: frame queued
proof
  show "queued w1 w3" if "queued w1 w2" "queued w2 w3" for w1 w2 w3
    using that jobs_from_trans [of w1 w2 w3] steady.trans [of w1 w2 w3] unfolding queued_def steady_def onward_def by metis
qed (auto simp: queued_def steady_def onward_def intro: jobs_from_same)

lemma queued_update:
  assumes "\<And>w j. p w j \<Longrightarrow> sameJob j (f w j)"
  shows "within queued (updateJobs p f)"
  unfolding updateJobs_def Let_def
proof (rule queued.change)
  fix w d a
  let ?g = "\<lambda>j. (f w j)\<lparr> job_UpdatedAt := w_dbnow w \<rparr>"
  assume "(if exists_row (\<lambda>j. p w j \<and> \<not> job_chk (f w j)) (t_jobs (w_db w)) then Inl (constraintViolation ''evaluation_job_chk'')
     else Inr ((w_db w)\<lparr> t_jobs := upd_where (p w) ?g (t_jobs (w_db w)) \<rparr>, map ?g (filter (p w) (t_jobs (w_db w)))))
     = Inr (d, a)"
  then have d: "d = (w_db w)\<lparr> t_jobs := upd_where (p w) ?g (t_jobs (w_db w)) \<rparr>" by (simp split: if_splits)
  have g: "sameJob j (?g j)" if "p w j" for j using assms [OF that] by (simp add: sameJob_def occurrence_of_def)
  then have "map job_ID (upd_where (p w) ?g js) = map job_ID js"
      "map occurrence_of (upd_where (p w) ?g js) = map occurrence_of js" for js
    unfolding sameJob_def by (intro map_upd_where, blast)+
  then have "keyed (w_db w) \<Longrightarrow> keyed d" unfolding keyed_def d by simp
  moreover have "\<exists>j\<in>set (t_jobs (w_db w)). sameJob j j'" if "j' \<in> set (t_jobs d)" for j'
  proof -
    from that consider "j' \<in> set (t_jobs (w_db w))" | j where "j \<in> set (t_jobs (w_db w))" "p w j" "j' = ?g j"
      unfolding d by (auto simp: set_upd_where)
    then show ?thesis by cases (blast intro: sameJob_refl, blast intro: g)
  qed
  ultimately show "queued w (w\<lparr> w_db := d \<rparr>)"
    by (simp add: queued_def jobs_from_def steady_def onward_def d)
qed

lemma queued_rules: "within queued (updateRules p f)"
  unfolding updateRules_def Let_def
  by (rule queued.change) (auto simp: queued_def steady_def onward_def intro: jobs_from_same split: if_splits)

lemma queued_insertOccurrences: "within queued (insertOccurrences rule now ats res)"
proof (induction ats arbitrary: res)
  case Nil
  show ?case by (simp add: queued.basic)
next
  case (Cons at ats)
  let ?j = "\<lambda>i. \<lparr> job_ID = i, job_RuleID = rule_ID rule, job_RuleRevision = rule_Revision rule, job_ScheduledAt = at,
         job_Status = EvaluationJobPending, job_Attempts = 0, job_AvailableAt = now, job_LeaseUntil = None,
         job_ClaimToken = None, job_LastError = '''', job_CreatedAt = 0, job_UpdatedAt = 0 \<rparr>"
  let ?k = "\<lambda>inserted. insertOccurrences rule now ats
       (if inserted then res\<lparr> pr_JobsCreated := pr_JobsCreated res + 1 \<rparr> else res)"
  have step: "queued w w1" if "insertJob (?j (w_uuid w (w_uuids w))) (w\<lparr> w_uuids := w_uuids w + 1 \<rparr>) = (q, w1)" for w q w1
  proof (cases q)
    case (Inl err)
    then have "w1 = w\<lparr> w_uuids := w_uuids w + 1 \<rparr>\<lparr> w_stmts := w_stmts w + 1 \<rparr>"
      using that unfolding insertJob_def by (auto dest: execute_Inl)
    then show ?thesis using queued.trans [OF queued.uuid queued.statement, of w] by simp
  next
    case (Inr inserted)
    let ?i = "w_uuid w (w_uuids w)"
    from that Inr have "w1 = w\<lparr> w_uuids := w_uuids w + 1, w_stmts := w_stmts w + 1 \<rparr> \<or>
        (\<exists>j. w1 = w\<lparr> w_uuids := w_uuids w + 1, w_stmts := w_stmts w + 1, w_db := (w_db w)\<lparr> t_jobs := t_jobs (w_db w) @ [j] \<rparr> \<rparr>
          \<and> job_ID j = ?i \<and> job_Status j = EvaluationJobPending \<and> (\<forall>x\<in>set (t_jobs (w_db w)). job_ID x \<noteq> ?i \<and> occurrence_of x \<noteq> occurrence_of j))"
      unfolding insertJob_def
      by (auto simp: Let_def exists_row_iff sameOccurrence_iff occurrence_of_def dest!: execute_Inr split: if_splits)
    then show ?thesis
    proof (elim disjE exE conjE)
      assume "w1 = w\<lparr> w_uuids := w_uuids w + 1, w_stmts := w_stmts w + 1 \<rparr>"
      then show ?thesis using queued.trans [OF queued.uuid queued.statement, of w] by simp
    next
      fix j assume w1: "w1 = w\<lparr> w_uuids := w_uuids w + 1, w_stmts := w_stmts w + 1, w_db := (w_db w)\<lparr> t_jobs := t_jobs (w_db w) @ [j] \<rparr> \<rparr>"
        and j: "job_ID j = ?i" "job_Status j = EvaluationJobPending"
        and fresh: "\<forall>x\<in>set (t_jobs (w_db w)). job_ID x \<noteq> ?i \<and> occurrence_of x \<noteq> occurrence_of j"
      have "newJob w w1 j" if "inj (w_uuid w)"
        using that j by (auto simp: newJob_def issued_def w1 inj_def)
      moreover have "keyed (w_db w) \<Longrightarrow> keyed (w_db w1)"
        using fresh j(1) by (auto simp: keyed_def w1)
      ultimately show ?thesis
        by (auto simp: queued_def jobs_from_def steady_def onward_def w1 intro: sameJob_refl)
    qed
  qed
  have rest: "within queued (?k inserted)" for inserted using Cons.IH by simp
  show ?case
  proof (rule withinI)
    fix w w' :: world and q
    let ?w = "w\<lparr> w_uuids := w_uuids w + 1 \<rparr>"
    assume run: "insertOccurrences rule now (at # ats) res w = (q, w')"
    obtain r w1 where ins: "insertJob (?j (w_uuid w (w_uuids w))) ?w = (r, w1)" by fastforce
    have "queued w w1" by (rule step [OF ins])
    moreover have "w' = w1 \<or> (\<exists>inserted. ?k inserted w1 = (q, w'))"
      using run unfolding insertOccurrences.simps bindA_def tickA_def newUUID_def plainWrap_def prod.case sum.case ins
      by (cases r; simp only: prod.case sum.case prod.inject; blast)
    ultimately show "queued w w'" using withinD [OF rest] queued.trans by blast
  qed
qed

lemma queued_jobs:
  "within queued (ClaimEvaluationJob lease)" "within queued (StartEvaluationJob i token)"
  "within queued (HeartbeatEvaluationJob i token lease)" "within queued (ReleaseEvaluationJob i token delay)"
  "within queued (FailEvaluationJob i token attempts limit after cause)" "within queued (CancelEvaluationJob i token reason)"
proof -
  have claim: "within queued (claimRow until j)" for until j
    unfolding claimRow_def by (intro queued.intros queued_update) (simp add: sameJob_def claimWith_def occurrence_of_def)
  show "within queued (ClaimEvaluationJob lease)"
    unfolding ClaimEvaluationJob_def claimTx_def by (intro queued.intros queued.catch within_split claim)
  have claimed: "within queued (claimedUpdate p f)" if "\<And>w j. p w j \<Longrightarrow> sameJob j (f w j)" for p f
    unfolding claimedUpdate_def by (intro queued.intros queued_update that)
  show "within queued (StartEvaluationJob i token)"
    unfolding StartEvaluationJob_def Let_def
    by (intro queued.intros queued.catch within_split queued_update) (simp add: sameJob_def occurrence_of_def)
  show "within queued (HeartbeatEvaluationJob i token lease)" "within queued (ReleaseEvaluationJob i token delay)"
    "within queued (FailEvaluationJob i token attempts limit after cause)"
    unfolding HeartbeatEvaluationJob_def ReleaseEvaluationJob_def FailEvaluationJob_def Let_def
    by (rule claimed; simp add: sameJob_def occurrence_of_def)+
  show "within queued (CancelEvaluationJob i token reason)"
    unfolding CancelEvaluationJob_def
    by (intro queued.intros queued_update) (simp add: sameJob_def occurrence_of_def)
qed

lemma queued_cleanup: "within queued (DeleteTerminalEvaluationJobs retention)"
  unfolding DeleteTerminalEvaluationJobs_def Let_def
proof (rule queued.change)
  fix w :: world and d and a :: nat
  let ?old = "\<lambda>j. terminal_status (job_Status j) \<and> job_UpdatedAt j < w_dbnow w - interval_us retention"
  assume "Inr ((w_db w)\<lparr> t_jobs := filter (\<lambda>j. \<not> ?old j) (t_jobs (w_db w)) \<rparr>, length (filter ?old (t_jobs (w_db w)))) = Inr (d, a)"
  then have d: "d = (w_db w)\<lparr> t_jobs := filter (\<lambda>j. \<not> ?old j) (t_jobs (w_db w)) \<rparr>" by simp
  have "keyed (w_db w) \<Longrightarrow> keyed d" unfolding keyed_def d by (auto intro: distinct_map_filter)
  then show "queued w (w\<lparr> w_db := d \<rparr>)"
    by (auto simp: queued_def jobs_from_def steady_def onward_def d intro: sameJob_refl)
qed

lemma queued_plan: "within queued (PlanScheduledJobs parse window n batch)"
proof (rule queued.planning [OF _ queued_insertOccurrences])
  show "within queued (setCursor m i t)" for m i t
    unfolding setCursor_def by (intro queued.intros queued_rules)
qed

lemma queued_changes: "within queued (CreateRule parse r)" "within queued (PatchRule parse i p)"
proof -
  have "within queued (insertRule x)" for x
    unfolding insertRule_def Let_def
    by (rule queued.change) (auto simp: queued_def steady_def onward_def intro: jobs_from_same split: if_splits)
  then show "within queued (CreateRule parse r)"
    unfolding CreateRule_def Let_def by (intro queued.intros)
  have patch: "within queued (\<lambda>w. wrapA m (updateRules p (f w)) w)" for m p f
    by (rule withinI) (blast dest: withinD [OF queued.wrap(1) [OF queued_rules]])
  have "within queued (supersede j v)" for j v
    unfolding supersede_def by (rule queued_update) (simp add: sameJob_def occurrence_of_def)
  then show "within queued (PatchRule parse i p)"
    unfolding PatchRule_def patchRule_def Let_def existsRow_def by (intro queued.intros patch)
qed

section \<open>The system\<close>

text \<open>
  The world, the jobs the workers were handed with a claim, which they may act on however late, and the
  runs in progress, each with its context. A step is an operation of the queue or on the rules, a
  claim, the deletion of a rule, anything that leaves rules, evaluations and jobs alone (the API's
  operations on alerts are such), an attempt to start a run, a step of a run, its end, the loss of
  its connection, with which PostgreSQL gives the lock back, or that of an idle connection whose
  unlock had failed. Completing a job is a part of the commit of a run and of nothing else.
\<close>

type_synonym running = "runner \<times> trigger \<times> phase"
type_synonym evaluationSystem = "world \<times> evaluationJob list \<times> running list"

definition lockKey :: "running \<Rightarrow> int32" where
  "lockKey p = (case p of (R, t, ph) \<Rightarrow> ruleAdvisoryLockKey (triggerRule t))"

lemma lockKey_simp [simp]: "lockKey (R, t, ph) = ruleAdvisoryLockKey (triggerRule t)"
  by (simp add: lockKey_def)

fun startable :: "evaluationJob list \<Rightarrow> trigger \<Rightarrow> bool" where
  "startable cs (Manual i req) = True"
| "startable cs (Scheduled job) = (job \<in> set cs)"

inductive evaluating :: "cron_parser \<Rightarrow> evaluationSystem \<Rightarrow> evaluationSystem \<Rightarrow> bool" for parse where
  operation: "queueOp parse op w = (q, w') \<Longrightarrow> (\<And>i token. op \<noteq> DoComplete i token) \<Longrightarrow>
    (\<And>i. op \<noteq> DoDeleteRule i) \<Longrightarrow> evaluating parse (w, cs, ps) (w', cs, ps)"
| claim: "ClaimEvaluationJob lease w = (Inr (Some c), w') \<Longrightarrow> evaluating parse (w, cs, ps) (w', cj_Job c # cs, ps)"
| delete: "DeleteRule i w = (q, w') \<Longrightarrow> evaluating parse (w, cs, ps) (w', cs, ps)"
| beside: "alertsOnly w w' \<Longrightarrow> evaluating parse (w, cs, ps) (w', cs, ps)"
| start: "acquireLock (triggerRule t) w = (Inr True, w') \<Longrightarrow> startable cs t \<Longrightarrow>
    evaluating parse (w, cs, ps) (hold (triggerRule t) w', cs, (R, t, Locked) # ps)"
| busy: "acquireLock i w = (q, w') \<Longrightarrow> q \<noteq> Inr True \<Longrightarrow> evaluating parse (w, cs, ps) (w', cs, ps)"
| step: "advance R t ph w = (Inr ph', w') \<Longrightarrow>
    evaluating parse (w, cs, ps @ (R, t, ph) # qs) (w', cs, ps @ (R, t, ph') # qs)"
| fails: "advance R t ph w = (Inl err, w') \<Longrightarrow>
    evaluating parse (w, cs, ps @ (R, t, ph) # qs) (releaseLock (triggerRule t) w', cs, ps @ qs)"
| ends: "evaluating parse (w, cs, ps @ (R, t, Done ev) # qs) (releaseLock (triggerRule t) w, cs, ps @ qs)"
| lost: "evaluating parse (w, cs, ps @ (R, t, ph) # qs) (free (triggerRule t) w, cs, ps @ qs)"
| idle: "ruleAdvisoryLockKey i \<notin> lockKey ` set ps \<Longrightarrow> evaluating parse (w, cs, ps) (free i w, cs, ps)"

section \<open>The invariant\<close>

definition evaluates :: "evaluationJob \<Rightarrow> evaluation \<Rightarrow> bool" where
  "evaluates j v \<longleftrightarrow> eval_RuleID v = job_RuleID j \<and> eval_RuleRevision v = Some (job_RuleRevision j)
     \<and> eval_ScheduledAt v = Some (job_ScheduledAt j)"

text \<open>Of two evaluations of a rule, the later one began when the earlier had ended, for another occurrence.\<close>

definition follows :: "evaluation \<Rightarrow> evaluation \<Rightarrow> bool" where
  "follows v v' \<longleftrightarrow> (eval_RuleID v = eval_RuleID v' \<longrightarrow> eval_EndedAt v \<le> eval_StartedAt v'
     \<and> (eval_ScheduledAt v' \<noteq> None \<longrightarrow>
          eval_RuleRevision v \<noteq> eval_RuleRevision v' \<or> eval_ScheduledAt v \<noteq> eval_ScheduledAt v'))"

definition present :: "world \<Rightarrow> time" where
  "present w = w_clock w (w_ticks w)"

definition evals_ok :: "world \<Rightarrow> bool" where
  "evals_ok w \<longleftrightarrow> mono (w_clock w) \<and> sorted_wrt follows (t_evaluations (w_db w))
     \<and> (\<forall>v\<in>set (t_evaluations (w_db w)). eval_StartedAt v \<le> eval_EndedAt v \<and> eval_EndedAt v \<le> present w)"

definition queue_ok :: "world \<Rightarrow> evaluationJob list \<Rightarrow> bool" where
  "queue_ok w cs \<longleftrightarrow> inj (w_uuid w) \<and> keyed (w_db w) \<and> (\<forall>j\<in>set (t_jobs (w_db w)). issued w (job_ID j))
     \<and> (\<forall>c\<in>set cs. issued w (job_ID c)
          \<and> (\<forall>j\<in>set (t_jobs (w_db w)). job_ID j = job_ID c \<longrightarrow> occurrence_of j = occurrence_of c))
     \<and> (\<forall>j\<in>set (t_jobs (w_db w)). job_Status j = EvaluationJobSucceeded \<longrightarrow>
          (\<exists>v\<in>set (t_evaluations (w_db w)). evaluates j v))"

definition locks_ok :: "world \<Rightarrow> running list \<Rightarrow> bool" where
  "locks_ok w ps \<longleftrightarrow> distinct (map lockKey ps) \<and> (\<forall>p\<in>set ps. \<forall>i. ruleAdvisoryLockKey i = lockKey p \<longrightarrow> w_locked w i)"

text \<open>What a run that began at \<open>t\<close> finds of its rule: nothing that ended later.\<close>

definition reads_after :: "world \<Rightarrow> uuid \<Rightarrow> time \<Rightarrow> bool" where
  "reads_after w i t \<longleftrightarrow> t \<le> present w \<and> (\<forall>v\<in>set (t_evaluations (w_db w)). eval_RuleID v = i \<longrightarrow> eval_EndedAt v \<le> t)"

fun completes :: "trigger \<Rightarrow> evaluationJob option" where
  "completes (Manual i req) = None"
| "completes (Scheduled job) = Some job"

fun phase_ok :: "world \<Rightarrow> trigger \<Rightarrow> phase \<Rightarrow> bool" where
  "phase_ok w t (Loaded eng rule T req completion) \<longleftrightarrow> rule_ID rule = triggerRule t \<and> completion = completes t"
| "phase_ok w t (Begun eng rule T req completion pit began) \<longleftrightarrow>
     rule_ID rule = triggerRule t \<and> completion = completes t \<and> reads_after w (triggerRule t) began"
| "phase_ok w t (Ready rule completion p ended answer ev) \<longleftrightarrow> completion = completes t
     \<and> eval_RuleID ev = triggerRule t \<and> reads_after w (triggerRule t) (eval_StartedAt ev)
     \<and> eval_StartedAt ev \<le> eval_EndedAt ev \<and> eval_EndedAt ev \<le> present w
     \<and> (\<forall>job. t = Scheduled job \<longrightarrow> evaluates job ev) \<and> (completion = None \<longrightarrow> eval_ScheduledAt ev = None)"
| "phase_ok w t ph \<longleftrightarrow> True"

definition runs_ok :: "world \<Rightarrow> evaluationJob list \<Rightarrow> running list \<Rightarrow> bool" where
  "runs_ok w cs ps \<longleftrightarrow> (\<forall>(R, t, ph)\<in>set ps. startable cs t \<and> phase_ok w t ph)"

definition evaluating_ok :: "evaluationSystem \<Rightarrow> bool" where
  "evaluating_ok s = (case s of (w, cs, ps) \<Rightarrow> queue_ok w cs \<and> evals_ok w \<and> locks_ok w ps \<and> runs_ok w cs ps)"

lemma present_mono: "evals_ok w \<Longrightarrow> w_clock w' = w_clock w \<Longrightarrow> w_ticks w \<le> w_ticks w' \<Longrightarrow> present w \<le> present w'"
  by (simp add: evals_ok_def present_def monoD)

text \<open>A run is not disturbed by what happens to other rules.\<close>

lemma phase_ok_step:
  assumes "phase_ok w t ph" and "present w \<le> present w'"
    and "\<And>v. v \<in> set (t_evaluations (w_db w')) \<Longrightarrow> v \<in> set (t_evaluations (w_db w)) \<or> eval_RuleID v \<noteq> triggerRule t"
  shows "phase_ok w' t ph"
proof -
  have "reads_after w (triggerRule t) x \<Longrightarrow> reads_after w' (triggerRule t) x" for x
    using assms(2,3) unfolding reads_after_def by fastforce
  then show ?thesis using assms(1,2) by (cases ph) auto
qed

lemma evals_ok_step:
  assumes "evals_ok w" and "w_clock w' = w_clock w" and "w_ticks w \<le> w_ticks w'"
    and "t_evaluations (w_db w') = filter keep (t_evaluations (w_db w))"
  shows "evals_ok w'"
  using assms present_mono [OF assms(1-3)] unfolding evals_ok_def by (fastforce intro: sorted_wrt_filter)

section \<open>Every step keeps it\<close>

lemma queue_ok_queued:
  assumes ok: "queue_ok w cs" and q: "queued w w'"
  shows "queue_ok w' cs"
proof -
  let ?js = "set (t_jobs (w_db w))" and ?js' = "set (t_jobs (w_db w'))"
  have inj: "inj (w_uuid w)" using ok by (simp add: queue_ok_def)
  then have from_w: "jobs_from w w'" using q by (simp add: queued_def)
  have on: "onward w w'" using q by (simp add: queued_def steady_def)
  have row: "(\<exists>j\<in>?js. sameJob j j') \<or> newJob w w' j'" if "j' \<in> ?js'" for j' using from_w that by (simp add: jobs_from_def)
  have "inj (w_uuid w')" "keyed (w_db w')" using inj on from_w ok by (simp_all add: onward_def jobs_from_def queue_ok_def)
  moreover have "issued w' (job_ID j')" if "j' \<in> ?js'" for j'
    using row [OF that] ok issued_onward [OF on] unfolding queue_ok_def sameJob_def newJob_def by metis
  moreover have "issued w' (job_ID c)" if "c \<in> set cs" for c
    using ok that issued_onward [OF on] by (simp add: queue_ok_def)
  moreover have "occurrence_of j' = occurrence_of c" if "c \<in> set cs" "j' \<in> ?js'" "job_ID j' = job_ID c" for c j'
    using row [OF that(2)] ok that(1,3) unfolding queue_ok_def sameJob_def newJob_def by metis
  moreover have "\<exists>v\<in>set (t_evaluations (w_db w')). evaluates j' v"
    if j': "j' \<in> ?js'" and succeeded: "job_Status j' = EvaluationJobSucceeded" for j'
  proof -
    obtain j where j: "j \<in> ?js" "sameJob j j'" using row [OF j'] succeeded by (auto simp: newJob_def)
    then obtain v where "v \<in> set (t_evaluations (w_db w))" "evaluates j v"
      using ok succeeded unfolding queue_ok_def sameJob_def by blast
    then show ?thesis using j q by (auto simp: evaluates_def sameJob_def occurrence_of_def queued_def)
  qed
  ultimately show ?thesis by (simp add: queue_ok_def)
qed

lemma locks_ok_kept: "locks_ok w ps \<Longrightarrow> w_locked w' = w_locked w \<Longrightarrow> locks_ok w' ps"
  by (simp add: locks_ok_def)

lemma runs_ok_kept:
  assumes "runs_ok w cs ps" and "present w \<le> present w'" and "set cs \<subseteq> set cs'" and "set ps' \<subseteq> set ps"
    and "\<And>R t ph v. (R, t, ph) \<in> set ps' \<Longrightarrow> v \<in> set (t_evaluations (w_db w')) \<Longrightarrow>
      v \<in> set (t_evaluations (w_db w)) \<or> eval_RuleID v \<noteq> triggerRule t"
  shows "runs_ok w' cs' ps'"
proof -
  have "startable cs' t \<and> phase_ok w' t ph" if p: "(R, t, ph) \<in> set ps'" for R t ph
  proof -
    have "startable cs t" "phase_ok w t ph" using p assms(1,4) by (auto simp: runs_ok_def)
    moreover have "startable cs' t" using \<open>startable cs t\<close> assms(3) by (cases t) auto
    ultimately show ?thesis using phase_ok_step [OF _ assms(2) assms(5) [OF p]] by blast
  qed
  then show ?thesis by (auto simp: runs_ok_def)
qed

lemma steady_present: "evals_ok w \<Longrightarrow> steady w w' \<Longrightarrow> present w \<le> present w'"
  by (rule present_mono) (simp_all add: steady_def)

lemma evaluating_queued:
  assumes ok: "evaluating_ok (w, cs, ps)" and q: "queued w w'"
  shows "evaluating_ok (w', cs, ps)"
proof -
  have st: "steady w w'" and evs: "t_evaluations (w_db w') = t_evaluations (w_db w)" using q by (simp_all add: queued_def)
  have "evals_ok w'" using ok st evs
    by (intro evals_ok_step [of w w' "\<lambda>_. True"]) (simp_all add: evaluating_ok_def steady_def)
  moreover have "runs_ok w' cs ps"
    by (rule runs_ok_kept [OF _ steady_present [OF _ st]]) (use ok evs in \<open>auto simp: evaluating_ok_def\<close>)
  ultimately show ?thesis
    using ok queue_ok_queued [OF _ q] locks_ok_kept [of w ps w'] st by (simp add: evaluating_ok_def steady_def)
qed

text \<open>The end of a run, and of its hold on the lock.\<close>

lemma evals_locked [simp]:
  "queue_ok (w\<lparr> w_locked := l \<rparr>) cs = queue_ok w cs" "evals_ok (w\<lparr> w_locked := l \<rparr>) = evals_ok w"
  "present (w\<lparr> w_locked := l \<rparr>) = present w" "reads_after (w\<lparr> w_locked := l \<rparr>) i t = reads_after w i t"
  by (auto simp: queue_ok_def evals_ok_def present_def reads_after_def issued_def)

lemma phase_ok_locked [simp]: "phase_ok (w\<lparr> w_locked := l \<rparr>) t ph = phase_ok w t ph"
  by (cases ph) simp_all

lemma runs_ok_locked [simp]: "runs_ok (w\<lparr> w_locked := l \<rparr>) cs ps = runs_ok w cs ps"
  by (simp add: runs_ok_def)

lemma evaluating_free:
  assumes ok: "evaluating_ok (w, cs, ps)" and others: "ruleAdvisoryLockKey i \<notin> lockKey ` set ps"
  shows "evaluating_ok (free i w, cs, ps)"
proof -
  have "w_locked w j \<and> ruleAdvisoryLockKey j \<noteq> ruleAdvisoryLockKey i"
    if "p \<in> set ps" "ruleAdvisoryLockKey j = lockKey p" for p j
  proof
    show "w_locked w j" using ok that by (simp add: evaluating_ok_def locks_ok_def)
    show "ruleAdvisoryLockKey j \<noteq> ruleAdvisoryLockKey i" using others that by (metis image_eqI)
  qed
  then show ?thesis using ok by (simp add: evaluating_ok_def free_def locks_ok_def)
qed

lemma evaluating_gone:
  assumes ok: "evaluating_ok (w, cs, ps @ (R, t, ph) # qs)"
  shows "evaluating_ok (w, cs, ps @ qs)" and "ruleAdvisoryLockKey (triggerRule t) \<notin> lockKey ` set (ps @ qs)"
  using ok by (auto simp: evaluating_ok_def locks_ok_def runs_ok_def)

lemma alertsOnly_queued: "alertsOnly w w' \<Longrightarrow> queued w w'"
  by (auto simp: alertsOnly_def queued_def rest_of_def intro: jobs_from_same)

lemma evaluating_stmts: "evaluating_ok (w, cs, ps) \<Longrightarrow> evaluating_ok (w\<lparr> w_stmts := n \<rparr>, cs, ps)"
  by (erule evaluating_queued) (rule queued.statement)

lemma evaluating_release:
  assumes "evaluating_ok (w, cs, ps @ (R, t, ph) # qs)"
  shows "evaluating_ok (releaseLock (triggerRule t) w, cs, ps @ qs)"
proof -
  note gone = evaluating_gone [OF assms]
  show ?thesis
    using evaluating_stmts [OF gone(1)] evaluating_free [OF evaluating_stmts [OF gone(1)] gone(2)]
    by (auto simp: releaseLock_def split: option.split)
qed

lemma acquireLock_queued: "acquireLock i w = (q, w') \<Longrightarrow> queued w w' \<and> (q = Inr True \<longrightarrow> \<not> w_locked w' i)"
  using queued.statement by (auto simp: acquireLock_def split: option.splits)

lemma evaluating_start:
  assumes ok: "evaluating_ok (w, cs, ps)" and run: "acquireLock (triggerRule t) w = (Inr True, w')" and t: "startable cs t"
  shows "evaluating_ok (hold (triggerRule t) w', cs, (R, t, Locked) # ps)"
proof -
  have q: "queued w w'" "\<not> w_locked w' (triggerRule t)" using acquireLock_queued [OF run] by auto
  have "evaluating_ok (w', cs, ps)" by (rule evaluating_queued [OF ok q(1)])
  moreover have "ruleAdvisoryLockKey (triggerRule t) \<notin> lockKey ` set ps"
    using calculation q(2) by (auto simp: evaluating_ok_def locks_ok_def)
  ultimately show ?thesis
    using t by (auto simp: evaluating_ok_def hold_def locks_ok_def runs_ok_def)
qed

section \<open>The steps of a run\<close>

lemma loadRule_beside: "within alertsOnly (loadRule R sqlStore i expected)"
  unfolding loadRule_def GetRule_def sqlStore_simps
  by (intro alertsOnly.works within_split)

lemma newEvaluation_simps [simp]:
  "eval_RuleID (newEvaluation rule i began ended c answer) = rule_ID rule"
  "eval_StartedAt (newEvaluation rule i began ended c answer) = began"
  "eval_EndedAt (newEvaluation rule i began ended c answer) = ended"
  "eval_ScheduledAt (newEvaluation rule i began ended c answer) = map_option job_ScheduledAt c"
  "eval_RuleRevision (newEvaluation rule i began ended c answer) = map_option job_RuleRevision c"
  by (cases answer, simp add: newEvaluation_def Let_def)+

lemma completes_rule: "completes t = Some job \<Longrightarrow> t = Scheduled job" "completes t = None \<longleftrightarrow> (\<exists>i req. t = Manual i req)"
  by (cases t; simp)+

lemma commit_beside: "within steady (RunInTx (commitRun sqlStore rule completion p ended answer ev))"
proof -
  have "within steady (fenceRun sqlStore rule completion)"
    unfolding fenceRun_def AssertRuleRevision_def AssertEvaluationJobClaim_def sqlStore_simps
    by (intro steady.works steady.catch within_split)
  moreover have "within steady (completeRun sqlStore completion)"
    unfolding completeRun_def CompleteEvaluationJob_def claimedUpdate_def updateJobs_def sqlStore_simps
    by (intro steady.works within_split steady_execute)
  ultimately show ?thesis
    unfolding commitRun_def sqlStore_simps CreateEvaluation_def
    by (intro steady.works steady.alerts steady_execute)
qed

text \<open>What a commit does to the evaluations and the jobs.\<close>

lemma commit_effect:
  assumes run: "commitRun sqlStore rule completion p ended answer ev0 w = (Inr ev, w')"
  shows "t_evaluations (w_db w') = t_evaluations (w_db w) @ [ev]
    \<and> ev = ev0\<lparr> eval_Evidence := jsonb w (eval_Evidence ev0), eval_CreatedAt := w_dbnow w \<rparr>
    \<and> (\<forall>v\<in>set (t_evaluations (w_db w)). eval_ScheduledAt ev0 \<noteq> None \<longrightarrow> \<not> (eval_RuleID v = eval_RuleID ev0
              \<and> eval_RuleRevision v = eval_RuleRevision ev0 \<and> eval_ScheduledAt v = eval_ScheduledAt ev0))
    \<and> (\<forall>job. completion = Some job \<longrightarrow> completed job (t_jobs (w_db w)) (t_jobs (w_db w')))
    \<and> (completion = None \<longrightarrow> t_jobs (w_db w') = t_jobs (w_db w))"
proof -
  from run obtain u1 w1 w2 u3 w3 u4 where
    fence: "fenceRun sqlStore rule completion w = (Inr u1, w1)"
    and create: "CreateEvaluation ev0 w1 = (Inr ev, w2)"
    and alerts: "alertRun sqlStore rule p ended answer ev w2 = (Inr u3, w3)"
    and complete: "completeRun sqlStore completion w3 = (Inr u4, w')"
    by (auto simp: commitRun_def act_dest)
  have f: "w_db w1 = w_db w" "jsonb w1 = jsonb w" "w_dbnow w1 = w_dbnow w"
    using fence_facts [OF fence] by (simp_all add: quiet_def jsonb_def fun_eq_iff)
  have a: "rest_of (w_db w3) = rest_of (w_db w2)" using withinD [OF alertsOnly.alerts alerts] by (simp add: alertsOnly_def)
  have c: "t_evaluations (w_db w') = t_evaluations (w_db w3)
      \<and> (\<forall>job. completion = Some job \<longrightarrow> completed job (t_jobs (w_db w3)) (t_jobs (w_db w')))
      \<and> (completion = None \<longrightarrow> t_jobs (w_db w') = t_jobs (w_db w3))"
    using complete unfolding completeRun_def
    by (auto split: option.splits dest!: CompleteEvaluationJob_Inr [OF _ refl refl] dest: arg_cong [where f = t_evaluations])
  show ?thesis using CreateEvaluation_Inr [OF create] f a c by (simp add: rest_of_def)
qed

lemma commit_queue:
  assumes ok: "queue_ok w cs" and on: "onward w w'" and js: "completed job (t_jobs (w_db w)) (t_jobs (w_db w'))"
    and job: "job \<in> set cs" "evaluates job ev" and evs: "t_evaluations (w_db w') = t_evaluations (w_db w) @ [ev]"
  shows "queue_ok w' cs"
proof -
  let ?js = "t_jobs (w_db w)" and ?h = "holds (job_ID job) (the (job_ClaimToken job))"
  obtain now where js': "t_jobs (w_db w') = upd_where ?h (\<lambda>j. j\<lparr> job_Status := EvaluationJobSucceeded, job_ClaimToken := None,
      job_LeaseUntil := None, job_LastError := '''', job_UpdatedAt := now \<rparr>) ?js" using js by (auto simp: completed_def)
  have maps: "map job_ID (t_jobs (w_db w')) = map job_ID ?js" "map occurrence_of (t_jobs (w_db w')) = map occurrence_of ?js"
    unfolding js' by (simp_all add: map_upd_where occurrence_of_def)
  have row: "\<exists>j\<in>set ?js. job_ID j' = job_ID j \<and> occurrence_of j' = occurrence_of j
      \<and> (job_Status j' = job_Status j \<or> job_ID j = job_ID job)" if "j' \<in> set (t_jobs (w_db w'))" for j'
    using that unfolding js' by (auto simp: set_upd_where occurrence_of_def holds_def; metis)
  have "inj (w_uuid w')" "keyed (w_db w')" using ok on maps by (simp_all add: queue_ok_def onward_def keyed_def)
  moreover have "issued w' (job_ID j')" if "j' \<in> set (t_jobs (w_db w'))" for j'
    using row [OF that] ok issued_onward [OF on] unfolding queue_ok_def by metis
  moreover have "issued w' (job_ID c)" if "c \<in> set cs" for c
    using ok that issued_onward [OF on] by (simp add: queue_ok_def)
  moreover have "occurrence_of j' = occurrence_of c" if "c \<in> set cs" "j' \<in> set (t_jobs (w_db w'))" "job_ID j' = job_ID c" for c j'
    using row [OF that(2)] ok that(1,3) unfolding queue_ok_def by metis
  moreover have "\<exists>v\<in>set (t_evaluations (w_db w')). evaluates j' v"
    if j': "j' \<in> set (t_jobs (w_db w'))" and succeeded: "job_Status j' = EvaluationJobSucceeded" for j'
  proof -
    obtain j where j: "j \<in> set ?js" "occurrence_of j' = occurrence_of j" "job_Status j' = job_Status j \<or> job_ID j = job_ID job"
      using row [OF j'] by blast
    have same: "evaluates j' v = evaluates j v" for v using j(2) by (auto simp: evaluates_def occurrence_of_def)
    show ?thesis
    proof (cases "job_ID j = job_ID job")
      case True
      then have "occurrence_of j = occurrence_of job" using ok j(1) job(1) by (simp add: queue_ok_def)
      then have "evaluates j ev" using job(2) by (auto simp: evaluates_def occurrence_of_def)
      then show ?thesis using same evs by simp
    next
      case False
      then have "\<exists>v\<in>set (t_evaluations (w_db w)). evaluates j v" using j succeeded ok by (auto simp: queue_ok_def)
      then show ?thesis using same evs by auto
    qed
  qed
  ultimately show ?thesis by (simp add: queue_ok_def)
qed

text \<open>The evaluation a commit adds begins after those of its rule, and is the first of its occurrence.\<close>

lemma commit_evals:
  assumes ok: "evals_ok w" and steady: "steady w w'" and evs: "t_evaluations (w_db w') = t_evaluations (w_db w) @ [ev]"
    and reads: "reads_after w (eval_RuleID ev) (eval_StartedAt ev)"
    and ev: "eval_StartedAt ev \<le> eval_EndedAt ev" "eval_EndedAt ev \<le> present w"
    and fresh: "\<And>v. v \<in> set (t_evaluations (w_db w)) \<Longrightarrow> eval_ScheduledAt ev \<noteq> None \<Longrightarrow> \<not> (eval_RuleID v = eval_RuleID ev
              \<and> eval_RuleRevision v = eval_RuleRevision ev \<and> eval_ScheduledAt v = eval_ScheduledAt ev)"
  shows "evals_ok w'"
proof -
  have "follows v ev" if "v \<in> set (t_evaluations (w_db w))" for v
    using reads fresh [OF that] that by (auto simp: reads_after_def follows_def)
  moreover have "mono (w_clock w')" using ok steady by (simp add: evals_ok_def steady_def)
  moreover have "present w \<le> present w'" by (rule steady_present [OF ok steady])
  ultimately show ?thesis
    using ok ev unfolding evals_ok_def evs by (fastforce simp: sorted_wrt_append)
qed

text \<open>A step of a run other than its commit disturbs nothing, and its next phase is as it should be.\<close>

lemma ticks_queued: "queued w (w\<lparr> w_ticks := w_ticks w + n \<rparr>)"
  by (rule alertsOnly_queued, rule alertsOnly.tick)

lemma clock_reads:
  assumes "evals_ok w" and "w_ticks w \<le> n"
  shows "present w \<le> w_clock w n" and "\<And>m. n \<le> m \<Longrightarrow> w_clock w n \<le> w_clock w m"
  using assms by (auto simp: evals_ok_def present_def monoD)

lemma reads_after_now:
  assumes "evals_ok w" and "w_ticks w \<le> n"
  shows "reads_after (w\<lparr> w_ticks := n \<rparr>) i (w_clock w n)"
  using assms clock_reads(1) [OF assms] by (fastforce simp: reads_after_def evals_ok_def present_def)

lemma reads_after_later: "reads_after w i t \<Longrightarrow> present w \<le> present w' \<Longrightarrow> w_db w' = w_db w \<Longrightarrow> reads_after w' i t"
  by (auto simp: reads_after_def)

lemma load_quiet:
  assumes run: "bindA (loadRule R sqlStore (triggerRule t) expected) k w = (q, w')"
    and k: "\<And>eng rule T w1 q w2. k (eng, rule, T) w1 = (q, w2) \<Longrightarrow>
      w2 = w1 \<and> (\<forall>ph'. q = Inr ph' \<longrightarrow> (\<exists>req. ph' = Loaded eng rule T req (completes t)))"
  shows "queued w w' \<and> (\<forall>ph'. q = Inr ph' \<longrightarrow> phase_ok w' t ph')"
proof -
  obtain l w1 where l: "loadRule R sqlStore (triggerRule t) expected w = (l, w1)" by fastforce
  have q: "queued w w1" by (rule alertsOnly_queued, rule withinD [OF loadRule_beside l])
  show ?thesis
  proof (cases l)
    case (Inl err)
    then show ?thesis using run l q by (auto simp: bindA_def)
  next
    case (Inr x)
    obtain eng rule T where x: "x = (eng, rule, T)" by (cases x)
    have "k (eng, rule, T) w1 = (q, w')" using run l Inr x by (simp add: bindA_def)
    from k [OF this] q loadRule_Inr [OF l [unfolded Inr x]] show ?thesis by auto
  qed
qed

lemma advance_quiet:
  assumes ok: "evals_ok w" "phase_ok w t ph" and run: "advance R t ph w = (q, w')"
    and ph: "\<And>rule c p ended answer ev. ph \<noteq> Ready rule c p ended answer ev"
  shows "queued w w' \<and> (\<forall>ph'. q = Inr ph' \<longrightarrow> phase_ok w' t ph')"
proof -
  have mono: "w_ticks w \<le> k \<Longrightarrow> k \<le> n \<Longrightarrow> w_clock w k \<le> w_clock w n" for k n
    using ok(1) by (simp add: evals_ok_def monoD)
  have now: "reads_after (w\<lparr> w_ticks := n \<rparr>) i (w_clock w k)" if "w_ticks w \<le> k" "k \<le> n" for i k n
    using clock_reads [OF ok(1) that(1)] that ok(1) by (fastforce simp: reads_after_def evals_ok_def present_def)
  show ?thesis
  proof (cases ph)
    case Locked
    show ?thesis
    proof (cases t)
      case (Manual i req)
      then have "bindA (loadRule R sqlStore (triggerRule t) None) (\<lambda>(eng, rule, T).
          case validateSourcePITs T rule (rq_SourcePITs req) of
            Some err \<Rightarrow> failA err | None \<Rightarrow> returnA (Loaded eng rule T req None)) w = (q, w')"
        using run Locked by simp
      then show ?thesis by (rule load_quiet) (auto simp: Manual split: option.splits)
    next
      case (Scheduled job)
      obtain r w1 where r: "StartEvaluationJob (job_ID job) (the (job_ClaimToken job)) w = (r, w1)" by fastforce
      then show ?thesis using run Locked Scheduled withinD [OF queued_jobs(2) r]
        by (cases r) (auto simp: bindA_def)
    qed
  next
    case Counted
    show ?thesis
    proof (cases t)
      case (Scheduled job)
      then have "bindA (loadRule R sqlStore (triggerRule t) (Some (job_RuleRevision job))) (\<lambda>(eng, rule, T).
          returnA (Loaded eng rule T \<lparr> rq_PIT = job_ScheduledAt job, rq_SafetyMargin = schedule_margin rule,
            rq_SourcePITs = [] \<rparr> (Some job))) w = (q, w')"
        using run Counted by simp
      then show ?thesis by (rule load_quiet) (auto simp: Scheduled)
    qed (use run Counted in \<open>simp add: queued.refl\<close>)
  next
    case (Loaded eng rule T req c)
    let ?k = "if IsZero (rq_PIT req) then w_ticks w + 1 else w_ticks w"
    obtain pit where q: "q = Inr (Begun eng rule T req c pit (w_clock w ?k))" "w' = w\<lparr> w_ticks := ?k + 1 \<rparr>"
      using run Loaded by (auto simp: bindA_def tickA_def returnA_def split: if_splits)
    have "queued w w'" using ticks_queued [of w 1] ticks_queued [of w 2] unfolding q(2) by simp
    then show ?thesis using q ok(2) Loaded now [of ?k "?k + 1"] by simp
  next
    case (Begun eng rule T req c pit began)
    let ?ended = "w_clock w (w_ticks w + 2)" and ?w = "w\<lparr> w_ticks := w_ticks w + 3 \<rparr>"
    have w': "w' = ?w \<or> w' = ?w\<lparr> w_uuids := w_uuids w + 1 \<rparr>"
      using run Begun by (auto simp: bindA_def tickA_def evaluateTemplate_def split: option.splits)
    have q: "\<exists>p i answer. ph' = Ready rule c p ?ended answer (newEvaluation rule i began ?ended c answer)" if "q = Inr ph'" for ph'
      using run Begun that
      by (auto simp: bindA_def tickA_def evaluateTemplate_def simp del: split_paired_Ex split: option.splits)
    have "queued w w'" using w' ticks_queued [of w 3] queued.trans [OF ticks_queued [of w 3] queued.uuid] by auto
    moreover have "present w' = w_clock w (w_ticks w + 3)" "w_db w' = w_db w" using w' by (auto simp: present_def)
    moreover have "present w \<le> present w'" "?ended \<le> present w'" "began \<le> ?ended"
      using mono calculation(2) ok(2) Begun order_trans [of began "present w" ?ended]
      by (simp_all add: present_def reads_after_def)
    ultimately show ?thesis
      using q ok(2) Begun reads_after_later [of w "triggerRule t" began w'] by (cases t) (fastforce simp: evaluates_def)+
  next
    case (Ready rule c p ended answer ev)
    then show ?thesis using ph by blast
  next
    case (Done ev)
    then show ?thesis using run queued.refl by auto
  qed
qed

lemma RunInTx_Inr:
  assumes "RunInTx f w = (Inr a, w')"
  shows "\<exists>w0 w1. f w0 = (Inr a, w1) \<and> w_db w0 = w_db w \<and> w_db w' = w_db w1"
proof -
  obtain w0 w2 where w0: "inTx f w0 = (Inr a, w2)" "w_db w0 = w_db w" "w_db w' = w_db w2"
    using assms by (cases "w_collector w")
      (auto simp: RunInTx_def flushAlertEvents_def Let_def split: prod.splits sum.splits if_splits)
  from inTx_Inr [OF w0(1)] obtain w1 where "f w0 = (Inr a, w1)" "w2 = w1\<lparr> w_stmts := w_stmts w1 + 1 \<rparr>" by blast
  then show ?thesis using w0(2,3) by (intro exI [of _ w0] exI [of _ w1]) simp
qed

lemma RunInTx_Inl: "RunInTx f w = (Inl err, w') \<Longrightarrow> w_db w' = w_db w"
  by (auto simp: RunInTx_def inTx_def split: prod.splits sum.splits option.splits if_splits)

lemma commit_running:
  assumes ok: "evaluating_ok (w, cs, ps @ (R, t, Ready rule c p ended answer ev0) # qs)"
    and run: "advance R t (Ready rule c p ended answer ev0) w = (Inr ph', w')"
  shows "evaluating_ok (w', cs, ps @ (R, t, ph') # qs)"
proof -
  let ?r = "(R, t, Ready rule c p ended answer ev0)"
  from run obtain ev where tx: "RunInTx (commitRun sqlStore rule c p ended answer ev0) w = (Inr ev, w')" and ph': "ph' = Done ev"
    by (auto simp: bindA_Inr)
  have st: "steady w w'" by (rule withinD [OF commit_beside tx])
  obtain w0 w1 where w0: "commitRun sqlStore rule c p ended answer ev0 w0 = (Inr ev, w1)" "w_db w0 = w_db w" "w_db w' = w_db w1"
    using RunInTx_Inr [OF tx] by blast
  note eff = commit_effect [OF w0(1), unfolded w0(2) w0(3) [symmetric]]
  have ready: "phase_ok w t (Ready rule c p ended answer ev0)" "startable cs t" and ev_ok: "evals_ok w" "queue_ok w cs"
    using ok by (auto simp: evaluating_ok_def runs_ok_def)
  have ev: "eval_RuleID ev = triggerRule t" "eval_StartedAt ev = eval_StartedAt ev0" "eval_EndedAt ev = eval_EndedAt ev0"
    "eval_ScheduledAt ev = eval_ScheduledAt ev0" "eval_RuleRevision ev = eval_RuleRevision ev0" "eval_RuleID ev0 = triggerRule t"
    using eff ready(1) by simp_all
  have evs: "t_evaluations (w_db w') = t_evaluations (w_db w) @ [ev]" using eff by simp
  have "evals_ok w'"
  proof (rule commit_evals [OF ev_ok(1) st evs])
    show "reads_after w (eval_RuleID ev) (eval_StartedAt ev)" "eval_StartedAt ev \<le> eval_EndedAt ev" "eval_EndedAt ev \<le> present w"
      using ready(1) unfolding ev(1-3) by simp_all
    show "\<not> (eval_RuleID v = eval_RuleID ev \<and> eval_RuleRevision v = eval_RuleRevision ev \<and> eval_ScheduledAt v = eval_ScheduledAt ev)"
      if "v \<in> set (t_evaluations (w_db w))" "eval_ScheduledAt ev \<noteq> None" for v
      using eff that unfolding ev by blast
  qed
  moreover have "queue_ok w' cs"
  proof (cases t)
    case (Manual i req)
    then have "t_jobs (w_db w') = t_jobs (w_db w)" using eff ready(1) by simp
    then show ?thesis
      using ev_ok(2) st evs issued_onward [of w w'] by (fastforce simp: queue_ok_def keyed_def steady_def onward_def)
  next
    case (Scheduled job)
    then have "completed job (t_jobs (w_db w)) (t_jobs (w_db w'))" "evaluates job ev" "job \<in> set cs"
      using eff ready ev by (auto simp: evaluates_def)
    then show ?thesis using commit_queue [OF ev_ok(2)] st evs by (simp add: steady_def)
  qed
  moreover have "locks_ok w' (ps @ (R, t, ph') # qs)"
    using ok st by (simp add: evaluating_ok_def locks_ok_def steady_def)
  moreover have "runs_ok w' cs (ps @ qs)"
  proof (rule runs_ok_kept [of w cs "ps @ ?r # qs", OF _ steady_present [OF ev_ok(1) st]])
    fix R' t' ph'' v assume "(R', t', ph'') \<in> set (ps @ qs)" and "v \<in> set (t_evaluations (w_db w'))"
    moreover have "triggerRule t' \<noteq> triggerRule t" if "(R', t', ph'') \<in> set (ps @ qs)"
      using evaluating_gone(2) [OF ok] that by force
    ultimately show "v \<in> set (t_evaluations (w_db w)) \<or> eval_RuleID v \<noteq> triggerRule t'" using evs ev(1) by auto
  qed (use ok in \<open>auto simp: evaluating_ok_def\<close>)
  ultimately show ?thesis using ready(2) ph' by (auto simp: evaluating_ok_def runs_ok_def)
qed

lemma evaluating_step:
  assumes ok: "evaluating_ok (w, cs, ps @ (R, t, ph) # qs)" and run: "advance R t ph w = (q, w')"
  shows "case q of Inr ph' \<Rightarrow> evaluating_ok (w', cs, ps @ (R, t, ph') # qs) | Inl err \<Rightarrow> evaluating_ok (w', cs, ps @ (R, t, ph) # qs)"
proof (cases "\<exists>rule c p ended answer ev0. ph = Ready rule c p ended answer ev0")
  case True
  then obtain rule c p ended answer ev0 where ph: "ph = Ready rule c p ended answer ev0" by blast
  show ?thesis
  proof (cases q)
    case (Inl err)
    then have tx: "RunInTx (commitRun sqlStore rule c p ended answer ev0) w = (Inl err, w')"
      using run ph by (auto simp: bindA_Inl)
    have "queued w w'"
      using withinD [OF commit_beside tx] RunInTx_Inl [OF tx] by (simp add: queued_def jobs_from_same)
    then show ?thesis using evaluating_queued [OF ok] Inl by simp
  next
    case (Inr ph')
    then show ?thesis using commit_running ok run ph by auto
  qed
next
  case False
  have inv: "evals_ok w" "phase_ok w t ph" using ok by (auto simp: evaluating_ok_def runs_ok_def)
  have "queued w w' \<and> (\<forall>ph'. q = Inr ph' \<longrightarrow> phase_ok w' t ph')"
    by (rule advance_quiet [OF inv run]) (use False in blast)
  then show ?thesis using evaluating_queued [OF ok, of w']
    by (cases q) (auto simp: evaluating_ok_def runs_ok_def locks_ok_def)
qed

section \<open>The operations beside the runs\<close>

lemma queueOp_queued:
  assumes "\<And>i token. op \<noteq> DoComplete i token" and "\<And>i. op \<noteq> DoDeleteRule i"
  shows "within queued (queueOp parse op)"
proof -
  have ran: "within queued (ran f)" if "within queued f" for f :: "'a act"
    by (rule withinI) (use that in \<open>auto simp: ran_iff dest: withinD\<close>)
  have "within queued (setNow at)" for at
    by (auto simp: within_def setNow_def queued_def steady_def onward_def intro: jobs_from_same)
  then show ?thesis
    using assms by (cases op) (auto intro: ran queued_changes queued_plan queued_jobs queued_cleanup)
qed

lemma claim_running:
  assumes ok: "evaluating_ok (w, cs, ps)" and run: "ClaimEvaluationJob lease w = (Inr (Some c), w')"
  shows "evaluating_ok (w', cj_Job c # cs, ps)"
proof -
  have q: "queued w w'" by (rule withinD [OF queued_jobs(1) run])
  have ok': "evaluating_ok (w', cs, ps)" by (rule evaluating_queued [OF ok q])
  obtain w2 where w2: "claimTx lease w = (Inr (Some c), w2)" using inTx_Inr [OF run [unfolded ClaimEvaluationJob_def]] by auto
  then obtain j where j: "j \<in> set (t_jobs (w_db w))" "job_ID (cj_Job c) = job_ID j" "occurrence_of (cj_Job c) = occurrence_of j"
  proof (cases rule: claimTx_cases)
    case (2 j w1)
    then show thesis using that [of j] by (auto simp: claimRow_def act_dest claimWith_def occurrence_of_def)
  qed auto
  have inj: "inj (w_uuid w)" and keyed: "keyed (w_db w)" and issued: "issued w (job_ID j)"
    using ok j(1) by (simp_all add: evaluating_ok_def queue_ok_def)
  have "occurrence_of k' = occurrence_of (cj_Job c)" if k': "k' \<in> set (t_jobs (w_db w'))" "job_ID k' = job_ID (cj_Job c)" for k'
  proof -
    have "\<not> newJob w w' k'" using k'(2) j(2) issued by (simp add: newJob_def)
    then obtain k where k: "k \<in> set (t_jobs (w_db w))" "sameJob k k'" using q inj k'(1) unfolding queued_def jobs_from_def by blast
    then have "k = j" using keyed j k'(2) unfolding keyed_def sameJob_def by (metis distinct_map inj_onD)
    then show ?thesis using k(2) j(3) by (simp add: sameJob_def)
  qed
  moreover have "issued w' (job_ID (cj_Job c))"
    using issued issued_onward [of w w'] q j(2) by (simp add: queued_def steady_def)
  moreover have "startable (cj_Job c # cs) t" if "startable cs t" for t using that by (cases t) auto
  ultimately show ?thesis using ok' by (auto simp: evaluating_ok_def queue_ok_def runs_ok_def)
qed

lemma delete_running:
  assumes ok: "evaluating_ok (w, cs, ps)" and run: "DeleteRule i w = (q, w')"
  shows "evaluating_ok (w', cs, ps)"
proof -
  have st: "steady w w'"
  proof -
    have "within steady (DeleteRule i)" unfolding DeleteRule_def by (intro steady.works steady_execute)
    then show ?thesis using run by (rule withinD)
  qed
  have drop: "t_jobs d' = filter (\<lambda>j. job_RuleID j \<noteq> i) (t_jobs d) \<and> t_evaluations d' = filter (\<lambda>v. eval_RuleID v \<noteq> i) (t_evaluations d)"
    if "cascadeRule i d = Inr d'" for d d' using that by (auto simp: cascadeRule_def Let_def split: if_splits)
  obtain keep where js: "t_jobs (w_db w') = filter (\<lambda>j. keep (job_RuleID j)) (t_jobs (w_db w))"
    and evs: "t_evaluations (w_db w') = filter (\<lambda>v. keep (eval_RuleID v)) (t_evaluations (w_db w))"
  proof -
    have "(t_jobs (w_db w') = t_jobs (w_db w) \<and> t_evaluations (w_db w') = t_evaluations (w_db w))
      \<or> (t_jobs (w_db w') = filter (\<lambda>j. job_RuleID j \<noteq> i) (t_jobs (w_db w))
         \<and> t_evaluations (w_db w') = filter (\<lambda>v. eval_RuleID v \<noteq> i) (t_evaluations (w_db w)))"
      using run drop unfolding DeleteRule_def
      by (cases q) (auto simp: Let_def act_dest dest!: execute_Inl execute_Inr split: if_splits sum.splits)
    then show thesis using that [of "\<lambda>_. True"] that [of "\<lambda>r. r \<noteq> i"] by auto
  qed
  have "evals_ok w'" by (rule evals_ok_step [OF _ _ _ evs]) (use ok st in \<open>simp_all add: evaluating_ok_def steady_def\<close>)
  moreover have "keyed (w_db w')" using ok js by (auto simp: evaluating_ok_def queue_ok_def keyed_def intro: distinct_map_filter)
  then have "queue_ok w' cs"
    using ok js evs st issued_onward [of w w']
    by (fastforce simp: evaluating_ok_def queue_ok_def steady_def onward_def evaluates_def)
  moreover have "runs_ok w' cs ps"
    by (rule runs_ok_kept [OF _ steady_present [OF _ st]]) (use ok evs in \<open>auto simp: evaluating_ok_def\<close>)
  ultimately show ?thesis using ok st by (simp add: evaluating_ok_def locks_ok_def steady_def)
qed

lemma evaluating_keeps: "evaluating parse s s' \<Longrightarrow> evaluating_ok s \<Longrightarrow> evaluating_ok s'"
proof (induction rule: evaluating.induct)
  case (operation op w q w' cs ps)
  show ?case by (rule evaluating_queued [OF operation.prems withinD [OF queueOp_queued operation.hyps(1)]])
    (rule operation.hyps(2,3))+
next
  case (claim lease w c w' cs ps)
  show ?case by (rule claim_running [OF claim.prems claim.hyps])
next
  case (delete i w q w' cs ps)
  show ?case by (rule delete_running [OF delete.prems delete.hyps])
next
  case (beside w w' cs ps)
  show ?case by (rule evaluating_queued [OF beside.prems alertsOnly_queued [OF beside.hyps]])
next
  case (start t w w' cs ps R)
  show ?case by (rule evaluating_start [OF start.prems start.hyps])
next
  case (busy i w q w' cs ps)
  show ?case using evaluating_queued [OF busy.prems] acquireLock_queued [OF busy.hyps(1)] by blast
next
  case (step R t ph w ph' w' cs ps qs)
  show ?case using evaluating_step [OF step.prems step.hyps] by simp
next
  case (fails R t ph w err w' cs ps qs)
  show ?case using evaluating_release evaluating_step [OF fails.prems fails.hyps] by simp
next
  case (ends w cs ps R t ev qs)
  show ?case by (rule evaluating_release [OF ends.prems])
next
  case (lost w cs ps R t ph qs)
  show ?case using evaluating_free evaluating_gone [OF lost.prems] by blast
next
  case (idle i ps w cs)
  show ?case by (rule evaluating_free [OF idle.prems idle.hyps])
qed

text \<open>The system starts without jobs and evaluations, on clocks that agree and never go back.\<close>

definition fresh_start :: "world \<Rightarrow> bool" where
  "fresh_start w \<longleftrightarrow> inj (w_uuid w) \<and> mono (w_clock w) \<and> t_jobs (w_db w) = [] \<and> t_evaluations (w_db w) = []"

lemma evaluating_reachable:
  assumes "(evaluating parse)\<^sup>*\<^sup>* (w0, [], []) s" and "fresh_start w0"
  shows "evaluating_ok s"
  using assms
proof (induction rule: rtranclp_induct)
  case base
  then show ?case
    by (simp add: fresh_start_def evaluating_ok_def queue_ok_def evals_ok_def locks_ok_def runs_ok_def keyed_def)
qed (rule evaluating_keeps)

lemma at_most_one:
  assumes "sorted_wrt P xs" and "\<And>x y. q x \<Longrightarrow> q y \<Longrightarrow> \<not> P x y" and "x \<in> set xs" and "q x"
  shows "\<exists>y. filter q xs = [y]"
proof -
  have sorted: "sorted_wrt P (filter q xs)" by (rule sorted_wrt_filter [OF assms(1)])
  have "filter q xs \<noteq> []" using assms(3,4) by (metis filter_empty_conv)
  then obtain y ys where ys: "filter q xs = y # ys" by (meson neq_Nil_conv)
  have q: "q z" if "z \<in> set (y # ys)" for z using that unfolding ys [symmetric] by simp
  have "ys = []"
  proof (rule ccontr)
    assume "ys \<noteq> []"
    then have "hd ys \<in> set ys" by simp
    moreover have "P y (hd ys)" using sorted calculation unfolding ys by simp
    ultimately show False using assms(2) q by simp
  qed
  then show ?thesis using ys by blast
qed

lemma at_most_one_length:
  assumes "sorted_wrt P ys" and "\<And>x y. q x \<Longrightarrow> q y \<Longrightarrow> \<not> P x y"
  shows "length (filter q ys) \<le> 1"
proof (cases "\<exists>v\<in>set ys. q v")
  case True
  then obtain v where "v \<in> set ys" "q v" by blast
  from at_most_one [where q = q, OF assms this] show ?thesis by auto
next
  case False
  then show ?thesis by (simp add: filter_empty_conv [THEN iffD2])
qed

text \<open>
  C3. A success is one evaluation. However manual and scheduled evaluations, claims, retries, late
  workers, planning passes, patches, deletions, cleanups, alert operations, lost connections and
  faults of the database interleave, every job in the table, whatever its status, has at most one
  evaluation of its occurrence, and one that is marked succeeded has exactly one: none is marked
  without its result, and none was evaluated twice.
\<close>

theorem successes_are_evaluated_once:
  assumes "(evaluating parse)\<^sup>*\<^sup>* (w0, [], []) (w, cs, ps)" and "fresh_start w0" and "j \<in> set (t_jobs (w_db w))"
  shows "length (filter (evaluates j) (t_evaluations (w_db w))) \<le> 1
    \<and> (job_Status j = EvaluationJobSucceeded \<longrightarrow> (\<exists>v. filter (evaluates j) (t_evaluations (w_db w)) = [v]))"
proof -
  have ok: "queue_ok w cs" "evals_ok w" using evaluating_reachable [OF assms(1,2)] by (simp_all add: evaluating_ok_def)
  have apart: "\<not> follows x y" if "evaluates j x" "evaluates j y" for x y
    using that by (simp add: follows_def evaluates_def)
  have sorted: "sorted_wrt follows (t_evaluations (w_db w))" using ok(2) by (simp add: evals_ok_def)
  have "\<exists>v. filter (evaluates j) (t_evaluations (w_db w)) = [v]" if succ: "job_Status j = EvaluationJobSucceeded"
  proof -
    obtain v where v: "v \<in> set (t_evaluations (w_db w))" "evaluates j v" using ok(1) assms(3) succ unfolding queue_ok_def by blast
    show ?thesis by (rule at_most_one [where q = "evaluates j", OF sorted apart v])
  qed
  with at_most_one_length [where q = "evaluates j", OF sorted apart] show ?thesis by blast
qed

text \<open>
  C2. The evaluation of a rule that commits last has read last. In the same interleavings, of any two
  evaluations of one rule, in the order they were committed, the later one began, and so read its
  sources, after the earlier had ended: no evaluation overlaps another of its rule, and none commits
  alerts drawn from an older state than the alerts it overwrites.
\<close>

theorem evaluations_never_overlap:
  assumes "(evaluating parse)\<^sup>*\<^sup>* (w0, [], []) (w, cs, ps)" and "fresh_start w0"
    and "m < n" and "n < length (t_evaluations (w_db w))"
    and "eval_RuleID (t_evaluations (w_db w) ! m) = eval_RuleID (t_evaluations (w_db w) ! n)"
  shows "eval_StartedAt (t_evaluations (w_db w) ! m) \<le> eval_EndedAt (t_evaluations (w_db w) ! m)
    \<and> eval_EndedAt (t_evaluations (w_db w) ! m) \<le> eval_StartedAt (t_evaluations (w_db w) ! n)"
proof -
  let ?vs = "t_evaluations (w_db w)"
  have ok: "evals_ok w" using evaluating_reachable [OF assms(1,2)] by (simp add: evaluating_ok_def)
  have "follows (?vs ! m) (?vs ! n)"
    using ok assms(3,4) by (auto simp: evals_ok_def sorted_wrt_iff_nth_less)
  moreover have "?vs ! m \<in> set ?vs" using assms(3,4) by simp
  ultimately show ?thesis using ok assms(5) by (simp add: evals_ok_def follows_def)
qed

section \<open>Examples\<close>

fun advances :: "nat \<Rightarrow> runner \<Rightarrow> trigger \<Rightarrow> phase \<Rightarrow> world \<Rightarrow> (phase \<times> world) option" where
  "advances 0 R t ph w = Some (ph, w)"
| "advances (Suc n) R t ph w = (case advance R t ph w of (Inl err, w) \<Rightarrow> None | (Inr ph, w) \<Rightarrow> advances n R t ph w)"

lemma advances_steps: "advances n R t ph w = Some (ph', w') \<Longrightarrow>
    (evaluating parse)\<^sup>*\<^sup>* (w, cs, (R, t, ph) # ps) (w', cs, (R, t, ph') # ps)"
proof (induction n arbitrary: ph w)
  case (Suc n)
  obtain ph1 w1 where 1: "advance R t ph w = (Inr ph1, w1)" "advances n R t ph1 w1 = Some (ph', w')"
    using Suc.prems by (auto split: prod.splits sum.splits)
  have "evaluating parse (w, cs, (R, t, ph) # ps) (w1, cs, (R, t, ph1) # ps)"
    using evaluating.step [OF 1(1), where ps = "[]"] by simp
  then show ?case using Suc.IH [OF 1(2)] by (rule converse_rtranclp_into_rtranclp)
qed simp

lemma solo_start:
  assumes "w_fault w (w_stmts w) = None" and "w_fault w (w_stmts w + 1) = None" and "\<not> w_locked w (triggerRule t)"
    and "startable cs t"
  shows "evaluating parse (w, cs, []) (hold (triggerRule t) (w\<lparr> w_stmts := w_stmts w + 2 \<rparr>), cs, [(R, t, Locked)])"
  using assms by (intro evaluating.start) (simp_all add: acquireLock_def)

lemma evalWorld_fresh: "fresh_start evalWorld"
  by (simp add: fresh_start_def evalWorld_def emptyWorld_def inj_def mono_def)

text \<open>The first planned occurrence is claimed and evaluated; the locks, whoever holds them, do not matter to the steps.\<close>

definition claimStep :: "(gerror + claimedJob option) \<times> world" where
  "claimStep = ClaimEvaluationJob 500 (snd (PlanScheduledJobs everyTen 0 0 0 evalWorld))"

definition check_scheduled :: "(uuid \<Rightarrow> bool) \<Rightarrow> (gerror + claimedJob option) \<times> world \<Rightarrow> bool" where
  "check_scheduled l s = (case s of
     (Inr (Some c), w) \<Rightarrow> w_fault w (w_stmts w) = None \<and> w_fault w (w_stmts w + 1) = None
       \<and> (case advances 5 exampleRunner (Scheduled (cj_Job c)) Locked (w\<lparr> w_stmts := w_stmts w + 2, w_locked := l \<rparr>) of
            Some (ph, w') \<Rightarrow> map job_Status (t_jobs (w_db w')) = [EvaluationJobSucceeded, EvaluationJobPending]
          | None \<Rightarrow> False)
   | _ \<Rightarrow> False)"

lemma claimStep_runs: "check_scheduled l claimStep"
  by code_simp

theorem successes_are_evaluated_once_witness:
  "\<exists>w cs ps j v. (evaluating everyTen)\<^sup>*\<^sup>* (evalWorld, [], []) (w, cs, ps) \<and> j \<in> set (t_jobs (w_db w))
     \<and> job_Status j = EvaluationJobSucceeded \<and> filter (evaluates j) (t_evaluations (w_db w)) = [v]
     \<and> (\<forall>k\<in>set (t_jobs (w_db w)). length (filter (evaluates k) (t_evaluations (w_db w))) \<le> 1)"
proof -
  let ?E = "evaluating everyTen"
  obtain q0 wp where plan: "PlanScheduledJobs everyTen 0 0 0 evalWorld = (q0, wp)" by fastforce
  obtain c w where c: "claimStep = (Inr (Some c), w)" and fault: "w_fault w (w_stmts w) = None" "w_fault w (w_stmts w + 1) = None"
    using claimStep_runs [of "\<lambda>_. False"] by (auto simp: check_scheduled_def split: prod.splits sum.splits option.splits)
  have check: "check_scheduled l (Inr (Some c), w)" for l using claimStep_runs [of l] unfolding c .
  let ?t = "Scheduled (cj_Job c)" and ?w = "w\<lparr> w_stmts := w_stmts w + 2 \<rparr>"
  have claim: "ClaimEvaluationJob 500 wp = (Inr (Some c), w)" using c plan by (simp add: claimStep_def)
  have 1: "?E (evalWorld, [], []) (wp, [], [])"
    by (rule evaluating.operation [where op = "DoPlan 0 0 0"]) (simp_all add: ran_iff plan)
  have 2: "?E (wp, [], []) (w, [cj_Job c], [])" by (rule evaluating.claim [OF claim])
  have "w_locked w = w_locked evalWorld"
    using withinD [OF queued_plan plan] withinD [OF queued_jobs(1) claim] by (simp add: queued_def steady_def)
  then have 3: "?E (w, [cj_Job c], []) (hold (triggerRule ?t) ?w, [cj_Job c], [(exampleRunner, ?t, Locked)])"
    by (intro solo_start fault) (simp_all add: evalWorld_def emptyWorld_def)
  obtain ph w' where run: "advances 5 exampleRunner ?t Locked (hold (triggerRule ?t) ?w) = Some (ph, w')"
    and status: "map job_Status (t_jobs (w_db w')) = [EvaluationJobSucceeded, EvaluationJobPending]"
    using check [of "\<lambda>j. ruleAdvisoryLockKey j = ruleAdvisoryLockKey (triggerRule ?t) \<or> w_locked ?w j"]
    by (auto simp: check_scheduled_def hold_def split: option.splits)
  have reach: "?E\<^sup>*\<^sup>* (evalWorld, [], []) (w', [cj_Job c], [(exampleRunner, ?t, ph)])"
    by (rule rtranclp_trans [OF _ advances_steps [OF run]])
      (use 1 2 3 in \<open>meson converse_rtranclp_into_rtranclp rtranclp.rtrancl_refl\<close>)
  obtain j where j: "j \<in> set (t_jobs (w_db w'))" "job_Status j = EvaluationJobSucceeded"
    using status by (cases "t_jobs (w_db w')") auto
  note once = successes_are_evaluated_once [OF reach evalWorld_fresh]
  then have "\<forall>k\<in>set (t_jobs (w_db w')). length (filter (evaluates k) (t_evaluations (w_db w'))) \<le> 1" by blast
  with once [OF j(1)] j reach show ?thesis by blast
qed

text \<open>Two manual evaluations of the rule, one after the other; the first is interrupted and stored as an error.\<close>

definition interrupted :: runner where
  "interrupted = exampleRunner\<lparr> rn_ctx := (\<lambda>_. Some (new_error ''context canceled'')) \<rparr>"

definition manualAgain :: "(uuid \<Rightarrow> bool) \<Rightarrow> (phase \<times> world) option \<Rightarrow> (phase \<times> world) option" where
  "manualAgain l s = (case s of
     Some (Done ev, w) \<Rightarrow>
       if w_fault w (w_stmts w) = None \<and> w_fault w (w_stmts w + 1) = None \<and> w_fault w (w_stmts w + 2) = None
       then advances 4 exampleRunner (Manual 3 manualRequest) Locked (w\<lparr> w_stmts := w_stmts w + 3, w_locked := l \<rparr>) else None
   | _ \<Rightarrow> None)"

definition manualOnce :: "(uuid \<Rightarrow> bool) \<Rightarrow> (phase \<times> world) option" where
  "manualOnce l = advances 4 interrupted (Manual 3 manualRequest) Locked (evalWorld\<lparr> w_stmts := 2, w_locked := l \<rparr>)"

definition both :: "(phase \<times> world) option \<Rightarrow> bool" where
  "both s = (case s of Some (ph, w) \<Rightarrow> map (\<lambda>v. (eval_RuleID v, eval_StartedAt v, eval_EndedAt v)) (t_evaluations (w_db w))
       = [(3, 1000, 1003), (3, 1004, 1007)] | None \<Rightarrow> False)"

lemma manual_runs: "both (manualAgain l2 (manualOnce l1))"
  by code_simp

lemma both_again:
  assumes "both (manualAgain l s)"
  obtains ev w where "s = Some (Done ev, w)" "w_fault w (w_stmts w) = None" "w_fault w (w_stmts w + 1) = None"
    "w_fault w (w_stmts w + 2) = None"
    "both (advances 4 exampleRunner (Manual 3 manualRequest) Locked (w\<lparr> w_stmts := w_stmts w + 3, w_locked := l \<rparr>))"
proof (cases s)
  case (Some a)
  obtain ph w where a: "a = (ph, w)" by (cases a)
  show thesis using assms that unfolding Some a
    by (cases ph) (simp_all add: manualAgain_def both_def split: if_splits)
qed (use assms in \<open>simp add: manualAgain_def both_def\<close>)

theorem evaluations_never_overlap_witness:
  "\<exists>w cs ps. (evaluating everyTen)\<^sup>*\<^sup>* (evalWorld, [], []) (w, cs, ps) \<and> length (t_evaluations (w_db w)) = 2
     \<and> eval_EndedAt (t_evaluations (w_db w) ! 0) \<le> eval_StartedAt (t_evaluations (w_db w) ! 1)"
proof -
  let ?E = "evaluating everyTen" and ?t = "Manual 3 manualRequest"
  let ?key = "\<lambda>j. ruleAdvisoryLockKey j = ruleAdvisoryLockKey 3"
  let ?w0 = "hold 3 (evalWorld\<lparr> w_stmts := 2 \<rparr>)"
  have w0: "evalWorld\<lparr> w_stmts := 2, w_locked := (\<lambda>j. ?key j \<or> w_locked evalWorld j) \<rparr> = ?w0" by (simp add: hold_def)
  have 1: "?E (evalWorld, [], []) (?w0, [], [(interrupted, ?t, Locked)])"
    using solo_start [of evalWorld ?t "[]" everyTen interrupted]
    by (simp add: evalWorld_def emptyWorld_def eval_nat_numeral)
  have runs: "both (manualAgain l2 (advances 4 interrupted ?t Locked ?w0))" for l2
    using manual_runs [of l2 "\<lambda>j. ?key j \<or> w_locked evalWorld j"] unfolding manualOnce_def w0 .
  then obtain ev w1 where first: "advances 4 interrupted ?t Locked ?w0 = Some (Done ev, w1)"
    and fault: "w_fault w1 (w_stmts w1) = None" "w_fault w1 (w_stmts w1 + 1) = None" "w_fault w1 (w_stmts w1 + 2) = None"
    by (rule both_again)
  let ?w1 = "releaseLock 3 w1"
  have w1: "?w1 = free 3 (w1\<lparr> w_stmts := w_stmts w1 + 1 \<rparr>)" using fault(1) by (simp add: releaseLock_def)
  have 2: "?E (w1, [], [(interrupted, ?t, Done ev)]) (?w1, [], [])"
    using evaluating.ends [where ps = "[]" and qs = "[]" and t = ?t] by simp
  let ?w2 = "hold 3 (?w1\<lparr> w_stmts := w_stmts ?w1 + 2 \<rparr>)"
  have 3: "?E (?w1, [], []) (?w2, [], [(exampleRunner, ?t, Locked)])"
    using solo_start [of ?w1 ?t "[]" everyTen exampleRunner] fault w1 by (simp add: free_def)
  have w2: "w1\<lparr> w_stmts := w_stmts w1 + 3, w_locked := (\<lambda>j. ?key j \<or> w_locked ?w1 j) \<rparr> = ?w2"
    using w1 by (simp add: hold_def free_def eval_nat_numeral)
  have "both (advances 4 exampleRunner ?t Locked ?w2)"
    unfolding w2 [symmetric]
    by (rule both_again [OF runs [of "\<lambda>j. ?key j \<or> w_locked ?w1 j"]]) (simp add: first)
  then obtain ph w where second: "advances 4 exampleRunner ?t Locked ?w2 = Some (ph, w)"
    and rows: "map (\<lambda>v. (eval_RuleID v, eval_StartedAt v, eval_EndedAt v)) (t_evaluations (w_db w)) = [(3, 1000, 1003), (3, 1004, 1007)]"
    by (auto simp: both_def split: option.splits)
  have "?E\<^sup>*\<^sup>* (evalWorld, [], []) (w1, [], [(interrupted, ?t, Done ev)])"
    by (rule converse_rtranclp_into_rtranclp [OF 1 advances_steps [OF first]])
  then have "?E\<^sup>*\<^sup>* (evalWorld, [], []) (?w2, [], [(exampleRunner, ?t, Locked)])"
    using 2 3 by (meson rtranclp.rtrancl_into_rtrancl)
  from rtranclp_trans [OF this advances_steps [OF second]]
  have reach: "?E\<^sup>*\<^sup>* (evalWorld, [], []) (w, [], [(exampleRunner, ?t, ph)])" .
  obtain v0 v1 where vs: "t_evaluations (w_db w) = [v0, v1]" "eval_RuleID v0 = eval_RuleID v1"
    using rows by (auto simp: Cons_eq_map_conv map_eq_Cons_conv)
  from evaluations_never_overlap [OF reach evalWorld_fresh, of 0 1] vs reach show ?thesis
    by (intro exI [of _ w] exI [of _ "[]"] exI [of _ "[(exampleRunner, ?t, ph)]"]) simp
qed

end
