(* ===== verification/Schema.thy ===== *)
theory Schema
  imports JobLifecycle AlertStore Policies ScheduleText
begin

text \<open>
  The tables of the database, \<open>internal/storage/migrations/migrations.go\<close>: the statements of the
  eleven migrations as data, what PostgreSQL does with them to a schema and to the rows it holds, and
  the encoding of the models as rows (the \<open>bun\<close> tags of \<open>internal/models\<close>). The migrator of go-libs
  runs the migrations after the recorded version, each in a transaction. Names are without the
  \<open>reconciliations.\<close> qualifier, and the bodies of the trigger functions are not part of a schema here.
\<close>

section \<open>Values and conditions\<close>

datatype sqlVal = SUuid uuid | SText string | SInt int | SBool bool | STime time | SJson rawJSON

text \<open>A row gives a value, or \<open>NULL\<close>, to every column.\<close>

type_synonym row = "string \<Rightarrow> sqlVal option"

datatype sqlExpr =
    ColIn string "string list"
  | ColEq string string
  | ColNe string string
  | ColNull string
  | ColNotNull string
  | ColNonNegative string
  | ColTrue string
  | ColKeyEq string string string
  | SAnd sqlExpr sqlExpr
  | SOr sqlExpr sqlExpr

definition textOf :: "sqlVal \<Rightarrow> string" where
  "textOf v = (case v of SText s \<Rightarrow> s | _ \<Rightarrow> '''')"

text \<open>SQL's three values: a condition on \<open>NULL\<close> is neither true nor false.\<close>

fun sqlEval :: "row \<Rightarrow> sqlExpr \<Rightarrow> bool option" where
  "sqlEval r (ColIn c vs) = map_option (\<lambda>v. textOf v \<in> set vs) (r c)"
| "sqlEval r (ColEq c x) = map_option (\<lambda>v. textOf v = x) (r c)"
| "sqlEval r (ColNe c x) = map_option (\<lambda>v. textOf v \<noteq> x) (r c)"
| "sqlEval r (ColNull c) = Some (r c = None)"
| "sqlEval r (ColNotNull c) = Some (r c \<noteq> None)"
| "sqlEval r (ColNonNegative c) = map_option (\<lambda>v. case v of SInt n \<Rightarrow> 0 \<le> n | _ \<Rightarrow> False) (r c)"
| "sqlEval r (ColTrue c) = map_option (\<lambda>v. v = SBool True) (r c)"
| "sqlEval r (ColKeyEq c k x) = (case r c of
      Some (SJson s) \<Rightarrow> (case decode_prefix s of
          Some (JObj fs) \<Rightarrow> (case map_of fs k of Some (JStr v) \<Rightarrow> Some (v = x) | _ \<Rightarrow> None)
        | _ \<Rightarrow> None)
    | _ \<Rightarrow> None)"
| "sqlEval r (SAnd a b) = (case (sqlEval r a, sqlEval r b) of
      (Some False, _) \<Rightarrow> Some False | (_, Some False) \<Rightarrow> Some False
    | (Some True, Some True) \<Rightarrow> Some True | _ \<Rightarrow> None)"
| "sqlEval r (SOr a b) = (case (sqlEval r a, sqlEval r b) of
      (Some True, _) \<Rightarrow> Some True | (_, Some True) \<Rightarrow> Some True
    | (Some False, Some False) \<Rightarrow> Some False | _ \<Rightarrow> None)"

section \<open>Schemas\<close>

datatype sqlDefault = Literal sqlVal | Now

record column =
  col_Name :: string
  col_Type :: string
  col_NotNull :: bool
  col_Default :: "sqlDefault option"

datatype sqlConstraint =
    PrimaryKey "string list"
  | UniqueKey "string list"
  | Check sqlExpr
  | ForeignKey string string bool

record sqlIndex =
  ix_Name :: string
  ix_Unique :: bool
  ix_Columns :: "string list"
  ix_Where :: "sqlExpr option"

record table =
  tb_Columns :: "column list"
  tb_Constraints :: "(string \<times> sqlConstraint) list"
  tb_Indexes :: "sqlIndex list"
  tb_Triggers :: "(string \<times> string) list"

record schema =
  sc_Tables :: "(string \<times> table) list"
  sc_Functions :: "string list"

record database =
  d_Schema :: schema
  d_Rows :: "string \<Rightarrow> row list"

text \<open>
  What the constraints of a table ask of a row (no \<open>NULL\<close> where it is excluded, no false check), and
  of two rows: that they agree on no key, unless a column of it is \<open>NULL\<close>.
\<close>

definition satisfies :: "row \<Rightarrow> sqlConstraint \<Rightarrow> bool" where
  "satisfies r c = (case c of
     PrimaryKey cols \<Rightarrow> list_all (\<lambda>k. r k \<noteq> None) cols
   | Check e \<Rightarrow> sqlEval r e \<noteq> Some False
   | _ \<Rightarrow> True)"

definition admits :: "table \<Rightarrow> row \<Rightarrow> bool" where
  "admits t r \<longleftrightarrow> list_all (\<lambda>c. col_NotNull c \<longrightarrow> r (col_Name c) \<noteq> None) (tb_Columns t)
     \<and> list_all (\<lambda>(_, c). satisfies r c) (tb_Constraints t)"

definition sameKey :: "string list \<Rightarrow> row \<Rightarrow> row \<Rightarrow> bool" where
  "sameKey cols r r' \<longleftrightarrow> list_all (\<lambda>c. r c \<noteq> None \<and> r c = r' c) cols"

definition clashOn :: "row \<Rightarrow> row \<Rightarrow> sqlConstraint \<Rightarrow> bool" where
  "clashOn r r' c = (case c of PrimaryKey cols \<Rightarrow> sameKey cols r r' | UniqueKey cols \<Rightarrow> sameKey cols r r' | _ \<Rightarrow> False)"

definition inIndex :: "sqlIndex \<Rightarrow> row \<Rightarrow> bool" where
  "inIndex i r = (case ix_Where i of None \<Rightarrow> True | Some e \<Rightarrow> sqlEval r e = Some True)"

definition clashIn :: "row \<Rightarrow> row \<Rightarrow> sqlIndex \<Rightarrow> bool" where
  "clashIn r r' i \<longleftrightarrow> ix_Unique i \<and> inIndex i r \<and> inIndex i r' \<and> sameKey (ix_Columns i) r r'"

definition clash :: "table \<Rightarrow> row \<Rightarrow> row \<Rightarrow> bool" where
  "clash t r r' \<longleftrightarrow> list_ex (\<lambda>(_, c). clashOn r r' c) (tb_Constraints t) \<or> list_ex (clashIn r r') (tb_Indexes t)"

lemma sorted_wrt_both: "sorted_wrt (\<lambda>x y. P x y \<and> Q x y) xs \<longleftrightarrow> sorted_wrt P xs \<and> sorted_wrt Q xs"
  by (induction xs) auto

lemma sorted_wrt_each: "sorted_wrt (\<lambda>x y. \<forall>c\<in>C. P c x y) xs \<longleftrightarrow> (\<forall>c\<in>C. sorted_wrt (P c) xs)"
  by (induction xs) auto

definition fits :: "table \<Rightarrow> row list \<Rightarrow> bool" where
  "fits t rs \<longleftrightarrow> list_all (admits t) rs \<and> sorted_wrt (\<lambda>r r'. \<not> clash t r r') rs"

section \<open>Statements\<close>

datatype ddl =
    CreateTable string "column list" "(string \<times> sqlConstraint) list"
  | DropTable string
  | AddColumn string bool column
  | RenameColumn string string string
  | AddConstraint string string sqlConstraint
  | DropConstraint string string
  | CreateIndex string sqlIndex
  | CreateFunction string
  | DropFunction string
  | CreateTrigger string string string
  | DropTrigger string string

definition alter :: "string \<Rightarrow> (table \<Rightarrow> table) \<Rightarrow> schema \<Rightarrow> schema" where
  "alter t f s = s\<lparr> sc_Tables := map (\<lambda>(n, tb). if n = t then (n, f tb) else (n, tb)) (sc_Tables s) \<rparr>"

definition columnIn :: "string \<Rightarrow> table \<Rightarrow> bool" where
  "columnIn c t = list_ex (\<lambda>x. col_Name x = c) (tb_Columns t)"

definition indexIn :: "string \<Rightarrow> schema \<Rightarrow> bool" where
  "indexIn i s = list_ex (\<lambda>(_, t). list_ex (\<lambda>x. ix_Name x = i) (tb_Indexes t)) (sc_Tables s)"

definition references :: "string \<Rightarrow> string \<times> sqlConstraint \<Rightarrow> bool" where
  "references t c = (case snd c of ForeignKey _ t' _ \<Rightarrow> t' = t | _ \<Rightarrow> False)"

definition renameIn :: "string \<Rightarrow> string \<Rightarrow> table \<Rightarrow> table" where
  "renameIn c c' t = t\<lparr> tb_Columns := map (\<lambda>x. if col_Name x = c then x\<lparr> col_Name := c' \<rparr> else x) (tb_Columns t) \<rparr>"

fun exprColumns :: "sqlExpr \<Rightarrow> string list" where
  "exprColumns (ColIn c vs) = [c]"
| "exprColumns (ColEq c x) = [c]"
| "exprColumns (ColNe c x) = [c]"
| "exprColumns (ColNull c) = [c]"
| "exprColumns (ColNotNull c) = [c]"
| "exprColumns (ColNonNegative c) = [c]"
| "exprColumns (ColTrue c) = [c]"
| "exprColumns (ColKeyEq c k x) = [c]"
| "exprColumns (SAnd a b) = exprColumns a @ exprColumns b"
| "exprColumns (SOr a b) = exprColumns a @ exprColumns b"

text \<open>
  The schema after a statement: \<open>IF EXISTS\<close> and \<open>IF NOT EXISTS\<close> are as the migrations write them, a
  dropped table takes the foreign keys to it along (\<open>CASCADE\<close>). A column that is renamed must not be
  used in a constraint or an index, which holds for the two that are.
\<close>

definition mentions :: "string \<Rightarrow> table \<Rightarrow> bool" where
  "mentions c t \<longleftrightarrow> list_ex (\<lambda>(_, k). case k of PrimaryKey cols \<Rightarrow> c \<in> set cols | UniqueKey cols \<Rightarrow> c \<in> set cols
       | Check e \<Rightarrow> c \<in> set (exprColumns e) | ForeignKey c' _ _ \<Rightarrow> c' = c) (tb_Constraints t)
     \<or> list_ex (\<lambda>i. c \<in> set (ix_Columns i) \<or> (case ix_Where i of None \<Rightarrow> False | Some e \<Rightarrow> c \<in> set (exprColumns e))) (tb_Indexes t)"

definition execSchema :: "ddl \<Rightarrow> schema \<Rightarrow> string + schema" where
  "execSchema cmd s =
     (let missing = (\<lambda>t. map_of (sc_Tables s) t = None) in
      case cmd of
        CreateTable t cols cons \<Rightarrow>
          if missing t then Inr (s\<lparr> sc_Tables := sc_Tables s @ [(t, \<lparr> tb_Columns = cols, tb_Constraints = cons,
            tb_Indexes = [], tb_Triggers = [] \<rparr>)] \<rparr>) else Inr s
      | DropTable t \<Rightarrow>
          Inr (s\<lparr> sc_Tables := map (\<lambda>(n, tb). (n, tb\<lparr> tb_Constraints := filter (\<lambda>c. \<not> references t c) (tb_Constraints tb) \<rparr>))
            (filter (\<lambda>(n, _). n \<noteq> t) (sc_Tables s)) \<rparr>)
      | AddColumn t optional col \<Rightarrow>
          (case map_of (sc_Tables s) t of
             None \<Rightarrow> Inl ''relation does not exist''
           | Some tb \<Rightarrow>
               if columnIn (col_Name col) tb then (if optional then Inr s else Inl ''column already exists'')
               else Inr (alter t (\<lambda>tb. tb\<lparr> tb_Columns := tb_Columns tb @ [col] \<rparr>) s))
      | RenameColumn t c c' \<Rightarrow>
          (case map_of (sc_Tables s) t of
             None \<Rightarrow> Inl ''relation does not exist''
           | Some tb \<Rightarrow>
               if \<not> columnIn c tb then Inl ''column does not exist''
               else if columnIn c' tb then Inl ''column already exists''
               else if mentions c tb then Inl ''not modelled''
               else Inr (alter t (renameIn c c') s))
      | AddConstraint t n c \<Rightarrow>
          (case map_of (sc_Tables s) t of
             None \<Rightarrow> Inl ''relation does not exist''
           | Some tb \<Rightarrow>
               if map_of (tb_Constraints tb) n \<noteq> None then Inl ''constraint already exists''
               else Inr (alter t (\<lambda>tb. tb\<lparr> tb_Constraints := tb_Constraints tb @ [(n, c)] \<rparr>) s))
      | DropConstraint t n \<Rightarrow>
          if missing t then Inl ''relation does not exist''
          else Inr (alter t (\<lambda>tb. tb\<lparr> tb_Constraints := filter (\<lambda>(m, _). m \<noteq> n) (tb_Constraints tb) \<rparr>) s)
      | CreateIndex t i \<Rightarrow>
          if missing t then Inl ''relation does not exist''
          else if indexIn (ix_Name i) s then Inr s
          else Inr (alter t (\<lambda>tb. tb\<lparr> tb_Indexes := tb_Indexes tb @ [i] \<rparr>) s)
      | CreateFunction f \<Rightarrow> Inr (if f \<in> set (sc_Functions s) then s else s\<lparr> sc_Functions := sc_Functions s @ [f] \<rparr>)
      | DropFunction f \<Rightarrow> Inr (s\<lparr> sc_Functions := filter (\<lambda>g. g \<noteq> f) (sc_Functions s) \<rparr>)
      | CreateTrigger n t f \<Rightarrow>
          if missing t \<or> f \<notin> set (sc_Functions s) then Inl ''does not exist''
          else Inr (alter t (\<lambda>tb. tb\<lparr> tb_Triggers := tb_Triggers tb @ [(n, f)] \<rparr>) s)
      | DropTrigger n t \<Rightarrow>
          if missing t then Inl ''relation does not exist''
          else Inr (alter t (\<lambda>tb. tb\<lparr> tb_Triggers := filter (\<lambda>(m, _). m \<noteq> n) (tb_Triggers tb) \<rparr>) s))"

text \<open>The rows after a statement: a new column is filled with its default, a new table is empty.\<close>

definition defaultOf :: "time \<Rightarrow> column \<Rightarrow> sqlVal option" where
  "defaultOf now c = (case col_Default c of None \<Rightarrow> None | Some (Literal v) \<Rightarrow> Some v | Some Now \<Rightarrow> Some (STime now))"

definition execRows :: "time \<Rightarrow> ddl \<Rightarrow> schema \<Rightarrow> (string \<Rightarrow> row list) \<Rightarrow> string \<Rightarrow> row list" where
  "execRows now cmd s rows =
     (case cmd of
        CreateTable t _ _ \<Rightarrow> if map_of (sc_Tables s) t = None then rows(t := []) else rows
      | DropTable t \<Rightarrow> rows(t := [])
      | AddColumn t _ col \<Rightarrow>
          (case map_of (sc_Tables s) t of
             Some tb \<Rightarrow> if columnIn (col_Name col) tb then rows
               else rows(t := map (\<lambda>r. r(col_Name col := defaultOf now col)) (rows t))
           | None \<Rightarrow> rows)
      | RenameColumn t c c' \<Rightarrow> rows(t := map (\<lambda>r. r(c' := r c, c := None)) (rows t))
      | _ \<Rightarrow> rows)"

text \<open>
  A statement fails when it does not apply to the schema or when rows violate what it asks: a check or
  a key of a table that has rows.
\<close>

definition exec :: "time \<Rightarrow> ddl \<Rightarrow> database \<Rightarrow> string + database" where
  "exec now cmd d =
     (case execSchema cmd (d_Schema d) of
        Inl err \<Rightarrow> Inl err
      | Inr s \<Rightarrow>
          let rows = execRows now cmd (d_Schema d) (d_Rows d) in
          if list_all (\<lambda>(n, tb). fits tb (rows n)) (sc_Tables s)
          then Inr \<lparr> d_Schema = s, d_Rows = rows \<rparr> else Inl ''violated by some row'')"

fun execAll :: "time \<Rightarrow> ddl list \<Rightarrow> database \<Rightarrow> string + database" where
  "execAll now [] d = Inr d"
| "execAll now (cmd # cmds) d = (case exec now cmd d of Inl err \<Rightarrow> Inl err | Inr d \<Rightarrow> execAll now cmds d)"

text \<open>Each migration is a transaction: the first that fails ends the upgrade, those before it stay.\<close>

fun migrateUp :: "time \<Rightarrow> ddl list list \<Rightarrow> database \<Rightarrow> string option \<times> database" where
  "migrateUp now [] d = (None, d)"
| "migrateUp now (m # ms) d = (case execAll now m d of Inl err \<Rightarrow> (Some err, d) | Inr d \<Rightarrow> migrateUp now ms d)"

section \<open>The migrations\<close>

text \<open>Columns as the statements write them: nullable, \<open>NOT NULL\<close>, \<open>NOT NULL DEFAULT\<close>.\<close>

definition nullable :: "string \<Rightarrow> string \<Rightarrow> column" where
  "nullable n t = \<lparr> col_Name = n, col_Type = t, col_NotNull = False, col_Default = None \<rparr>"

definition notNull :: "string \<Rightarrow> string \<Rightarrow> column" where
  "notNull n t = \<lparr> col_Name = n, col_Type = t, col_NotNull = True, col_Default = None \<rparr>"

definition withDefault :: "string \<Rightarrow> string \<Rightarrow> sqlDefault \<Rightarrow> column" where
  "withDefault n t v = \<lparr> col_Name = n, col_Type = t, col_NotNull = True, col_Default = Some v \<rparr>"

definition index :: "string \<Rightarrow> string list \<Rightarrow> sqlIndex" where
  "index n cols = \<lparr> ix_Name = n, ix_Unique = False, ix_Columns = cols, ix_Where = None \<rparr>"

definition indexWhere :: "string \<Rightarrow> string list \<Rightarrow> sqlExpr \<Rightarrow> sqlIndex" where
  "indexWhere n cols e = \<lparr> ix_Name = n, ix_Unique = False, ix_Columns = cols, ix_Where = Some e \<rparr>"

definition uniqueWhere :: "string \<Rightarrow> string list \<Rightarrow> sqlExpr \<Rightarrow> sqlIndex" where
  "uniqueWhere n cols e = \<lparr> ix_Name = n, ix_Unique = True, ix_Columns = cols, ix_Where = Some e \<rparr>"

abbreviation "timestamptz \<equiv> ''timestamp with time zone''"

text \<open>The legacy tables; PostgreSQL names the key of \<open>created_at\<close> itself.\<close>

definition migration1 :: "ddl list" where
  "migration1 =
    [CreateTable ''policy''
       [notNull ''id'' ''uuid'',
        notNull ''created_at'' timestamptz,
        notNull ''name'' ''text'',
        notNull ''ledger_name'' ''text'',
        notNull ''ledger_query'' ''jsonb'',
        notNull ''payments_pool_id'' ''uuid'']
       [(''policy_pk'', PrimaryKey [''id''])],
     CreateTable ''reconciliation''
       [notNull ''id'' ''uuid'',
        notNull ''policy_id'' ''uuid'',
        notNull ''created_at'' timestamptz,
        nullable ''reconciled_at'' timestamptz,
        notNull ''status'' ''text'',
        notNull ''ledger_balances'' ''jsonb'',
        notNull ''payments_balances'' ''jsonb'',
        nullable ''error'' ''text'']
       [(''reconciliation_created_at_key'', UniqueKey [''created_at'']),
        (''reconciliation_pk'', PrimaryKey [''id''])],
     DropConstraint ''reconciliation'' ''reconciliation_policy_fk'',
     AddConstraint ''reconciliation'' ''reconciliation_policy_fk'' (ForeignKey ''policy_id'' ''policy'' True)]"

definition migration2 :: "ddl list" where
  "migration2 =
    [RenameColumn ''reconciliation'' ''reconciled_at'' ''reconciled_at_ledger'',
     AddColumn ''reconciliation'' False (nullable ''reconciled_at_payments'' timestamptz)]"

definition migration3 :: "ddl list" where
  "migration3 =
    [AddColumn ''reconciliation'' False (nullable ''drift_balances'' ''jsonb'')]"

definition migration4 :: "ddl list" where
  "migration4 =
    [DropConstraint ''reconciliation'' ''reconciliation_created_at_key'',
     CreateIndex ''reconciliation'' (index ''reconciliation_created_at_idx'' [''created_at'']),
     CreateIndex ''reconciliation'' (index ''reconciliation_policy_id_idx'' [''policy_id''])]"

text \<open>Rules, evaluations and incidents.\<close>

definition migration5 :: "ddl list" where
  "migration5 =
    [CreateFunction ''touch_updated_at'',
     CreateTable ''rule''
       [notNull ''id'' ''uuid'',
        notNull ''name'' ''text'',
        notNull ''template_kind'' ''text'',
        notNull ''template_spec'' ''jsonb'',
        withDefault ''compiled_cel'' ''text'' (Literal (SText '''')),
        withDefault ''enabled'' ''boolean'' (Literal (SBool True)),
        withDefault ''severity'' ''text'' (Literal (SText ''medium'')),
        nullable ''schedule'' ''jsonb'',
        nullable ''notifications'' ''jsonb'',
        nullable ''labels'' ''jsonb'',
        withDefault ''created_at'' timestamptz Now,
        withDefault ''updated_at'' timestamptz Now]
       [(''rule_pk'', PrimaryKey [''id'']),
        (''rule_severity_chk'', Check (ColIn ''severity'' [''info'', ''low'', ''medium'', ''high'', ''critical'']))],
     CreateIndex ''rule'' (index ''rule_name_idx'' [''name'']),
     CreateIndex ''rule'' (indexWhere ''rule_enabled_idx'' [''enabled''] (ColTrue ''enabled'')),
     DropTrigger ''rule_touch_updated_at'' ''rule'',
     CreateTrigger ''rule_touch_updated_at'' ''rule'' ''touch_updated_at'',
     CreateTable ''evaluation''
       [notNull ''id'' ''uuid'',
        notNull ''rule_id'' ''uuid'',
        notNull ''started_at'' timestamptz,
        notNull ''ended_at'' timestamptz,
        withDefault ''pit_per_source'' ''jsonb'' (Literal (SJson ''{}'')),
        notNull ''result'' ''text'',
        nullable ''evidence'' ''jsonb'',
        nullable ''error'' ''text'',
        withDefault ''cost_units'' ''bigint'' (Literal (SInt 0)),
        withDefault ''created_at'' timestamptz Now]
       [(''evaluation_pk'', PrimaryKey [''id'']),
        (''evaluation_result_chk'', Check (ColIn ''result'' [''PASS'', ''FAIL'', ''ERROR''])),
        (''evaluation_rule_fk'', ForeignKey ''rule_id'' ''rule'' True)],
     CreateIndex ''evaluation'' (index ''evaluation_rule_id_idx'' [''rule_id'', ''created_at'']),
     CreateIndex ''evaluation'' (index ''evaluation_result_idx'' [''result'']),
     CreateTable ''incident''
       [notNull ''id'' ''uuid'',
        notNull ''rule_id'' ''uuid'',
        notNull ''fingerprint'' ''text'',
        withDefault ''status'' ''text'' (Literal (SText ''OPEN'')),
        notNull ''severity'' ''text'',
        notNull ''opened_at'' timestamptz,
        notNull ''last_seen_at'' timestamptz,
        withDefault ''occurrence_count'' ''integer'' (Literal (SInt 1)),
        notNull ''first_evaluation_id'' ''uuid'',
        notNull ''last_evaluation_id'' ''uuid'',
        nullable ''evidence'' ''jsonb'',
        nullable ''ack'' ''jsonb'',
        nullable ''resolution'' ''jsonb'',
        nullable ''parent_incident_id'' ''uuid'',
        nullable ''labels'' ''jsonb'',
        withDefault ''created_at'' timestamptz Now,
        withDefault ''updated_at'' timestamptz Now]
       [(''incident_pk'', PrimaryKey [''id'']),
        (''incident_status_chk'', Check (ColIn ''status'' [''OPEN'', ''ACKNOWLEDGED'', ''RESOLVED''])),
        (''incident_severity_chk'', Check (ColIn ''severity'' [''info'', ''low'', ''medium'', ''high'', ''critical''])),
        (''incident_rule_fk'', ForeignKey ''rule_id'' ''rule'' True),
        (''incident_first_eval_fk'', ForeignKey ''first_evaluation_id'' ''evaluation'' False),
        (''incident_last_eval_fk'', ForeignKey ''last_evaluation_id'' ''evaluation'' False),
        (''incident_parent_fk'', ForeignKey ''parent_incident_id'' ''incident'' False)],
     CreateIndex ''incident'' (index ''incident_rule_id_idx'' [''rule_id'', ''opened_at'']),
     CreateIndex ''incident'' (indexWhere ''incident_status_open_idx'' [''opened_at''] (ColIn ''status'' [''OPEN'', ''ACKNOWLEDGED''])),
     CreateIndex ''incident'' (index ''incident_fingerprint_idx'' [''rule_id'', ''fingerprint'']),
     CreateIndex ''incident'' (uniqueWhere ''incident_active_per_fingerprint'' [''rule_id'', ''fingerprint''] (ColIn ''status'' [''OPEN'', ''ACKNOWLEDGED''])),
     DropTrigger ''incident_touch_updated_at'' ''incident'',
     CreateTrigger ''incident_touch_updated_at'' ''incident'' ''touch_updated_at'']"

definition migration6 :: "ddl list" where
  "migration6 =
    [CreateFunction ''incident_parent_same_rule'',
     DropTrigger ''incident_parent_same_rule'' ''incident'',
     CreateTrigger ''incident_parent_same_rule'' ''incident'' ''incident_parent_same_rule'']"

text \<open>Incidents give way to alerts and their events.\<close>

definition migration7 :: "ddl list" where
  "migration7 =
    [DropTable ''incident'',
     DropFunction ''incident_parent_same_rule'',
     CreateTable ''alert''
       [notNull ''id'' ''uuid'',
        notNull ''rule_id'' ''uuid'',
        notNull ''fingerprint'' ''text'',
        withDefault ''status'' ''text'' (Literal (SText ''OPEN'')),
        notNull ''severity'' ''text'',
        notNull ''first_seen_at'' timestamptz,
        notNull ''last_seen_at'' timestamptz,
        withDefault ''occurrence_count'' ''bigint'' (Literal (SInt 1)),
        notNull ''last_evaluation_id'' ''uuid'',
        nullable ''evidence'' ''jsonb'',
        nullable ''ack'' ''jsonb'',
        nullable ''resolution'' ''jsonb'',
        nullable ''snooze'' ''jsonb'',
        nullable ''labels'' ''jsonb'',
        withDefault ''created_at'' timestamptz Now,
        withDefault ''updated_at'' timestamptz Now]
       [(''alert_pk'', PrimaryKey [''id'']),
        (''alert_unique_pair'', UniqueKey [''rule_id'', ''fingerprint'']),
        (''alert_status_chk'', Check (ColIn ''status'' [''OPEN'', ''ACKNOWLEDGED'', ''RESOLVED''])),
        (''alert_severity_chk'', Check (ColIn ''severity'' [''info'', ''low'', ''medium'', ''high'', ''critical''])),
        (''alert_rule_fk'', ForeignKey ''rule_id'' ''rule'' True),
        (''alert_last_eval_fk'', ForeignKey ''last_evaluation_id'' ''evaluation'' False)],
     CreateIndex ''alert'' (index ''alert_rule_id_idx'' [''rule_id'', ''last_seen_at'']),
     CreateIndex ''alert'' (index ''alert_status_idx'' [''status'', ''last_seen_at'']),
     DropTrigger ''alert_touch_updated_at'' ''alert'',
     CreateTrigger ''alert_touch_updated_at'' ''alert'' ''touch_updated_at'',
     CreateTable ''alert_event''
       [notNull ''id'' ''uuid'',
        notNull ''alert_id'' ''uuid'',
        nullable ''evaluation_id'' ''uuid'',
        notNull ''type'' ''text'',
        nullable ''prev_status'' ''text'',
        notNull ''new_status'' ''text'',
        nullable ''payload'' ''jsonb'',
        withDefault ''notify'' ''boolean'' (Literal (SBool True)),
        notNull ''at'' timestamptz,
        withDefault ''created_at'' timestamptz Now]
       [(''alert_event_pk'', PrimaryKey [''id'']),
        (''alert_event_type_chk'', Check (ColIn ''type'' [''fail'', ''pass'', ''ack'', ''resolve'', ''accept'', ''snooze'', ''unsnooze''])),
        (''alert_event_prev_chk'', Check (SOr (ColNull ''prev_status'') (ColIn ''prev_status'' [''OPEN'', ''ACKNOWLEDGED'', ''RESOLVED'']))),
        (''alert_event_new_chk'', Check (ColIn ''new_status'' [''OPEN'', ''ACKNOWLEDGED'', ''RESOLVED''])),
        (''alert_event_alert_fk'', ForeignKey ''alert_id'' ''alert'' True),
        (''alert_event_eval_fk'', ForeignKey ''evaluation_id'' ''evaluation'' True)],
     CreateIndex ''alert_event'' (index ''alert_event_alert_idx'' [''alert_id'', ''at'']),
     CreateIndex ''alert_event'' (index ''alert_event_type_idx'' [''alert_id'', ''type'', ''at''])]"

text \<open>Alerts are scoped to a period.\<close>

definition migration8 :: "ddl list" where
  "migration8 =
    [AddColumn ''rule'' True (withDefault ''cadence'' ''text'' (Literal (SText ''continuous''))),
     DropConstraint ''rule'' ''rule_cadence_chk'',
     AddConstraint ''rule'' ''rule_cadence_chk'' (Check (ColIn ''cadence'' [''continuous'', ''daily'', ''monthly''])),
     AddColumn ''alert'' True (withDefault ''period_id'' ''text'' (Literal (SText ''continuous''))),
     DropConstraint ''alert'' ''alert_unique_pair'',
     DropConstraint ''alert'' ''alert_unique_scope'',
     AddConstraint ''alert'' ''alert_unique_scope'' (UniqueKey [''rule_id'', ''fingerprint'', ''period_id'']),
     CreateIndex ''alert'' (index ''alert_period_status_idx'' [''rule_id'', ''period_id'', ''status''])]"

definition migration9 :: "ddl list" where
  "migration9 =
    [DropConstraint ''rule'' ''rule_cadence_chk'',
     AddConstraint ''rule'' ''rule_cadence_chk'' (Check (ColIn ''cadence'' [''continuous'', ''daily'', ''weekly'', ''monthly'']))]"

text \<open>Durable schedules.\<close>

definition migration10 :: "ddl list" where
  "migration10 =
    [AddColumn ''rule'' True (withDefault ''revision'' ''bigint'' (Literal (SInt 1))),
     AddColumn ''rule'' True (nullable ''next_run_at'' timestamptz),
     CreateIndex ''rule'' (indexWhere ''rule_schedule_due_idx'' [''next_run_at'', ''id''] (SAnd (ColTrue ''enabled'')
       (SAnd (ColNotNull ''next_run_at'') (ColKeyEq ''schedule'' ''kind'' ''cron'')))),
     CreateTable ''evaluation_job''
       [notNull ''id'' ''uuid'',
        notNull ''rule_id'' ''uuid'',
        notNull ''rule_revision'' ''bigint'',
        notNull ''scheduled_at'' timestamptz,
        withDefault ''status'' ''text'' (Literal (SText ''PENDING'')),
        withDefault ''attempts'' ''integer'' (Literal (SInt 0)),
        withDefault ''available_at'' timestamptz Now,
        nullable ''lease_until'' timestamptz,
        nullable ''claim_token'' ''uuid'',
        nullable ''last_error'' ''text'',
        withDefault ''created_at'' timestamptz Now,
        withDefault ''updated_at'' timestamptz Now]
       [(''evaluation_job_pk'', PrimaryKey [''id'']),
        (''evaluation_job_rule_fk'', ForeignKey ''rule_id'' ''rule'' True),
        (''evaluation_job_occurrence_unique'', UniqueKey [''rule_id'', ''rule_revision'', ''scheduled_at'']),
        (''evaluation_job_status_chk'', Check (ColIn ''status'' [''PENDING'', ''RUNNING'', ''SUCCEEDED'', ''FAILED'', ''CANCELLED''])),
        (''evaluation_job_attempts_chk'', Check (ColNonNegative ''attempts'')),
        (''evaluation_job_claim_chk'', Check (
         SOr (SAnd (ColEq ''status'' ''RUNNING'') (SAnd (ColNotNull ''claim_token'') (ColNotNull ''lease_until'')))
          (SAnd (ColNe ''status'' ''RUNNING'') (SAnd (ColNull ''claim_token'') (ColNull ''lease_until'')))))],
     CreateIndex ''evaluation_job'' (indexWhere ''evaluation_job_claim_idx'' [''available_at'', ''scheduled_at''] (ColEq ''status'' ''PENDING'')),
     CreateIndex ''evaluation_job'' (indexWhere ''evaluation_job_expired_lease_idx'' [''lease_until''] (ColEq ''status'' ''RUNNING'')),
     CreateIndex ''evaluation_job'' (indexWhere ''evaluation_job_active_status_idx'' [''status''] (ColIn ''status'' [''PENDING'', ''RUNNING'', ''FAILED''])),
     DropTrigger ''evaluation_job_touch_updated_at'' ''evaluation_job'',
     CreateTrigger ''evaluation_job_touch_updated_at'' ''evaluation_job'' ''touch_updated_at'',
     AddColumn ''evaluation'' True (nullable ''scheduled_at'' timestamptz),
     AddColumn ''evaluation'' True (nullable ''rule_revision'' ''bigint''),
     DropConstraint ''evaluation'' ''evaluation_schedule_identity_chk'',
     AddConstraint ''evaluation'' ''evaluation_schedule_identity_chk'' (Check (
      SOr (SAnd (ColNull ''scheduled_at'') (ColNull ''rule_revision''))
       (SAnd (ColNotNull ''scheduled_at'') (ColNotNull ''rule_revision'')))),
     CreateIndex ''evaluation'' (uniqueWhere ''evaluation_scheduled_occurrence_unique'' [''rule_id'', ''rule_revision'', ''scheduled_at''] (ColNotNull ''scheduled_at''))]"

definition migration11 :: "ddl list" where
  "migration11 =
    [RenameColumn ''rule'' ''compiled_cel'' ''explanation_cel'']"

definition registerMigrations :: "ddl list list" where
  "registerMigrations = [migration1, migration2, migration3, migration4, migration5, migration6,
     migration7, migration8, migration9, migration10, migration11]"

definition emptyDatabase :: database where
  "emptyDatabase = \<lparr> d_Schema = \<lparr> sc_Tables = [], sc_Functions = [] \<rparr>, d_Rows = \<lambda>_. [] \<rparr>"

text \<open>\<open>Migrate\<close> on a database at a version.\<close>

definition Migrate :: "time \<Rightarrow> nat \<Rightarrow> database \<Rightarrow> string option \<times> database" where
  "Migrate now version d = migrateUp now (drop version registerMigrations) d"

section \<open>Rows (the bun tags of internal/models)\<close>

definition rowOf :: "(string \<times> sqlVal option) list \<Rightarrow> row" where
  "rowOf cells = (\<lambda>c. case map_of cells c of None \<Rightarrow> None | Some v \<Rightarrow> v)"

definition jsonOf :: "rawJSON \<Rightarrow> sqlVal option" where
  "jsonOf raw = (if raw = '''' then None else Some (SJson raw))"

definition textsJSON :: "(string \<times> string) list \<Rightarrow> rawJSON" where
  "textsJSON m = marshal (JObj (map (\<lambda>(k, v). (k, JStr v)) m))"

definition balancesJSON :: "balances \<Rightarrow> rawJSON" where
  "balancesJSON m = marshal (JObj (map (\<lambda>(k, v). (k, case v of None \<Rightarrow> JNull | Some n \<Rightarrow> JNum (dec n))) m))"

definition alertStatusText :: "alertStatus \<Rightarrow> string" where
  "alertStatusText s = (case s of AlertOpen \<Rightarrow> ''OPEN'' | AlertAcknowledged \<Rightarrow> ''ACKNOWLEDGED'' | AlertResolved \<Rightarrow> ''RESOLVED'')"

definition eventTypeText :: "alertEventType \<Rightarrow> string" where
  "eventTypeText t = (case t of AlertEventFail \<Rightarrow> ''fail'' | AlertEventPass \<Rightarrow> ''pass'' | AlertEventAck \<Rightarrow> ''ack''
     | AlertEventResolve \<Rightarrow> ''resolve'' | AlertEventAccept \<Rightarrow> ''accept'' | AlertEventSnooze \<Rightarrow> ''snooze''
     | AlertEventUnsnooze \<Rightarrow> ''unsnooze'' | AlertEventOther s \<Rightarrow> s)"

definition resultText :: "evaluationResult \<Rightarrow> string" where
  "resultText r = (case r of EvaluationPass \<Rightarrow> ''PASS'' | EvaluationFail \<Rightarrow> ''FAIL'' | EvaluationError \<Rightarrow> ''ERROR'')"

definition jobStatusText :: "evaluationJobStatus \<Rightarrow> string" where
  "jobStatusText s = (case s of EvaluationJobPending \<Rightarrow> ''PENDING'' | EvaluationJobRunning \<Rightarrow> ''RUNNING''
     | EvaluationJobSucceeded \<Rightarrow> ''SUCCEEDED'' | EvaluationJobFailed \<Rightarrow> ''FAILED'' | EvaluationJobCancelled \<Rightarrow> ''CANCELLED'')"

text \<open>
  A zero time or an empty text is \<open>NULL\<close> where the tag says \<open>nullzero\<close> and the column has no default.
  Rows are as they are stored: \<open>created_at\<close> and \<open>updated_at\<close> have been filled by then. Identifiers are
  never the nil one.
\<close>

definition nullzeroText :: "string \<Rightarrow> sqlVal option" where
  "nullzeroText s = (if s = '''' then None else Some (SText s))"

definition nullzeroTime :: "time \<Rightarrow> sqlVal option" where
  "nullzeroTime t = map_option STime (nullTime t)"

definition ruleRow :: "rule \<Rightarrow> row" where
  "ruleRow r = rowOf [(''id'', Some (SUuid (rule_ID r))), (''name'', Some (SText (rule_Name r))),
     (''template_kind'', Some (SText (rule_TemplateKind r))), (''template_spec'', jsonOf (rule_TemplateSpec r)),
     (''explanation_cel'', Some (SText (rule_ExplanationCEL r))), (''enabled'', Some (SBool (rule_Enabled r))),
     (''severity'', Some (SText (rule_Severity r))), (''cadence'', Some (SText (rule_PeriodType r))),
     (''schedule'', map_option (\<lambda>s. SJson (Schedule_MarshalJSON s)) (rule_Schedule r)),
     (''notifications'', Some (SJson (marshal (JArr (map JStr (rule_Notifications r)))))),
     (''labels'', Some (SJson (textsJSON (rule_Labels r)))), (''revision'', Some (SInt (rule_Revision r))),
     (''next_run_at'', map_option STime (rule_NextRunAt r)), (''created_at'', Some (STime (rule_CreatedAt r))),
     (''updated_at'', Some (STime (rule_UpdatedAt r)))]"

definition evaluationRow :: "evaluation \<Rightarrow> row" where
  "evaluationRow v = rowOf [(''id'', Some (SUuid (eval_ID v))), (''rule_id'', Some (SUuid (eval_RuleID v))),
     (''started_at'', nullzeroTime (eval_StartedAt v)), (''ended_at'', nullzeroTime (eval_EndedAt v)),
     (''pit_per_source'', Some (SJson (textsJSON (map (\<lambda>(k, t). (k, format_rfc3339 t)) (eval_PitPerSource v))))),
     (''result'', Some (SText (resultText (eval_Result v)))), (''evidence'', jsonOf (eval_Evidence v)),
     (''error'', nullzeroText (eval_Error v)), (''cost_units'', Some (SInt (eval_CostUnits v))),
     (''scheduled_at'', map_option STime (eval_ScheduledAt v)),
     (''rule_revision'', map_option SInt (eval_RuleRevision v)), (''created_at'', Some (STime (eval_CreatedAt v)))]"

definition alertRow :: "alert \<Rightarrow> row" where
  "alertRow a = rowOf [(''id'', Some (SUuid (alert_ID a))), (''rule_id'', Some (SUuid (alert_RuleID a))),
     (''fingerprint'', Some (SText (alert_Fingerprint a))), (''period_id'', Some (SText (alert_PeriodID a))),
     (''status'', Some (SText (alertStatusText (alert_Status a)))), (''severity'', Some (SText (alert_Severity a))),
     (''first_seen_at'', nullzeroTime (alert_FirstSeenAt a)), (''last_seen_at'', nullzeroTime (alert_LastSeenAt a)),
     (''occurrence_count'', Some (SInt (alert_OccurrenceCount a))),
     (''last_evaluation_id'', Some (SUuid (alert_LastEvaluationID a))), (''evidence'', jsonOf (alert_Evidence a)),
     (''ack'', map_option (\<lambda>x. SJson (ack_payload x)) (alert_Ack a)),
     (''resolution'', map_option (\<lambda>x. SJson (resolution_payload x)) (alert_Resolution a)),
     (''snooze'', map_option (\<lambda>x. SJson (snooze_payload x)) (alert_Snooze a)),
     (''labels'', Some (SJson (textsJSON (alert_Labels a)))), (''created_at'', Some (STime (alert_CreatedAt a))),
     (''updated_at'', Some (STime (alert_UpdatedAt a)))]"

definition eventRow :: "alertEvent \<Rightarrow> row" where
  "eventRow e = rowOf [(''id'', Some (SUuid (ev_ID e))), (''alert_id'', Some (SUuid (ev_AlertID e))),
     (''evaluation_id'', map_option SUuid (ev_EvaluationID e)), (''type'', Some (SText (eventTypeText (ev_Type e)))),
     (''prev_status'', map_option (\<lambda>s. SText (alertStatusText s)) (ev_PrevStatus e)),
     (''new_status'', Some (SText (alertStatusText (ev_NewStatus e)))), (''payload'', jsonOf (ev_Payload e)),
     (''notify'', Some (SBool (ev_Notify e))), (''at'', nullzeroTime (ev_At e)),
     (''created_at'', Some (STime (ev_CreatedAt e)))]"

definition jobRow :: "evaluationJob \<Rightarrow> row" where
  "jobRow j = rowOf [(''id'', Some (SUuid (job_ID j))), (''rule_id'', Some (SUuid (job_RuleID j))),
     (''rule_revision'', Some (SInt (job_RuleRevision j))), (''scheduled_at'', Some (STime (job_ScheduledAt j))),
     (''status'', Some (SText (jobStatusText (job_Status j)))), (''attempts'', Some (SInt (job_Attempts j))),
     (''available_at'', Some (STime (job_AvailableAt j))), (''lease_until'', map_option STime (job_LeaseUntil j)),
     (''claim_token'', map_option SUuid (job_ClaimToken j)), (''last_error'', nullzeroText (job_LastError j)),
     (''created_at'', Some (STime (job_CreatedAt j))), (''updated_at'', Some (STime (job_UpdatedAt j)))]"

definition policyRow :: "policy \<Rightarrow> row" where
  "policyRow p = rowOf [(''id'', Some (SUuid (policy_ID p))), (''created_at'', Some (STime (policy_CreatedAt p))),
     (''name'', Some (SText (policy_Name p))), (''ledger_name'', Some (SText (policy_LedgerName p))),
     (''ledger_query'', Some (SJson (policy_LedgerQuery p))),
     (''payments_pool_id'', Some (SUuid (policy_PaymentsPoolID p)))]"

definition reconciliationRow :: "reconciliation \<Rightarrow> row" where
  "reconciliationRow r = rowOf [(''id'', Some (SUuid (reco_ID r))), (''policy_id'', Some (SUuid (reco_PolicyID r))),
     (''created_at'', nullzeroTime (reco_CreatedAt r)), (''reconciled_at_ledger'', nullzeroTime (reco_ReconciledAtLedger r)),
     (''reconciled_at_payments'', nullzeroTime (reco_ReconciledAtPayments r)),
     (''status'', Some (SText (case reco_Status r of ReconciliationOK \<Rightarrow> ''OK'' | ReconciliationNotOK \<Rightarrow> ''NOT_OK''))),
     (''ledger_balances'', Some (SJson (balancesJSON (reco_LedgerBalances r)))),
     (''payments_balances'', Some (SJson (balancesJSON (reco_PaymentsBalances r)))),
     (''drift_balances'', Some (SJson (balancesJSON (reco_DriftBalances r)))), (''error'', Some (SText (reco_Error r)))]"

section \<open>The schema that is left\<close>

definition schemaAt :: "nat \<Rightarrow> schema" where
  "schemaAt v = d_Schema (snd (migrateUp 0 (take v registerMigrations) emptyDatabase))"

definition tableIn :: "schema \<Rightarrow> string \<Rightarrow> table" where
  "tableIn s t = the (map_of (sc_Tables s) t)"

definition required :: "table \<Rightarrow> string list" where
  "required t = map col_Name (filter col_NotNull (tb_Columns t))"

definition checks :: "table \<Rightarrow> sqlExpr list" where
  "checks t = concat (map (\<lambda>(_, c). case c of Check e \<Rightarrow> [e] | _ \<Rightarrow> []) (tb_Constraints t))"

definition keys :: "table \<Rightarrow> string list list" where
  "keys t = concat (map (\<lambda>(_, c). case c of PrimaryKey cols \<Rightarrow> [cols] | UniqueKey cols \<Rightarrow> [cols] | _ \<Rightarrow> []) (tb_Constraints t))"

definition uniques :: "table \<Rightarrow> sqlIndex list" where
  "uniques t = filter ix_Unique (tb_Indexes t)"

definition foreignKeys :: "schema \<Rightarrow> (string \<times> string \<times> string \<times> bool) list" where
  "foreignKeys s = concat (map (\<lambda>(t, tb). concat (map (\<lambda>(_, c). case c of ForeignKey k t' cascade \<Rightarrow> [(t, k, t', cascade)]
     | _ \<Rightarrow> []) (tb_Constraints tb))) (sc_Tables s))"

end
