(* ===== verification/SchemaRows.thy ===== *)
theory SchemaRows
  imports Schema AlertLifecycle
begin

text \<open>
  The rows of the model against the schema that the migrations leave: what its constraints and unique
  indexes ask, table by table, of the rows that the records of the model encode.
\<close>

section \<open>Tables of records\<close>

definition rowsOf :: "db \<Rightarrow> string \<Rightarrow> row list" where
  "rowsOf d t =
     (if t = ''rule'' then map ruleRow (t_rules d)
      else if t = ''evaluation'' then map evaluationRow (t_evaluations d)
      else if t = ''alert'' then map alertRow (t_alerts d)
      else if t = ''alert_event'' then map eventRow (t_events d)
      else if t = ''evaluation_job'' then map jobRow (t_jobs d)
      else if t = ''policy'' then map policyRow (t_policies d)
      else if t = ''reconciliation'' then map reconciliationRow (t_reconciliations d)
      else [])"

lemma distinct_map_sorted: "distinct (map f xs) \<longleftrightarrow> sorted_wrt (\<lambda>x y. f x \<noteq> f y) xs"
  by (induction xs) auto

lemma sorted_wrt_within:
  "(\<And>x y. x \<in> set xs \<Longrightarrow> y \<in> set xs \<Longrightarrow> P x y = Q x y) \<Longrightarrow> sorted_wrt P xs = sorted_wrt Q xs"
  by (induction xs) auto

lemma sorted_wrt_imp_filter:
  "sorted_wrt (\<lambda>x y. p x \<longrightarrow> p y \<longrightarrow> P x y) xs \<longleftrightarrow> sorted_wrt P (filter p xs)"
  by (induction xs) auto

text \<open>The constraints of a table, read off its definition.\<close>

definition primary :: "table \<Rightarrow> string list" where
  "primary t = concat (map (\<lambda>(_, c). case c of PrimaryKey cols \<Rightarrow> cols | _ \<Rightarrow> []) (tb_Constraints t))"

lemma admits_by_lists:
  "admits t r \<longleftrightarrow> list_all (\<lambda>c. r c \<noteq> None) (required t) \<and> list_all (\<lambda>c. r c \<noteq> None) (primary t)
     \<and> list_all (\<lambda>e. sqlEval r e \<noteq> Some False) (checks t)"
proof -
  have "list_all (\<lambda>(_, c). satisfies r c) cs \<longleftrightarrow>
      list_all (\<lambda>c. r c \<noteq> None) (concat (map (\<lambda>(_, c). case c of PrimaryKey cols \<Rightarrow> cols | _ \<Rightarrow> []) cs))
      \<and> list_all (\<lambda>e. sqlEval r e \<noteq> Some False) (concat (map (\<lambda>(_, c). case c of Check e \<Rightarrow> [e] | _ \<Rightarrow> []) cs))"
    for cs :: "(string \<times> sqlConstraint) list"
  proof (induction cs)
    case (Cons p cs)
    then show ?case by (cases p, cases "snd p") (auto simp: satisfies_def)
  qed simp
  moreover have "list_all (\<lambda>c. col_NotNull c \<longrightarrow> r (col_Name c) \<noteq> None) (tb_Columns t)
      \<longleftrightarrow> list_all (\<lambda>c. r c \<noteq> None) (required t)"
    by (auto simp: required_def list_all_iff)
  ultimately show ?thesis unfolding admits_def primary_def checks_def by auto
qed

lemma clash_by_lists:
  "clash t r r' \<longleftrightarrow> list_ex (\<lambda>cols. sameKey cols r r') (keys t) \<or> list_ex (clashIn r r') (uniques t)"
proof -
  have "list_ex (\<lambda>(_, c). clashOn r r' c) cs \<longleftrightarrow>
      list_ex (\<lambda>cols. sameKey cols r r') (concat (map (\<lambda>(_, c). case c of PrimaryKey cols \<Rightarrow> [cols] | UniqueKey cols \<Rightarrow> [cols] | _ \<Rightarrow> []) cs))"
    for cs :: "(string \<times> sqlConstraint) list"
  proof (induction cs)
    case (Cons p cs)
    then show ?case by (cases p, cases "snd p") (auto simp: clashOn_def)
  qed simp
  moreover have "list_ex (clashIn r r') (tb_Indexes t) \<longleftrightarrow> list_ex (clashIn r r') (uniques t)"
    by (auto simp: uniques_def clashIn_def list_ex_iff)
  ultimately show ?thesis unfolding clash_def keys_def by simp
qed

definition asks :: "table \<Rightarrow> string list \<times> sqlExpr list \<times> string list list \<times> sqlIndex list" where
  "asks t = (remdups (primary t @ required t), checks t, keys t, uniques t)"

lemma fits_by_asks:
  assumes "asks t = (needed, es, ks, us)"
  shows "fits t rs \<longleftrightarrow> (\<forall>r\<in>set rs. (\<forall>c\<in>set needed. r c \<noteq> None) \<and> (\<forall>e\<in>set es. sqlEval r e \<noteq> Some False))
     \<and> (\<forall>cols\<in>set ks. sorted_wrt (\<lambda>r r'. \<not> sameKey cols r r') rs)
     \<and> (\<forall>i\<in>set us. sorted_wrt (\<lambda>r r'. \<not> clashIn r r' i) rs)"
proof -
  have needed: "set needed = set (primary t) \<union> set (required t)" using assms by (auto simp: asks_def)
  have "(\<lambda>r r'. \<not> clash t r r') = (\<lambda>r r'. (\<forall>cols\<in>set ks. \<not> sameKey cols r r') \<and> (\<forall>i\<in>set us. \<not> clashIn r r' i))"
    using assms by (auto simp: asks_def clash_by_lists list_ex_iff intro!: ext)
  moreover have "list_all (admits t) rs \<longleftrightarrow>
      (\<forall>r\<in>set rs. (\<forall>c\<in>set needed. r c \<noteq> None) \<and> (\<forall>e\<in>set es. sqlEval r e \<noteq> Some False))"
    using assms by (auto simp: asks_def admits_by_lists list_all_iff needed)
  ultimately show ?thesis unfolding fits_def by (simp add: sorted_wrt_both sorted_wrt_each)
qed

text \<open>What the tables of the schema ask, and its references.\<close>

definition summary :: "schema \<Rightarrow> (string \<times> string list \<times> sqlExpr list \<times> string list list \<times> sqlIndex list) list
    \<times> (string \<times> string \<times> string \<times> bool) list" where
  "summary s = (map (\<lambda>(t, tb). (t, asks tb)) (sc_Tables s), foreignKeys s)"

lemma schema_summary:
  "summary (schemaAt 11) = (
   [(''policy'', ([''id'', ''created_at'', ''name'', ''ledger_name'', ''ledger_query'', ''payments_pool_id''], [], [[''id'']], [])),
    (''reconciliation'', ([''id'', ''policy_id'', ''created_at'', ''status'', ''ledger_balances'', ''payments_balances''], [], [[''id'']], [])),
    (''rule'', ([''id'', ''name'', ''template_kind'', ''template_spec'', ''explanation_cel'', ''enabled'', ''severity'',
      ''created_at'', ''updated_at'', ''cadence'', ''revision''],
     [ColIn ''severity'' [''info'', ''low'', ''medium'', ''high'', ''critical''],
      ColIn ''cadence'' [''continuous'', ''daily'', ''weekly'', ''monthly'']], [[''id'']], [])),
    (''evaluation'', ([''id'', ''rule_id'', ''started_at'', ''ended_at'', ''pit_per_source'', ''result'', ''cost_units'', ''created_at''],
     [ColIn ''result'' [''PASS'', ''FAIL'', ''ERROR''],
      SOr (SAnd (ColNull ''scheduled_at'') (ColNull ''rule_revision''))
       (SAnd (ColNotNull ''scheduled_at'') (ColNotNull ''rule_revision''))], [[''id'']],
     [uniqueWhere ''evaluation_scheduled_occurrence_unique'' [''rule_id'', ''rule_revision'', ''scheduled_at'']
       (ColNotNull ''scheduled_at'')])),
    (''alert'', ([''id'', ''rule_id'', ''fingerprint'', ''status'', ''severity'', ''first_seen_at'', ''last_seen_at'',
      ''occurrence_count'', ''last_evaluation_id'', ''created_at'', ''updated_at'', ''period_id''],
     [ColIn ''status'' [''OPEN'', ''ACKNOWLEDGED'', ''RESOLVED''],
      ColIn ''severity'' [''info'', ''low'', ''medium'', ''high'', ''critical'']],
     [[''id''], [''rule_id'', ''fingerprint'', ''period_id'']], [])),
    (''alert_event'', ([''id'', ''alert_id'', ''type'', ''new_status'', ''notify'', ''at'', ''created_at''],
     [ColIn ''type'' [''fail'', ''pass'', ''ack'', ''resolve'', ''accept'', ''snooze'', ''unsnooze''],
      SOr (ColNull ''prev_status'') (ColIn ''prev_status'' [''OPEN'', ''ACKNOWLEDGED'', ''RESOLVED'']),
      ColIn ''new_status'' [''OPEN'', ''ACKNOWLEDGED'', ''RESOLVED'']], [[''id'']], [])),
    (''evaluation_job'', ([''id'', ''rule_id'', ''rule_revision'', ''scheduled_at'', ''status'', ''attempts'', ''available_at'',
      ''created_at'', ''updated_at''],
     [ColIn ''status'' [''PENDING'', ''RUNNING'', ''SUCCEEDED'', ''FAILED'', ''CANCELLED''],
      ColNonNegative ''attempts'',
      SOr (SAnd (ColEq ''status'' ''RUNNING'') (SAnd (ColNotNull ''claim_token'') (ColNotNull ''lease_until'')))
       (SAnd (ColNe ''status'' ''RUNNING'') (SAnd (ColNull ''claim_token'') (ColNull ''lease_until'')))],
     [[''id''], [''rule_id'', ''rule_revision'', ''scheduled_at'']], []))],
   [(''reconciliation'', ''policy_id'', ''policy'', True), (''evaluation'', ''rule_id'', ''rule'', True),
    (''alert'', ''rule_id'', ''rule'', True), (''alert'', ''last_evaluation_id'', ''evaluation'', False),
    (''alert_event'', ''alert_id'', ''alert'', True), (''alert_event'', ''evaluation_id'', ''evaluation'', True),
    (''evaluation_job'', ''rule_id'', ''rule'', True)])"
  by code_simp

lemmas schema_asks = schema_summary [unfolded summary_def prod.inject, THEN conjunct1]
lemmas schema_references = schema_summary [unfolded summary_def prod.inject, THEN conjunct2]

lemma schema_names:
  "map fst (sc_Tables (schemaAt 11)) =
     [''policy'', ''reconciliation'', ''rule'', ''evaluation'', ''alert'', ''alert_event'', ''evaluation_job'']"
  using arg_cong [OF schema_asks, of "map fst"] by (simp add: case_prod_beta comp_def)

lemma asks_tableIn:
  assumes "map_of (map (\<lambda>(t, tb). (t, asks tb)) (sc_Tables s)) t = Some a"
  shows "asks (tableIn s t) = a"
  using assms by (auto simp: map_of_map tableIn_def)

lemma asks_policy: "asks (tableIn (schemaAt 11) ''policy'') =
    ([''id'', ''created_at'', ''name'', ''ledger_name'', ''ledger_query'', ''payments_pool_id''], [], [[''id'']], [])"
  by (rule asks_tableIn) (simp add: schema_asks)

lemma asks_reconciliation: "asks (tableIn (schemaAt 11) ''reconciliation'') =
    ([''id'', ''policy_id'', ''created_at'', ''status'', ''ledger_balances'', ''payments_balances''], [], [[''id'']], [])"
  by (rule asks_tableIn) (simp add: schema_asks)

lemma asks_rule: "asks (tableIn (schemaAt 11) ''rule'') =
    ([''id'', ''name'', ''template_kind'', ''template_spec'', ''explanation_cel'', ''enabled'', ''severity'',
      ''created_at'', ''updated_at'', ''cadence'', ''revision''],
     [ColIn ''severity'' [''info'', ''low'', ''medium'', ''high'', ''critical''],
      ColIn ''cadence'' [''continuous'', ''daily'', ''weekly'', ''monthly'']], [[''id'']], [])"
  by (rule asks_tableIn) (simp add: schema_asks)

lemma asks_evaluation: "asks (tableIn (schemaAt 11) ''evaluation'') =
    ([''id'', ''rule_id'', ''started_at'', ''ended_at'', ''pit_per_source'', ''result'', ''cost_units'', ''created_at''],
     [ColIn ''result'' [''PASS'', ''FAIL'', ''ERROR''],
      SOr (SAnd (ColNull ''scheduled_at'') (ColNull ''rule_revision''))
       (SAnd (ColNotNull ''scheduled_at'') (ColNotNull ''rule_revision''))], [[''id'']],
     [uniqueWhere ''evaluation_scheduled_occurrence_unique'' [''rule_id'', ''rule_revision'', ''scheduled_at'']
       (ColNotNull ''scheduled_at'')])"
  by (rule asks_tableIn) (simp add: schema_asks)

lemma asks_alert: "asks (tableIn (schemaAt 11) ''alert'') =
    ([''id'', ''rule_id'', ''fingerprint'', ''status'', ''severity'', ''first_seen_at'', ''last_seen_at'',
      ''occurrence_count'', ''last_evaluation_id'', ''created_at'', ''updated_at'', ''period_id''],
     [ColIn ''status'' [''OPEN'', ''ACKNOWLEDGED'', ''RESOLVED''],
      ColIn ''severity'' [''info'', ''low'', ''medium'', ''high'', ''critical'']],
     [[''id''], [''rule_id'', ''fingerprint'', ''period_id'']], [])"
  by (rule asks_tableIn) (simp add: schema_asks)

lemma asks_alert_event: "asks (tableIn (schemaAt 11) ''alert_event'') =
    ([''id'', ''alert_id'', ''type'', ''new_status'', ''notify'', ''at'', ''created_at''],
     [ColIn ''type'' [''fail'', ''pass'', ''ack'', ''resolve'', ''accept'', ''snooze'', ''unsnooze''],
      SOr (ColNull ''prev_status'') (ColIn ''prev_status'' [''OPEN'', ''ACKNOWLEDGED'', ''RESOLVED'']),
      ColIn ''new_status'' [''OPEN'', ''ACKNOWLEDGED'', ''RESOLVED'']], [[''id'']], [])"
  by (rule asks_tableIn) (simp add: schema_asks)

lemma asks_evaluation_job: "asks (tableIn (schemaAt 11) ''evaluation_job'') =
    ([''id'', ''rule_id'', ''rule_revision'', ''scheduled_at'', ''status'', ''attempts'', ''available_at'',
      ''created_at'', ''updated_at''],
     [ColIn ''status'' [''PENDING'', ''RUNNING'', ''SUCCEEDED'', ''FAILED'', ''CANCELLED''],
      ColNonNegative ''attempts'',
      SOr (SAnd (ColEq ''status'' ''RUNNING'') (SAnd (ColNotNull ''claim_token'') (ColNotNull ''lease_until'')))
       (SAnd (ColNe ''status'' ''RUNNING'') (SAnd (ColNull ''claim_token'') (ColNull ''lease_until'')))],
     [[''id''], [''rule_id'', ''rule_revision'', ''scheduled_at'']], [])"
  by (rule asks_tableIn) (simp add: schema_asks)

section \<open>The rows of each record\<close>

text \<open>The columns of a key that is never \<open>NULL\<close> identify what the record holds there.\<close>

lemma distinct_rows:
  assumes "\<And>x y. sameKey cols (enc x) (enc y) \<longleftrightarrow> f x = f y"
  shows "sorted_wrt (\<lambda>x y. \<not> sameKey cols (enc x) (enc y)) xs \<longleftrightarrow> distinct (map f xs)"
  by (simp add: assms distinct_map_sorted)

lemma fits_map:
  assumes asks: "asks t = (needed, es, ks, us)"
    and row: "\<And>x. (\<forall>c\<in>set needed. enc x c \<noteq> None) \<and> (\<forall>e\<in>set es. sqlEval (enc x) e \<noteq> Some False) \<longleftrightarrow> P x"
  shows "fits t (map enc xs) \<longleftrightarrow> (\<forall>x\<in>set xs. P x)
     \<and> (\<forall>cols\<in>set ks. sorted_wrt (\<lambda>x y. \<not> sameKey cols (enc x) (enc y)) xs)
     \<and> (\<forall>i\<in>set us. sorted_wrt (\<lambda>x y. \<not> clashIn (enc x) (enc y) i) xs)"
  unfolding fits_by_asks [OF asks] row [symmetric] sorted_wrt_map by simp

lemma nullzeroTime_None: "(\<exists>y. nullzeroTime t = Some y) \<longleftrightarrow> \<not> IsZero t" "nullzeroTime t = None \<longleftrightarrow> IsZero t"
  by (auto simp: nullzeroTime_def nullTime_def)

lemma jsonOf_None: "(\<exists>y. jsonOf raw = Some y) \<longleftrightarrow> raw \<noteq> ''''" "jsonOf raw = None \<longleftrightarrow> raw = ''''"
  by (auto simp: jsonOf_def)

lemmas row_simps = rowOf_def sqlEval.simps textOf_def

lemma fits_policy:
  "fits (tableIn (schemaAt 11) ''policy'') (map policyRow ps) \<longleftrightarrow> distinct (map policy_ID ps)"
proof -
  have "sameKey [''id''] (policyRow x) (policyRow y) \<longleftrightarrow> policy_ID x = policy_ID y" for x y
    by (simp add: sameKey_def policyRow_def rowOf_def)
  note keys = distinct_rows [OF this]
  have "(\<forall>c\<in>set (fst (asks (tableIn (schemaAt 11) ''policy''))). policyRow x c \<noteq> None)
      \<and> (\<forall>e\<in>set (fst (snd (asks (tableIn (schemaAt 11) ''policy'')))). sqlEval (policyRow x) e \<noteq> Some False)
      \<longleftrightarrow> True" for x
    unfolding asks_policy by (simp add: policyRow_def row_simps)
  note row = this [unfolded asks_policy fst_conv snd_conv]
  show ?thesis by (subst fits_map [OF asks_policy row]) (simp add: keys)
qed

lemma fits_reconciliation:
  "fits (tableIn (schemaAt 11) ''reconciliation'') (map reconciliationRow rs)
   \<longleftrightarrow> (\<forall>r\<in>set rs. \<not> IsZero (reco_CreatedAt r)) \<and> distinct (map reco_ID rs)"
proof -
  have "sameKey [''id''] (reconciliationRow x) (reconciliationRow y) \<longleftrightarrow> reco_ID x = reco_ID y" for x y
    by (simp add: sameKey_def reconciliationRow_def rowOf_def)
  note keys = distinct_rows [OF this]
  have "(\<forall>c\<in>set (fst (asks (tableIn (schemaAt 11) ''reconciliation''))). reconciliationRow x c \<noteq> None)
      \<and> (\<forall>e\<in>set (fst (snd (asks (tableIn (schemaAt 11) ''reconciliation'')))). sqlEval (reconciliationRow x) e \<noteq> Some False)
      \<longleftrightarrow> \<not> IsZero (reco_CreatedAt x)" for x
    unfolding asks_reconciliation by (simp add: reconciliationRow_def row_simps nullzeroTime_None)
  note row = this [unfolded asks_reconciliation fst_conv snd_conv]
  show ?thesis by (subst fits_map [OF asks_reconciliation row]) (simp add: keys)
qed

lemma fits_rule:
  "fits (tableIn (schemaAt 11) ''rule'') (map ruleRow rs)
   \<longleftrightarrow> (\<forall>r\<in>set rs. rule_chk r \<and> rule_TemplateSpec r \<noteq> '''') \<and> distinct (map rule_ID rs)"
proof -
  have "sameKey [''id''] (ruleRow x) (ruleRow y) \<longleftrightarrow> rule_ID x = rule_ID y" for x y
    by (simp add: sameKey_def ruleRow_def rowOf_def)
  note keys = distinct_rows [OF this]
  have "(\<forall>c\<in>set (fst (asks (tableIn (schemaAt 11) ''rule''))). ruleRow x c \<noteq> None)
      \<and> (\<forall>e\<in>set (fst (snd (asks (tableIn (schemaAt 11) ''rule'')))). sqlEval (ruleRow x) e \<noteq> Some False)
      \<longleftrightarrow> rule_chk x \<and> rule_TemplateSpec x \<noteq> ''''" for x
    unfolding asks_rule by (auto simp: ruleRow_def row_simps jsonOf_None rule_chk_def Severity_Valid_def PeriodType_Valid_def)
  note row = this [unfolded asks_rule fst_conv snd_conv]
  show ?thesis by (subst fits_map [OF asks_rule row]) (simp add: keys)
qed

lemma fits_alert:
  "fits (tableIn (schemaAt 11) ''alert'') (map alertRow as)
   \<longleftrightarrow> (\<forall>a\<in>set as. Severity_Valid (alert_Severity a) \<and> \<not> IsZero (alert_FirstSeenAt a) \<and> \<not> IsZero (alert_LastSeenAt a))
     \<and> distinct (map alert_ID as) \<and> distinct (map case_of as)"
proof -
  have "sameKey [''id''] (alertRow x) (alertRow y) \<longleftrightarrow> alert_ID x = alert_ID y" for x y
    by (simp add: sameKey_def alertRow_def rowOf_def)
  note ids = distinct_rows [OF this]
  have "sameKey [''rule_id'', ''fingerprint'', ''period_id''] (alertRow x) (alertRow y) \<longleftrightarrow> case_of x = case_of y" for x y
    by (simp add: sameKey_def alertRow_def rowOf_def case_of_def)
  note keys = ids distinct_rows [OF this]
  have status: "alertStatusText s = ''OPEN'' \<or> alertStatusText s = ''ACKNOWLEDGED'' \<or> alertStatusText s = ''RESOLVED''" for s
    by (cases s) (simp_all add: alertStatusText_def)
  have "(\<forall>c\<in>set (fst (asks (tableIn (schemaAt 11) ''alert''))). alertRow x c \<noteq> None)
      \<and> (\<forall>e\<in>set (fst (snd (asks (tableIn (schemaAt 11) ''alert'')))). sqlEval (alertRow x) e \<noteq> Some False)
      \<longleftrightarrow> Severity_Valid (alert_Severity x) \<and> \<not> IsZero (alert_FirstSeenAt x) \<and> \<not> IsZero (alert_LastSeenAt x)" for x
    using status [of "alert_Status x"] unfolding asks_alert by (auto simp: alertRow_def row_simps nullzeroTime_None Severity_Valid_def)
  note row = this [unfolded asks_alert fst_conv snd_conv]
  show ?thesis by (subst fits_map [OF asks_alert row]) (simp add: keys)
qed

definition namedEvent :: "alertEventType \<Rightarrow> bool" where
  "namedEvent t = (case t of AlertEventOther s \<Rightarrow>
       s \<in> {''fail'', ''pass'', ''ack'', ''resolve'', ''accept'', ''snooze'', ''unsnooze''} | _ \<Rightarrow> True)"

lemma fits_alert_event:
  "fits (tableIn (schemaAt 11) ''alert_event'') (map eventRow es)
   \<longleftrightarrow> (\<forall>e\<in>set es. namedEvent (ev_Type e) \<and> \<not> IsZero (ev_At e)) \<and> distinct (map ev_ID es)"
proof -
  have "sameKey [''id''] (eventRow x) (eventRow y) \<longleftrightarrow> ev_ID x = ev_ID y" for x y
    by (simp add: sameKey_def eventRow_def rowOf_def)
  note keys = distinct_rows [OF this]
  have status: "alertStatusText s = ''OPEN'' \<or> alertStatusText s = ''ACKNOWLEDGED'' \<or> alertStatusText s = ''RESOLVED''" for s
    by (cases s) (simp_all add: alertStatusText_def)
  have named: "(eventTypeText t = ''fail'' \<or> eventTypeText t = ''pass'' \<or> eventTypeText t = ''ack''
      \<or> eventTypeText t = ''resolve'' \<or> eventTypeText t = ''accept'' \<or> eventTypeText t = ''snooze''
      \<or> eventTypeText t = ''unsnooze'') \<longleftrightarrow> namedEvent t" for t
    by (cases t) (simp_all add: eventTypeText_def namedEvent_def)
  have "(\<forall>c\<in>set (fst (asks (tableIn (schemaAt 11) ''alert_event''))). eventRow e c \<noteq> None)
      \<and> (\<forall>x\<in>set (fst (snd (asks (tableIn (schemaAt 11) ''alert_event'')))). sqlEval (eventRow e) x \<noteq> Some False)
      \<longleftrightarrow> namedEvent (ev_Type e) \<and> \<not> IsZero (ev_At e)" for e
    using status named unfolding asks_alert_event
    by (cases "ev_PrevStatus e") (auto simp: eventRow_def row_simps nullzeroTime_None)
  note row = this [unfolded asks_alert_event fst_conv snd_conv]
  show ?thesis by (subst fits_map [OF asks_alert_event row]) (simp add: keys)
qed

lemma fits_evaluation_job:
  "fits (tableIn (schemaAt 11) ''evaluation_job'') (map jobRow js)
   \<longleftrightarrow> (\<forall>j\<in>set js. job_chk j) \<and> distinct (map job_ID js) \<and> distinct (map occurrence_of js)"
proof -
  have "sameKey [''id''] (jobRow x) (jobRow y) \<longleftrightarrow> job_ID x = job_ID y" for x y
    by (simp add: sameKey_def jobRow_def rowOf_def)
  note ids = distinct_rows [OF this]
  have "sameKey [''rule_id'', ''rule_revision'', ''scheduled_at''] (jobRow x) (jobRow y)
      \<longleftrightarrow> occurrence_of x = occurrence_of y" for x y
    by (simp add: sameKey_def jobRow_def rowOf_def occurrence_of_def)
  note keys = ids distinct_rows [OF this]
  have "(\<forall>c\<in>set (fst (asks (tableIn (schemaAt 11) ''evaluation_job''))). jobRow j c \<noteq> None)
      \<and> (\<forall>e\<in>set (fst (snd (asks (tableIn (schemaAt 11) ''evaluation_job'')))). sqlEval (jobRow j) e \<noteq> Some False)
      \<longleftrightarrow> job_chk j" for j
    unfolding asks_evaluation_job
    by (cases "job_Status j"; cases "job_ClaimToken j"; cases "job_LeaseUntil j")
       (simp_all add: jobRow_def row_simps job_chk_def jobStatusText_def)
  note row = this [unfolded asks_evaluation_job fst_conv snd_conv]
  show ?thesis by (subst fits_map [OF asks_evaluation_job row]) (simp add: keys)
qed

text \<open>
  An evaluation has its instants, and its time and revision together when it was scheduled. Occurrences
  are unique among the evaluations of scheduled runs.
\<close>

definition evaluation_chk :: "evaluation \<Rightarrow> bool" where
  "evaluation_chk v \<longleftrightarrow> \<not> IsZero (eval_StartedAt v) \<and> \<not> IsZero (eval_EndedAt v)
     \<and> (eval_ScheduledAt v = None) = (eval_RuleRevision v = None)"

definition scheduledFor :: "evaluation \<Rightarrow> uuid \<times> int option \<times> time option" where
  "scheduledFor v = (eval_RuleID v, eval_RuleRevision v, eval_ScheduledAt v)"

lemma fits_evaluation:
  "fits (tableIn (schemaAt 11) ''evaluation'') (map evaluationRow vs)
   \<longleftrightarrow> (\<forall>v\<in>set vs. evaluation_chk v) \<and> distinct (map eval_ID vs)
     \<and> distinct (map scheduledFor (filter (\<lambda>v. eval_ScheduledAt v \<noteq> None) vs))"
proof -
  let ?i = "uniqueWhere ''evaluation_scheduled_occurrence_unique'' [''rule_id'', ''rule_revision'', ''scheduled_at'']
      (ColNotNull ''scheduled_at'')"
  have "sameKey [''id''] (evaluationRow x) (evaluationRow y) \<longleftrightarrow> eval_ID x = eval_ID y" for x y
    by (simp add: sameKey_def evaluationRow_def rowOf_def)
  note keys = distinct_rows [OF this]
  have result: "resultText x = ''PASS'' \<or> resultText x = ''FAIL'' \<or> resultText x = ''ERROR''" for x
    by (cases x) (simp_all add: resultText_def)
  have "(\<forall>c\<in>set (fst (asks (tableIn (schemaAt 11) ''evaluation''))). evaluationRow v c \<noteq> None)
      \<and> (\<forall>e\<in>set (fst (snd (asks (tableIn (schemaAt 11) ''evaluation'')))). sqlEval (evaluationRow v) e \<noteq> Some False)
      \<longleftrightarrow> evaluation_chk v" for v
    using result [of "eval_Result v"] unfolding asks_evaluation
    by (cases "eval_ScheduledAt v"; cases "eval_RuleRevision v") (auto simp: evaluationRow_def row_simps nullzeroTime_None evaluation_chk_def)
  note row = this [unfolded asks_evaluation fst_conv snd_conv]
  have clash: "clashIn (evaluationRow v) (evaluationRow v') ?i
      \<longleftrightarrow> eval_ScheduledAt v \<noteq> None \<and> eval_ScheduledAt v' \<noteq> None \<and> scheduledFor v = scheduledFor v'"
    if "evaluation_chk v" "evaluation_chk v'" for v v'
    using that by (auto simp: clashIn_def inIndex_def uniqueWhere_def sameKey_def evaluationRow_def row_simps scheduledFor_def evaluation_chk_def)
  have occ: "sorted_wrt (\<lambda>v v'. \<not> clashIn (evaluationRow v) (evaluationRow v') ?i) vs
      \<longleftrightarrow> distinct (map scheduledFor (filter (\<lambda>v. eval_ScheduledAt v \<noteq> None) vs))"
    if "\<forall>v\<in>set vs. evaluation_chk v"
    unfolding distinct_map_sorted sorted_wrt_imp_filter [symmetric]
    by (rule sorted_wrt_within) (use clash that in auto)
  have "fits (tableIn (schemaAt 11) ''evaluation'') (map evaluationRow vs) \<longleftrightarrow> (\<forall>v\<in>set vs. evaluation_chk v)
      \<and> distinct (map eval_ID vs) \<and> sorted_wrt (\<lambda>v v'. \<not> clashIn (evaluationRow v) (evaluationRow v') ?i) vs"
    by (subst fits_map [OF asks_evaluation row]) (simp add: keys)
  then show ?thesis using occ by blast
qed

section \<open>The whole database\<close>

lemma list_all_by_names:
  assumes "distinct (map fst xs)"
  shows "list_all (\<lambda>(t, tb). P t tb) xs \<longleftrightarrow> list_all (\<lambda>t. P t (the (map_of xs t))) (map fst xs)"
proof -
  have "P t tb \<longleftrightarrow> P t (the (map_of xs t))" if "(t, tb) \<in> set xs" for t tb
    using map_of_is_SomeI [OF assms that] by simp
  then show ?thesis by (auto simp: list_all_iff split: prod.splits)
qed

text \<open>Every table of the schema fits the rows that the model holds for it.\<close>

definition fitsSchema :: "schema \<Rightarrow> db \<Rightarrow> bool" where
  "fitsSchema s d \<longleftrightarrow> list_all (\<lambda>(t, tb). fits tb (rowsOf d t)) (sc_Tables s)"

lemma fitsSchema_tables:
  "fitsSchema (schemaAt 11) d \<longleftrightarrow>
     (\<forall>t\<in>set [''policy'', ''reconciliation'', ''rule'', ''evaluation'', ''alert'', ''alert_event'', ''evaluation_job''].
       fits (tableIn (schemaAt 11) t) (rowsOf d t))"
  unfolding fitsSchema_def tableIn_def
  by (subst list_all_by_names) (simp_all add: schema_names list_all_iff)

text \<open>
  C12. The migrations leave a schema that asks of the stored rows exactly what the invariants of the
  model say. A database fits it just when every rule has a spec, a known severity and a known period, a
  scheduled evaluation has both its time and its revision and no two share rule, revision and time,
  every alert has a known severity and there is one per rule, fingerprint and period, every event has a
  known type, what was observed has an instant, a job has a claim and a lease just when it runs, has no negative attempts and is the only one of its
  occurrence, and the ids of each table are distinct; and a foreign key deletes along from rules to
  evaluations, alerts and jobs, from alerts and evaluations to events, and from policies to
  reconciliations, but not from an evaluation to the alert that names it.
\<close>

theorem schema_is_the_invariants:
  "(fitsSchema (schemaAt 11) d \<longleftrightarrow>
      (\<forall>r\<in>set (t_rules d). rule_chk r \<and> rule_TemplateSpec r \<noteq> '''') \<and> distinct (map rule_ID (t_rules d))
    \<and> (\<forall>v\<in>set (t_evaluations d). evaluation_chk v)
    \<and> distinct (map eval_ID (t_evaluations d))
    \<and> distinct (map scheduledFor (filter (\<lambda>v. eval_ScheduledAt v \<noteq> None) (t_evaluations d)))
    \<and> (\<forall>a\<in>set (t_alerts d). Severity_Valid (alert_Severity a) \<and> \<not> IsZero (alert_FirstSeenAt a) \<and> \<not> IsZero (alert_LastSeenAt a))
    \<and> distinct (map alert_ID (t_alerts d))
    \<and> distinct (map case_of (t_alerts d))
    \<and> (\<forall>e\<in>set (t_events d). namedEvent (ev_Type e) \<and> \<not> IsZero (ev_At e)) \<and> distinct (map ev_ID (t_events d))
    \<and> jobs_ok d \<and> distinct (map policy_ID (t_policies d))
    \<and> (\<forall>r\<in>set (t_reconciliations d). \<not> IsZero (reco_CreatedAt r)) \<and> distinct (map reco_ID (t_reconciliations d)))
   \<and> foreignKeys (schemaAt 11) =
       [(''reconciliation'', ''policy_id'', ''policy'', True), (''evaluation'', ''rule_id'', ''rule'', True),
        (''alert'', ''rule_id'', ''rule'', True), (''alert'', ''last_evaluation_id'', ''evaluation'', False),
        (''alert_event'', ''alert_id'', ''alert'', True), (''alert_event'', ''evaluation_id'', ''evaluation'', True),
        (''evaluation_job'', ''rule_id'', ''rule'', True)]"
proof
  have rows: "rowsOf d ''policy'' = map policyRow (t_policies d)"
    "rowsOf d ''reconciliation'' = map reconciliationRow (t_reconciliations d)"
    "rowsOf d ''rule'' = map ruleRow (t_rules d)" "rowsOf d ''evaluation'' = map evaluationRow (t_evaluations d)"
    "rowsOf d ''alert'' = map alertRow (t_alerts d)" "rowsOf d ''alert_event'' = map eventRow (t_events d)"
    "rowsOf d ''evaluation_job'' = map jobRow (t_jobs d)" by (simp_all add: rowsOf_def)
  show "fitsSchema (schemaAt 11) d \<longleftrightarrow>
      (\<forall>r\<in>set (t_rules d). rule_chk r \<and> rule_TemplateSpec r \<noteq> '''') \<and> distinct (map rule_ID (t_rules d))
    \<and> (\<forall>v\<in>set (t_evaluations d). evaluation_chk v)
    \<and> distinct (map eval_ID (t_evaluations d))
    \<and> distinct (map scheduledFor (filter (\<lambda>v. eval_ScheduledAt v \<noteq> None) (t_evaluations d)))
    \<and> (\<forall>a\<in>set (t_alerts d). Severity_Valid (alert_Severity a) \<and> \<not> IsZero (alert_FirstSeenAt a) \<and> \<not> IsZero (alert_LastSeenAt a))
    \<and> distinct (map alert_ID (t_alerts d))
    \<and> distinct (map case_of (t_alerts d))
    \<and> (\<forall>e\<in>set (t_events d). namedEvent (ev_Type e) \<and> \<not> IsZero (ev_At e)) \<and> distinct (map ev_ID (t_events d))
    \<and> jobs_ok d \<and> distinct (map policy_ID (t_policies d))
    \<and> (\<forall>r\<in>set (t_reconciliations d). \<not> IsZero (reco_CreatedAt r)) \<and> distinct (map reco_ID (t_reconciliations d))"
    unfolding fitsSchema_tables list.set ball_simps rows fits_policy fits_reconciliation fits_rule fits_evaluation
      fits_alert fits_alert_event fits_evaluation_job jobs_ok_def by blast
qed (rule schema_references)

definition oneOfEach :: "evaluationJobStatus \<Rightarrow> db" where
  "oneOfEach status =
     \<lparr> t_rules = [\<lparr> rule_ID = 1, rule_Name = ''cash'', rule_TemplateKind = TemplateLedgerInvariant,
         rule_TemplateSpec = ''{}'', rule_ExplanationCEL = '''', rule_Enabled = True, rule_Severity = SeverityHigh,
         rule_PeriodType = PeriodTypeWeekly, rule_Schedule = None, rule_Notifications = [], rule_Labels = [],
         rule_Revision = 1, rule_NextRunAt = None, rule_CreatedAt = 5, rule_UpdatedAt = 5 \<rparr>],
       t_evaluations = [\<lparr> eval_ID = 2, eval_RuleID = 1, eval_StartedAt = 6, eval_EndedAt = 7, eval_PitPerSource = [],
         eval_Result = EvaluationFail, eval_Evidence = ''{}'', eval_Error = '''', eval_CostUnits = 1,
         eval_ScheduledAt = Some 6, eval_RuleRevision = Some 1, eval_CreatedAt = 7 \<rparr>],
       t_alerts = [\<lparr> alert_ID = 3, alert_RuleID = 1, alert_Fingerprint = ''USD'', alert_PeriodID = ''2024-W01'',
         alert_Status = AlertOpen, alert_Severity = SeverityHigh, alert_FirstSeenAt = 7, alert_LastSeenAt = 7,
         alert_OccurrenceCount = 1, alert_LastEvaluationID = 2, alert_Evidence = ''{}'', alert_Ack = None,
         alert_Resolution = None, alert_Snooze = None, alert_Labels = [], alert_CreatedAt = 7, alert_UpdatedAt = 7 \<rparr>],
       t_events = [\<lparr> ev_ID = 4, ev_AlertID = 3, ev_EvaluationID = Some 2, ev_Type = AlertEventFail,
         ev_PrevStatus = None, ev_NewStatus = AlertOpen, ev_Payload = '''', ev_Notify = True, ev_At = 7,
         ev_CreatedAt = 7 \<rparr>],
       t_jobs = [\<lparr> job_ID = 5, job_RuleID = 1, job_RuleRevision = 1, job_ScheduledAt = 6, job_Status = status,
         job_Attempts = 1, job_AvailableAt = 6, job_LeaseUntil = Some 20, job_ClaimToken = Some 9,
         job_LastError = '''', job_CreatedAt = 6, job_UpdatedAt = 6 \<rparr>],
       t_policies = [], t_reconciliations = [] \<rparr>"

text \<open>A database with a row in most tables fits while its job runs, and does not if the job were pending.\<close>

lemma schema_is_the_invariants_witness:
  "fitsSchema (schemaAt 11) (oneOfEach EvaluationJobRunning) \<and> \<not> fitsSchema (schemaAt 11) (oneOfEach EvaluationJobPending)"
proof -
  note schema = schema_is_the_invariants [THEN conjunct1]
  show ?thesis unfolding schema
    by (simp add: oneOfEach_def rule_chk_def Severity_Valid_def PeriodType_Valid_def namedEvent_def evaluation_chk_def jobs_ok_def job_chk_def)
qed

end
