(* ===== verification/SchemaUpgrade.thy ===== *)
theory SchemaUpgrade
  imports Schema
begin

text \<open>
  The upgrade of a database that holds rows. A check of the migrations follows each statement with what
  it tells of the rows of its table; the check is sound, so a migration that passes it fails on no
  database that fits the version before, and every migration of the service passes it.
\<close>

section \<open>What is known of the rows of a table\<close>

datatype fact = NoRows | Holds sqlExpr | Distinct "string list" | DistinctWhere sqlExpr "string list"

definition factHolds :: "row list \<Rightarrow> fact \<Rightarrow> bool" where
  "factHolds rs f = (case f of
      NoRows \<Rightarrow> rs = []
    | Holds e \<Rightarrow> list_all (\<lambda>r. sqlEval r e \<noteq> Some False) rs
    | Distinct cols \<Rightarrow> sorted_wrt (\<lambda>r r'. \<not> sameKey cols r r') rs
    | DistinctWhere e cols \<Rightarrow>
        sorted_wrt (\<lambda>r r'. \<not> (sqlEval r e = Some True \<and> sqlEval r' e = Some True \<and> sameKey cols r r')) rs)"

definition columnFacts :: "column \<Rightarrow> fact list" where
  "columnFacts c = (if col_NotNull c then [Holds (ColNotNull (col_Name c))] else [])"

definition constraintFacts :: "string \<times> sqlConstraint \<Rightarrow> fact list" where
  "constraintFacts c = (case snd c of
      PrimaryKey cols \<Rightarrow> map (\<lambda>k. Holds (ColNotNull k)) cols @ [Distinct cols]
    | UniqueKey cols \<Rightarrow> [Distinct cols] | Check e \<Rightarrow> [Holds e] | ForeignKey _ _ _ \<Rightarrow> [])"

definition indexFacts :: "sqlIndex \<Rightarrow> fact list" where
  "indexFacts i = (if ix_Unique i then [case ix_Where i of None \<Rightarrow> Distinct (ix_Columns i)
      | Some e \<Rightarrow> DistinctWhere e (ix_Columns i)] else [])"

definition tableFacts :: "table \<Rightarrow> fact list" where
  "tableFacts t = concat (map columnFacts (tb_Columns t)) @ concat (map constraintFacts (tb_Constraints t))
     @ concat (map indexFacts (tb_Indexes t))"

lemma constraintFacts_iff:
  "(\<forall>f\<in>set (constraintFacts c). factHolds rs f) \<longleftrightarrow>
     list_all (\<lambda>r. satisfies r (snd c)) rs \<and> sorted_wrt (\<lambda>r r'. \<not> clashOn r r' (snd c)) rs"
  by (cases "snd c") (auto simp: constraintFacts_def factHolds_def satisfies_def clashOn_def list_all_iff sorted_wrt_true)

lemma indexFacts_iff:
  "(\<forall>f\<in>set (indexFacts i). factHolds rs f) \<longleftrightarrow> sorted_wrt (\<lambda>r r'. \<not> clashIn r r' i) rs"
  by (cases "ix_Unique i"; cases "ix_Where i")
    (simp_all add: indexFacts_def factHolds_def clashIn_def inIndex_def sorted_wrt_true)

lemma columnFacts_iff:
  "(\<forall>f\<in>set (columnFacts c). factHolds rs f) \<longleftrightarrow> list_all (\<lambda>r. col_NotNull c \<longrightarrow> r (col_Name c) \<noteq> None) rs"
  by (auto simp: columnFacts_def factHolds_def list_all_iff)

text \<open>The rows of a table fit it when all that it tells of them holds.\<close>

lemma fits_facts: "fits t rs \<longleftrightarrow> (\<forall>f\<in>set (tableFacts t). factHolds rs f)"
proof -
  have clash: "(\<lambda>r r'. \<not> clash t r r') = (\<lambda>r r'. (\<forall>c\<in>set (tb_Constraints t). \<not> clashOn r r' (snd c))
      \<and> (\<forall>i\<in>set (tb_Indexes t). \<not> clashIn r r' i))"
    by (auto simp: clash_def list_ex_iff fun_eq_iff)
  have "(\<forall>f\<in>set (tableFacts t). factHolds rs f) \<longleftrightarrow>
      (\<forall>c\<in>set (tb_Columns t). \<forall>f\<in>set (columnFacts c). factHolds rs f)
    \<and> (\<forall>c\<in>set (tb_Constraints t). \<forall>f\<in>set (constraintFacts c). factHolds rs f)
    \<and> (\<forall>i\<in>set (tb_Indexes t). \<forall>f\<in>set (indexFacts i). factHolds rs f)"
    by (auto simp: tableFacts_def)
  also have "\<dots> \<longleftrightarrow> fits t rs"
    unfolding columnFacts_iff constraintFacts_iff indexFacts_iff fits_def clash sorted_wrt_both sorted_wrt_each
    by (fastforce simp: admits_def list_all_iff)
  finally show ?thesis by simp
qed

text \<open>What known facts tell of another.\<close>

definition implied :: "fact list \<Rightarrow> fact \<Rightarrow> bool" where
  "implied K f \<longleftrightarrow> f \<in> set K \<or> NoRows \<in> set K \<or>
     (case f of
        Holds (ColIn c vs) \<Rightarrow>
          list_ex (\<lambda>g. case g of Holds (ColIn c' vs') \<Rightarrow> c' = c \<and> list_all (\<lambda>v. v \<in> set vs) vs' | _ \<Rightarrow> False) K
      | Holds (SOr (SAnd (ColNull a) (ColNull b)) _) \<Rightarrow> Holds (ColNull a) \<in> set K \<and> Holds (ColNull b) \<in> set K
      | Distinct cols \<Rightarrow> list_ex (\<lambda>g. case g of Distinct cols' \<Rightarrow> list_all (\<lambda>c. c \<in> set cols) cols' | _ \<Rightarrow> False) K
      | DistinctWhere (ColNotNull c) _ \<Rightarrow> Holds (ColNull c) \<in> set K
      | _ \<Rightarrow> False)"

lemma factHolds_ColIn: "factHolds rs (Holds (ColIn c vs)) \<Longrightarrow> set vs \<subseteq> set vs' \<Longrightarrow> factHolds rs (Holds (ColIn c vs'))"
  by (auto simp: factHolds_def list_all_iff)

lemma factHolds_unset:
  "factHolds rs (Holds (ColNull a)) \<Longrightarrow> factHolds rs (Holds (ColNull b)) \<Longrightarrow> factHolds rs (Holds (SOr (SAnd (ColNull a) (ColNull b)) e))"
  by (auto simp: factHolds_def list_all_iff split: option.splits bool.splits)

lemma factHolds_Distinct: "factHolds rs (Distinct cols) \<Longrightarrow> set cols \<subseteq> set cols' \<Longrightarrow> factHolds rs (Distinct cols')"
  unfolding factHolds_def fact.case by (rule sorted_wrt_mono_rel [rotated], assumption) (auto simp: sameKey_def list_all_iff)

lemma factHolds_DistinctWhere: "factHolds rs (Holds (ColNull c)) \<Longrightarrow> factHolds rs (DistinctWhere (ColNotNull c) cols)"
  by (induction rs) (auto simp: factHolds_def list_all_iff)

lemma implied_sound:
  assumes "implied K f" and known: "\<forall>f\<in>set K. factHolds rs f"
  shows "factHolds rs f"
proof (cases "f \<in> set K \<or> NoRows \<in> set K")
  case True
  moreover have "factHolds [] f" by (cases f) (simp_all add: factHolds_def)
  moreover have "rs = []" if "NoRows \<in> set K" using bspec [OF known that] by (simp add: factHolds_def)
  ultimately show ?thesis using known by blast
next
  case False
  note more = assms(1) [unfolded implied_def]
  show ?thesis
  proof (cases f)
    case (Holds e)
    show ?thesis
    proof (cases e)
      case (ColIn c vs)
      then obtain g where "g \<in> set K" "case g of Holds (ColIn c' vs') \<Rightarrow> c' = c \<and> list_all (\<lambda>v. v \<in> set vs) vs' | _ \<Rightarrow> False"
        using more False by (auto simp: Holds list_ex_iff)
      moreover from this(2) obtain vs' where "g = Holds (ColIn c vs')" "set vs' \<subseteq> set vs"
        by (auto simp: list_all_iff subset_iff split: fact.split_asm sqlExpr.split_asm)
      ultimately have "Holds (ColIn c vs') \<in> set K" "set vs' \<subseteq> set vs" by simp_all
      then show ?thesis unfolding Holds ColIn using known by (blast intro: factHolds_ColIn)
    next
      case (SOr a b)
      have "\<exists>x y. a = SAnd (ColNull x) (ColNull y) \<and> Holds (ColNull x) \<in> set K \<and> Holds (ColNull y) \<in> set K"
        using more False unfolding Holds SOr fact.case sqlExpr.case
        by (cases a) (simp_all split: sqlExpr.split_asm)
      then show ?thesis unfolding Holds SOr using known by (blast intro: factHolds_unset)
    qed (use more False Holds in simp_all)
  next
    case (Distinct cols)
    then obtain g where "g \<in> set K" "case g of Distinct cols' \<Rightarrow> list_all (\<lambda>c. c \<in> set cols) cols' | _ \<Rightarrow> False"
      using more False by (auto simp: list_ex_iff)
    moreover from this(2) obtain cols' where "g = fact.Distinct cols'" "set cols' \<subseteq> set cols"
      by (auto simp: list_all_iff subset_iff split: fact.split_asm)
    ultimately have "fact.Distinct cols' \<in> set K" "set cols' \<subseteq> set cols" by simp_all
    then show ?thesis unfolding Distinct using known by (blast intro: factHolds_Distinct)
  next
    case (DistinctWhere e cols)
    then obtain c where "e = ColNotNull c" "Holds (ColNull c) \<in> set K"
      using more False by (cases e) simp_all
    then show ?thesis unfolding DistinctWhere using known by (blast intro: factHolds_DistinctWhere)
  qed (use more False in simp)
qed

section \<open>What a statement tells of the rows\<close>

definition factColumns :: "fact \<Rightarrow> string list" where
  "factColumns f = (case f of NoRows \<Rightarrow> [] | Holds e \<Rightarrow> exprColumns e | Distinct cols \<Rightarrow> cols | DistinctWhere e cols \<Rightarrow> exprColumns e @ cols)"

lemma sqlEval_cong: "(\<And>c. c \<in> set (exprColumns e) \<Longrightarrow> r c = r' c) \<Longrightarrow> sqlEval r e = sqlEval r' e"
  by (induction e) auto

lemma sameKey_cong: "(\<And>c. c \<in> set cols \<Longrightarrow> r c = q c \<and> r' c = q' c) \<Longrightarrow> sameKey cols r r' = sameKey cols q q'"
  by (auto simp: sameKey_def list_all_iff)

lemma factHolds_map:
  assumes "\<And>r c. c \<in> set (factColumns f) \<Longrightarrow> g r c = r c"
  shows "factHolds (map g rs) f \<longleftrightarrow> factHolds rs f"
proof (cases f)
  case (Holds e)
  have "sqlEval (g r) e = sqlEval r e" for r
    using assms by (intro sqlEval_cong) (simp add: Holds factColumns_def)
  then show ?thesis by (simp add: Holds factHolds_def list_all_iff)
next
  case (Distinct cols)
  have "sameKey cols (g r) (g r') = sameKey cols r r'" for r r'
    using assms by (intro sameKey_cong) (simp add: Distinct factColumns_def)
  then show ?thesis by (simp add: Distinct factHolds_def sorted_wrt_map)
next
  case (DistinctWhere e cols)
  have "sameKey cols (g r) (g r') = sameKey cols r r'" for r r'
    using assms by (intro sameKey_cong) (simp add: DistinctWhere factColumns_def)
  moreover have "sqlEval (g r) e = sqlEval r e" for r
    using assms by (intro sqlEval_cong) (simp add: DistinctWhere factColumns_def)
  ultimately show ?thesis by (simp add: DistinctWhere factHolds_def sorted_wrt_map)
qed (simp add: factHolds_def)

definition target :: "ddl \<Rightarrow> string" where
  "target cmd = (case cmd of CreateTable t _ _ \<Rightarrow> t | DropTable t \<Rightarrow> t | AddColumn t _ _ \<Rightarrow> t | RenameColumn t _ _ \<Rightarrow> t
     | AddConstraint t _ _ \<Rightarrow> t | DropConstraint t _ \<Rightarrow> t | CreateIndex t _ \<Rightarrow> t | CreateFunction _ \<Rightarrow> ''''
     | DropFunction _ \<Rightarrow> '''' | CreateTrigger _ t _ \<Rightarrow> t | DropTrigger _ t \<Rightarrow> t)"

definition defaultFacts :: "column \<Rightarrow> fact list" where
  "defaultFacts col = (case col_Default col of
      None \<Rightarrow> [Holds (ColNull (col_Name col))]
    | Some (Literal (SText x)) \<Rightarrow> [Holds (ColNotNull (col_Name col)), Holds (ColIn (col_Name col) [x])]
    | Some _ \<Rightarrow> [Holds (ColNotNull (col_Name col))])"

definition learn :: "ddl \<Rightarrow> schema \<Rightarrow> fact list \<Rightarrow> fact list" where
  "learn cmd s K = (case cmd of
      CreateTable t cols cons \<Rightarrow>
        if map_of (sc_Tables s) t = None then [NoRows] else K
    | DropTable t \<Rightarrow> []
    | AddColumn t _ col \<Rightarrow>
        (case map_of (sc_Tables s) t of
           Some tb \<Rightarrow> if columnIn (col_Name col) tb then K
             else filter (\<lambda>f. col_Name col \<notin> set (factColumns f)) K @ defaultFacts col
         | None \<Rightarrow> K)
    | RenameColumn t c c' \<Rightarrow> filter (\<lambda>f. c \<notin> set (factColumns f) \<and> c' \<notin> set (factColumns f)) K
        @ (if c \<noteq> c' \<and> Holds (ColNotNull c) \<in> set K then [Holds (ColNotNull c')] else [])
    | _ \<Rightarrow> K)"

lemma learn_sound:
  assumes "\<forall>f\<in>set K. factHolds (rows (target cmd)) f"
  shows "\<forall>f\<in>set (learn cmd s K). factHolds (execRows now cmd s rows (target cmd)) f"
proof (cases cmd)
  case (CreateTable t cols cons)
  show ?thesis using assms by (auto simp: CreateTable learn_def execRows_def target_def factHolds_def)
next
  case (AddColumn t optional col)
  let ?g = "\<lambda>r :: row. r(col_Name col := defaultOf now col)"
  have "factHolds (map ?g rs) f" if "f \<in> set (defaultFacts col)" for f and rs
    using that by (auto simp: defaultFacts_def factHolds_def list_all_iff defaultOf_def textOf_def
        split: option.splits sqlDefault.splits sqlVal.splits)
  moreover have "factHolds (map ?g rs) f" if "col_Name col \<notin> set (factColumns f)" "factHolds rs f" for f rs
    by (subst factHolds_map) (use that in auto)
  ultimately show ?thesis using assms
    by (auto simp: AddColumn learn_def execRows_def target_def split: option.splits)
next
  case (RenameColumn t c c')
  let ?g = "\<lambda>r :: row. r(c' := r c, c := None)"
  have kept: "factHolds (map ?g rs) f" if "c \<notin> set (factColumns f)" "c' \<notin> set (factColumns f)" "factHolds rs f" for f rs
    by (subst factHolds_map) (use that in auto)
  have "factHolds (map ?g rs) (Holds (ColNotNull c'))" if "c \<noteq> c'" "factHolds rs (Holds (ColNotNull c))" for rs
    using that by (simp add: factHolds_def list_all_iff)
  then show ?thesis using assms
    by (auto simp: RenameColumn learn_def execRows_def target_def intro: kept)
qed (use assms in \<open>simp_all add: learn_def execRows_def target_def\<close>)

section \<open>The check\<close>

fun safeAll :: "ddl list \<Rightarrow> schema \<Rightarrow> (string \<Rightarrow> fact list) \<Rightarrow> schema option" where
  "safeAll [] s K = Some s"
| "safeAll (cmd # cmds) s K =
     (case execSchema cmd s of
        Inl _ \<Rightarrow> None
      | Inr s' \<Rightarrow>
          let t = target cmd; L = learn cmd s (K t) in
          if list_all (\<lambda>(n, tb). n = t \<longrightarrow> list_all (implied L) (tableFacts tb)) (sc_Tables s')
          then safeAll cmds s' (K(t := L)) else None)"

definition known :: "schema \<Rightarrow> string \<Rightarrow> fact list" where
  "known s t = concat (map (\<lambda>(n, tb). if n = t then tableFacts tb else []) (sc_Tables s))"

fun safeUp :: "ddl list list \<Rightarrow> schema \<Rightarrow> schema option" where
  "safeUp [] s = Some s"
| "safeUp (m # ms) s = (case safeAll m s (known s) of None \<Rightarrow> None | Some s' \<Rightarrow> safeUp ms s')"

definition allFit :: "database \<Rightarrow> bool" where
  "allFit d \<longleftrightarrow> list_all (\<lambda>(t, tb). fits tb (d_Rows d t)) (sc_Tables (d_Schema d))"

definition true_of :: "(string \<Rightarrow> fact list) \<Rightarrow> (string \<Rightarrow> row list) \<Rightarrow> bool" where
  "true_of K rows \<longleftrightarrow> (\<forall>t. \<forall>f\<in>set (K t). factHolds (rows t) f)"

lemma known_true: "allFit d \<Longrightarrow> true_of (known (d_Schema d)) (d_Rows d)"
  by (auto simp: allFit_def true_of_def known_def list_all_iff fits_facts split: if_splits)

text \<open>A statement concerns the table it names and leaves the others alone.\<close>

lemma alter_tables:
  "(n, tb) \<in> set (sc_Tables (alter t f s)) \<Longrightarrow> n \<noteq> t \<Longrightarrow> (n, tb) \<in> set (sc_Tables s)"
  by (auto simp: alter_def split: if_splits)

lemma unreferenced_facts:
  "tableFacts (tb\<lparr> tb_Constraints := filter (\<lambda>c. \<not> references t c) (tb_Constraints tb) \<rparr>) = tableFacts tb"
proof -
  have "concat (map constraintFacts (filter (\<lambda>c. \<not> references t c) cs)) = concat (map constraintFacts cs)" for cs
    by (induction cs) (auto simp: references_def constraintFacts_def split: sqlConstraint.splits)
  then show ?thesis by (simp add: tableFacts_def)
qed

lemma other_tables:
  assumes "execSchema cmd s = Inr s'" "(n, tb) \<in> set (sc_Tables s')" "n \<noteq> target cmd"
  shows "\<exists>tb0. (n, tb0) \<in> set (sc_Tables s) \<and> tableFacts tb = tableFacts tb0"
proof (cases cmd)
  case (DropTable t)
  then show ?thesis using assms by (fastforce simp: execSchema_def target_def unreferenced_facts)
qed (use assms in \<open>auto simp: execSchema_def target_def Let_def split: if_splits option.splits dest!: alter_tables\<close>)

lemma other_rows: "n \<noteq> target cmd \<Longrightarrow> execRows now cmd s rows n = rows n"
  by (cases cmd) (auto simp: execRows_def target_def split: option.splits)

lemma safe_step:
  fixes now :: time
  assumes run: "execSchema cmd s = Inr s'" and fit: "allFit \<lparr> d_Schema = s, d_Rows = rows \<rparr>" and K: "true_of K rows"
    and covers: "list_all (\<lambda>(n, tb). n = target cmd \<longrightarrow> list_all (implied (learn cmd s (K (target cmd)))) (tableFacts tb)) (sc_Tables s')"
  defines "rows' \<equiv> execRows (now :: time) cmd s rows"
  shows "exec now cmd \<lparr> d_Schema = s, d_Rows = rows \<rparr> = Inr \<lparr> d_Schema = s', d_Rows = rows' \<rparr>"
    and "allFit \<lparr> d_Schema = s', d_Rows = rows' \<rparr>"
    and "true_of (K(target cmd := learn cmd s (K (target cmd)))) rows'"
proof -
  have learnt: "\<forall>f\<in>set (learn cmd s (K (target cmd))). factHolds (rows' (target cmd)) f"
    unfolding rows'_def by (rule learn_sound) (use K in \<open>simp add: true_of_def\<close>)
  have "fits tb (rows' n)" if tb: "(n, tb) \<in> set (sc_Tables s')" for n tb
  proof (cases "n = target cmd")
    case True
    then show ?thesis using covers tb learnt by (fastforce simp: fits_facts list_all_iff intro: implied_sound)
  next
    case False
    obtain tb0 where "(n, tb0) \<in> set (sc_Tables s)" "tableFacts tb = tableFacts tb0"
      using other_tables [OF run tb False] by blast
    then show ?thesis using fit other_rows [OF False, of now s rows]
      by (fastforce simp: fits_facts allFit_def list_all_iff rows'_def)
  qed
  then have fits: "list_all (\<lambda>(n, tb). fits tb (rows' n)) (sc_Tables s')" by (auto simp: list_all_iff)
  show "exec now cmd \<lparr> d_Schema = s, d_Rows = rows \<rparr> = Inr \<lparr> d_Schema = s', d_Rows = rows' \<rparr>"
    using run fits by (simp add: exec_def rows'_def)
  show "allFit \<lparr> d_Schema = s', d_Rows = rows' \<rparr>" using fits by (simp add: allFit_def)
  show "true_of (K(target cmd := learn cmd s (K (target cmd)))) rows'"
    using learnt K other_rows [of _ cmd now s rows] by (auto simp: true_of_def rows'_def)
qed

text \<open>A list of statements that passes the check runs to its end on every database that fits.\<close>

lemma safeAll_sound:
  assumes "safeAll cmds s K = Some s'" "allFit \<lparr> d_Schema = s, d_Rows = rows \<rparr>" "true_of K rows"
  shows "\<exists>rows'. execAll now cmds \<lparr> d_Schema = s, d_Rows = rows \<rparr> = Inr \<lparr> d_Schema = s', d_Rows = rows' \<rparr>
     \<and> allFit \<lparr> d_Schema = s', d_Rows = rows' \<rparr>"
  using assms
proof (induction cmds arbitrary: s K rows)
  case (Cons cmd cmds)
  let ?L = "learn cmd s (K (target cmd))"
  obtain s1 where run: "execSchema cmd s = Inr s1"
    and covers: "list_all (\<lambda>(n, tb). n = target cmd \<longrightarrow> list_all (implied ?L) (tableFacts tb)) (sc_Tables s1)"
    and rest: "safeAll cmds s1 (K(target cmd := ?L)) = Some s'"
    using Cons.prems(1) by (auto simp: Let_def split: sum.splits if_splits)
  note step = safe_step [OF run Cons.prems(2,3) covers, of now]
  show ?case using Cons.IH [OF rest step(2,3)] step(1) by simp
qed simp

lemma safeUp_sound:
  assumes "safeUp ms s = Some s'" "allFit \<lparr> d_Schema = s, d_Rows = rows \<rparr>"
  shows "\<exists>rows'. migrateUp now ms \<lparr> d_Schema = s, d_Rows = rows \<rparr> = (None, \<lparr> d_Schema = s', d_Rows = rows' \<rparr>)
     \<and> allFit \<lparr> d_Schema = s', d_Rows = rows' \<rparr>"
  using assms
proof (induction ms arbitrary: s rows)
  case (Cons m ms)
  obtain s1 where m: "safeAll m s (known s) = Some s1" and rest: "safeUp ms s1 = Some s'"
    using Cons.prems(1) by (auto split: option.splits)
  have "true_of (known s) rows" using known_true [OF Cons.prems(2)] by simp
  then obtain rows1 where "execAll now m \<lparr> d_Schema = s, d_Rows = rows \<rparr> = Inr \<lparr> d_Schema = s1, d_Rows = rows1 \<rparr>"
    and fit: "allFit \<lparr> d_Schema = s1, d_Rows = rows1 \<rparr>"
    using safeAll_sound [OF m Cons.prems(2), of now] by blast
  then show ?case using Cons.IH [OF rest fit] by simp
qed simp

lemma safeUp_append:
  "safeUp (ms @ ms') s = (case safeUp ms s of None \<Rightarrow> None | Some s' \<Rightarrow> safeUp ms' s')"
  by (induction ms arbitrary: s) (auto split: option.splits)

lemma migrations_safe: "safeUp registerMigrations (d_Schema emptyDatabase) \<noteq> None"
  by code_simp

section \<open>No row is lost\<close>

text \<open>A statement keeps the ids of a table that it neither drops nor gives a column of that name.\<close>

definition keepsIds :: "ddl \<Rightarrow> bool" where
  "keepsIds cmd = (case cmd of DropTable t \<Rightarrow> t = ''incident'' | AddColumn _ _ col \<Rightarrow> col_Name col \<noteq> ''id''
     | RenameColumn _ c c' \<Rightarrow> c \<noteq> ''id'' \<and> c' \<noteq> ''id'' | _ \<Rightarrow> True)"

definition idsIn :: "database \<Rightarrow> string \<Rightarrow> sqlVal option list" where
  "idsIn d t = map (\<lambda>r. r ''id'') (d_Rows d t)"

definition hasTable :: "string \<Rightarrow> database \<Rightarrow> bool" where
  "hasTable t d \<longleftrightarrow> map_of (sc_Tables (d_Schema d)) t \<noteq> None"

definition names :: "schema \<Rightarrow> string set" where
  "names s = fst ` set (sc_Tables s)"

lemma names_simps:
  "names (alter t f s) = names s" "names (s\<lparr> sc_Functions := fs \<rparr>) = names s"
  "names (s\<lparr> sc_Tables := sc_Tables s @ [(t, tb)] \<rparr>) = insert t (names s)"
  by (force simp: names_def alter_def image_iff split: if_splits)+

lemma hasTable_names: "hasTable t d \<longleftrightarrow> t \<in> names (d_Schema d)"
  by (force simp: hasTable_def map_of_eq_None_iff names_def)

lemma execSchema_names:
  assumes "execSchema cmd s = Inr s'" "keepsIds cmd"
  shows "names s - {''incident''} \<subseteq> names s'"
proof (cases cmd)
  case (DropTable t')
  then show ?thesis using assms by (force simp: execSchema_def keepsIds_def names_def)
qed (use assms in \<open>auto simp: execSchema_def Let_def names_simps split: if_splits option.splits\<close>)

lemma exec_ids:
  assumes "exec now cmd d = Inr d'" "keepsIds cmd" "t \<noteq> ''incident''" "hasTable t d"
  shows "hasTable t d' \<and> idsIn d' t = idsIn d t"
proof -
  obtain s where s: "execSchema cmd (d_Schema d) = Inr s"
    and d': "d' = \<lparr> d_Schema = s, d_Rows = execRows now cmd (d_Schema d) (d_Rows d) \<rparr>"
    using assms(1) by (auto simp: exec_def Let_def split: sum.splits if_splits)
  have "map (\<lambda>r. r ''id'') (execRows now cmd (d_Schema d) (d_Rows d) t) = map (\<lambda>r. r ''id'') (d_Rows d t)"
    using assms(2-4) by (cases cmd) (auto simp: execRows_def keepsIds_def hasTable_def comp_def split: option.splits)
  then show ?thesis using execSchema_names [OF s assms(2)] assms(3,4) by (auto simp: d' idsIn_def hasTable_names)
qed

lemma execAll_ids:
  assumes "execAll now cmds d = Inr d'" "list_all keepsIds cmds" "t \<noteq> ''incident''" "hasTable t d"
  shows "hasTable t d' \<and> idsIn d' t = idsIn d t"
  using assms
proof (induction cmds arbitrary: d)
  case (Cons cmd cmds)
  then obtain d1 where "exec now cmd d = Inr d1" "execAll now cmds d1 = Inr d'" by (auto split: sum.splits)
  then show ?case using Cons exec_ids by (metis list.pred_inject(2))
qed simp

lemma migrateUp_ids:
  assumes "list_all (list_all keepsIds) ms" "t \<noteq> ''incident''" "hasTable t d"
  shows "hasTable t (snd (migrateUp now ms d)) \<and> idsIn (snd (migrateUp now ms d)) t = idsIn d t"
  using assms
proof (induction ms arbitrary: d)
  case (Cons m ms)
  then show ?case using execAll_ids [of now m d _ t] by (auto split: sum.splits)
qed simp

lemma migrations_keep_ids: "list_all (list_all keepsIds) registerMigrations"
  by code_simp

section \<open>Every upgrade succeeds\<close>

lemma upgrade_path:
  assumes "k \<le> 11"
  shows "\<exists>s. safeUp (take k registerMigrations) (d_Schema emptyDatabase) = Some s
     \<and> safeUp (drop k registerMigrations) s \<noteq> None"
  using migrations_safe safeUp_append [of "take k registerMigrations" "drop k registerMigrations"]
  by (auto split: option.splits)

lemma empty_fits: "allFit emptyDatabase"
  by (simp add: allFit_def emptyDatabase_def)

lemma schemaAt_safe:
  assumes "safeUp (take k registerMigrations) (d_Schema emptyDatabase) = Some s"
  shows "schemaAt k = s"
proof -
  obtain s0 rows where e: "emptyDatabase = \<lparr> d_Schema = s0, d_Rows = rows \<rparr>" by (cases emptyDatabase)
  have safe: "safeUp (take k registerMigrations) s0 = Some s" using assms by (simp add: e)
  show ?thesis using safeUp_sound [OF safe empty_fits [unfolded e], of 0] by (auto simp: schemaAt_def e)
qed

lemma safe_from:
  assumes "k \<le> 11"
  shows "safeUp (drop k registerMigrations) (schemaAt k) = Some (schemaAt 11)"
proof -
  have all: "take 11 registerMigrations = registerMigrations" by (simp add: registerMigrations_def)
  obtain s where s: "safeUp (take k registerMigrations) (d_Schema emptyDatabase) = Some s"
    and rest: "safeUp (drop k registerMigrations) s \<noteq> None"
    using upgrade_path [OF assms] by blast
  then obtain s' where s': "safeUp (drop k registerMigrations) s = Some s'" by blast
  have "safeUp (take 11 registerMigrations) (d_Schema emptyDatabase) = Some s'"
    using s s' safeUp_append [of "take k registerMigrations" "drop k registerMigrations" "d_Schema emptyDatabase"]
    by (simp add: all)
  then show ?thesis using s' schemaAt_safe [OF s] schemaAt_safe [of 11] by simp
qed

text \<open>
  C11. Upgrading never fails and loses nothing. From a database at any version, whatever rows it holds as
  long as they fit that version's schema, \<open>Migrate\<close> runs every later migration without an error,
  arrives at the last schema with rows that fit it, and keeps every row of every table but the incidents,
  which version 7 replaces: each table has the same ids in the same order.
\<close>

theorem upgrades_never_fail:
  assumes "k \<le> 11" and "d_Schema d = schemaAt k" and "allFit d"
  shows "\<exists>d'. Migrate now k d = (None, d') \<and> d_Schema d' = schemaAt 11 \<and> allFit d'
     \<and> (\<forall>t. hasTable t d \<longrightarrow> t \<noteq> ''incident'' \<longrightarrow> hasTable t d' \<and> idsIn d' t = idsIn d t)"
proof -
  obtain s rows where d: "d = \<lparr> d_Schema = s, d_Rows = rows \<rparr>" by (cases d)
  obtain rows' where up: "Migrate now k d = (None, \<lparr> d_Schema = schemaAt 11, d_Rows = rows' \<rparr>)"
    and fit: "allFit \<lparr> d_Schema = schemaAt 11, d_Rows = rows' \<rparr>"
    using safeUp_sound [OF safe_from [OF assms(1)], of rows now] assms(2,3) by (auto simp: d Migrate_def)
  have "list_all (list_all keepsIds) (drop k registerMigrations)"
    using migrations_keep_ids by (auto simp: list_all_iff dest: in_set_dropD)
  then have "hasTable t (snd (Migrate now k d)) \<and> idsIn (snd (Migrate now k d)) t = idsIn d t"
    if "hasTable t d" "t \<noteq> ''incident''" for t
    using migrateUp_ids that unfolding Migrate_def by blast
  then show ?thesis using up fit by (metis database.select_convs(1) snd_conv)
qed

definition databaseAt7 :: database where
  "databaseAt7 = \<lparr> d_Schema = schemaAt 7, d_Rows = (\<lambda>t.
     if t = ''rule'' then [rowOf [(''id'', Some (SUuid 1)), (''name'', Some (SText ''cash'')),
       (''template_kind'', Some (SText ''ledger_invariant'')), (''template_spec'', Some (SJson ''{}'')),
       (''compiled_cel'', Some (SText ''true'')), (''enabled'', Some (SBool True)), (''severity'', Some (SText ''high'')),
       (''created_at'', Some (STime 5)), (''updated_at'', Some (STime 5))]]
     else if t = ''evaluation'' then [rowOf [(''id'', Some (SUuid 2)), (''rule_id'', Some (SUuid 1)),
       (''started_at'', Some (STime 6)), (''ended_at'', Some (STime 7)), (''pit_per_source'', Some (SJson ''{}'')),
       (''result'', Some (SText ''FAIL'')), (''cost_units'', Some (SInt 1)), (''created_at'', Some (STime 7))]]
     else if t = ''alert'' then map (\<lambda>(i, fp). rowOf [(''id'', Some (SUuid i)), (''rule_id'', Some (SUuid 1)),
       (''fingerprint'', Some (SText fp)), (''status'', Some (SText ''OPEN'')), (''severity'', Some (SText ''high'')),
       (''first_seen_at'', Some (STime 7)), (''last_seen_at'', Some (STime 7)), (''occurrence_count'', Some (SInt 1)),
       (''last_evaluation_id'', Some (SUuid 2)), (''created_at'', Some (STime 7)), (''updated_at'', Some (STime 7))])
       [(3, ''USD''), (4, ''EUR'')]
     else []) \<rparr>"

text \<open>A database of version 7 with a rule, an evaluation and two alerts keeps both alerts.\<close>

lemma upgrades_never_fail_witness:
  "\<exists>d'. Migrate 99 7 databaseAt7 = (None, d') \<and> d_Schema d' = schemaAt 11 \<and> allFit d'
     \<and> idsIn d' ''alert'' = [Some (SUuid 3), Some (SUuid 4)]"
proof -
  have "allFit databaseAt7 \<and> hasTable ''alert'' databaseAt7" by code_simp
  moreover have "idsIn databaseAt7 ''alert'' = [Some (SUuid 3), Some (SUuid 4)]"
    by (simp add: idsIn_def databaseAt7_def rowOf_def)
  ultimately show ?thesis
    using upgrades_never_fail [of 7 databaseAt7 99] by (auto simp: databaseAt7_def)
qed

end
