(* ===== verification/WorkerLife.thy ===== *)
theory WorkerLife
  imports Worker
begin

text \<open>
  The worker as a process, \<open>internal/worker/worker.go\<close>: the goroutines that \<open>Start\<close> launches, step by
  step between each other and everything that happens elsewhere, the ticks that wake them, the
  cancellation of their context and \<open>Wait\<close>. A step is one call of the store or one wait that ends; a
  \<open>select\<close> may take any case that is ready.
\<close>

section \<open>Where a goroutine is\<close>

datatype plannerPhase = Planning planResult | PlannerWaits | PlannerEnded

datatype executorPhase = Claiming | Polling | Evaluating claimedJob "gerror option"
  | Settling evaluationJob uuid int gerror | ExecutorEnded

datatype tickerPhase = Working | Waiting | TickerEnded

text \<open>\<open>plannerLoop\<close> and \<open>plan\<close>: what may come next, with the tick that was consumed.\<close>

definition plannerMoves :: "cron_parser \<Rightarrow> bool \<Rightarrow> bool \<Rightarrow> plannerPhase \<Rightarrow> world \<Rightarrow> (plannerPhase \<times> bool \<times> world) list" where
  "plannerMoves parse stopped tick ph w =
     (case ph of
        Planning totals \<Rightarrow>
          [if stopped then (PlannerWaits, tick, w)
           else case PlanScheduledJobs parse catchUpWindow maxCatchUpPerRule plannerBatchSize w of
               (Inl _, w) \<Rightarrow> (PlannerWaits, tick, w)
             | (Inr result, w) \<Rightarrow>
                 if pr_RulesScanned result < nat plannerBatchSize then (PlannerWaits, tick, w)
                 else (Planning (addPlan totals result), tick, w)]
      | PlannerWaits \<Rightarrow>
          (if stopped then [(PlannerEnded, tick, w)] else []) @ (if tick then [(Planning emptyPlan, False, w)] else [])
      | PlannerEnded \<Rightarrow> [])"

text \<open>\<open>executorLoop\<close> and \<open>process\<close>; the evaluation is one step here.\<close>

definition executorMoves :: "config \<Rightarrow> runner \<Rightarrow> bool \<Rightarrow> executorPhase \<Rightarrow> world \<Rightarrow> (executorPhase \<times> world) list" where
  "executorMoves c R stopped ph w =
     (case ph of
        Claiming \<Rightarrow>
          [if stopped then (ExecutorEnded, w)
           else case ClaimEvaluationJob (LeaseDuration c) w of
               (Inl _, w) \<Rightarrow> (Polling, w)
             | (Inr None, w) \<Rightarrow> (Polling, w)
             | (Inr (Some claimed), w) \<Rightarrow>
                 (if job_ClaimToken (cj_Job claimed) = None then Claiming else Evaluating claimed None, w)]
      | Polling \<Rightarrow> (if stopped then [(ExecutorEnded, w)] else []) @ [(Claiming, w)]
      | Evaluating claimed heartbeatErr \<Rightarrow>
          (case EvaluateScheduled R sqlStore (cj_Job claimed) w of
             ((q, attempts), w) \<Rightarrow>
               (case (heartbeatErr, q) of
                  (None, Inr _) \<Rightarrow> [(Claiming, w)]
                | (Some err, _) \<Rightarrow> [(Settling (cj_Job claimed) (the (job_ClaimToken (cj_Job claimed))) attempts err, w)]
                | (None, Inl err) \<Rightarrow> [(Settling (cj_Job claimed) (the (job_ClaimToken (cj_Job claimed))) attempts err, w)]))
      | Settling job token attempts err \<Rightarrow> [(Claiming, snd (settle stopped job token attempts err w))]
      | ExecutorEnded \<Rightarrow> [])"

text \<open>A tick of the heartbeat beside an evaluation; after an error it is over.\<close>

definition heartbeatTick :: "config \<Rightarrow> executorPhase \<Rightarrow> world \<Rightarrow> executorPhase \<times> world" where
  "heartbeatTick c ph w =
     (case ph of
        Evaluating claimed None \<Rightarrow>
          (case HeartbeatEvaluationJob (job_ID (cj_Job claimed)) (the (job_ClaimToken (cj_Job claimed))) (LeaseDuration c) w of
             (Inl err, w) \<Rightarrow> (Evaluating claimed (Some err), w)
           | (Inr _, w) \<Rightarrow> (Evaluating claimed None, w))
      | _ \<Rightarrow> (ph, w))"

definition cleanupMoves :: "config \<Rightarrow> bool \<Rightarrow> bool \<Rightarrow> tickerPhase \<Rightarrow> world \<Rightarrow> (tickerPhase \<times> bool \<times> world) list" where
  "cleanupMoves c stopped tick ph w =
     (case ph of
        Working \<Rightarrow> [(Waiting, tick, snd (cleanupTick c w))]
      | Waiting \<Rightarrow> (if stopped then [(TickerEnded, tick, w)] else []) @ (if tick then [(Working, False, w)] else [])
      | TickerEnded \<Rightarrow> [])"

definition metricsMoves :: "bool \<Rightarrow> bool \<Rightarrow> tickerPhase \<Rightarrow> world \<Rightarrow> (tickerPhase \<times> bool \<times> world) list" where
  "metricsMoves stopped tick ph w =
     (case ph of
        Working \<Rightarrow> [(Waiting, tick, snd (recordJobCounts w))]
      | Waiting \<Rightarrow> (if stopped then [(TickerEnded, tick, w)] else []) @ (if tick then [(Working, False, w)] else [])
      | TickerEnded \<Rightarrow> [])"

section \<open>The process\<close>

text \<open>\<open>wp_Live\<close> is the wait group: what \<open>Start\<close> added and the goroutines have not yet marked done.\<close>

record workerProcess =
  wp_World :: world
  wp_Stopped :: bool
  wp_Live :: int
  wp_Planner :: plannerPhase
  wp_PlannerTick :: bool
  wp_Executors :: "executorPhase list"
  wp_Cleanup :: tickerPhase
  wp_CleanupTick :: bool
  wp_Metrics :: tickerPhase
  wp_MetricsTick :: bool

definition Start :: "config \<Rightarrow> world \<Rightarrow> workerProcess" where
  "Start c w =
     \<lparr> wp_World = w, wp_Stopped = False, wp_Live = 1 + Concurrency c + 1 + 1,
       wp_Planner = Planning emptyPlan, wp_PlannerTick = False,
       wp_Executors = replicate (nat (Concurrency c)) Claiming,
       wp_Cleanup = Waiting, wp_CleanupTick = False, wp_Metrics = Working, wp_MetricsTick = False \<rparr>"

text \<open>\<open>Wait\<close>: what its \<open>select\<close> may return, with the error of its own context when that is done.\<close>

definition Wait :: "gerror option \<Rightarrow> workerProcess \<Rightarrow> gerror option list" where
  "Wait done s = (if wp_Live s = 0 then [None] else []) @ (case done of None \<Rightarrow> [] | Some err \<Rightarrow> [Some err])"

text \<open>A step is one of the worker's own, a tick, the cancellation, or something elsewhere.\<close>

datatype workerEvent = Own | Tick | Cancel | Elsewhere

definition ends :: "bool \<Rightarrow> int" where
  "ends e = (if e then 1 else 0)"

inductive workerStep :: "cron_parser \<Rightarrow> config \<Rightarrow> workerEvent \<Rightarrow> workerProcess \<Rightarrow> workerProcess \<Rightarrow> bool" for parse c where
  planner: "(ph, tick, w) \<in> set (plannerMoves parse (wp_Stopped s) (wp_PlannerTick s) (wp_Planner s) (wp_World s)) \<Longrightarrow>
    workerStep parse c Own s (s\<lparr> wp_World := w, wp_Planner := ph, wp_PlannerTick := tick,
      wp_Live := wp_Live s - ends (ph = PlannerEnded) \<rparr>)"
| executor: "k < length (wp_Executors s) \<Longrightarrow>
    (ph, w) \<in> set (executorMoves c R (wp_Stopped s) (wp_Executors s ! k) (wp_World s)) \<Longrightarrow>
    workerStep parse c Own s (s\<lparr> wp_World := w, wp_Executors := (wp_Executors s)[k := ph],
      wp_Live := wp_Live s - ends (ph = ExecutorEnded) \<rparr>)"
| cleanup: "(ph, tick, w) \<in> set (cleanupMoves c (wp_Stopped s) (wp_CleanupTick s) (wp_Cleanup s) (wp_World s)) \<Longrightarrow>
    workerStep parse c Own s (s\<lparr> wp_World := w, wp_Cleanup := ph, wp_CleanupTick := tick,
      wp_Live := wp_Live s - ends (ph = TickerEnded) \<rparr>)"
| metrics: "(ph, tick, w) \<in> set (metricsMoves (wp_Stopped s) (wp_MetricsTick s) (wp_Metrics s) (wp_World s)) \<Longrightarrow>
    workerStep parse c Own s (s\<lparr> wp_World := w, wp_Metrics := ph, wp_MetricsTick := tick,
      wp_Live := wp_Live s - ends (ph = TickerEnded) \<rparr>)"
| heartbeats: "k < length (wp_Executors s) \<Longrightarrow> heartbeatTick c (wp_Executors s ! k) (wp_World s) = (ph, w) \<Longrightarrow>
    workerStep parse c Tick s (s\<lparr> wp_World := w, wp_Executors := (wp_Executors s)[k := ph] \<rparr>)"
| ticks: "workerStep parse c Tick s (s\<lparr> wp_PlannerTick := wp_PlannerTick s \<or> p, wp_CleanupTick := wp_CleanupTick s \<or> d,
    wp_MetricsTick := wp_MetricsTick s \<or> m \<rparr>)"
| cancel: "workerStep parse c Cancel s (s\<lparr> wp_Stopped := True \<rparr>)"
| elsewhere: "workerStep parse c Elsewhere s (s\<lparr> wp_World := w \<rparr>)"

text \<open>Runs are lists of events.\<close>

fun workerRun :: "cron_parser \<Rightarrow> config \<Rightarrow> workerEvent list \<Rightarrow> workerProcess \<Rightarrow> workerProcess \<Rightarrow> bool" where
  "workerRun parse c [] s s' \<longleftrightarrow> s' = s"
| "workerRun parse c (e # es) s s' \<longleftrightarrow> (\<exists>s1. workerStep parse c e s s1 \<and> workerRun parse c es s1 s')"

text \<open>An executor's steps from a claim to its settlement, without ticks between, are a turn of the loop.\<close>

lemma turn_by_steps:
  assumes "ClaimEvaluationJob (LeaseDuration c) w = (Inr (Some claimed), w1)"
    and "job_ClaimToken (cj_Job claimed) = Some token"
    and "EvaluateScheduled R sqlStore (cj_Job claimed) w1 = ((q, attempts), w2)"
  shows "executorMoves c R stopped (Evaluating claimed heartbeatErr) w1 =
      [case (heartbeatErr, q) of (None, Inr _) \<Rightarrow> (Claiming, w2)
       | (Some err, _) \<Rightarrow> (Settling (cj_Job claimed) token attempts err, w2)
       | (None, Inl err) \<Rightarrow> (Settling (cj_Job claimed) token attempts err, w2)]
    \<and> executorTurn c R stopped heartbeatErr w =
      (case (heartbeatErr, q) of (None, Inr _) \<Rightarrow> w2
       | (Some err, _) \<Rightarrow> snd (settle stopped (cj_Job claimed) token attempts err w2)
       | (None, Inl err) \<Rightarrow> snd (settle stopped (cj_Job claimed) token attempts err w2))"
  using assms by (cases heartbeatErr; cases q) (auto simp: executorMoves_def executorTurn_def process_def Let_def)

section \<open>The wait group\<close>

definition liveTicker :: "tickerPhase \<Rightarrow> int" where
  "liveTicker ph = (if ph = TickerEnded then 0 else 1)"

definition livePlanner :: "plannerPhase \<Rightarrow> int" where
  "livePlanner ph = (if ph = PlannerEnded then 0 else 1)"

definition liveExecutor :: "executorPhase \<Rightarrow> int" where
  "liveExecutor ph = (if ph = ExecutorEnded then 0 else 1)"

definition alive :: "workerProcess \<Rightarrow> int" where
  "alive s = livePlanner (wp_Planner s) + sum_list (map liveExecutor (wp_Executors s))
     + liveTicker (wp_Cleanup s) + liveTicker (wp_Metrics s)"

lemma sum_list_update_int:
  assumes "k < length xs"
  shows "sum_list (map f (xs[k := v])) = sum_list (map f xs) - f (xs ! k) + (f v :: int)"
proof -
  have "sum_list (map f xs) = sum_list (map f (take k xs)) + f (xs ! k) + sum_list (map f (drop (Suc k) xs))"
    using assms by (subst id_take_nth_drop [of k xs]) simp_all
  then show ?thesis using assms by (simp add: upd_conv_take_nth_drop)
qed

text \<open>A goroutine that has ended moves no more, and once the context is done every move is progress.\<close>

definition tickWeight :: "bool \<Rightarrow> nat" where
  "tickWeight tick = (if tick then 2 else 0)"

definition plannerWeight :: "plannerPhase \<Rightarrow> nat" where
  "plannerWeight ph = (case ph of Planning _ \<Rightarrow> 2 | PlannerWaits \<Rightarrow> 1 | PlannerEnded \<Rightarrow> 0)"

definition executorWeight :: "executorPhase \<Rightarrow> nat" where
  "executorWeight ph = (case ph of Evaluating _ _ \<Rightarrow> 4 | Settling _ _ _ _ \<Rightarrow> 3 | Polling \<Rightarrow> 2 | Claiming \<Rightarrow> 1 | ExecutorEnded \<Rightarrow> 0)"

definition tickerWeight :: "tickerPhase \<Rightarrow> nat" where
  "tickerWeight ph = (case ph of Working \<Rightarrow> 2 | Waiting \<Rightarrow> 1 | TickerEnded \<Rightarrow> 0)"

lemmas weights = tickWeight_def plannerWeight_def executorWeight_def tickerWeight_def

lemma planner_move:
  assumes "(ph', tick', w') \<in> set (plannerMoves parse stopped tick ph w)"
  shows "ph \<noteq> PlannerEnded \<and> (stopped \<longrightarrow> plannerWeight ph' + tickWeight tick' < plannerWeight ph + tickWeight tick)"
  using assms by (cases ph) (auto simp: plannerMoves_def weights split: if_splits prod.splits sum.splits)

lemma executor_move:
  assumes "(ph', w') \<in> set (executorMoves c R stopped ph w)"
  shows "ph \<noteq> ExecutorEnded \<and> (stopped \<longrightarrow> executorWeight ph' < executorWeight ph)"
proof (cases ph)
  case (Evaluating claimed heartbeatErr)
  obtain q attempts w1 where "EvaluateScheduled R sqlStore (cj_Job claimed) w = ((q, attempts), w1)"
    by (metis prod.exhaust)
  then show ?thesis using assms
    by (cases heartbeatErr; cases q) (auto simp: Evaluating executorMoves_def weights)
qed (use assms in \<open>auto simp: executorMoves_def weights split: if_splits prod.splits sum.splits option.splits\<close>)

lemma cleanup_move:
  assumes "(ph', tick', w') \<in> set (cleanupMoves c stopped tick ph w)"
  shows "ph \<noteq> TickerEnded \<and> (stopped \<longrightarrow> tickerWeight ph' + tickWeight tick' < tickerWeight ph + tickWeight tick)"
  using assms by (cases ph) (auto simp: cleanupMoves_def weights split: if_splits)

lemma metrics_move:
  assumes "(ph', tick', w') \<in> set (metricsMoves stopped tick ph w)"
  shows "ph \<noteq> TickerEnded \<and> (stopped \<longrightarrow> tickerWeight ph' + tickWeight tick' < tickerWeight ph + tickWeight tick)"
  using assms by (cases ph) (auto simp: metricsMoves_def weights split: if_splits)

lemma heartbeat_move:
  assumes "heartbeatTick c ph w = (ph', w')"
  shows "executorWeight ph' = executorWeight ph \<and> (ph' = ExecutorEnded \<longleftrightarrow> ph = ExecutorEnded)"
  using assms by (auto simp: heartbeatTick_def weights split: executorPhase.splits option.splits prod.splits sum.splits)

text \<open>Every goroutine is counted until it ends.\<close>

definition counted :: "workerProcess \<Rightarrow> bool" where
  "counted s \<longleftrightarrow> wp_Live s = alive s"

lemma Start_counted: "0 \<le> Concurrency c \<Longrightarrow> counted (Start c w)"
  by (simp add: counted_def Start_def alive_def livePlanner_def liveTicker_def liveExecutor_def sum_list_replicate)

lemmas live_defs = livePlanner_def liveTicker_def liveExecutor_def ends_def

lemma step_counted:
  assumes "workerStep parse c e s s'" and "counted s"
  shows "counted s'"
  using assms
proof cases
  case (planner ph tick w)
  then show ?thesis using assms(2) planner_move [OF planner(3)] by (auto simp: counted_def alive_def live_defs)
next
  case (executor k ph w R)
  then show ?thesis using assms(2) executor_move [OF executor(4)]
    by (auto simp: counted_def alive_def live_defs sum_list_update_int)
next
  case (cleanup ph tick w)
  then show ?thesis using assms(2) cleanup_move [OF cleanup(3)] by (auto simp: counted_def alive_def live_defs)
next
  case (metrics ph tick w)
  then show ?thesis using assms(2) metrics_move [OF metrics(3)] by (auto simp: counted_def alive_def live_defs)
next
  case (heartbeats k ph w)
  then show ?thesis using assms(2) heartbeat_move [OF heartbeats(4)]
    by (auto simp: counted_def alive_def live_defs sum_list_update_int)
qed (simp_all add: counted_def alive_def)

lemma run_counted: "workerRun parse c es s s' \<Longrightarrow> counted s \<Longrightarrow> counted s'"
  by (induction es arbitrary: s) (auto dest: step_counted)

lemma liveExecutor_cases: "0 \<le> liveExecutor ph" "liveExecutor ph = 0 \<longleftrightarrow> ph = ExecutorEnded"
  by (simp_all add: liveExecutor_def)

definition ended :: "workerProcess \<Rightarrow> bool" where
  "ended s \<longleftrightarrow> wp_Planner s = PlannerEnded \<and> list_all (\<lambda>ph. ph = ExecutorEnded) (wp_Executors s)
     \<and> wp_Cleanup s = TickerEnded \<and> wp_Metrics s = TickerEnded"

lemma alive_zero: "alive s = 0 \<longleftrightarrow> ended s"
proof -
  have nonneg: "0 \<le> sum_list (map liveExecutor xs)" for xs
    by (induction xs) (simp_all add: liveExecutor_cases add_nonneg_nonneg)
  have "sum_list (map liveExecutor xs) = 0 \<longleftrightarrow> list_all (\<lambda>ph. ph = ExecutorEnded) xs" for xs
  proof (induction xs)
    case (Cons ph xs)
    then show ?case using nonneg [of xs] liveExecutor_cases [of ph] by (simp add: add_nonneg_eq_0_iff)
  qed simp
  then show ?thesis using nonneg [of "wp_Executors s"]
    by (auto simp: alive_def ended_def livePlanner_def liveTicker_def)
qed

section \<open>Shutdown\<close>

definition weight :: "workerProcess \<Rightarrow> nat" where
  "weight s = plannerWeight (wp_Planner s) + tickWeight (wp_PlannerTick s) + sum_list (map executorWeight (wp_Executors s))
     + tickerWeight (wp_Cleanup s) + tickWeight (wp_CleanupTick s) + tickerWeight (wp_Metrics s) + tickWeight (wp_MetricsTick s)"

lemma sum_list_update_nat:
  assumes "k < length xs"
  shows "sum_list (map f (xs[k := v])) + f (xs ! k) = sum_list (map f xs) + (f v :: nat)"
proof -
  have "sum_list (map f xs) = sum_list (map f (take k xs)) + f (xs ! k) + sum_list (map f (drop (Suc k) xs))"
    using assms by (subst id_take_nth_drop [of k xs]) simp_all
  then show ?thesis using assms by (simp add: upd_conv_take_nth_drop)
qed

lemma step_weight:
  assumes "workerStep parse c e s s'" and "wp_Stopped s"
  shows "wp_Stopped s' \<and> length (wp_Executors s') = length (wp_Executors s) \<and>
    weight s' + (if e = Own then 1 else 0) \<le> weight s + (if e = Tick then 6 else 0)"
  using assms(1)
proof cases
  case (planner ph tick w)
  then show ?thesis using assms(2) planner_move [OF planner(3)] by (auto simp: weight_def)
next
  case (executor k ph w R)
  then show ?thesis using assms(2) executor_move [OF executor(4)]
      sum_list_update_nat [OF executor(3), of executorWeight ph] by (auto simp: weight_def)
next
  case (cleanup ph tick w)
  then show ?thesis using assms(2) cleanup_move [OF cleanup(3)] by (auto simp: weight_def)
next
  case (metrics ph tick w)
  then show ?thesis using assms(2) metrics_move [OF metrics(3)] by (auto simp: weight_def)
next
  case (heartbeats k ph w)
  then show ?thesis using assms(2) heartbeat_move [OF heartbeats(4)]
      sum_list_update_nat [OF heartbeats(3), of executorWeight ph] by (auto simp: weight_def)
next
  case (ticks p d m)
  then show ?thesis using assms(2) by (auto simp: weight_def tickWeight_def)
qed (use assms(2) in \<open>auto simp: weight_def\<close>)

definition count_of :: "workerEvent \<Rightarrow> workerEvent list \<Rightarrow> nat" where
  "count_of e es = length (filter (\<lambda>x. x = e) es)"

lemma run_weight:
  "workerRun parse c es s s' \<Longrightarrow> wp_Stopped s \<Longrightarrow>
    wp_Stopped s' \<and> weight s' + count_of Own es \<le> weight s + 6 * count_of Tick es"
proof (induction es arbitrary: s)
  case (Cons e es)
  then obtain s1 where step: "workerStep parse c e s s1" and rest: "workerRun parse c es s1 s'" by auto
  show ?case using step_weight [OF step Cons.prems(2)] Cons.IH [OF rest] by (auto simp: count_of_def split: if_splits)
qed (simp add: count_of_def)

lemma run_executors: "workerRun parse c es s s' \<Longrightarrow> length (wp_Executors s') = length (wp_Executors s)"
proof (induction es arbitrary: s)
  case (Cons e es)
  then obtain s1 where "workerStep parse c e s s1" and rest: "workerRun parse c es s1 s'" by auto
  then have "length (wp_Executors s1) = length (wp_Executors s)" by cases auto
  then show ?case using Cons.IH [OF rest] by simp
qed simp

lemma weight_bound: "weight s \<le> 4 * length (wp_Executors s) + 12"
proof -
  have "executorWeight ph \<le> 4" for ph by (cases ph) (simp_all add: executorWeight_def)
  then have executors: "sum_list (map executorWeight xs) \<le> 4 * length xs" for xs
    by (induction xs) (simp_all add: add_mono)
  have planner: "plannerWeight ph \<le> 2" for ph by (cases ph) (simp_all add: plannerWeight_def)
  have ticker: "tickerWeight ph \<le> 2" for ph by (cases ph) (simp_all add: tickerWeight_def)
  have tick: "tickWeight t \<le> 2" for t by (simp add: tickWeight_def)
  show ?thesis
    using executors [of "wp_Executors s"] planner [of "wp_Planner s"] ticker [of "wp_Cleanup s"] ticker [of "wp_Metrics s"]
      tick [of "wp_PlannerTick s"] tick [of "wp_CleanupTick s"] tick [of "wp_MetricsTick s"]
    unfolding weight_def by linarith
qed

lemma some_move: "xs \<noteq> [] \<Longrightarrow> \<exists>m. m \<in> set xs"
  by (cases xs) auto

text \<open>Once its context is done, whatever has not ended can move.\<close>

lemma step_ready:
  assumes "wp_Stopped s" and "\<not> ended s"
  shows "\<exists>s'. workerStep parse c Own s s'"
proof -
  consider "wp_Planner s \<noteq> PlannerEnded" | "\<exists>ph\<in>set (wp_Executors s). ph \<noteq> ExecutorEnded"
    | "wp_Cleanup s \<noteq> TickerEnded" | "wp_Metrics s \<noteq> TickerEnded"
    using assms(2) by (auto simp: ended_def list_all_iff)
  then show ?thesis
  proof cases
    case 1
    then have "plannerMoves parse True (wp_PlannerTick s) (wp_Planner s) (wp_World s) \<noteq> []"
      by (cases "wp_Planner s") (simp_all add: plannerMoves_def)
    then obtain ph tick w where "(ph, tick, w) \<in> set (plannerMoves parse True (wp_PlannerTick s) (wp_Planner s) (wp_World s))"
      using some_move by (metis prod.exhaust)
    then have "(ph, tick, w) \<in> set (plannerMoves parse (wp_Stopped s) (wp_PlannerTick s) (wp_Planner s) (wp_World s))" using assms(1) by simp
    then show ?thesis by (blast intro: workerStep.planner)
  next
    case 2
    then obtain k where k: "k < length (wp_Executors s)" "wp_Executors s ! k \<noteq> ExecutorEnded"
      by (auto simp: in_set_conv_nth)
    have "executorMoves c R True (wp_Executors s ! k) (wp_World s) \<noteq> []" for R
      using k(2) by (cases "wp_Executors s ! k") (auto simp: executorMoves_def split: prod.split sum.split option.split)
    then obtain ph w where "(ph, w) \<in> set (executorMoves c undefined True (wp_Executors s ! k) (wp_World s))"
      using some_move by (metis prod.exhaust)
    then have "(ph, w) \<in> set (executorMoves c undefined (wp_Stopped s) (wp_Executors s ! k) (wp_World s))" using assms(1) by simp
    then show ?thesis using k(1) by (blast intro: workerStep.executor)
  next
    case 3
    then have "cleanupMoves c True (wp_CleanupTick s) (wp_Cleanup s) (wp_World s) \<noteq> []"
      by (cases "wp_Cleanup s") (simp_all add: cleanupMoves_def)
    then obtain ph tick w where "(ph, tick, w) \<in> set (cleanupMoves c True (wp_CleanupTick s) (wp_Cleanup s) (wp_World s))"
      using some_move by (metis prod.exhaust)
    then have "(ph, tick, w) \<in> set (cleanupMoves c (wp_Stopped s) (wp_CleanupTick s) (wp_Cleanup s) (wp_World s))" using assms(1) by simp
    then show ?thesis by (blast intro: workerStep.cleanup)
  next
    case 4
    then have "metricsMoves True (wp_MetricsTick s) (wp_Metrics s) (wp_World s) \<noteq> []"
      by (cases "wp_Metrics s") (simp_all add: metricsMoves_def)
    then obtain ph tick w where "(ph, tick, w) \<in> set (metricsMoves True (wp_MetricsTick s) (wp_Metrics s) (wp_World s))"
      using some_move by (metis prod.exhaust)
    then have "(ph, tick, w) \<in> set (metricsMoves (wp_Stopped s) (wp_MetricsTick s) (wp_Metrics s) (wp_World s))" using assms(1) by simp
    then show ?thesis by (blast intro: workerStep.metrics)
  qed
qed

lemma ended_still: "ended s \<Longrightarrow> \<not> workerStep parse c Own s s'"
proof
  assume e: "ended s" and "workerStep parse c Own s s'"
  from this(2) show False
    by cases (use e in \<open>auto simp: ended_def list_all_length plannerMoves_def executorMoves_def cleanupMoves_def metricsMoves_def\<close>)
qed

text \<open>
  C40. A worker shuts down. Once its context is cancelled, in whatever state any run from its start has
  left it, the goroutines take a bounded number of steps, four for each executor and twelve for the
  rest, and six more for every later instant at which tickers fire; as long as one of them has not
  ended, the worker can take another; and \<open>Wait\<close> can return without an error exactly when all of them
  have ended, so that no evaluation or settlement of this worker is still under way.
\<close>

theorem shutdown_drains:
  assumes "0 < Concurrency c" and "workerRun parse c before (Start c w) s" and "wp_Stopped s"
    and "workerRun parse c after s s'"
  shows "count_of Own after \<le> 4 * nat (Concurrency c) + 12 + 6 * count_of Tick after
    \<and> ((\<exists>s''. workerStep parse c Own s' s'') \<longleftrightarrow> \<not> ended s')
    \<and> (None \<in> set (Wait done s') \<longleftrightarrow> ended s')"
proof -
  have n: "length (wp_Executors s) = nat (Concurrency c)"
    using run_executors [OF assms(2)] by (simp add: Start_def)
  have "counted s'"
    using run_counted [OF assms(4) run_counted [OF assms(2) Start_counted]] assms(1) by simp
  then have "None \<in> set (Wait done s') \<longleftrightarrow> ended s'"
    by (auto simp: Wait_def counted_def alive_zero split: option.splits)
  moreover have "(\<exists>s''. workerStep parse c Own s' s'') \<longleftrightarrow> \<not> ended s'"
    using run_weight [OF assms(4,3)] step_ready ended_still by blast
  ultimately show ?thesis
    using run_weight [OF assms(4,3)] weight_bound [of s] n by auto
qed

text \<open>The worker's own steps lead to the end.\<close>

lemma drains:
  assumes "wp_Stopped s"
  shows "\<exists>es s'. (\<forall>e\<in>set es. e = Own) \<and> workerRun parse c es s s' \<and> ended s'"
  using assms
proof (induction s rule: measure_induct_rule [of weight])
  case (less s)
  show ?case
  proof (cases "ended s")
    case True
    then have "workerRun parse c [] s s \<and> ended s" by simp
    then show ?thesis by (metis empty_iff empty_set)
  next
    case False
    then obtain s1 where step: "workerStep parse c Own s s1" using step_ready [OF less.prems] by blast
    then have "weight s1 < weight s" "wp_Stopped s1" using step_weight [OF step less.prems] by simp_all
    then obtain es s' where "\<forall>e\<in>set es. e = Own" "workerRun parse c es s1 s'" "ended s'" using less.IH by blast
    then have "(\<forall>e\<in>set (Own # es). e = Own) \<and> workerRun parse c (Own # es) s s' \<and> ended s'" using step by auto
    then show ?thesis by blast
  qed
qed

definition twoExecutors :: config where
  "twoExecutors = zeroConfig\<lparr> Concurrency := 2 \<rparr>"

text \<open>A worker cancelled as soon as it has started is waited for within twenty steps.\<close>

lemma shutdown_drains_witness:
  "\<exists>after s'. workerRun offTen twoExecutors after ((Start twoExecutors emptyWorld)\<lparr> wp_Stopped := True \<rparr>) s'
     \<and> count_of Own after \<le> 20 \<and> None \<in> set (Wait None s')"
proof -
  let ?s = "(Start twoExecutors emptyWorld)\<lparr> wp_Stopped := True \<rparr>"
  have start: "workerRun offTen twoExecutors [Cancel] (Start twoExecutors emptyWorld) ?s"
    by (simp add: workerStep.cancel)
  obtain es s' where es: "\<forall>e\<in>set es. e = Own" and run: "workerRun offTen twoExecutors es ?s s'" and e: "ended s'"
    using drains [of ?s offTen twoExecutors] by auto
  have "count_of Tick es = 0" using es by (auto simp: count_of_def filter_empty_conv)
  then show ?thesis
    using shutdown_drains [OF _ start _ run, of None] run e by (auto simp: twoExecutors_def)
qed

end
