(* ===== verification/Spec2Isabelle.thy ===== *)
theory Spec2Isabelle
  imports Drift Invariant Threshold SourceParity Worker SdkResolvers AlertEvents ScheduleText Policies RuleClients HttpContract System SchemaRows SchemaUpgrade WorkerLife
begin

text \<open>
  The reconciliation service of Formance, the Go program under \<open>src/internal\<close>: rules compare the
  balances of ledgers and payment pools, and a difference raises an alert.

  The program. A rule names a template, the template's JSON spec, a severity, a period and possibly a
  cron schedule. An evaluation of the rule, asked for over HTTP or due by its schedule, takes the lock
  of the rule, reads the sources through the Formance SDK, lets the kernel (the engine, on top of
  cel-go) decide one expression per asset or account, and commits the evaluation with what it does to
  the alerts: a failing fingerprint opens an alert or counts again, a passing one resolves it. Every
  change of an alert is a row in an append-only log, and the rows that notify become messages on a bus
  once the unit of work has committed. Scheduled evaluations go through a durable queue: the planner
  turns due occurrences into jobs, executors claim a job under a lease and a token, renew the lease
  while they evaluate, and complete, release, retry, cancel or fail it. The legacy policies and their
  reconciliations live beside the rules.

  How it is modelled. Each theory opens with what it holds; definitions carry the names of the Go
  functions, and the operations are composed as the code composes them. An operation on the database
  is an \<open>act\<close>, a function from a \<open>world\<close> (the tables as lists of records, the clock, the source of
  identifiers, the locks, the buffer of events and what was published) to a result, \<open>Inl\<close> an error or
  \<open>Inr\<close> a value, and the world after it. A statement may fail at any point: \<open>w_fault\<close> says which ones
  do, so that every theorem about an operation is about all its error paths. Errors keep their chain of
  sentinels, which \<open>errors_Is\<close> searches.
\<close>

text \<open>
  The theories, from the bottom.

  \<^item> \<open>Prelude\<close>, \<open>GoTime\<close>, \<open>Json\<close>, \<open>TimeText\<close>, \<open>DurationText\<close>, \<open>JsonText\<close>: what the program uses of Go and
    its standard library: error chains, decimal texts, 64-bit integers as words, the calendar,
    \<open>encoding/json\<close>, \<open>time.Format\<close>, \<open>time.Parse\<close>, \<open>Duration.String\<close> and \<open>ParseDuration\<close>.
  \<^item> \<open>Models\<close>, \<open>ScheduleText\<close> (\<open>models\<close>): the records, period ids, the next occurrence of a schedule and
    its JSON form with its round trip.
  \<^item> \<open>Builtins\<close>, \<open>Engine\<close> (\<open>engine\<close>): values, budget, resolvers, every builtin with its errors, and
    compilation and evaluation of a batch. \<open>SdkResolvers\<close>: the resolvers backed by the SDK.
  \<^item> \<open>TemplateBase\<close>, \<open>Snapshot\<close>, \<open>Drift\<close>, \<open>Invariant\<close>, \<open>Threshold\<close>, \<open>SourceParity\<close>, \<open>Registry\<close>
    (\<open>templates\<close>): sources, keys and fingerprints, the expressions sent to the kernel and what they
    evaluate to, the four templates, and the locale of the \<open>Evaluator\<close> contract, interpreted on each.
  \<^item> \<open>Db\<close>, \<open>RuleStore\<close>, \<open>JobStore\<close>, \<open>AlertStore\<close>, \<open>Queries\<close>, \<open>RuleLock\<close> and the first part of
    \<open>Policies\<close> (\<open>storage\<close>): transactions and publication, every statement on rules, evaluations, jobs,
    alerts, events, policies and reconciliations, the filters of the lists, and the advisory lock.
  \<^item> \<open>Schema\<close>, \<open>SchemaRows\<close>, \<open>SchemaUpgrade\<close> (\<open>storage/migrations\<close>): the migrations as data, what
    PostgreSQL makes of them, and the records of the model as rows.
  \<^item> \<open>AlertLifecycle\<close>, \<open>JobLifecycle\<close>, \<open>JobQueue\<close>: what the stores promise, as abstract steps and
    invariants. \<open>Statements\<close>, \<open>Frames\<close>: what the operations leave alone, in locales that these and later
    theories interpret.
  \<^item> \<open>Runner\<close>, \<open>AlertContract\<close>, \<open>EvaluationRun\<close>, \<open>System\<close> (\<open>reconciliation/runner.go\<close>): the run of an
    evaluation over the locale of the alert methods it needs, that contract interpreted on the SQL
    store, what a run leaves behind, and any number of runs interleaved step by step with everything
    else.
  \<^item> \<open>Planner\<close>, \<open>Worker\<close>, \<open>WorkerLife\<close> (\<open>worker\<close>): the planning round, one turn of an executor with its
    settlement, the heartbeat, and the goroutines from \<open>Start\<close> to \<open>Wait\<close>.
  \<^item> \<open>AlertEvents\<close> (\<open>events\<close>): names, envelopes and keys of the messages.
  \<^item> \<open>RuleService\<close>, \<open>RuleClients\<close>, \<open>AlertService\<close> and the last part of \<open>Policies\<close> (\<open>api/service\<close>), \<open>Http\<close>,
    \<open>HttpContract\<close> (\<open>api\<close>): the operations of the service, concurrent clients of the rules, every
    handler from the bytes of a request to its response, and what a client can rely on.
\<close>

text \<open>
  What is shown. Templates: the verdict per asset or account is the arithmetic one over the balances
  read, and the kernel's checked arithmetic agrees or overflows as an error. Storage: a unit of work
  publishes exactly when it commits; each alert operation is one step of an abstract lifecycle whose
  log replays to the row; jobs and revisions only move forward until a rule is deleted with its jobs, a
  claim is exclusive and fenced, and the planner creates exactly the newest due occurrences that have no
  job yet. Each notified event is at most one publish attempt, under a key that makes replays harmless.
  Evaluations: a run commits whole or changes nothing, the evaluations of a rule never overlap, no job
  was evaluated twice and one that succeeded was evaluated, under any interleaving. Rules: whatever clients and planners do at once, each stored rule was
  validated as a whole. Schema: what it asks of rows is what the model maintains, and no upgrade fails
  on the rows of the version before. Worker: planning rounds end when every schedule fires again, also
  beside other planners and with a clock that advances up to some bound, and do not when a full batch of
  schedules never fires; a claim ends settled, heartbeats keep it, and a cancelled worker ends. API: errors change
  nothing, with one exception stated there, pages are bounded, and manual evaluations read the past.

  Bounds and fuel. The JSON decoder recurses on fuel of twice the length of its input and two more, and
  every value it reads takes at least one character, so it never runs out. Pages hold at most
  \<open>MaxPageSize\<close>, a hundred, rows. The steps of a run are at most five, so that \<open>drive\<close> with six is all of
  it. A planning round and an account listing may not return: they are partial functions, not returning
  is \<open>None\<close>, and when they return is proved. An occurrence loop of a schedule that never advances is
  the error \<open>diverges\<close>. \<open>time.Time\<close> is an integer count of nanoseconds with zero the zero time; big
  integers are \<open>int\<close>, 64-bit ones words where they can wrap. Counters of occurrences are \<open>int\<close>.
\<close>

text \<open>
  Assumed of code outside the repository, as parameters with named hypotheses: cel-go evaluates a
  rendered snapshot expression as its tree says; the cron parser; the SDK client; the text of a
  duration's fraction times its unit (a float product); \<open>uuid\<close> texts read back; PostgreSQL's \<open>jsonb\<close>
  normal form, its row locks (a unit of work is one step beside others), advisory locks and its \<open>now()\<close>
  constant in a transaction; the message bus, which may lose, repeat and reorder what it was handed; the query language, cursors and pagination of go-libs, and
  its migrator, which runs what follows the recorded version. Texts are valid UTF-8 written in ASCII;
  the texts of errors are abbreviated; instants are not rounded to microseconds when stored, except
  intervals; the depth limit of JSON is left out; a map whose order Go randomises is a list whose order
  is left open. A template's evaluation takes two ticks of the clock. The kernel's builtins run against
  resolvers that are functions of the query, and the race of the two reads of a legacy reconciliation
  is a parameter.

  Not modelled: the generated mocks (\<open>api/backend\<close>), the commands (\<open>cmd\<close>), the dependency injection,
  the HTTP middleware and health routers, logging, tracing and metric instruments, the pooling of
  connections, and the bodies of the two trigger functions of the migrations, of which one only
  touches \<open>updated_at\<close>, which the statements set in the model, and the other guards a table that a
  later migration drops. \<open>IsUpToDate\<close> asks go-libs alone. Log lines and metrics do not change what any
  modelled part does.
\<close>

end
